(* ===== verification/Efi_Prelude.thy ===== *)
theory Efi_Prelude
  imports Main "HOL-Library.Word"
begin

unbundle bit_operations_syntax

text \<open>
  The vocabulary every component of the development shares.

  \<^item> \<open>efi_status\<close>: the UEFI status codes, and \<open>EFI_ERROR\<close>, the test the code makes on them.
  \<^item> \<open>fault\<close> and \<open>'a result\<close>: what the C code does when it leaves its contract (a failed
    \<open>ASSERT\<close>, a write outside an array, a read of freed memory, a second \<open>FreePool\<close>).
    Every operation that dereferences a pointer returns a \<open>'a result\<close>.
  \<^item> \<open>int32\<close>, \<open>uintn\<close>: the C casts to \<open>INT32\<close> and \<open>UINTN\<close> on unbounded integers; the
    wrap-around is written at the places where the source has the cast.
  \<^item> \<open>mfold\<close>: the bounded \<open>for\<close> loop whose body can fault.
  \<^item> \<open>pool\<close>: the UEFI pool (\<open>AllocatePool\<close>, \<open>FreePool\<close>) as a store of blocks, with the
    interface the clients use stated as the locale \<open>block_pool\<close>.

  \<open>CopyMem\<close>, \<open>ZeroMem\<close>, \<open>AllocatePool\<close>, \<open>FreePool\<close>, the \<open>LIST_ENTRY\<close> operations and
  \<open>EfiAcquireLock\<close> are the C runtime of this code base (MdePkg) and are modelled by their
  documented effect; services that reach firmware or another driver are arguments.
\<close>

named_theorems casts \<open>C integer casts that are the identity in range\<close>
named_theorems res_simps \<open>rewriting the result monad\<close>

section \<open>Status codes\<close>

datatype efi_status =
    EFI_SUCCESS | EFI_LOAD_ERROR | EFI_INVALID_PARAMETER | EFI_UNSUPPORTED
  | EFI_BAD_BUFFER_SIZE | EFI_BUFFER_TOO_SMALL | EFI_NOT_READY | EFI_DEVICE_ERROR
  | EFI_WRITE_PROTECTED | EFI_OUT_OF_RESOURCES | EFI_VOLUME_CORRUPTED | EFI_VOLUME_FULL
  | EFI_NO_MEDIA | EFI_MEDIA_CHANGED | EFI_NOT_FOUND | EFI_ACCESS_DENIED
  | EFI_NO_MAPPING | EFI_NOT_STARTED | EFI_ALREADY_STARTED
  | EFI_OTHER_ERROR nat | EFI_WARNING nat

fun EFI_ERROR :: "efi_status \<Rightarrow> bool" where
  "EFI_ERROR EFI_SUCCESS = False"
| "EFI_ERROR (EFI_WARNING _) = False"
| "EFI_ERROR _ = True"

section \<open>Faults and results\<close>

datatype fault = AssertFailed | OutOfBounds | UseAfterFree | DoubleFree | NullDeref | DivideError

type_synonym 'a result = "fault + 'a"

definition rbind :: "'a result \<Rightarrow> ('a \<Rightarrow> 'b result) \<Rightarrow> 'b result" where
  "rbind m f = (case m of Inl e \<Rightarrow> Inl e | Inr x \<Rightarrow> f x)"

definition rassert :: "bool \<Rightarrow> fault \<Rightarrow> unit result" where
  "rassert b e = (if b then Inr () else Inl e)"

lemma rbind_Inr [simp, res_simps]: "rbind (Inr x) f = f x"
  by (simp add: rbind_def)

lemma rbind_Inl [simp, res_simps]: "rbind (Inl e) f = Inl e"
  by (simp add: rbind_def)

lemma rbind_assoc: "rbind (rbind m f) g = rbind m (\<lambda>x. rbind (f x) g)"
  by (cases m) simp_all

lemma rbind_eq_Inr: "rbind m f = Inr y \<longleftrightarrow> (\<exists>x. m = Inr x \<and> f x = Inr y)"
  by (cases m) simp_all

lemma rbind_eq_Inl: "rbind m f = Inl e \<longleftrightarrow> m = Inl e \<or> (\<exists>x. m = Inr x \<and> f x = Inl e)"
  by (cases m) simp_all

lemma rassert_True [simp, res_simps]: "rassert True e = Inr ()"
  by (simp add: rassert_def)

lemma rassert_eq_Inr: "rassert b e = Inr u \<longleftrightarrow> b"
  by (simp add: rassert_def)

section \<open>C integers\<close>

text \<open>
  \<open>UINTN\<close> is 64 bits wide (the X64 build), \<open>INT32\<close> is the width of the cursor and mode
  fields of the text output protocol.
\<close>

definition int32 :: "int \<Rightarrow> int" where
  "int32 x = signed_take_bit 31 x"

definition uintn :: "int \<Rightarrow> int" where
  "uintn x = take_bit 64 x"

lemma int32_id [casts]: "- (2 ^ 31) \<le> x \<Longrightarrow> x < 2 ^ 31 \<Longrightarrow> int32 x = x"
  by (simp add: int32_def signed_take_bit_int_eq_self_iff)

lemma uintn_id [casts]: "0 \<le> x \<Longrightarrow> x < 2 ^ 64 \<Longrightarrow> uintn x = x"
  by (simp add: uintn_def take_bit_int_eq_self_iff)

lemma uintn_range: "0 \<le> uintn x" "uintn x < 2 ^ 64"
  using take_bit_int_less_exp [of 64 x] by (simp_all add: uintn_def)

section \<open>Bounded loops\<close>

primrec mfold :: "('i \<Rightarrow> 's \<Rightarrow> 's result) \<Rightarrow> 'i list \<Rightarrow> 's \<Rightarrow> 's result" where
  "mfold f [] s = Inr s"
| "mfold f (i # is) s = rbind (f i s) (mfold f is)"

lemma mfold_append: "mfold f (xs @ ys) s = rbind (mfold f xs s) (mfold f ys)"
  by (induction xs arbitrary: s) (auto simp: rbind_def split: sum.splits)

lemma mfold_cong:
  "(\<And>i s. i \<in> set is \<Longrightarrow> f i s = g i s) \<Longrightarrow> mfold f is s = mfold g is s"
  by (induction "is" arbitrary: s) (auto simp: rbind_def split: sum.splits)

text \<open>A loop whose body always succeeds and computes \<open>g\<close> is the fold of \<open>g\<close>.\<close>

lemma mfold_total:
  assumes "I s"
    and "\<And>i s. i \<in> set is \<Longrightarrow> I s \<Longrightarrow> f i s = Inr (g i s) \<and> I (g i s)"
  shows "mfold f is s = Inr (fold g is s) \<and> I (fold g is s)"
  using assms by (induction "is" arbitrary: s) simp_all

section \<open>The pool\<close>

text \<open>
  Addresses are handed out in order and never reused, so a stale pointer stays
  recognisable. Whether the \<open>n\<close>-th allocation succeeds is the firmware's choice
  (\<open>avail n\<close>); a fresh block holds whatever the memory held before (\<open>junk\<close>).
\<close>

type_synonym addr = nat

record 'c pool =
  heap :: "addr \<Rightarrow> 'c list option"
  nxt :: addr
  avail :: "addr \<Rightarrow> bool"
  junk :: "addr \<Rightarrow> nat \<Rightarrow> 'c"

definition AllocatePool :: "nat \<Rightarrow> 'c pool \<Rightarrow> addr option \<times> 'c pool" where
  "AllocatePool n p =
     (if avail p (nxt p)
      then (Some (nxt p),
            p\<lparr>heap := (heap p)(nxt p := Some (map (junk p (nxt p)) [0..<n])), nxt := Suc (nxt p)\<rparr>)
      else (None, p\<lparr>nxt := Suc (nxt p)\<rparr>))"

text \<open>
  An allocation of which only the address matters (a list node, a pointer array): the same
  decision of the firmware, no block of elements.
\<close>

definition pool_reserve :: "'c pool \<Rightarrow> addr option \<times> 'c pool" where
  "pool_reserve p = (if avail p (nxt p) then Some (nxt p) else None, p\<lparr>nxt := Suc (nxt p)\<rparr>)"

definition FreePool :: "addr \<Rightarrow> 'c pool \<Rightarrow> 'c pool result" where
  "FreePool a p = (case heap p a of None \<Rightarrow> Inl DoubleFree
     | Some _ \<Rightarrow> Inr (p\<lparr>heap := (heap p)(a := None)\<rparr>))"

definition pool_read :: "addr \<Rightarrow> 'c pool \<Rightarrow> 'c list result" where
  "pool_read a p = (case heap p a of None \<Rightarrow> Inl UseAfterFree | Some xs \<Rightarrow> Inr xs)"

definition pool_update :: "addr \<Rightarrow> ('c list \<Rightarrow> 'c list result) \<Rightarrow> 'c pool \<Rightarrow> 'c pool result" where
  "pool_update a f p =
     rbind (pool_read a p) (\<lambda>xs. rbind (f xs) (\<lambda>ys. Inr (p\<lparr>heap := (heap p)(a := Some ys)\<rparr>)))"

text \<open>\<open>CopyMem (dst, src, n * sizeof)\<close>, \<open>ZeroMem\<close> and a store to one element of a block.\<close>

definition CopyMem :: "addr \<Rightarrow> addr \<Rightarrow> nat \<Rightarrow> 'c pool \<Rightarrow> 'c pool result" where
  "CopyMem dst src n p =
     rbind (pool_read src p) (\<lambda>xs.
       pool_update dst (\<lambda>ys. if n \<le> length xs \<and> n \<le> length ys
                             then Inr (take n xs @ drop n ys) else Inl OutOfBounds) p)"

definition SetElems :: "addr \<Rightarrow> 'c \<Rightarrow> nat \<Rightarrow> 'c pool \<Rightarrow> 'c pool result" where
  "SetElems a z n p =
     pool_update a (\<lambda>ys. if n \<le> length ys then Inr (replicate n z @ drop n ys)
                         else Inl OutOfBounds) p"

definition StoreElem :: "addr \<Rightarrow> nat \<Rightarrow> 'c \<Rightarrow> 'c pool \<Rightarrow> 'c pool result" where
  "StoreElem a i c p =
     pool_update a (\<lambda>ys. if i < length ys then Inr (ys[i := c]) else Inl OutOfBounds) p"

lemmas pool_defs = pool_read_def pool_update_def CopyMem_def SetElems_def StoreElem_def

text \<open>
  A table of rows: \<open>rs\<close> are the row addresses, \<open>h\<close> the store. \<open>valid_rows\<close> says that every
  row is allocated with \<open>n\<close> elements, \<open>rows_of\<close> reads the table.
\<close>

definition valid_rows :: "(addr \<Rightarrow> 'c list option) \<Rightarrow> nat \<Rightarrow> addr list \<Rightarrow> bool" where
  "valid_rows h n rs \<longleftrightarrow> distinct rs \<and> list_all (\<lambda>r. \<exists>xs. h r = Some xs \<and> length xs = n) rs"

definition rows_of :: "(addr \<Rightarrow> 'c list option) \<Rightarrow> addr list \<Rightarrow> 'c list list" where
  "rows_of h rs = map (\<lambda>r. the (h r)) rs"

lemma length_rows_of [simp]: "length (rows_of h rs) = length rs"
  by (simp add: rows_of_def)

lemma nth_rows_of [simp]: "i < length rs \<Longrightarrow> rows_of h rs ! i = the (h (rs ! i))"
  by (simp add: rows_of_def)

lemma valid_rowsD:
  assumes "valid_rows h n rs" and "i < length rs"
  shows "h (rs ! i) = Some (rows_of h rs ! i)" and "length (rows_of h rs ! i) = n"
  using assms by (auto simp: valid_rows_def list_all_length)

lemma valid_rows_distinct: "valid_rows h n rs \<Longrightarrow> distinct rs"
  by (simp add: valid_rows_def)

lemma shift_step:
  assumes "Suc k < length R"
  shows "(take k (tl R) @ drop k R)[k := (take k (tl R) @ drop k R) ! Suc k]
       = take (Suc k) (tl R) @ drop (Suc k) R"
proof -
  from assms have len: "length (take k (tl R)) = k" by simp
  have d: "drop k R = R ! k # drop (Suc k) R" using assms by (simp add: Cons_nth_drop_Suc)
  have t: "take (Suc k) (tl R) = take k (tl R) @ [R ! Suc k]"
    using assms by (simp add: take_Suc_conv_app_nth nth_tl)
  show ?thesis using len assms by (simp add: d t nth_append list_update_append)
qed

lemma shift_last:
  assumes "Suc n = length R"
  shows "(take n (tl R) @ drop n R)[n := z] = tl R @ [z]"
proof -
  have "drop n R = R ! n # drop (Suc n) R" using assms by (intro Cons_nth_drop_Suc [symmetric]) simp
  then have "drop n R = [R ! n]" using assms by simp
  moreover have "take n (tl R) = tl R" "length (tl R) = n" using assms by simp_all
  ultimately show ?thesis by (simp add: list_update_append)
qed

lemma clone_step:
  assumes "0 < k" and "k < length R"
  shows "(replicate k z @ drop k R)[k := (replicate k z @ drop k R) ! 0]
       = replicate (Suc k) z @ drop (Suc k) R"
proof -
  have d: "drop k R = R ! k # drop (Suc k) R" using assms by (simp add: Cons_nth_drop_Suc)
  show ?thesis using assms
    by (simp add: d nth_append list_update_append replicate_app_Cons_same)
qed

text \<open>Updating one row of the table is updating one element of what it reads.\<close>

lemma rows_of_upd:
  assumes "distinct rs" and "i < length rs"
  shows "rows_of (h(rs ! i \<mapsto> xs)) rs = (rows_of h rs)[i := xs]"
  using assms by (intro nth_equalityI) (auto simp: nth_list_update nth_eq_iff_index_eq)

lemma valid_rows_upd:
  assumes "valid_rows h n rs" and "length xs = n"
  shows "valid_rows (h(r \<mapsto> xs)) n rs"
  using assms by (auto simp: valid_rows_def list_all_iff)

lemma rows_of_other: "r \<notin> set rs \<Longrightarrow> rows_of (h(r := v)) rs = rows_of h rs"
  by (auto simp: rows_of_def)

lemma valid_rows_other: "r \<notin> set rs \<Longrightarrow> valid_rows h n rs \<Longrightarrow> valid_rows (h(r := v)) n rs"
  by (auto simp: valid_rows_def list_all_iff)

subsection \<open>The interface of the pool\<close>

text \<open>
  What a client that keeps a table of equally long rows relies on: copying a whole row and
  filling a whole row succeed on allocated rows and change that row only. The two loops the
  console runs over its rows (scrolling up by one and cloning the first row) are verified
  once, against this interface.
\<close>

locale block_pool =
  fixes blk :: "'p \<Rightarrow> addr \<Rightarrow> 'c list option"
    and frame :: "'p \<Rightarrow> 'f"
    and copy :: "addr \<Rightarrow> addr \<Rightarrow> nat \<Rightarrow> 'p \<Rightarrow> 'p result"
    and fill :: "addr \<Rightarrow> 'c \<Rightarrow> nat \<Rightarrow> 'p \<Rightarrow> 'p result"
  assumes copy_row: "\<lbrakk>blk p s = Some xs; blk p d = Some ys; length xs = n; length ys = n\<rbrakk>
      \<Longrightarrow> \<exists>p'. copy d s n p = Inr p' \<and> blk p' = (blk p)(d \<mapsto> xs) \<and> frame p' = frame p"
    and fill_row: "\<lbrakk>blk p d = Some ys; length ys = n\<rbrakk>
      \<Longrightarrow> \<exists>p'. fill d z n p = Inr p' \<and> blk p' = (blk p)(d \<mapsto> replicate n z) \<and> frame p' = frame p"
begin

lemma copy_table_row:
  assumes "valid_rows (blk p) n rs" and "i < length rs" and "j < length rs"
  obtains p' where "copy (rs ! i) (rs ! j) n p = Inr p'"
    and "blk p' = (blk p)(rs ! i \<mapsto> rows_of (blk p) rs ! j)"
    and "rows_of (blk p') rs = (rows_of (blk p) rs)[i := rows_of (blk p) rs ! j]"
    and "valid_rows (blk p') n rs" and "frame p' = frame p"
proof -
  note vi = valid_rowsD [OF assms(1,2)] and vj = valid_rowsD [OF assms(1,3)]
  from copy_row [OF vj(1) vi(1) vj(2) vi(2)] obtain p' where p':
    "copy (rs ! i) (rs ! j) n p = Inr p'"
    "blk p' = (blk p)(rs ! i \<mapsto> rows_of (blk p) rs ! j)" "frame p' = frame p"
    by blast
  moreover have "rows_of (blk p') rs = (rows_of (blk p) rs)[i := rows_of (blk p) rs ! j]"
    unfolding p'(2) by (rule rows_of_upd [OF valid_rows_distinct [OF assms(1)] assms(2)])
  moreover have "valid_rows (blk p') n rs"
    unfolding p'(2) by (rule valid_rows_upd [OF assms(1) vj(2)])
  ultimately show thesis using that by blast
qed

text \<open>Copying row \<open>i + 1\<close> to row \<open>i\<close> for all \<open>i < k\<close> shifts the first rows up.\<close>

lemma scroll_up:
  assumes "valid_rows (blk p) n rs" and "k < length rs"
  shows "\<exists>p'. mfold (\<lambda>i. copy (rs ! i) (rs ! Suc i) n) [0..<k] p = Inr p'
     \<and> rows_of (blk p') rs = take k (tl (rows_of (blk p) rs)) @ drop k (rows_of (blk p) rs)
     \<and> valid_rows (blk p') n rs \<and> (\<forall>a. a \<notin> set rs \<longrightarrow> blk p' a = blk p a) \<and> frame p' = frame p"
  using assms(2)
proof (induction k)
  case 0
  with assms(1) show ?case by simp
next
  case (Suc k)
  let ?R = "rows_of (blk p) rs"
  from Suc obtain q where q: "mfold (\<lambda>i. copy (rs ! i) (rs ! Suc i) n) [0..<k] p = Inr q"
      "rows_of (blk q) rs = take k (tl ?R) @ drop k ?R" "valid_rows (blk q) n rs"
      "\<forall>a. a \<notin> set rs \<longrightarrow> blk q a = blk p a" "frame q = frame p"
    by auto
  from Suc.prems have k: "k < length rs" "Suc k < length rs" by simp_all
  from copy_table_row [OF q(3) k] obtain p' where p': "copy (rs ! k) (rs ! Suc k) n q = Inr p'"
      "blk p' = (blk q)(rs ! k \<mapsto> rows_of (blk q) rs ! Suc k)"
      "rows_of (blk p') rs = (rows_of (blk q) rs)[k := rows_of (blk q) rs ! Suc k]"
      "valid_rows (blk p') n rs" "frame p' = frame q"
    by blast
  have "rows_of (blk p') rs = take (Suc k) (tl ?R) @ drop (Suc k) ?R"
    unfolding p'(3) q(2) using k by (intro shift_step) simp
  moreover have "a \<notin> set rs \<Longrightarrow> blk p' a = blk p a" for a
    using q(4) k by (auto simp: p'(2))
  ultimately show ?case
    using q(1,5) p'(1,4,5) by (simp add: mfold_append)
qed

text \<open>Copying row \<open>0\<close> to the rows \<open>1 ..< k\<close> makes them all equal to it.\<close>

lemma clone_first:
  assumes "valid_rows (blk p) n rs" and "0 < k" and "k \<le> length rs"
  shows "\<exists>p'. mfold (\<lambda>i. copy (rs ! i) (rs ! 0) n) [1..<k] p = Inr p'
     \<and> rows_of (blk p') rs = replicate k (hd (rows_of (blk p) rs)) @ drop k (rows_of (blk p) rs)
     \<and> valid_rows (blk p') n rs \<and> (\<forall>a. a \<notin> set rs \<longrightarrow> blk p' a = blk p a) \<and> frame p' = frame p"
  using assms(2,3)
proof (induction k)
  case 0
  then show ?case by simp
next
  case (Suc k)
  let ?R = "rows_of (blk p) rs"
  from Suc.prems have ne: "k < length rs" "0 < length rs" by auto
  then have nonempty: "?R \<noteq> []" by (auto simp: rows_of_def)
  show ?case
  proof (cases "k = 0")
    case True
    with assms(1) nonempty show ?thesis by (cases ?R) simp_all
  next
    case False
    with Suc obtain q where q: "mfold (\<lambda>i. copy (rs ! i) (rs ! 0) n) [1..<k] p = Inr q"
        "rows_of (blk q) rs = replicate k (hd ?R) @ drop k ?R" "valid_rows (blk q) n rs"
        "\<forall>a. a \<notin> set rs \<longrightarrow> blk q a = blk p a" "frame q = frame p"
      by auto
    from copy_table_row [OF q(3) ne] obtain p' where p': "copy (rs ! k) (rs ! 0) n q = Inr p'"
        "blk p' = (blk q)(rs ! k \<mapsto> rows_of (blk q) rs ! 0)"
        "rows_of (blk p') rs = (rows_of (blk q) rs)[k := rows_of (blk q) rs ! 0]"
        "valid_rows (blk p') n rs" "frame p' = frame q"
      by blast
    have "rows_of (blk p') rs = replicate (Suc k) (hd ?R) @ drop (Suc k) ?R"
      unfolding p'(3) q(2) using ne False by (intro clone_step) simp_all
    moreover have "a \<notin> set rs \<Longrightarrow> blk p' a = blk p a" for a
      using q(4) ne by (auto simp: p'(2))
    ultimately show ?thesis
      using q(1,5) p'(1,4,5) False by (simp add: mfold_append)
  qed
qed

end

text \<open>The pool provides the interface; its frame is the allocator's bookkeeping.\<close>

interpretation efi_pool: block_pool heap "\<lambda>p. (nxt p, avail p, junk p)" CopyMem SetElems
  by unfold_locales (auto simp: pool_defs)

end
