(* ===== verification/Console_Dev.thy ===== *)
theory Console_Dev
  imports Efi_Prelude
begin

unbundle bit_operations_syntax

text \<open>
  The private data of the virtual console driver (\<open>VirtualConsoleDxe/VirtualConsole.h\<close>) and
  the primitive accesses the driver makes to it. \<open>EFI_SIMPLE_TEXT_OUTPUT_MODE\<close> is embedded in
  the device by value and \<open>This->Mode\<close> always points at it, so the device record extends it.
  The rows of the screen live in the pool: \<open>ScreenBuffer\<close> is the array of row pointers and
  a line of the history is the pointer the driver stored, which is what makes aliasing
  between the two visible.
\<close>

type_synonym wchar = "16 word"
type_synonym wstr = "wchar list"

record VIRTUAL_CONSOLE_CHAR =
  ch_Char :: wchar
  ch_Attribute :: "64 word"

record VIRTUAL_CONSOLE_MODE_DATA =
  Columns :: int
  Rows :: int

record EFI_SIMPLE_TEXT_OUTPUT_MODE =
  MaxMode :: int
  Mode :: int
  Attribute :: "32 word"
  CursorColumn :: int
  CursorRow :: int
  CursorVisible :: bool

record EFI_KEY_DATA =
  ScanCode :: "16 word"
  UnicodeChar :: wchar
  KeyShiftState :: "32 word"
  KeyToggleState :: "8 word"

record VIRTUAL_CONSOLE_KEY_NOTIFY =
  kn_KeyData :: EFI_KEY_DATA
  kn_Callback :: nat

record VIRTUAL_CONSOLE_DEV = EFI_SIMPLE_TEXT_OUTPUT_MODE +
  Handle :: "nat option"
  WaitForKey :: "nat option"
  WaitForKeyEx :: "nat option"
  SimpleTextOutputModeData :: "VIRTUAL_CONSOLE_MODE_DATA list option"
  TxtOutLock :: bool
  ScreenHistory :: "addr list"
  ScreenBuffer :: "addr list option"
  TxtInLock :: bool
  KeyQueue :: "EFI_KEY_DATA list"
  KeyNotifyList :: "(addr \<times> VIRTUAL_CONSOLE_KEY_NOTIFY) list"
  DevKeyToggleState :: "8 word"
  Pool :: "VIRTUAL_CONSOLE_CHAR pool"

text \<open>Characters and attributes of the UEFI text protocols that the driver tests for.\<close>

definition CHAR_NULL :: wchar where "CHAR_NULL = 0"
definition CHAR_BACKSPACE :: wchar where "CHAR_BACKSPACE = 8"
definition CHAR_TAB :: wchar where "CHAR_TAB = 9"
definition CHAR_LINEFEED :: wchar where "CHAR_LINEFEED = 10"
definition CHAR_CARRIAGE_RETURN :: wchar where "CHAR_CARRIAGE_RETURN = 13"
definition WIDE_CHAR :: wchar where "WIDE_CHAR = 0xFFF1"
definition NARROW_CHAR :: wchar where "NARROW_CHAR = 0xFFF0"
definition EFI_WIDE_ATTRIBUTE :: "32 word" where "EFI_WIDE_ATTRIBUTE = 0x80"

lemmas char_defs = CHAR_NULL_def CHAR_BACKSPACE_def CHAR_TAB_def CHAR_LINEFEED_def
  CHAR_CARRIAGE_RETURN_def WIDE_CHAR_def NARROW_CHAR_def

text \<open>
  A \<open>CHAR16 *\<close> string is the list of its characters; the terminator is what is read at the
  end of the list, and a zero inside the list ends the string as well.
\<close>

definition ws_end :: "wstr \<Rightarrow> bool" where
  "ws_end ws \<longleftrightarrow> (case ws of [] \<Rightarrow> True | c # _ \<Rightarrow> c = CHAR_NULL)"

definition blank_char :: VIRTUAL_CONSOLE_CHAR where
  "blank_char = \<lparr>ch_Char = 0, ch_Attribute = 0\<rparr>"

text \<open>\<open>EfiAcquireLock\<close> asserts that the lock is free, \<open>EfiReleaseLock\<close> that it is held.\<close>

definition acquire_out :: "VIRTUAL_CONSOLE_DEV \<Rightarrow> VIRTUAL_CONSOLE_DEV result" where
  "acquire_out d = (if TxtOutLock d then Inl AssertFailed else Inr (d\<lparr>TxtOutLock := True\<rparr>))"

definition release_out :: "VIRTUAL_CONSOLE_DEV \<Rightarrow> VIRTUAL_CONSOLE_DEV result" where
  "release_out d = (if TxtOutLock d then Inr (d\<lparr>TxtOutLock := False\<rparr>) else Inl AssertFailed)"

definition acquire_in :: "VIRTUAL_CONSOLE_DEV \<Rightarrow> VIRTUAL_CONSOLE_DEV result" where
  "acquire_in d = (if TxtInLock d then Inl AssertFailed else Inr (d\<lparr>TxtInLock := True\<rparr>))"

definition release_in :: "VIRTUAL_CONSOLE_DEV \<Rightarrow> VIRTUAL_CONSOLE_DEV result" where
  "release_in d = (if TxtInLock d then Inr (d\<lparr>TxtInLock := False\<rparr>) else Inl AssertFailed)"

lemmas lock_defs = acquire_out_def release_out_def acquire_in_def release_in_def

definition with_pool ::
  "(VIRTUAL_CONSOLE_CHAR pool \<Rightarrow> VIRTUAL_CONSOLE_CHAR pool result)
    \<Rightarrow> VIRTUAL_CONSOLE_DEV \<Rightarrow> VIRTUAL_CONSOLE_DEV result" where
  "with_pool f d = rbind (f (Pool d)) (\<lambda>p. Inr (d\<lparr>Pool := p\<rparr>))"

text \<open>\<open>Private->ScreenBuffer[i]\<close> and \<open>Private->SimpleTextOutputModeData[i]\<close>.\<close>

definition sb_row :: "VIRTUAL_CONSOLE_DEV \<Rightarrow> int \<Rightarrow> addr result" where
  "sb_row d i = (case ScreenBuffer d of None \<Rightarrow> Inl NullDeref
     | Some rs \<Rightarrow> if 0 \<le> i \<and> nat i < length rs then Inr (rs ! nat i) else Inl OutOfBounds)"

definition mode_data :: "VIRTUAL_CONSOLE_DEV \<Rightarrow> int \<Rightarrow> VIRTUAL_CONSOLE_MODE_DATA result" where
  "mode_data d i = (case SimpleTextOutputModeData d of None \<Rightarrow> Inl NullDeref
     | Some ms \<Rightarrow> if 0 \<le> i \<and> nat i < length ms then Inr (ms ! nat i) else Inl OutOfBounds)"

text \<open>\<open>ScreenBuffer[r][c] = cell\<close>, and the store to the \<open>Char\<close> member only.\<close>

definition store_cell ::
  "int \<Rightarrow> int \<Rightarrow> VIRTUAL_CONSOLE_CHAR \<Rightarrow> VIRTUAL_CONSOLE_DEV \<Rightarrow> VIRTUAL_CONSOLE_DEV result" where
  "store_cell r c x d =
     rbind (sb_row d r) (\<lambda>a.
       if c < 0 then Inl OutOfBounds else with_pool (StoreElem a (nat c) x) d)"

definition store_char ::
  "int \<Rightarrow> int \<Rightarrow> wchar \<Rightarrow> VIRTUAL_CONSOLE_DEV \<Rightarrow> VIRTUAL_CONSOLE_DEV result" where
  "store_char r c x d =
     rbind (sb_row d r) (\<lambda>a.
       if c < 0 then Inl OutOfBounds
       else with_pool (pool_update a (\<lambda>ys. if nat c < length ys
              then Inr (ys[nat c := (ys ! nat c)\<lparr>ch_Char := x\<rparr>]) else Inl OutOfBounds)) d)"

end
