(* ===== verification/Con_Out.thy ===== *)
theory Con_Out
  imports Console_Dev
begin

unbundle bit_operations_syntax

text \<open>
  \<open>VirtualConsoleDxe/VirtualConOut.c\<close>: the text output protocol of the virtual console and the
  two screen operations of its own protocol, one definition per C function, in the order of
  the file. Every definition returns the status and the new device, or the fault the C code
  would run into. \<open>OutputString\<close> may not return (see \<open>Con_Out_Props\<close>), so it is a
  \<^theory_text>\<open>partial_function (option)\<close>: \<open>None\<close> is a loop that never ends.
\<close>

definition mCrLfString :: wstr where
  "mCrLfString = [CHAR_CARRIAGE_RETURN, CHAR_LINEFEED]"

definition VirtualConsoleClearHistory :: "VIRTUAL_CONSOLE_DEV \<Rightarrow> VIRTUAL_CONSOLE_DEV result" where
  "VirtualConsoleClearHistory d =
     rbind (mfold (\<lambda>l. with_pool (FreePool l)) (ScreenHistory d) d)
       (\<lambda>d. Inr (d\<lparr>ScreenHistory := []\<rparr>))"

text \<open>
  \<open>Screen\<close> is always \<open>Private->ScreenBuffer\<close>. The counts are \<open>UINTN\<close>, the loops run over
  \<open>0 ..< Columns\<close> and \<open>1 ..< Rows\<close>.
\<close>

definition VirtualConsoleClearScreen ::
  "int \<Rightarrow> int \<Rightarrow> 64 word \<Rightarrow> VIRTUAL_CONSOLE_DEV \<Rightarrow> VIRTUAL_CONSOLE_DEV result" where
  "VirtualConsoleClearScreen columns rows attr d =
     rbind (mfold (\<lambda>i. store_cell 0 (int i) \<lparr>ch_Char = CHAR_NULL, ch_Attribute = attr\<rparr>)
              [0..<nat columns] d)
       (mfold (\<lambda>i d. rbind (sb_row d (int i)) (\<lambda>dst. rbind (sb_row d 0) (\<lambda>src.
                 with_pool (CopyMem dst src (nat columns)) d))) [1..<nat rows])"

subsection \<open>OutputString\<close>

definition is_ctrl :: "wchar \<Rightarrow> bool" where
  "is_ctrl c \<longleftrightarrow> c = CHAR_NULL \<or> c = CHAR_BACKSPACE \<or> c = CHAR_LINEFEED
     \<or> c = CHAR_CARRIAGE_RETURN \<or> c = WIDE_CHAR \<or> c = NARROW_CHAR"

definition wide_on :: "VIRTUAL_CONSOLE_DEV \<Rightarrow> bool" where
  "wide_on d \<longleftrightarrow> Attribute d AND EFI_WIDE_ATTRIBUTE \<noteq> 0"

text \<open>
  The \<open>for\<close> loop that prints as many characters as fit: it returns \<open>WString + Count\<close>, the
  number of columns used (\<open>Index\<close>) and the device.
\<close>

fun print_run ::
  "int \<Rightarrow> wstr \<Rightarrow> int \<Rightarrow> VIRTUAL_CONSOLE_DEV \<Rightarrow> (wstr \<times> int \<times> VIRTUAL_CONSOLE_DEV) result" where
  "print_run maxcol [] idx d = Inr ([], idx, d)"
| "print_run maxcol (c # cs) idx d =
     (if \<not> uintn (CursorColumn d + idx) < maxcol then Inr (c # cs, idx, d)
      else if is_ctrl c then Inr (c # cs, idx, d)
      else if wide_on d then
        if uintn (CursorColumn d + idx + 2) > maxcol then Inr (c # cs, uintn (idx + 2), d)
        else rbind (store_cell (CursorRow d) (uintn (CursorColumn d + idx))
                      \<lparr>ch_Char = c, ch_Attribute = scast (Attribute d)\<rparr> d)
               (print_run maxcol cs (uintn (idx + 2)))
      else rbind (store_cell (CursorRow d) (uintn (CursorColumn d + idx))
                    \<lparr>ch_Char = c, ch_Attribute = scast (Attribute d)\<rparr> d)
             (print_run maxcol cs (uintn (idx + 1))))"

definition scroll_screen :: "int \<Rightarrow> VIRTUAL_CONSOLE_DEV \<Rightarrow> VIRTUAL_CONSOLE_DEV result" where
  "scroll_screen maxcol d =
     (case pool_reserve (Pool d) of
        (None, p) \<Rightarrow> Inl AssertFailed
      | (Some _, p) \<Rightarrow>
          rbind (sb_row (d\<lparr>Pool := p\<rparr>) 0) (\<lambda>top.
          rbind (mfold (\<lambda>i d. rbind (sb_row d (int i)) (\<lambda>dst. rbind (sb_row d (int i + 1)) (\<lambda>src.
                   with_pool (CopyMem dst src (nat maxcol)) d)))
                   [0..<nat (uintn (CursorRow d))]
                   (d\<lparr>ScreenHistory := ScreenHistory d @ [top], Pool := p\<rparr>)) (\<lambda>d.
          rbind (sb_row d (CursorRow d)) (\<lambda>last.
            with_pool (SetElems last blank_char (nat maxcol)) d))))"

text \<open>
  One round of the \<open>while\<close> loop, up to the test for the end of the line: what is left of the
  string, whether the printing branch ended at or past the right edge, and the device.
\<close>

definition OutputString_char ::
  "int \<Rightarrow> int \<Rightarrow> wstr \<Rightarrow> VIRTUAL_CONSOLE_DEV \<Rightarrow> (wstr \<times> bool \<times> VIRTUAL_CONSOLE_DEV) result" where
  "OutputString_char maxcol maxrow ws d =
     (let c = hd ws in
      if c = CHAR_BACKSPACE then
        let d1 = (if CursorColumn d = 0 \<and> CursorRow d > 0
                  then d\<lparr>CursorRow := CursorRow d - 1,
                         CursorColumn := int32 (uintn (maxcol - 1))\<rparr>
                  else if CursorColumn d > 0 then d\<lparr>CursorColumn := CursorColumn d - 1\<rparr>
                  else d)
        in rbind (store_char (CursorRow d1) (CursorColumn d1) CHAR_NULL d1)
             (\<lambda>d2. Inr (tl ws, False, d2))
      else if c = CHAR_LINEFEED then
        if CursorRow d = int32 (uintn (maxrow - 1))
        then rbind (scroll_screen maxcol d) (\<lambda>d. Inr (tl ws, False, d))
        else Inr (tl ws, False, d\<lparr>CursorRow := int32 (CursorRow d + 1)\<rparr>)
      else if c = CHAR_CARRIAGE_RETURN then Inr (tl ws, False, d\<lparr>CursorColumn := 0\<rparr>)
      else if c = WIDE_CHAR then
        Inr (tl ws, False, d\<lparr>Attribute := Attribute d OR EFI_WIDE_ATTRIBUTE\<rparr>)
      else if c = NARROW_CHAR then
        Inr (tl ws, False, d\<lparr>Attribute := Attribute d AND NOT EFI_WIDE_ATTRIBUTE\<rparr>)
      else
        rbind (print_run maxcol ws 0 d) (\<lambda>(ws', idx, d1).
          let d2 = d1\<lparr>CursorColumn := int32 (CursorColumn d1 + int32 idx)\<rparr>
          in Inr (ws', CursorColumn d2 \<ge> int32 maxcol, d2)))"

text \<open>
  The whole function. \<open>Enter\<close> is a call (mode check, lock, loop, restore the attribute,
  unlock); \<open>Loop\<close> is the \<open>while\<close> loop with the two locals it keeps. At the right edge the
  loop drops the lock, calls the function again with \<open>mCrLfString\<close> and takes the lock back.
\<close>

datatype out_phase = Enter | Loop int int

partial_function (option) OutputString_run ::
  "out_phase \<Rightarrow> wstr \<Rightarrow> VIRTUAL_CONSOLE_DEV \<Rightarrow> (efi_status \<times> VIRTUAL_CONSOLE_DEV) result option" where
  "OutputString_run ph ws d =
     (case ph of
        Enter \<Rightarrow>
          if Mode d = -1 then Some (Inr (EFI_UNSUPPORTED, d))
          else (case rbind (acquire_out d) (\<lambda>d1. rbind (mode_data d1 (Mode d1)) (\<lambda>m. Inr (m, d1))) of
            Inl f \<Rightarrow> Some (Inl f)
          | Inr (m, d1) \<Rightarrow>
              Option.bind (OutputString_run (Loop (Columns m) (Rows m)) ws d1) (\<lambda>r.
                Some (rbind r (\<lambda>(st, d2).
                  rbind (release_out (d2\<lparr>Attribute := Attribute d\<rparr>)) (\<lambda>d3. Inr (st, d3))))))
      | Loop maxcol maxrow \<Rightarrow>
          if ws_end ws then Some (Inr (EFI_SUCCESS, d))
          else (case OutputString_char maxcol maxrow ws d of
            Inl f \<Rightarrow> Some (Inl f)
          | Inr (ws', wraps, d1) \<Rightarrow>
              if \<not> wraps then OutputString_run (Loop maxcol maxrow) ws' d1
              else (case release_out d1 of
                Inl f \<Rightarrow> Some (Inl f)
              | Inr d2 \<Rightarrow>
                  Option.bind (OutputString_run Enter mCrLfString d2) (\<lambda>r.
                    case rbind r (\<lambda>(_, d3). acquire_out d3) of
                      Inl f \<Rightarrow> Some (Inl f)
                    | Inr d4 \<Rightarrow> OutputString_run (Loop maxcol maxrow) ws' d4))))"

definition OutputString ::
  "wstr \<Rightarrow> VIRTUAL_CONSOLE_DEV \<Rightarrow> (efi_status \<times> VIRTUAL_CONSOLE_DEV) result option" where
  "OutputString ws d = OutputString_run Enter ws d"

definition TestString :: "wstr \<Rightarrow> VIRTUAL_CONSOLE_DEV \<Rightarrow> efi_status" where
  "TestString ws d = EFI_SUCCESS"

subsection \<open>Modes, attributes and the cursor\<close>

text \<open>
  \<open>QueryMode\<close> returns the two output parameters with the status; they are left alone
  (\<open>None\<close>) when the mode is refused.
\<close>

definition QueryMode ::
  "int \<Rightarrow> VIRTUAL_CONSOLE_DEV \<Rightarrow> (efi_status \<times> (int \<times> int) option) result" where
  "QueryMode n d =
     (if n \<ge> uintn (MaxMode d) then Inr (EFI_UNSUPPORTED, None)
      else rbind (mode_data d n) (\<lambda>m.
        if Columns m \<le> 0 \<or> Rows m \<le> 0 then Inr (EFI_UNSUPPORTED, None)
        else Inr (EFI_SUCCESS, Some (Columns m, Rows m))))"

definition alloc_row ::
  "int \<Rightarrow> VIRTUAL_CONSOLE_DEV \<Rightarrow> VIRTUAL_CONSOLE_DEV result" where
  "alloc_row columns d =
     (case AllocatePool (nat columns) (Pool d) of
        (None, p) \<Rightarrow> Inl AssertFailed
      | (Some a, p) \<Rightarrow> (case ScreenBuffer d of None \<Rightarrow> Inl NullDeref
          | Some rs \<Rightarrow> Inr (d\<lparr>Pool := p, ScreenBuffer := Some (rs @ [a])\<rparr>)))"

text \<open>The body of the \<open>if\<close> of \<open>SetMode\<close> that really switches the mode.\<close>

definition switch_mode ::
  "int \<Rightarrow> VIRTUAL_CONSOLE_MODE_DATA \<Rightarrow> VIRTUAL_CONSOLE_DEV \<Rightarrow> VIRTUAL_CONSOLE_DEV result" where
  "switch_mode n newmode d =
     rbind (VirtualConsoleClearHistory d) (\<lambda>d.
     rbind (if Mode d \<noteq> -1
            then rbind (mode_data d (Mode d)) (\<lambda>oldmode.
                   rbind (mfold (\<lambda>i d. rbind (sb_row d (int i)) (\<lambda>a. with_pool (FreePool a) d))
                            [0..<nat (Rows oldmode)] d) (\<lambda>d.
                     (case ScreenBuffer d of None \<Rightarrow> Inl DoubleFree
                      | Some _ \<Rightarrow> Inr (d\<lparr>ScreenBuffer := None\<rparr>))))
            else Inr d) (\<lambda>d.
     (case pool_reserve (Pool d) of
        (None, p) \<Rightarrow> Inl AssertFailed
      | (Some _, p) \<Rightarrow>
          rbind (mfold (\<lambda>_. alloc_row (Columns newmode)) [0..<nat (Rows newmode)]
                   (d\<lparr>Pool := p, ScreenBuffer := Some []\<rparr>)) (\<lambda>d.
            Inr (d\<lparr>Mode := int32 n, CursorColumn := 0, CursorRow := 0\<rparr>)))))"

definition SetMode ::
  "int \<Rightarrow> VIRTUAL_CONSOLE_DEV \<Rightarrow> (efi_status \<times> VIRTUAL_CONSOLE_DEV) result" where
  "SetMode n d =
     (if n \<ge> uintn (MaxMode d) then Inr (EFI_UNSUPPORTED, d)
      else rbind (mode_data d n) (\<lambda>newmode.
        if Columns newmode \<le> 0 \<and> Rows newmode \<le> 0 then Inr (EFI_UNSUPPORTED, d)
        else rbind (acquire_out d) (\<lambda>d.
             rbind (if int32 n \<noteq> Mode d then switch_mode n newmode d else Inr d) (\<lambda>d.
             rbind (VirtualConsoleClearScreen (Columns newmode) (Rows newmode)
                      (scast (Attribute d)) d) (\<lambda>d.
             rbind (release_out d) (\<lambda>d. Inr (EFI_SUCCESS, d)))))))"

definition SetAttribute ::
  "64 word \<Rightarrow> VIRTUAL_CONSOLE_DEV \<Rightarrow> (efi_status \<times> VIRTUAL_CONSOLE_DEV) result" where
  "SetAttribute attr d =
     (if attr OR 0x7F \<noteq> 0x7F then Inr (EFI_UNSUPPORTED, d)
      else rbind (acquire_out d) (\<lambda>d.
           rbind (release_out (d\<lparr>Attribute := ucast attr\<rparr>)) (\<lambda>d. Inr (EFI_SUCCESS, d))))"

text \<open>\<open>EFI_TEXT_ATTR (fg, bg)\<close> is \<open>fg | (bg << 4)\<close> and the background black is 0.\<close>

definition ConOutReset ::
  "bool \<Rightarrow> VIRTUAL_CONSOLE_DEV \<Rightarrow> (efi_status \<times> VIRTUAL_CONSOLE_DEV) result" where
  "ConOutReset ext d =
     rbind (SetMode 0 d) (\<lambda>(st, d).
       if EFI_ERROR st then Inr (st, d)
       else SetAttribute (scast (Attribute d AND 0x0F) OR push_bit 4 0) d)"

definition ClearScreen ::
  "VIRTUAL_CONSOLE_DEV \<Rightarrow> (efi_status \<times> VIRTUAL_CONSOLE_DEV) result" where
  "ClearScreen d =
     (if Mode d = -1 then Inr (EFI_UNSUPPORTED, d)
      else rbind (acquire_out d) (\<lambda>d.
           rbind (mode_data d (Mode d)) (\<lambda>m.
           rbind (VirtualConsoleClearScreen (Columns m) (Rows m) (scast (Attribute d)) d) (\<lambda>d.
           rbind (release_out (d\<lparr>CursorColumn := 0, CursorRow := 0\<rparr>)) (\<lambda>d.
             Inr (EFI_SUCCESS, d))))))"

definition SetCursorPosition ::
  "int \<Rightarrow> int \<Rightarrow> VIRTUAL_CONSOLE_DEV \<Rightarrow> (efi_status \<times> VIRTUAL_CONSOLE_DEV) result" where
  "SetCursorPosition column row d =
     (if Mode d = -1 then Inr (EFI_UNSUPPORTED, d)
      else rbind (acquire_out d) (\<lambda>d.
           rbind (mode_data d (Mode d)) (\<lambda>m.
             if column \<ge> Columns m \<or> row \<ge> Rows m
             then rbind (release_out d) (\<lambda>d. Inr (EFI_UNSUPPORTED, d))
             else rbind (release_out (d\<lparr>CursorColumn := int32 column, CursorRow := int32 row\<rparr>))
                    (\<lambda>d. Inr (EFI_SUCCESS, d)))))"

definition EnableCursor ::
  "bool \<Rightarrow> VIRTUAL_CONSOLE_DEV \<Rightarrow> (efi_status \<times> VIRTUAL_CONSOLE_DEV) result" where
  "EnableCursor visible d =
     (if Mode d = -1 then Inr (EFI_UNSUPPORTED, d)
      else rbind (acquire_out d) (\<lambda>d.
           rbind (release_out (d\<lparr>CursorVisible := visible\<rparr>)) (\<lambda>d. Inr (EFI_SUCCESS, d))))"

subsection \<open>The virtual console protocol\<close>

text \<open>
  The caller's buffer is the list of its elements (\<open>None\<close> is a null pointer), the in/out
  parameter \<open>CharNum\<close> is an option for the same reason. \<open>put_line\<close> is the \<open>CopyMem\<close> of one
  row to \<open>ScreenBuffer[LineIndex * Columns]\<close>.
\<close>

definition put_line ::
  "nat \<Rightarrow> VIRTUAL_CONSOLE_DEV \<Rightarrow> addr \<Rightarrow> nat \<times> VIRTUAL_CONSOLE_CHAR list
    \<Rightarrow> (nat \<times> VIRTUAL_CONSOLE_CHAR list) result" where
  "put_line columns d a s =
     (case s of (line, buf) \<Rightarrow>
       rbind (pool_read a (Pool d)) (\<lambda>xs.
         if columns \<le> length xs \<and> line * columns + columns \<le> length buf
         then Inr (Suc line, take (line * columns) buf @ take columns xs
                             @ drop (line * columns + columns) buf)
         else Inl OutOfBounds))"

definition GetScreen ::
  "VIRTUAL_CONSOLE_CHAR list option \<Rightarrow> int option \<Rightarrow> bool \<Rightarrow> VIRTUAL_CONSOLE_DEV
    \<Rightarrow> (efi_status \<times> VIRTUAL_CONSOLE_CHAR list option \<times> int option \<times> VIRTUAL_CONSOLE_DEV) result" where
  "GetScreen buf charnum history d =
     (case charnum of
        None \<Rightarrow> Inr (EFI_INVALID_PARAMETER, buf, None, d)
      | Some n \<Rightarrow>
          rbind (QueryMode (uintn (Mode d)) d) (\<lambda>q.
          (case q of
            (st, None) \<Rightarrow> Inr (st, buf, Some n, d)
          | (st, Some (columns, rows)) \<Rightarrow>
              let histrows = (if history then int (length (ScreenHistory d)) else 0);
                  need = uintn (columns * (histrows + rows))
              in if n < need then Inr (EFI_BUFFER_TOO_SMALL, buf, Some need, d)
                 else (case buf of
                   None \<Rightarrow> Inr (EFI_INVALID_PARAMETER, None, Some n, d)
                 | Some b \<Rightarrow>
                     rbind (acquire_out d) (\<lambda>d.
                     rbind (mfold (put_line (nat columns) d)
                              (if history then ScreenHistory d else []) (0, b)) (\<lambda>s.
                     rbind (mfold (\<lambda>i s. rbind (sb_row d (int i)) (\<lambda>a. put_line (nat columns) d a s))
                              [0..<nat rows] s) (\<lambda>(_, b').
                     rbind (release_out d) (\<lambda>d.
                       Inr (EFI_SUCCESS, Some b', Some need, d)))))))))"

definition ClearHistory ::
  "VIRTUAL_CONSOLE_DEV \<Rightarrow> (efi_status \<times> VIRTUAL_CONSOLE_DEV) result" where
  "ClearHistory d =
     rbind (acquire_out d) (\<lambda>d.
     rbind (VirtualConsoleClearHistory d) (\<lambda>d.
     rbind (release_out d) (\<lambda>d. Inr (EFI_SUCCESS, d))))"

end
