(* ===== verification/Con_In.thy ===== *)
theory Con_In
  imports Con_Out
begin

text \<open>
  \<open>VirtualConsoleDxe/VirtualConIn.c\<close>: the key queue, the text input protocols on top of it and
  the key notifications. A node of the key queue is represented by the key it holds, a node
  of the notification list by its address (the handle the caller gets) and its contents. A
  pointer argument that the code compares with \<open>NULL\<close> is an option; an output argument is
  passed in with its old contents and returned with the new ones.
\<close>

section \<open>The key queue\<close>

definition IsKeyQueueEmpty :: "VIRTUAL_CONSOLE_DEV \<Rightarrow> (bool \<times> VIRTUAL_CONSOLE_DEV) result" where
  "IsKeyQueueEmpty d =
     rbind (acquire_in d) (\<lambda>d.
       let empty = (KeyQueue d = []) in rbind (release_in d) (\<lambda>d. Inr (empty, d)))"

definition EnqueKeyData ::
  "EFI_KEY_DATA option \<Rightarrow> VIRTUAL_CONSOLE_DEV \<Rightarrow> (efi_status \<times> VIRTUAL_CONSOLE_DEV) result" where
  "EnqueKeyData key d =
     (case key of None \<Rightarrow> Inl AssertFailed
      | Some k \<Rightarrow>
          (case pool_reserve (Pool d) of
             (None, p) \<Rightarrow> Inr (EFI_OUT_OF_RESOURCES, d\<lparr>Pool := p\<rparr>)
           | (Some _, p) \<Rightarrow>
               rbind (acquire_in (d\<lparr>Pool := p\<rparr>)) (\<lambda>d.
               rbind (release_in (d\<lparr>KeyQueue := KeyQueue d @ [k]\<rparr>)) (\<lambda>d.
                 Inr (EFI_SUCCESS, d)))))"

definition DequeKeyData ::
  "EFI_KEY_DATA option \<Rightarrow> VIRTUAL_CONSOLE_DEV
    \<Rightarrow> (efi_status \<times> EFI_KEY_DATA \<times> VIRTUAL_CONSOLE_DEV) result" where
  "DequeKeyData out d =
     (case out of None \<Rightarrow> Inl AssertFailed
      | Some k0 \<Rightarrow>
          rbind (IsKeyQueueEmpty d) (\<lambda>(empty, d).
            if empty then Inr (EFI_NOT_READY, k0, d)
            else rbind (acquire_in d) (\<lambda>d.
                 let k = hd (KeyQueue d) in
                 rbind (release_in (d\<lparr>KeyQueue := tl (KeyQueue d)\<rparr>)) (\<lambda>d.
                   Inr (EFI_SUCCESS, k, d)))))"

text \<open>The loop that empties the queue: it stops at the first dequeue that fails.\<close>

lemma DequeKeyData_shrinks:
  "DequeKeyData out d = Inr (st, k, d') \<Longrightarrow> \<not> EFI_ERROR st \<Longrightarrow> length (KeyQueue d') < length (KeyQueue d)"
  by (auto simp: DequeKeyData_def IsKeyQueueEmpty_def lock_defs Let_def split: option.splits if_splits)

function drain_keys ::
  "EFI_KEY_DATA \<Rightarrow> VIRTUAL_CONSOLE_DEV \<Rightarrow> (efi_status \<times> VIRTUAL_CONSOLE_DEV) result" where
  "drain_keys k d =
     (case DequeKeyData (Some k) d of
        Inl e \<Rightarrow> Inl e
      | Inr (st, k', d') \<Rightarrow> if EFI_ERROR st then Inr (st, d') else drain_keys k' d')"
  by pat_completeness auto
termination
  by (relation "measure (\<lambda>(_, d). length (KeyQueue d))") (auto dest: DequeKeyData_shrinks)

declare drain_keys.simps [simp del]

text \<open>
  \<open>ConInReset\<close>: the local \<open>KeyData\<close> is uninitialised (\<open>k0\<close>). The two progress reports go to
  the platform's status code handler and change nothing of the driver.
\<close>

definition ConInReset ::
  "EFI_KEY_DATA \<Rightarrow> bool \<Rightarrow> VIRTUAL_CONSOLE_DEV \<Rightarrow> (efi_status \<times> VIRTUAL_CONSOLE_DEV) result" where
  "ConInReset k0 ext d = drain_keys k0 d"

type_synonym EFI_INPUT_KEY = "16 word \<times> wchar"

definition ReadKeyStroke ::
  "EFI_KEY_DATA \<Rightarrow> EFI_INPUT_KEY \<Rightarrow> VIRTUAL_CONSOLE_DEV
    \<Rightarrow> (efi_status \<times> EFI_INPUT_KEY \<times> VIRTUAL_CONSOLE_DEV) result" where
  "ReadKeyStroke k0 key d =
     rbind (DequeKeyData (Some k0) d) (\<lambda>(st, k, d).
       if EFI_ERROR st then Inr (st, key, d)
       else Inr (EFI_SUCCESS, (ScanCode k, UnicodeChar k), d))"

section \<open>The extended input protocol\<close>

definition ResetEx ::
  "EFI_KEY_DATA \<Rightarrow> bool \<Rightarrow> VIRTUAL_CONSOLE_DEV \<Rightarrow> (efi_status \<times> VIRTUAL_CONSOLE_DEV) result" where
  "ResetEx k0 ext d = ConInReset k0 ext d"

definition ReadKeyStrokeEx ::
  "EFI_KEY_DATA option \<Rightarrow> VIRTUAL_CONSOLE_DEV
    \<Rightarrow> (efi_status \<times> EFI_KEY_DATA option \<times> VIRTUAL_CONSOLE_DEV) result" where
  "ReadKeyStrokeEx out d =
     (case out of None \<Rightarrow> Inr (EFI_INVALID_PARAMETER, None, d)
      | Some k0 \<Rightarrow> rbind (DequeKeyData (Some k0) d) (\<lambda>(st, k, d). Inr (st, Some k, d)))"

definition SetState ::
  "8 word option \<Rightarrow> VIRTUAL_CONSOLE_DEV \<Rightarrow> efi_status \<times> VIRTUAL_CONSOLE_DEV" where
  "SetState state d =
     (case state of None \<Rightarrow> (EFI_INVALID_PARAMETER, d)
      | Some s \<Rightarrow> (EFI_SUCCESS, d\<lparr>DevKeyToggleState := s\<rparr>))"

definition IsKeyRegistered :: "EFI_KEY_DATA \<Rightarrow> EFI_KEY_DATA \<Rightarrow> bool" where
  "IsKeyRegistered reg inp =
     (if ScanCode reg \<noteq> ScanCode inp \<or> UnicodeChar reg \<noteq> UnicodeChar inp then False
      else if KeyShiftState reg \<noteq> 0 \<and> KeyShiftState reg \<noteq> KeyShiftState inp then False
      else if KeyToggleState reg \<noteq> 0 \<and> KeyToggleState reg \<noteq> KeyToggleState inp then False
      else True)"

text \<open>
  The handle is the address of the list node; \<open>out\<close> is the caller's variable for it
  (\<open>None\<close> when the caller passed \<open>NULL\<close>).
\<close>

definition RegisterKeyNotify ::
  "EFI_KEY_DATA option \<Rightarrow> nat option \<Rightarrow> addr option option \<Rightarrow> VIRTUAL_CONSOLE_DEV
    \<Rightarrow> efi_status \<times> addr option option \<times> VIRTUAL_CONSOLE_DEV" where
  "RegisterKeyNotify key callback out d =
     (case (key, callback, out) of
        (Some k, Some cb, Some _) \<Rightarrow>
          (case find (\<lambda>(a, n). IsKeyRegistered (kn_KeyData n) k \<and> kn_Callback n = cb) (KeyNotifyList d) of
             Some (a, n) \<Rightarrow> (EFI_SUCCESS, Some (Some a), d)
           | None \<Rightarrow>
               (case pool_reserve (Pool d) of
                  (None, p) \<Rightarrow> (EFI_OUT_OF_RESOURCES, out, d\<lparr>Pool := p\<rparr>)
                | (Some a, p) \<Rightarrow>
                    (EFI_SUCCESS, Some (Some a),
                     d\<lparr>Pool := p, KeyNotifyList := KeyNotifyList d
                          @ [(a, \<lparr>kn_KeyData = k, kn_Callback = cb\<rparr>)]\<rparr>)))
      | _ \<Rightarrow> (EFI_INVALID_PARAMETER, out, d))"

fun remove_notify :: "addr \<Rightarrow> (addr \<times> 'n) list \<Rightarrow> (addr \<times> 'n) list option" where
  "remove_notify h [] = None"
| "remove_notify h ((a, n) # xs) =
     (if a = h then Some xs else map_option ((#) (a, n)) (remove_notify h xs))"

definition UnregisterKeyNotify ::
  "addr option \<Rightarrow> VIRTUAL_CONSOLE_DEV \<Rightarrow> efi_status \<times> VIRTUAL_CONSOLE_DEV" where
  "UnregisterKeyNotify handle d =
     (case handle of None \<Rightarrow> (EFI_INVALID_PARAMETER, d)
      | Some h \<Rightarrow> (case remove_notify h (KeyNotifyList d) of
          Some l \<Rightarrow> (EFI_SUCCESS, d\<lparr>KeyNotifyList := l\<rparr>)
        | None \<Rightarrow> (EFI_INVALID_PARAMETER, d)))"

text \<open>The wait event is signalled (the boolean) when a key is pending.\<close>

definition WaitForKeyCallback :: "VIRTUAL_CONSOLE_DEV \<Rightarrow> (bool \<times> VIRTUAL_CONSOLE_DEV) result" where
  "WaitForKeyCallback d = rbind (IsKeyQueueEmpty d) (\<lambda>(empty, d). Inr (\<not> empty, d))"

definition InputKey ::
  "EFI_KEY_DATA option \<Rightarrow> VIRTUAL_CONSOLE_DEV \<Rightarrow> (efi_status \<times> VIRTUAL_CONSOLE_DEV) result" where
  "InputKey key d = EnqueKeyData key d"

end
