(* ===== verification/Virtual_Console.thy ===== *)
theory Virtual_Console
  imports Con_Out Con_In
begin

text \<open>
  \<open>VirtualConsoleDxe/VirtualConsole.c\<close>: the driver's entry point, its unload function and the
  table of text modes. What the boot services and the platform's console answer is the
  argument \<open>fw\<close>.
\<close>

text \<open>
  The firmware as the driver sees it: the two \<open>CreateEvent\<close> calls, \<open>gST->ConOut\<close> (its
  \<open>MaxMode\<close>, and \<open>QueryMode\<close>, which gets the two output variables and may write them whatever
  it returns), the installation and the removal of the protocols.
\<close>

record vc_firmware =
  fw_event :: "efi_status \<times> nat"
  fw_event_ex :: "efi_status \<times> nat"
  fw_maxmode :: int
  fw_query :: "nat \<Rightarrow> VIRTUAL_CONSOLE_MODE_DATA \<Rightarrow> efi_status \<times> VIRTUAL_CONSOLE_MODE_DATA"
  fw_install :: "efi_status \<times> nat"
  fw_uninstall :: efi_status

definition mTerminalConsoleModeData :: "VIRTUAL_CONSOLE_MODE_DATA list" where
  "mTerminalConsoleModeData =
     [\<lparr>Columns = 80, Rows = 25\<rparr>, \<lparr>Columns = 80, Rows = 50\<rparr>, \<lparr>Columns = 100, Rows = 31\<rparr>]"

text \<open>The static initialiser of the device; the pool is the firmware's.\<close>

definition mVirtualConsoleDev :: "VIRTUAL_CONSOLE_CHAR pool \<Rightarrow> VIRTUAL_CONSOLE_DEV" where
  "mVirtualConsoleDev p = \<lparr>MaxMode = 1, Mode = -1, Attribute = 7, CursorColumn = 0, CursorRow = 0,
     CursorVisible = True, Handle = None, WaitForKey = None, WaitForKeyEx = None,
     SimpleTextOutputModeData = None, TxtOutLock = False, ScreenHistory = [], ScreenBuffer = None,
     TxtInLock = False, KeyQueue = [], KeyNotifyList = [], DevKeyToggleState = 0, Pool = p\<rparr>"

definition VirtualConsoleFreeNotifyList :: "VIRTUAL_CONSOLE_DEV \<Rightarrow> efi_status \<times> VIRTUAL_CONSOLE_DEV" where
  "VirtualConsoleFreeNotifyList d = (EFI_SUCCESS, d\<lparr>KeyNotifyList := []\<rparr>)"

section \<open>The text modes\<close>

text \<open>
  The first loop: the modes queried so far and the slot behind them, which a refused query may
  have written.
\<close>

definition query_mode ::
  "vc_firmware \<Rightarrow> nat \<Rightarrow> VIRTUAL_CONSOLE_MODE_DATA list \<times> VIRTUAL_CONSOLE_MODE_DATA
    \<Rightarrow> VIRTUAL_CONSOLE_MODE_DATA list \<times> VIRTUAL_CONSOLE_MODE_DATA" where
  "query_mode fw i s = (case s of (ms, slot) \<Rightarrow>
     (case fw_query fw i slot of (st, m) \<Rightarrow> if EFI_ERROR st then (ms, m) else (ms @ [m], m)))"

text \<open>
  The second loop, for \<open>Mode\<close> from the last queried mode down to the first: \<open>Index\<close> is where
  the search in the table of defaults stopped. When the mode is not in the table the loop
  copies entry \<open>Index\<close> of the table, which is the one behind its end.
\<close>

fun search_default :: "VIRTUAL_CONSOLE_MODE_DATA \<Rightarrow> VIRTUAL_CONSOLE_MODE_DATA list \<Rightarrow> nat" where
  "search_default m [] = 0"
| "search_default m (t # ts) =
     (if Columns m = Columns t \<and> Rows m = Rows t then 0 else Suc (search_default m ts))"

definition add_default ::
  "VIRTUAL_CONSOLE_MODE_DATA list \<Rightarrow> nat \<Rightarrow> VIRTUAL_CONSOLE_MODE_DATA list
    \<Rightarrow> VIRTUAL_CONSOLE_MODE_DATA list result" where
  "add_default tbl mode ms =
     (let index = search_default (ms ! mode) tbl in
      if index = length tbl
      then (if index < length tbl then Inr (ms @ [tbl ! index]) else Inl OutOfBounds)
      else Inr ms)"

definition InitializeVirtualConsoleTextMode ::
  "vc_firmware \<Rightarrow> VIRTUAL_CONSOLE_MODE_DATA \<Rightarrow> VIRTUAL_CONSOLE_CHAR pool
    \<Rightarrow> (VIRTUAL_CONSOLE_MODE_DATA list \<times> VIRTUAL_CONSOLE_CHAR pool) result" where
  "InitializeVirtualConsoleTextMode fw slot0 p =
     (case pool_reserve p of
        (None, p) \<Rightarrow> Inl AssertFailed
      | (Some _, p) \<Rightarrow>
          let queried = fst (fold (query_mode fw) [0..<nat (uintn (fw_maxmode fw))] ([], slot0))
          in rbind (mfold (add_default mTerminalConsoleModeData) (rev [0..<length queried]) queried)
               (\<lambda>ms. Inr (ms, p)))"

section \<open>Unload and entry point\<close>

text \<open>
  \<open>VirtualConsoleUnload\<close>. The rows are freed from the last to the first; the pointers to the
  freed memory stay in the device.
\<close>

definition free_screen_buffer :: "int \<Rightarrow> VIRTUAL_CONSOLE_DEV \<Rightarrow> VIRTUAL_CONSOLE_DEV result" where
  "free_screen_buffer rows d =
     (case ScreenBuffer d of None \<Rightarrow> Inl AssertFailed
      | Some _ \<Rightarrow> mfold (\<lambda>i d. rbind (sb_row d (int i)) (\<lambda>a. with_pool (FreePool a) d))
                   (rev [0..<nat rows]) d)"

definition VirtualConsoleUnload ::
  "vc_firmware \<Rightarrow> EFI_KEY_DATA \<Rightarrow> VIRTUAL_CONSOLE_DEV \<Rightarrow> (efi_status \<times> VIRTUAL_CONSOLE_DEV) result" where
  "VirtualConsoleUnload fw k0 d =
     (if Handle d \<noteq> None \<and> EFI_ERROR (fw_uninstall fw) then Inr (fw_uninstall fw, d)
      else
        rbind (drain_keys k0 d) (\<lambda>(_, d).
        let d = snd (VirtualConsoleFreeNotifyList d) in
        rbind (QueryMode (uintn (Mode d)) d) (\<lambda>(_, q).
        rbind (case q of None \<Rightarrow> Inr d | Some (columns, rows) \<Rightarrow> free_screen_buffer rows d) (\<lambda>d.
        rbind (ClearHistory d) (\<lambda>(_, d).
          Inr (EFI_SUCCESS, d))))))"

definition InitializeVirtualConsole ::
  "vc_firmware \<Rightarrow> VIRTUAL_CONSOLE_MODE_DATA \<Rightarrow> EFI_KEY_DATA \<Rightarrow> VIRTUAL_CONSOLE_DEV
    \<Rightarrow> (efi_status \<times> VIRTUAL_CONSOLE_DEV) result" where
  "InitializeVirtualConsole fw slot0 k0 d =
     (let d = d\<lparr>TxtOutLock := False, TxtInLock := False, KeyQueue := [], KeyNotifyList := [],
                ScreenHistory := []\<rparr> in
      rbind (rassert (\<not> EFI_ERROR (fst (fw_event fw))) AssertFailed) (\<lambda>_.
      let d = d\<lparr>WaitForKey := Some (snd (fw_event fw))\<rparr> in
      rbind (rassert (\<not> EFI_ERROR (fst (fw_event_ex fw))) AssertFailed) (\<lambda>_.
      let d = d\<lparr>WaitForKeyEx := Some (snd (fw_event_ex fw))\<rparr> in
      rbind (InitializeVirtualConsoleTextMode fw slot0 (Pool d)) (\<lambda>(ms, p).
      let d = d\<lparr>MaxMode := int (length ms), SimpleTextOutputModeData := Some ms, Pool := p\<rparr> in
      if EFI_ERROR (fst (fw_install fw))
      then rbind (VirtualConsoleUnload fw k0 d) (\<lambda>(_, d). Inr (fst (fw_install fw), d))
      else Inr (EFI_SUCCESS, d\<lparr>Handle := Some (snd (fw_install fw))\<rparr>)))))"

section \<open>The driver as a state machine\<close>

text \<open>The calls a client can make through the protocols the driver installs.\<close>

datatype vc_op =
    OpReset bool | OpOutput wstr | OpTest wstr | OpQuery int | OpSetMode int
  | OpSetAttribute "64 word" | OpClear | OpCursor int int | OpEnable bool
  | OpGetScreen "VIRTUAL_CONSOLE_CHAR list option" "int option" bool
  | OpInputKey EFI_KEY_DATA | OpReadKey "EFI_KEY_DATA option" | OpResetIn bool
  | OpSetState "8 word option" | OpWait
  | OpRegister "EFI_KEY_DATA option" "nat option" "addr option option" | OpUnregister "addr option"

definition vc_exec ::
  "EFI_KEY_DATA \<Rightarrow> vc_op \<Rightarrow> VIRTUAL_CONSOLE_DEV \<Rightarrow> VIRTUAL_CONSOLE_DEV result option" where
  "vc_exec k0 op d = (case op of
      OpReset ext \<Rightarrow> Some (rbind (ConOutReset ext d) (\<lambda>(_, d). Inr d))
    | OpOutput ws \<Rightarrow> map_option (\<lambda>r. rbind r (\<lambda>(_, d). Inr d)) (OutputString ws d)
    | OpTest ws \<Rightarrow> Some (Inr d)
    | OpQuery n \<Rightarrow> Some (rbind (QueryMode n d) (\<lambda>_. Inr d))
    | OpSetMode n \<Rightarrow> Some (rbind (SetMode n d) (\<lambda>(_, d). Inr d))
    | OpSetAttribute a \<Rightarrow> Some (rbind (SetAttribute a d) (\<lambda>(_, d). Inr d))
    | OpClear \<Rightarrow> Some (rbind (ClearScreen d) (\<lambda>(_, d). Inr d))
    | OpCursor c r \<Rightarrow> Some (rbind (SetCursorPosition c r d) (\<lambda>(_, d). Inr d))
    | OpEnable b \<Rightarrow> Some (rbind (EnableCursor b d) (\<lambda>(_, d). Inr d))
    | OpGetScreen b n h \<Rightarrow> Some (rbind (GetScreen b n h d) (\<lambda>(_, _, _, d). Inr d))
    | OpInputKey k \<Rightarrow> Some (rbind (InputKey (Some k) d) (\<lambda>(_, d). Inr d))
    | OpReadKey out \<Rightarrow> Some (rbind (ReadKeyStrokeEx out d) (\<lambda>(_, _, d). Inr d))
    | OpResetIn ext \<Rightarrow> Some (rbind (ResetEx k0 ext d) (\<lambda>(_, d). Inr d))
    | OpSetState s \<Rightarrow> Some (Inr (snd (SetState s d)))
    | OpWait \<Rightarrow> Some (rbind (WaitForKeyCallback d) (\<lambda>(_, d). Inr d))
    | OpRegister k cb out \<Rightarrow> Some (Inr (snd (snd (RegisterKeyNotify k cb out d))))
    | OpUnregister h \<Rightarrow> Some (Inr (snd (UnregisterKeyNotify h d))))"

inductive vc_reach ::
  "EFI_KEY_DATA \<Rightarrow> (vc_op \<Rightarrow> VIRTUAL_CONSOLE_DEV \<Rightarrow> bool) \<Rightarrow> VIRTUAL_CONSOLE_DEV \<Rightarrow> VIRTUAL_CONSOLE_DEV \<Rightarrow> bool"
  for k0 allowed d0 where
  start: "vc_reach k0 allowed d0 d0"
| step: "vc_reach k0 allowed d0 d \<Longrightarrow> allowed op d \<Longrightarrow> vc_exec k0 op d = Some (Inr d')
     \<Longrightarrow> vc_reach k0 allowed d0 d'"

inductive_simps vc_reach_refl: "vc_reach k0 allowed d0 d0"

end
