(* ===== verification/Con_Out_Props.thy ===== *)
theory Con_Out_Props
  imports Con_Out
begin

unbundle bit_operations_syntax

text \<open>
  What \<open>OutputString\<close> does to the screen. The reference is a terminal that takes one
  character at a time (\<open>t_char\<close>): the behaviour the comments of the C function describe.
  The C code prints in runs and re-enters itself for the line wrap; the refinement lemma says
  that on a well-formed device it computes the same screen, cursor and attribute, releases
  its lock and terminates.
\<close>

section \<open>The reference terminal\<close>

record term_state =
  t_grid :: "VIRTUAL_CONSOLE_CHAR list list"
  t_col :: nat
  t_row :: nat
  t_attr :: "32 word"
  t_scrolled :: nat

definition t_linefeed :: "nat \<Rightarrow> term_state \<Rightarrow> term_state" where
  "t_linefeed W t =
     (if Suc (t_row t) = length (t_grid t)
      then t\<lparr>t_grid := tl (t_grid t) @ [replicate W blank_char], t_scrolled := Suc (t_scrolled t)\<rparr>
      else t\<lparr>t_row := Suc (t_row t)\<rparr>)"

definition t_newline :: "nat \<Rightarrow> term_state \<Rightarrow> term_state" where
  "t_newline W t = t_linefeed W (t\<lparr>t_col := 0\<rparr>)"

definition t_store :: "VIRTUAL_CONSOLE_CHAR \<Rightarrow> term_state \<Rightarrow> term_state" where
  "t_store x t = t\<lparr>t_grid := (t_grid t)[t_row t := (t_grid t ! t_row t)[t_col t := x]]\<rparr>"

definition t_put :: "nat \<Rightarrow> nat \<Rightarrow> wchar \<Rightarrow> term_state \<Rightarrow> term_state" where
  "t_put W w c t =
     (let t1 = (t_store \<lparr>ch_Char = c, ch_Attribute = scast (t_attr t)\<rparr> t)\<lparr>t_col := t_col t + w\<rparr>
      in if t_col t1 < W then t1 else t_newline W t1)"

definition t_backspace :: "nat \<Rightarrow> term_state \<Rightarrow> term_state" where
  "t_backspace W t =
     (let t1 = (if t_col t = 0 \<and> 0 < t_row t then t\<lparr>t_row := t_row t - 1, t_col := W - 1\<rparr>
                else t\<lparr>t_col := t_col t - 1\<rparr>)
      in t_store ((t_grid t1 ! t_row t1 ! t_col t1)\<lparr>ch_Char := CHAR_NULL\<rparr>) t1)"

definition t_wide :: "term_state \<Rightarrow> bool" where
  "t_wide t \<longleftrightarrow> t_attr t AND EFI_WIDE_ATTRIBUTE \<noteq> 0"

definition t_char :: "nat \<Rightarrow> wchar \<Rightarrow> term_state \<Rightarrow> term_state" where
  "t_char W c t =
     (if c = CHAR_BACKSPACE then t_backspace W t
      else if c = CHAR_LINEFEED then t_linefeed W t
      else if c = CHAR_CARRIAGE_RETURN then t\<lparr>t_col := 0\<rparr>
      else if c = WIDE_CHAR then t\<lparr>t_attr := t_attr t OR EFI_WIDE_ATTRIBUTE\<rparr>
      else if c = NARROW_CHAR then t\<lparr>t_attr := t_attr t AND NOT EFI_WIDE_ATTRIBUTE\<rparr>
      else if t_wide t then t_put W 2 c (if W < t_col t + 2 then t_newline W t else t)
      else t_put W 1 c t)"

fun t_write :: "nat \<Rightarrow> wstr \<Rightarrow> term_state \<Rightarrow> term_state" where
  "t_write W [] t = t"
| "t_write W (c # cs) t = (if c = CHAR_NULL then t else t_write W cs (t_char W c t))"

text \<open>
  What the device shows: the rows its screen buffer points at, the cursor, the attribute, and
  the number of lines in its history.
\<close>

definition term_of :: "VIRTUAL_CONSOLE_DEV \<Rightarrow> term_state" where
  "term_of d = \<lparr>t_grid = rows_of (heap (Pool d)) (the (ScreenBuffer d)),
     t_col = nat (CursorColumn d), t_row = nat (CursorRow d), t_attr = Attribute d,
     t_scrolled = length (ScreenHistory d)\<rparr>"

section \<open>Well-formed devices\<close>

definition empty_pool :: "'c pool" where
  "empty_pool = \<lparr>heap = Map.empty, nxt = 0, avail = (\<lambda>_. True), junk = (\<lambda>_ _. undefined)\<rparr>"

text \<open>Everything \<open>OutputString\<close> must leave alone.\<close>

definition core :: "VIRTUAL_CONSOLE_DEV \<Rightarrow> VIRTUAL_CONSOLE_DEV" where
  "core d = d\<lparr>Pool := empty_pool, ScreenHistory := [], CursorColumn := 0, CursorRow := 0,
              Attribute := 0, TxtOutLock := False\<rparr>"

text \<open>
  \<open>screen_at W H rs d\<close>: the screen buffer of \<open>d\<close> is a table of \<open>H\<close> rows of \<open>W\<close> cells at the
  addresses \<open>rs\<close>, the cursor is on a row of it, and the addresses the pool will hand out
  next are free. \<open>mem_ok\<close>: the firmware grants every allocation.
\<close>

definition pool_ok :: "'c pool \<Rightarrow> bool" where
  "pool_ok p \<longleftrightarrow> (\<forall>a. nxt p \<le> a \<longrightarrow> heap p a = None)"

definition screen_at :: "nat \<Rightarrow> nat \<Rightarrow> addr list \<Rightarrow> VIRTUAL_CONSOLE_DEV \<Rightarrow> bool" where
  "screen_at W H rs d \<longleftrightarrow> ScreenBuffer d = Some rs \<and> length rs = H
     \<and> valid_rows (heap (Pool d)) W rs \<and> 0 \<le> CursorRow d \<and> CursorRow d < int H
     \<and> W + 1 < 2 ^ 31 \<and> H < 2 ^ 31 \<and> 0 < W
     \<and> pool_ok (Pool d)"

definition mem_ok :: "VIRTUAL_CONSOLE_DEV \<Rightarrow> bool" where
  "mem_ok d \<longleftrightarrow> (\<forall>a. avail (Pool d) a)"

lemma screen_atD:
  assumes "screen_at W H rs d"
  shows "ScreenBuffer d = Some rs" "length rs = H" "valid_rows (heap (Pool d)) W rs"
    "0 \<le> CursorRow d" "CursorRow d < int H" "W + 1 < 2 ^ 31" "H < 2 ^ 31" "0 < W"
    "pool_ok (Pool d)"
  using assms by (simp_all add: screen_at_def)

lemma rows_below: "pool_ok p \<Longrightarrow> valid_rows (heap p) n rs \<Longrightarrow> r \<in> set rs \<Longrightarrow> r < nxt p"
  by (auto simp: pool_ok_def valid_rows_def list_all_iff) (metis leI option.distinct(1))

lemma pool_ok_frame:
  assumes "pool_ok p" and "valid_rows (heap p) n rs" and "nxt p \<le> nxt q"
    and "\<forall>a. a \<notin> set rs \<longrightarrow> heap q a = heap p a"
  shows "pool_ok q"
  unfolding pool_ok_def
proof (intro allI impI)
  fix a assume "nxt q \<le> a"
  with assms(3) have "nxt p \<le> a" by simp
  with rows_below [OF assms(1,2), of a] have "a \<notin> set rs" by auto
  with assms(4) \<open>nxt p \<le> a\<close> assms(1) show "heap q a = None" by (simp add: pool_ok_def)
qed

lemma screen_at_upd [simp]:
  "screen_at W H rs (d\<lparr>CursorColumn := c\<rparr>) = screen_at W H rs d"
  "screen_at W H rs (d\<lparr>Attribute := a\<rparr>) = screen_at W H rs d"
  "screen_at W H rs (d\<lparr>TxtOutLock := b\<rparr>) = screen_at W H rs d"
  "screen_at W H rs (d\<lparr>ScreenHistory := h\<rparr>) = screen_at W H rs d"
  by (simp_all add: screen_at_def)

lemma mem_ok_upd [simp]:
  "mem_ok (d\<lparr>CursorColumn := c\<rparr>) = mem_ok d" "mem_ok (d\<lparr>CursorRow := r\<rparr>) = mem_ok d"
  "mem_ok (d\<lparr>Attribute := a\<rparr>) = mem_ok d" "mem_ok (d\<lparr>TxtOutLock := b\<rparr>) = mem_ok d"
  "mem_ok (d\<lparr>ScreenHistory := h\<rparr>) = mem_ok d"
  by (simp_all add: mem_ok_def)

lemma core_upd [simp]:
  "core (d\<lparr>CursorColumn := c\<rparr>) = core d" "core (d\<lparr>CursorRow := r\<rparr>) = core d"
  "core (d\<lparr>Attribute := a\<rparr>) = core d" "core (d\<lparr>TxtOutLock := b\<rparr>) = core d"
  "core (d\<lparr>ScreenHistory := h\<rparr>) = core d" "core (d\<lparr>Pool := p\<rparr>) = core d"
  by (simp_all add: core_def)

lemma term_of_grid [simp]: "length (t_grid (term_of d)) = length (the (ScreenBuffer d))"
  by (simp add: term_of_def)

lemma sb_row_ok: "screen_at W H rs d \<Longrightarrow> 0 \<le> i \<Longrightarrow> i < int H \<Longrightarrow> sb_row d i = Inr (rs ! nat i)"
  by (auto simp: screen_at_def sb_row_def)

section \<open>One cell\<close>

lemma pool_update_row:
  assumes "screen_at W H rs d" and "0 \<le> r" and "r < int H"
    and "\<forall>ys. length ys = W \<longrightarrow> f ys = Inr (g ys) \<and> length (g ys) = W"
  shows "\<exists>p. with_pool (pool_update (rs ! nat r) f) d = Inr (d\<lparr>Pool := p\<rparr>)
     \<and> screen_at W H rs (d\<lparr>Pool := p\<rparr>) \<and> mem_ok (d\<lparr>Pool := p\<rparr>) = mem_ok d
     \<and> nxt p = nxt (Pool d)
     \<and> rows_of (heap p) rs = (rows_of (heap (Pool d)) rs)[nat r := g (rows_of (heap (Pool d)) rs ! nat r)]"
proof -
  note sa = screen_atD [OF assms(1)]
  let ?ys = "rows_of (heap (Pool d)) rs ! nat r"
  have i: "nat r < length rs" using assms(2,3) sa(2) by auto
  note row = valid_rowsD [OF sa(3) i]
  from assms(4) row(2) have f: "f ?ys = Inr (g ?ys)" "length (g ?ys) = W" by auto
  let ?p = "(Pool d)\<lparr>heap := (heap (Pool d))(rs ! nat r \<mapsto> g ?ys)\<rparr>"
  have "with_pool (pool_update (rs ! nat r) f) d = Inr (d\<lparr>Pool := ?p\<rparr>)"
    using row f by (simp add: with_pool_def pool_update_def pool_read_def)
  moreover have "screen_at W H rs (d\<lparr>Pool := ?p\<rparr>)"
    using sa valid_rows_upd [OF sa(3) f(2)] row(1)
    by (simp add: screen_at_def pool_ok_def) (metis option.distinct(1))
  moreover have "mem_ok (d\<lparr>Pool := ?p\<rparr>) = mem_ok d" by (simp add: mem_ok_def)
  moreover have "rows_of (heap ?p) rs = (rows_of (heap (Pool d)) rs)[nat r := g ?ys]"
    using rows_of_upd [OF valid_rows_distinct [OF sa(3)] i] by simp
  moreover have "nxt ?p = nxt (Pool d)" by simp
  ultimately show ?thesis by blast
qed

lemma store_cell_sim:
  assumes "screen_at W H rs d" and "0 \<le> c" and "c < int W"
  shows "\<exists>p. store_cell (CursorRow d) c x d = Inr (d\<lparr>Pool := p\<rparr>)
     \<and> screen_at W H rs (d\<lparr>Pool := p\<rparr>) \<and> mem_ok (d\<lparr>Pool := p\<rparr>) = mem_ok d
     \<and> (term_of (d\<lparr>Pool := p\<rparr>))\<lparr>t_col := k\<rparr> = (t_store x ((term_of d)\<lparr>t_col := nat c\<rparr>))\<lparr>t_col := k\<rparr>"
proof -
  note sa = screen_atD [OF assms(1)]
  have "\<exists>p. with_pool (StoreElem (rs ! nat (CursorRow d)) (nat c) x) d = Inr (d\<lparr>Pool := p\<rparr>)
     \<and> screen_at W H rs (d\<lparr>Pool := p\<rparr>) \<and> mem_ok (d\<lparr>Pool := p\<rparr>) = mem_ok d \<and> nxt p = nxt (Pool d)
     \<and> rows_of (heap p) rs = (rows_of (heap (Pool d)) rs)[nat (CursorRow d) :=
         (rows_of (heap (Pool d)) rs ! nat (CursorRow d))[nat c := x]]"
    unfolding StoreElem_def using assms(2,3)
    by (intro pool_update_row [OF assms(1) sa(4,5), where g = "\<lambda>ys. ys[nat c := x]"]) auto
  then show ?thesis
    using assms(2) sa by (auto simp: store_cell_def sb_row_ok [OF assms(1)] term_of_def t_store_def)
qed

lemma store_char_sim:
  assumes "screen_at W H rs d" and "0 \<le> CursorColumn d" and "CursorColumn d < int W"
  shows "\<exists>p. store_char (CursorRow d) (CursorColumn d) x d = Inr (d\<lparr>Pool := p\<rparr>)
     \<and> screen_at W H rs (d\<lparr>Pool := p\<rparr>) \<and> mem_ok (d\<lparr>Pool := p\<rparr>) = mem_ok d
     \<and> term_of (d\<lparr>Pool := p\<rparr>) = t_store ((t_grid (term_of d) ! t_row (term_of d)
          ! t_col (term_of d))\<lparr>ch_Char := x\<rparr>) (term_of d)"
proof -
  note sa = screen_atD [OF assms(1)]
  let ?c = "nat (CursorColumn d)"
  let ?f = "\<lambda>ys. if ?c < length ys then Inr (ys[?c := (ys ! ?c)\<lparr>ch_Char := x\<rparr>]) else Inl OutOfBounds"
  let ?g = "\<lambda>ys. ys[?c := (ys ! ?c)\<lparr>ch_Char := x\<rparr>]"
  have "\<forall>ys. length ys = W \<longrightarrow> ?f ys = Inr (?g ys) \<and> length (?g ys) = W"
    using assms(2,3) by (simp add: nat_less_iff)
  then obtain p where "with_pool (pool_update (rs ! nat (CursorRow d)) ?f) d = Inr (d\<lparr>Pool := p\<rparr>)"
      "screen_at W H rs (d\<lparr>Pool := p\<rparr>)" "mem_ok (d\<lparr>Pool := p\<rparr>) = mem_ok d"
      "rows_of (heap p) rs = (rows_of (heap (Pool d)) rs)[nat (CursorRow d) :=
         (rows_of (heap (Pool d)) rs ! nat (CursorRow d))[?c :=
            (rows_of (heap (Pool d)) rs ! nat (CursorRow d) ! ?c)\<lparr>ch_Char := x\<rparr>]]"
    using pool_update_row [OF assms(1) sa(4,5), of ?f ?g] by blast
  then show ?thesis
    using assms(2) sa by (auto simp: store_char_def sb_row_ok [OF assms(1)] term_of_def t_store_def)
qed

section \<open>Printing a run of characters\<close>

abbreviation tof :: "VIRTUAL_CONSOLE_DEV \<Rightarrow> nat \<Rightarrow> term_state" where
  "tof d k \<equiv> (term_of d)\<lparr>t_col := k\<rparr>"

lemma t_char_print:
  "\<not> is_ctrl c \<Longrightarrow> t_char W c t = (if t_wide t
     then t_put W 2 c (if W < t_col t + 2 then t_newline W t else t) else t_put W 1 c t)"
  by (simp add: is_ctrl_def t_char_def)

lemma t_newline_simps [simp]:
  "t_col (t_newline W t) = 0" "t_attr (t_newline W t) = t_attr t"
  "t_newline W (t\<lparr>t_col := k\<rparr>) = t_newline W t"
  by (simp_all add: t_newline_def t_linefeed_def)

lemma t_wide_simps [simp]:
  "t_wide (t\<lparr>t_col := k\<rparr>) = t_wide t" "t_wide (t_newline W t) = t_wide t"
  "t_wide (term_of d) = wide_on d"
  by (simp_all add: t_wide_def wide_on_def term_of_def)

text \<open>
  A wide character that does not fit is printed as if the line had been wrapped before it,
  which needs two columns to be there at all.
\<close>

lemma t_write_wrap:
  assumes "2 \<le> W" and "\<not> is_ctrl c" and "t_wide t" and "W < t_col t + 2"
  shows "t_write W (c # cs) t = t_write W (c # cs) (t_newline W t)"
  using assms by (simp add: t_char_print is_ctrl_def)

lemma print_run_end: "CursorColumn d + idx < 2 ^ 64 \<Longrightarrow> 0 \<le> CursorColumn d + idx \<Longrightarrow>
    int W \<le> CursorColumn d + idx \<Longrightarrow> print_run (int W) ws idx d = Inr (ws, idx, d)"
  by (cases ws) (simp_all add: casts)

text \<open>
  The run, from column \<open>CursorColumn d + idx\<close> on: writing the whole string from there is
  writing the rest from where the run stopped, wrapped if it stopped at or past the edge.
\<close>

lemma print_run_sim:
  assumes "screen_at W H rs d" and "2 \<le> W" and "0 \<le> CursorColumn d" and "0 \<le> idx"
    and "CursorColumn d + idx < int W"
  shows "\<exists>ws' idx' p. print_run (int W) ws idx d = Inr (ws', idx', d\<lparr>Pool := p\<rparr>)
     \<and> screen_at W H rs (d\<lparr>Pool := p\<rparr>) \<and> mem_ok (d\<lparr>Pool := p\<rparr>) = mem_ok d
     \<and> idx \<le> idx' \<and> CursorColumn d + idx' \<le> int W + 1 \<and> length ws' \<le> length ws
     \<and> t_write W ws (tof d (nat (CursorColumn d + idx))) =
         t_write W ws' (if CursorColumn d + idx' < int W
           then tof (d\<lparr>Pool := p\<rparr>) (nat (CursorColumn d + idx'))
           else t_newline W (term_of (d\<lparr>Pool := p\<rparr>)))"
  using assms
proof (induction ws arbitrary: idx d)
  case Nil
  then show ?case
    by (intro exI [of _ "[]"] exI [of _ idx] exI [of _ "Pool d"]) simp
next
  case (Cons c cs)
  note sa = screen_atD [OF Cons.prems(1)]
  let ?C = "CursorColumn d"
  have rng: "0 \<le> ?C + idx" "?C + idx + 2 < 2 ^ 64" "idx + 2 < 2 ^ 64"
    using Cons.prems sa(6) by simp_all
  show ?case
  proof (cases "is_ctrl c")
    case True
    with Cons.prems rng show ?thesis
      by (intro exI [of _ "c # cs"] exI [of _ idx] exI [of _ "Pool d"]) (simp add: casts)
  next
    case False
    define w where "w = (if wide_on d then 2 else 1 :: int)"
    show ?thesis
    proof (cases "wide_on d \<and> int W < ?C + idx + 2")
      case True
      then have run: "print_run (int W) (c # cs) idx d = Inr (c # cs, idx + 2, d)"
        using False Cons.prems rng by (simp add: casts)
      have "t_write W (c # cs) (tof d (nat (?C + idx))) = t_write W (c # cs) (t_newline W (term_of d))"
      proof -
        have "W < t_col (tof d (nat (?C + idx))) + 2" using True rng by (simp, linarith)
        with t_write_wrap [OF Cons.prems(2) False, of "tof d (nat (?C + idx))" cs] True
        show ?thesis by (simp del: t_write.simps)
      qed
      with run True Cons.prems show ?thesis
        by (intro exI [of _ "c # cs"] exI [of _ "idx + 2"] exI [of _ "Pool d"]) simp
    next
      case fits: False
      obtain p where p: "store_cell (CursorRow d) (?C + idx)
            \<lparr>ch_Char = c, ch_Attribute = scast (Attribute d)\<rparr> d = Inr (d\<lparr>Pool := p\<rparr>)"
          "screen_at W H rs (d\<lparr>Pool := p\<rparr>)" "mem_ok (d\<lparr>Pool := p\<rparr>) = mem_ok d"
          "tof (d\<lparr>Pool := p\<rparr>) (nat (?C + idx + w)) =
             (t_store \<lparr>ch_Char = c, ch_Attribute = scast (Attribute d)\<rparr>
               (tof d (nat (?C + idx))))\<lparr>t_col := nat (?C + idx + w)\<rparr>"
        using store_cell_sim [OF Cons.prems(1) rng(1) Cons.prems(5)] by blast
      let ?d = "d\<lparr>Pool := p\<rparr>"
      have run: "print_run (int W) (c # cs) idx d = print_run (int W) cs (idx + w) ?d"
        using False fits Cons.prems rng p(1) by (auto simp: casts w_def)
      have w: "0 < w" "?C + idx + w \<le> int W" "nat (?C + idx) + nat w = nat (?C + idx + w)"
        using fits Cons.prems(3-5) by (auto simp: w_def)
      have step: "t_char W c (tof d (nat (?C + idx))) =
          (if ?C + idx + w < int W then tof ?d (nat (?C + idx + w)) else t_newline W (term_of ?d))"
      proof -
        let ?t = "tof d (nat (?C + idx))"
        have "\<not> (wide_on d \<and> W < nat (?C + idx) + 2)" using fits rng by linarith
        then have "t_char W c ?t = t_put W (nat w) c ?t"
          using False by (auto simp: t_char_print w_def)
        also have "\<dots> = (let t1 = tof ?d (nat (?C + idx + w))
            in if t_col t1 < W then t1 else t_newline W t1)"
          using p(4) w(3) by (simp add: t_put_def term_of_def)
        finally show ?thesis using rng w by (simp add: nat_less_iff)
      qed
      show ?thesis
      proof (cases "?C + idx + w < int W")
        case True
        then have pre: "0 \<le> CursorColumn ?d" "0 \<le> idx + w" "CursorColumn ?d + (idx + w) < int W"
          using Cons.prems(3,4) w by simp_all
        obtain ws' idx' q where IH: "print_run (int W) cs (idx + w) ?d = Inr (ws', idx', ?d\<lparr>Pool := q\<rparr>)"
          "screen_at W H rs (?d\<lparr>Pool := q\<rparr>)" "mem_ok (?d\<lparr>Pool := q\<rparr>) = mem_ok ?d" "idx + w \<le> idx'"
          "CursorColumn ?d + idx' \<le> int W + 1" "length ws' \<le> length cs"
          "t_write W cs (tof ?d (nat (CursorColumn ?d + (idx + w)))) =
             t_write W ws' (if CursorColumn ?d + idx' < int W
               then tof (?d\<lparr>Pool := q\<rparr>) (nat (CursorColumn ?d + idx'))
               else t_newline W (term_of (?d\<lparr>Pool := q\<rparr>)))"
          using Cons.IH [OF p(2) Cons.prems(2) pre] by blast
        have "t_write W (c # cs) (tof d (nat (?C + idx))) = t_write W cs (tof ?d (nat (?C + (idx + w))))"
          using step True \<open>\<not> is_ctrl c\<close> by (simp add: is_ctrl_def add.assoc)
        with IH run p(3) w(1) show ?thesis
          by (intro exI [of _ ws'] exI [of _ idx'] exI [of _ q]) (simp del: t_write.simps)
      next
        case False
        then have "print_run (int W) cs (idx + w) ?d = Inr (cs, idx + w, ?d)"
          using Cons.prems w rng by (intro print_run_end) (auto simp: w_def)
        moreover have "t_write W (c # cs) (tof d (nat (?C + idx))) = t_write W cs (t_newline W (term_of ?d))"
          using step False \<open>\<not> is_ctrl c\<close> by (simp add: is_ctrl_def)
        ultimately show ?thesis using run False p(2,3) w
          by (intro exI [of _ cs] exI [of _ "idx + w"] exI [of _ p]) (simp del: t_write.simps add: add.assoc)
      qed
    qed
  qed
qed

lemma print_run_length: "print_run m ws idx d = Inr (ws', idx', d') \<Longrightarrow> length ws' \<le> length ws"
  by (induction m ws idx d rule: print_run.induct)
     (auto simp: rbind_eq_Inr split: if_splits intro: le_SucI)

section \<open>Scrolling and the line feed\<close>

lemma with_pool_Inr: "f (Pool d) = Inr p \<Longrightarrow> with_pool f d = Inr (d\<lparr>Pool := p\<rparr>)"
  by (simp add: with_pool_def)

text \<open>A loop over the rows of the device is the same loop over the pool.\<close>

lemma mfold_with_pool:
  assumes "\<And>i p. i \<in> set is \<Longrightarrow> body i (d\<lparr>Pool := p\<rparr>) = with_pool (f i) (d\<lparr>Pool := p\<rparr>)"
  shows "mfold body is (d\<lparr>Pool := p\<rparr>) = rbind (mfold f is p) (\<lambda>q. Inr (d\<lparr>Pool := q\<rparr>))"
  using assms
proof (induction "is" arbitrary: p)
  case Nil
  then show ?case by simp
next
  case (Cons i "is")
  then have "body i (d\<lparr>Pool := p\<rparr>) = rbind (f i p) (\<lambda>q. Inr (d\<lparr>Pool := q\<rparr>))"
    by (simp add: with_pool_def)
  with Cons show ?case by (cases "f i p") simp_all
qed

lemma scroll_screen_sim:
  assumes "screen_at W H rs d" and "mem_ok d" and "CursorRow d = int H - 1"
  shows "\<exists>p. scroll_screen (int W) d = Inr (d\<lparr>ScreenHistory := ScreenHistory d @ [hd rs], Pool := p\<rparr>)
     \<and> screen_at W H rs (d\<lparr>Pool := p\<rparr>) \<and> mem_ok (d\<lparr>Pool := p\<rparr>)
     \<and> rows_of (heap p) rs = tl (rows_of (heap (Pool d)) rs) @ [replicate W blank_char]"
proof -
  note sa = screen_atD [OF assms(1)]
  let ?n = "nat (CursorRow d)"
  let ?p0 = "(Pool d)\<lparr>nxt := Suc (nxt (Pool d))\<rparr>"
  let ?d0 = "d\<lparr>ScreenHistory := ScreenHistory d @ [hd rs], Pool := ?p0\<rparr>"
  have n: "?n < length rs" "Suc ?n = length rs" "uintn (CursorRow d) = CursorRow d" "rs \<noteq> []"
    using sa assms(3) by (auto simp: casts)
  have v0: "valid_rows (heap ?p0) W rs" using sa(3) by simp
  obtain p1 where p1: "mfold (\<lambda>i. CopyMem (rs ! i) (rs ! Suc i) W) [0..<?n] ?p0 = Inr p1"
      "rows_of (heap p1) rs = take ?n (tl (rows_of (heap ?p0) rs)) @ drop ?n (rows_of (heap ?p0) rs)"
      "valid_rows (heap p1) W rs" "\<forall>a. a \<notin> set rs \<longrightarrow> heap p1 a = heap ?p0 a"
      "(nxt p1, avail p1, junk p1) = (nxt ?p0, avail ?p0, junk ?p0)"
    using efi_pool.scroll_up [OF v0 n(1)] by blast
  note row = valid_rowsD [OF p1(3) n(1)]
  obtain p2 where p2: "SetElems (rs ! ?n) blank_char W p1 = Inr p2"
      "heap p2 = (heap p1)(rs ! ?n \<mapsto> replicate W blank_char)"
      "(nxt p2, avail p2, junk p2) = (nxt p1, avail p1, junk p1)"
    using efi_pool.fill_row [OF row] by blast
  have loop: "mfold (\<lambda>i d. rbind (sb_row d (int i)) (\<lambda>dst. rbind (sb_row d (int i + 1)) (\<lambda>src.
        with_pool (CopyMem dst src W) d))) [0..<?n] ?d0 = Inr (?d0\<lparr>Pool := p1\<rparr>)"
  proof -
    have "mfold (\<lambda>i d. rbind (sb_row d (int i)) (\<lambda>dst. rbind (sb_row d (int i + 1)) (\<lambda>src.
        with_pool (CopyMem dst src W) d))) [0..<?n] (?d0\<lparr>Pool := ?p0\<rparr>)
      = rbind (mfold (\<lambda>i. CopyMem (rs ! i) (rs ! Suc i) W) [0..<?n] ?p0) (\<lambda>q. Inr (?d0\<lparr>Pool := q\<rparr>))"
      using sa(1) n by (intro mfold_with_pool) (auto simp: sb_row_def nat_add_distrib)
    then show ?thesis using p1(1) by simp
  qed
  have rows: "rows_of (heap p2) rs = tl (rows_of (heap (Pool d)) rs) @ [replicate W blank_char]"
  proof -
    have "rows_of (heap p2) rs = (rows_of (heap p1) rs)[?n := replicate W blank_char]"
      unfolding p2(2) by (rule rows_of_upd [OF valid_rows_distinct [OF p1(3)] n(1)])
    also have "\<dots> = tl (rows_of (heap (Pool d)) rs) @ [replicate W blank_char]"
      unfolding p1(2) using n(2) by (intro trans [OF shift_last]) simp_all
    finally show ?thesis .
  qed
  have "pool_ok p2"
    using p1(4,5) p2(2,3) n(1) by (intro pool_ok_frame [OF sa(9,3)]) auto
  then have "screen_at W H rs (d\<lparr>Pool := p2\<rparr>)"
    using sa p2(2) valid_rows_upd [OF p1(3), of "replicate W blank_char" "rs ! ?n"]
    by (simp add: screen_at_def)
  moreover have "mem_ok (d\<lparr>Pool := p2\<rparr>)" using assms(2) p1(5) p2(3) by (simp add: mem_ok_def)
  moreover have "scroll_screen (int W) d
      = Inr (d\<lparr>ScreenHistory := ScreenHistory d @ [hd rs], Pool := p2\<rparr>)"
    using assms(2) sa(1,2,4) n loop p2(1)
    by (simp add: scroll_screen_def pool_reserve_def mem_ok_def sb_row_def with_pool_Inr hd_conv_nth)
  ultimately show ?thesis using rows by blast
qed


text \<open>
  The line feed, and the call with \<open>mCrLfString\<close> that wraps a line: it runs from any
  column, takes and releases the lock itself and adds at most one line to the history.
\<close>

definition grows_hist :: "addr list \<Rightarrow> VIRTUAL_CONSOLE_DEV \<Rightarrow> VIRTUAL_CONSOLE_DEV \<Rightarrow> bool" where
  "grows_hist rs d d' \<longleftrightarrow> (\<exists>k. ScreenHistory d' = ScreenHistory d @ replicate k (hd rs))"

lemma grows_hist_refl [simp]: "ScreenHistory d' = ScreenHistory d \<Longrightarrow> grows_hist rs d d'"
  unfolding grows_hist_def by (rule exI [of _ 0]) simp

lemma grows_hist_trans: "grows_hist rs d d' \<Longrightarrow> grows_hist rs d' d'' \<Longrightarrow> grows_hist rs d d''"
  unfolding grows_hist_def by (auto simp flip: replicate_add)

lemma grows_hist_upd [simp]:
  "grows_hist rs d (d'\<lparr>TxtOutLock := b\<rparr>) = grows_hist rs d d'"
  "grows_hist rs d (d'\<lparr>Attribute := a\<rparr>) = grows_hist rs d d'"
  "grows_hist rs d (d'\<lparr>CursorColumn := c\<rparr>) = grows_hist rs d d'"
  "grows_hist rs d (d'\<lparr>CursorRow := r\<rparr>) = grows_hist rs d d'"
  "grows_hist rs d (d'\<lparr>Pool := p\<rparr>) = grows_hist rs d d'"
  by (simp_all add: grows_hist_def)

text \<open>The state of the loop: the lock is held, the rest of the device is as it was.\<close>

definition in_loop ::
  "nat \<Rightarrow> nat \<Rightarrow> addr list \<Rightarrow> VIRTUAL_CONSOLE_DEV \<Rightarrow> VIRTUAL_CONSOLE_DEV \<Rightarrow> bool" where
  "in_loop W H rs d0 d \<longleftrightarrow> screen_at W H rs d \<and> mem_ok d \<and> core d = core d0
     \<and> grows_hist rs d0 d \<and> TxtOutLock d"

lemma linefeed_sim:
  assumes "in_loop W H rs d0 d"
  shows "\<exists>d'. OutputString_char (int W) (int H) (CHAR_LINEFEED # ws) d = Inr (ws, False, d')
     \<and> in_loop W H rs d0 d' \<and> term_of d' = t_linefeed W (term_of d)
     \<and> CursorColumn d' = CursorColumn d \<and> Attribute d' = Attribute d"
proof -
  from assms have sa: "screen_at W H rs d" "mem_ok d" and rest: "core d = core d0"
    "grows_hist rs d0 d" "TxtOutLock d" by (simp_all add: in_loop_def)
  note s = screen_atD [OF sa(1)]
  have last: "int32 (uintn (int H - 1)) = int H - 1" using s by (simp add: casts)
  show ?thesis
  proof (cases "CursorRow d = int H - 1")
    case True
    from scroll_screen_sim [OF sa True] obtain p where p:
      "scroll_screen (int W) d = Inr (d\<lparr>ScreenHistory := ScreenHistory d @ [hd rs], Pool := p\<rparr>)"
      "screen_at W H rs (d\<lparr>Pool := p\<rparr>)" "mem_ok (d\<lparr>Pool := p\<rparr>)"
      "rows_of (heap p) rs = tl (rows_of (heap (Pool d)) rs) @ [replicate W blank_char]"
      by blast
    let ?d = "d\<lparr>ScreenHistory := ScreenHistory d @ [hd rs], Pool := p\<rparr>"
    have "grows_hist rs d ?d" unfolding grows_hist_def by (rule exI [of _ 1]) simp
    with rest(2) have "grows_hist rs d0 ?d" by (rule grows_hist_trans)
    moreover have "Suc (nat (CursorRow d)) = length rs" using True s by simp
    ultimately show ?thesis using p rest s(1) True last
      by (intro exI [of _ ?d])
         (simp add: OutputString_char_def char_defs in_loop_def term_of_def t_linefeed_def
            screen_at_def mem_ok_def)
  next
    case False
    let ?d = "d\<lparr>CursorRow := CursorRow d + 1\<rparr>"
    have "in_loop W H rs d0 ?d" using sa rest False s
      by (simp add: in_loop_def screen_at_def)
    moreover have "int32 (CursorRow d + 1) = CursorRow d + 1" using s by (simp add: casts)
    moreover have "Suc (nat (CursorRow d)) \<noteq> length rs" "nat (CursorRow d + 1) = Suc (nat (CursorRow d))"
      using False s by auto
    ultimately show ?thesis using False last s(1)
      by (intro exI [of _ ?d])
         (simp add: OutputString_char_def char_defs term_of_def t_linefeed_def)
  qed
qed


section \<open>The loop\<close>

text \<open>The mode the device is in has \<open>W\<close> columns and \<open>H\<close> rows.\<close>

definition mode_is :: "nat \<Rightarrow> nat \<Rightarrow> VIRTUAL_CONSOLE_DEV \<Rightarrow> bool" where
  "mode_is W H d \<longleftrightarrow> Mode d \<noteq> -1 \<and> mode_data d (Mode d) = Inr \<lparr>Columns = int W, Rows = int H\<rparr>"

lemma mode_is_core:
  assumes "core d' = core d" shows "mode_is W H d' = mode_is W H d"
proof -
  from assms have "Mode d' = Mode d" "SimpleTextOutputModeData d' = SimpleTextOutputModeData d"
    by (auto simp: core_def dest!: arg_cong [of _ _ "\<lambda>x. (Mode x, SimpleTextOutputModeData x)"])
  then show ?thesis by (simp add: mode_is_def mode_data_def)
qed

lemmas run_simps = OutputString_run.simps

lemma run_loop_end: "ws_end ws \<Longrightarrow> OutputString_run (Loop m n) ws d = Some (Inr (EFI_SUCCESS, d))"
  by (subst run_simps) simp

lemma run_loop_step:
  assumes "\<not> ws_end ws" and "OutputString_char m n ws d = Inr (ws', False, d')"
  shows "OutputString_run (Loop m n) ws d = OutputString_run (Loop m n) ws' d'"
  using assms by (subst run_simps) simp

lemma run_enter:
  assumes "mode_is W H d" and "\<not> TxtOutLock d"
    and "OutputString_run (Loop (int W) (int H)) ws (d\<lparr>TxtOutLock := True\<rparr>) = Some (Inr (st, d'))"
    and "TxtOutLock d'"
  shows "OutputString_run Enter ws d
     = Some (Inr (st, d'\<lparr>Attribute := Attribute d, TxtOutLock := False\<rparr>))"
proof -
  have "mode_data (d\<lparr>TxtOutLock := True\<rparr>) (Mode d) = mode_data d (Mode d)"
    by (simp add: mode_data_def)
  with assms show ?thesis
    by (subst run_simps) (simp add: mode_is_def lock_defs)
qed

lemma run_loop_wrap:
  assumes "\<not> ws_end ws" and "OutputString_char m n ws d = Inr (ws', True, d1)" and "TxtOutLock d1"
    and "OutputString_run Enter mCrLfString (d1\<lparr>TxtOutLock := False\<rparr>) = Some (Inr (st, d2))"
    and "\<not> TxtOutLock d2"
  shows "OutputString_run (Loop m n) ws d = OutputString_run (Loop m n) ws' (d2\<lparr>TxtOutLock := True\<rparr>)"
  using assms by (subst run_simps) (simp add: lock_defs)

lemma in_loop_unlock [simp]:
  "in_loop W H rs d0 (d\<lparr>TxtOutLock := True\<rparr>) \<longleftrightarrow>
     screen_at W H rs d \<and> mem_ok d \<and> core d = core d0 \<and> grows_hist rs d0 d"
  by (simp add: in_loop_def)

lemma term_of_upd [simp]:
  "term_of (d\<lparr>TxtOutLock := b\<rparr>) = term_of d"
  "term_of (d\<lparr>Attribute := a\<rparr>) = (term_of d)\<lparr>t_attr := a\<rparr>"
  "term_of (d\<lparr>CursorColumn := c\<rparr>) = (term_of d)\<lparr>t_col := nat c\<rparr>"
  by (simp_all add: term_of_def)

lemma lock_same: "TxtOutLock d \<Longrightarrow> d\<lparr>TxtOutLock := True\<rparr> = d"
  by (cases d) simp

text \<open>The nested call that wraps the line.\<close>

lemma wrap_call:
  assumes "in_loop W H rs d0 d" and "mode_is W H d0"
  shows "\<exists>d'. OutputString_run Enter mCrLfString (d\<lparr>TxtOutLock := False\<rparr>) = Some (Inr (EFI_SUCCESS, d'))
     \<and> in_loop W H rs d0 (d'\<lparr>TxtOutLock := True\<rparr>) \<and> \<not> TxtOutLock d'
     \<and> term_of d' = t_newline W (term_of d) \<and> CursorColumn d' = 0 \<and> Attribute d' = Attribute d"
proof -
  let ?d1 = "d\<lparr>CursorColumn := 0\<rparr>"
  have "in_loop W H rs d0 ?d1" using assms(1) by (simp add: in_loop_def)
  from linefeed_sim [OF this, of "[]"] obtain d2 where d2:
    "OutputString_char (int W) (int H) [CHAR_LINEFEED] ?d1 = Inr ([], False, d2)"
    "in_loop W H rs d0 d2" "term_of d2 = t_linefeed W (term_of ?d1)"
    "CursorColumn d2 = 0" "Attribute d2 = Attribute d"
    by auto
  have "core (d\<lparr>TxtOutLock := False\<rparr>) = core d0" using assms(1) by (simp add: in_loop_def)
  from mode_is_core [OF this] have mode: "mode_is W H (d\<lparr>TxtOutLock := False\<rparr>)"
    using assms(2) by blast
  have lock: "d\<lparr>TxtOutLock := True\<rparr> = d" using assms(1) by (simp add: in_loop_def lock_same)
  have cr: "OutputString_char (int W) (int H) mCrLfString d = Inr ([CHAR_LINEFEED], False, ?d1)"
    by (simp add: OutputString_char_def mCrLfString_def char_defs)
  have "OutputString_run (Loop (int W) (int H)) mCrLfString d = Some (Inr (EFI_SUCCESS, d2))"
  proof -
    have e: "\<not> ws_end mCrLfString" "\<not> ws_end [CHAR_LINEFEED]" "ws_end []"
      by (simp_all add: ws_end_def mCrLfString_def char_defs)
    show ?thesis
      unfolding run_loop_step [OF e(1) cr] run_loop_step [OF e(2) d2(1)] by (rule run_loop_end [OF e(3)])
  qed
  then have "OutputString_run (Loop (int W) (int H)) mCrLfString
      (d\<lparr>TxtOutLock := False\<rparr>\<lparr>TxtOutLock := True\<rparr>) = Some (Inr (EFI_SUCCESS, d2))"
    using lock by simp
  from run_enter [OF mode _ this] d2(2)
  have run: "OutputString_run Enter mCrLfString (d\<lparr>TxtOutLock := False\<rparr>)
      = Some (Inr (EFI_SUCCESS, d2\<lparr>Attribute := Attribute d, TxtOutLock := False\<rparr>))"
    by (simp add: in_loop_def)
  let ?d' = "d2\<lparr>Attribute := Attribute d, TxtOutLock := False\<rparr>"
  have "in_loop W H rs d0 (?d'\<lparr>TxtOutLock := True\<rparr>)"
    using d2(2) by (simp add: in_loop_def)
  moreover have "term_of ?d' = t_newline W (term_of d)"
    using d2(3,5) by (simp add: t_newline_def term_of_def)
  ultimately show ?thesis using run d2(4) by auto
qed

text \<open>
  The variant of the loop. A round uses up a character, or it wraps the line in front of a
  wide character that does not fit and so moves the cursor to column 0.
\<close>

definition work :: "wstr \<Rightarrow> VIRTUAL_CONSOLE_DEV \<Rightarrow> nat" where
  "work ws d = 2 * length ws + (if CursorColumn d = 0 then 0 else 1)"

definition ready :: "nat \<Rightarrow> nat \<Rightarrow> addr list \<Rightarrow> VIRTUAL_CONSOLE_DEV \<Rightarrow> VIRTUAL_CONSOLE_DEV \<Rightarrow> bool" where
  "ready W H rs d0 d \<longleftrightarrow> in_loop W H rs d0 d \<and> 0 \<le> CursorColumn d \<and> CursorColumn d < int W"

lemma backspace_sim:
  assumes "ready W H rs d0 d"
  shows "\<exists>d'. OutputString_char (int W) (int H) (CHAR_BACKSPACE # ws) d = Inr (ws, False, d')
     \<and> ready W H rs d0 d' \<and> term_of d' = t_backspace W (term_of d)"
proof -
  from assms have sa: "screen_at W H rs d" "mem_ok d" and rest: "core d = core d0"
    "grows_hist rs d0 d" "TxtOutLock d" and col: "0 \<le> CursorColumn d" "CursorColumn d < int W"
    by (simp_all add: ready_def in_loop_def)
  note s = screen_atD [OF sa(1)]
  let ?up = "CursorColumn d = 0 \<and> 0 < CursorRow d"
  let ?d1 = "if ?up then d\<lparr>CursorRow := CursorRow d - 1, CursorColumn := int W - 1\<rparr>
             else if CursorColumn d > 0 then d\<lparr>CursorColumn := CursorColumn d - 1\<rparr> else d"
  have d1: "screen_at W H rs ?d1" "0 \<le> CursorColumn ?d1" "CursorColumn ?d1 < int W" "mem_ok ?d1"
    "core ?d1 = core d0" "grows_hist rs d0 ?d1" "TxtOutLock ?d1"
    using sa rest col s by (auto simp: screen_at_def)
  have t1: "term_of ?d1 = (if t_col (term_of d) = 0 \<and> 0 < t_row (term_of d)
      then (term_of d)\<lparr>t_row := t_row (term_of d) - 1, t_col := W - 1\<rparr>
      else (term_of d)\<lparr>t_col := t_col (term_of d) - 1\<rparr>)"
    using col s by (auto simp: term_of_def nat_diff_distrib)
  have cast: "int32 (uintn (int W - 1)) = int W - 1" using s by (simp add: casts)
  from store_char_sim [OF d1(1-3), of CHAR_NULL] obtain p where p:
    "store_char (CursorRow ?d1) (CursorColumn ?d1) CHAR_NULL ?d1 = Inr (?d1\<lparr>Pool := p\<rparr>)"
    "screen_at W H rs (?d1\<lparr>Pool := p\<rparr>)" "mem_ok (?d1\<lparr>Pool := p\<rparr>) = mem_ok ?d1"
    "term_of (?d1\<lparr>Pool := p\<rparr>) = t_store ((t_grid (term_of ?d1) ! t_row (term_of ?d1)
          ! t_col (term_of ?d1))\<lparr>ch_Char := CHAR_NULL\<rparr>) (term_of ?d1)"
    by blast
  have "ready W H rs d0 (?d1\<lparr>Pool := p\<rparr>)" using p(2,3) d1 by (simp add: ready_def in_loop_def)
  moreover have "term_of (?d1\<lparr>Pool := p\<rparr>) = t_backspace W (term_of d)"
    using p(4) unfolding t1 by (simp add: t_backspace_def Let_def)
  moreover have "OutputString_char (int W) (int H) (CHAR_BACKSPACE # ws) d = Inr (ws, False, ?d1\<lparr>Pool := p\<rparr>)"
    using p(1) by (simp only: OutputString_char_def cast Let_def list.sel if_True simp_thms rbind_Inr)
  ultimately show ?thesis by blast
qed

lemma ctrl_step:
  assumes "ready W H rs d0 d" and "is_ctrl c" and "c \<noteq> CHAR_NULL"
  shows "\<exists>d'. OutputString_char (int W) (int H) (c # ws) d = Inr (ws, False, d')
     \<and> ready W H rs d0 d' \<and> term_of d' = t_char W c (term_of d)"
proof -
  consider "c = CHAR_BACKSPACE" | "c = CHAR_LINEFEED" | "c = CHAR_CARRIAGE_RETURN"
    | "c = WIDE_CHAR" | "c = NARROW_CHAR"
    using assms(2,3) by (auto simp: is_ctrl_def)
  then show ?thesis
  proof cases
    case 1
    then show ?thesis using backspace_sim [OF assms(1), of ws] by (simp add: t_char_def)
  next
    case 2
    from assms(1) have "in_loop W H rs d0 d" by (simp add: ready_def)
    from linefeed_sim [OF this, of ws] obtain d' where
      "OutputString_char (int W) (int H) (CHAR_LINEFEED # ws) d = Inr (ws, False, d')"
      "in_loop W H rs d0 d'" "term_of d' = t_linefeed W (term_of d)" "CursorColumn d' = CursorColumn d"
      by blast
    with assms(1) 2 show ?thesis
      by (intro exI [of _ d']) (simp add: ready_def t_char_def char_defs)
  next
    case 3
    with assms(1) show ?thesis
      by (simp add: OutputString_char_def t_char_def char_defs ready_def in_loop_def)
  next
    case 4
    with assms(1) show ?thesis
      by (simp add: OutputString_char_def t_char_def char_defs ready_def in_loop_def) (simp add: term_of_def)
  next
    case 5
    with assms(1) show ?thesis
      by (simp add: OutputString_char_def t_char_def char_defs ready_def in_loop_def) (simp add: term_of_def)
  qed
qed

lemma print_progress:
  assumes "print_run (int W) (c # cs) 0 d = Inr (ws', idx, d')" and "\<not> is_ctrl c"
    and "0 \<le> CursorColumn d" and "CursorColumn d < int W" and "W + 1 < 2 ^ 31"
  shows "length ws' \<le> length cs \<or> int W < CursorColumn d + 2 \<and> idx = 2 \<and> ws' = c # cs"
proof -
  have "uintn (CursorColumn d) = CursorColumn d" "uintn (CursorColumn d + 2) = CursorColumn d + 2"
    "uintn 2 = 2" "uintn 1 = 1"
    using assms(3-5) by (simp_all add: casts)
  with assms show ?thesis
    by (auto simp: rbind_eq_Inr split: if_splits dest: print_run_length)
qed

lemma print_step:
  assumes "ready W H rs d0 d" and "mode_is W H d0" and "2 \<le> W" and "\<not> is_ctrl c"
  shows "\<exists>ws' d'. OutputString_run (Loop (int W) (int H)) (c # cs) d
        = OutputString_run (Loop (int W) (int H)) ws' d'
     \<and> ready W H rs d0 d' \<and> work ws' d' < work (c # cs) d
     \<and> t_write W (c # cs) (term_of d) = t_write W ws' (term_of d')"
proof -
  from assms have sa: "screen_at W H rs d" "mem_ok d" and rest: "core d = core d0"
    "grows_hist rs d0 d" "TxtOutLock d" and col: "0 \<le> CursorColumn d" "CursorColumn d < int W"
    by (simp_all add: ready_def in_loop_def)
  note s = screen_atD [OF sa(1)]
  let ?C = "CursorColumn d"
  have "?C + 0 < int W" using col by simp
  then obtain ws' idx p where run: "print_run (int W) (c # cs) 0 d = Inr (ws', idx, d\<lparr>Pool := p\<rparr>)"
      "screen_at W H rs (d\<lparr>Pool := p\<rparr>)" "mem_ok (d\<lparr>Pool := p\<rparr>) = mem_ok d"
      "0 \<le> idx" "?C + idx \<le> int W + 1"
      "t_write W (c # cs) (tof d (nat (?C + 0))) = t_write W ws' (if ?C + idx < int W
           then tof (d\<lparr>Pool := p\<rparr>) (nat (?C + idx)) else t_newline W (term_of (d\<lparr>Pool := p\<rparr>)))"
    using print_run_sim [OF sa(1) assms(3) col(1) order_refl, of "c # cs"] by blast
  have same: "tof d (nat (?C + 0)) = term_of d" by (simp add: term_of_def)
  have cast: "int32 idx = idx" "int32 (?C + idx) = ?C + idx" "int32 (int W) = int W"
    using col run(4,5) s(6) by (simp_all add: casts)
  let ?d1 = "d\<lparr>Pool := p, CursorColumn := ?C + idx\<rparr>"
  have ne: "\<not> ws_end (c # cs)" using assms(4) by (simp add: ws_end_def is_ctrl_def)
  have char: "OutputString_char (int W) (int H) (c # cs) d = Inr (ws', int W \<le> ?C + idx, ?d1)"
    using assms(4) run(1) cast
    by (simp add: OutputString_char_def is_ctrl_def Let_def del: print_run.simps)
  have in1: "in_loop W H rs d0 ?d1" using run(2,3) sa rest by (simp add: in_loop_def)
  note prog = print_progress [OF run(1) assms(4) col s(6)]
  show ?thesis
  proof (cases "?C + idx < int W")
    case True
    with char have "OutputString_char (int W) (int H) (c # cs) d = Inr (ws', False, ?d1)" by simp
    from run_loop_step [OF ne this]
    have "OutputString_run (Loop (int W) (int H)) (c # cs) d = OutputString_run (Loop (int W) (int H)) ws' ?d1" .
    moreover have "ready W H rs d0 ?d1" using in1 True col run(4) by (simp add: ready_def)
    moreover have "work ws' ?d1 < work (c # cs) d" using prog True by (auto simp: work_def)
    moreover have "t_write W (c # cs) (term_of d) = t_write W ws' (term_of ?d1)"
      using run(6) True unfolding same by (simp del: t_write.simps)
    ultimately show ?thesis by blast
  next
    case False
    with char have ch: "OutputString_char (int W) (int H) (c # cs) d = Inr (ws', True, ?d1)" by simp
    from wrap_call [OF in1 assms(2)] obtain d2 where d2:
      "OutputString_run Enter mCrLfString (?d1\<lparr>TxtOutLock := False\<rparr>) = Some (Inr (EFI_SUCCESS, d2))"
      "in_loop W H rs d0 (d2\<lparr>TxtOutLock := True\<rparr>)" "\<not> TxtOutLock d2"
      "term_of d2 = t_newline W (term_of ?d1)" "CursorColumn d2 = 0"
      by blast
    have "TxtOutLock ?d1" using rest(3) by simp
    from run_loop_wrap [OF ne ch this d2(1,3)]
    have "OutputString_run (Loop (int W) (int H)) (c # cs) d
        = OutputString_run (Loop (int W) (int H)) ws' (d2\<lparr>TxtOutLock := True\<rparr>)" .
    moreover have "ready W H rs d0 (d2\<lparr>TxtOutLock := True\<rparr>)"
      unfolding ready_def using d2(2,5) s(8) by simp
    moreover have "work ws' (d2\<lparr>TxtOutLock := True\<rparr>) < work (c # cs) d"
      using prog assms(3) d2(5) by (auto simp: work_def)
    moreover have "t_write W (c # cs) (term_of d) = t_write W ws' (term_of (d2\<lparr>TxtOutLock := True\<rparr>))"
      using run(6) False d2(4) unfolding same by (simp del: t_write.simps)
    ultimately show ?thesis by blast
  qed
qed

lemma loop_sim:
  assumes "ready W H rs d0 d" and "mode_is W H d0" and "2 \<le> W"
  shows "\<exists>d'. OutputString_run (Loop (int W) (int H)) ws d = Some (Inr (EFI_SUCCESS, d'))
     \<and> ready W H rs d0 d' \<and> term_of d' = t_write W ws (term_of d)"
  using assms(1)
proof (induction "work ws d" arbitrary: ws d rule: less_induct)
  case less
  show ?case
  proof (cases "ws_end ws")
    case True
    then have "t_write W ws (term_of d) = term_of d" by (auto simp: ws_end_def split: list.splits)
    with True less.prems show ?thesis by (auto simp: run_loop_end)
  next
    case False
    then obtain c cs where ws: "ws = c # cs" "c \<noteq> CHAR_NULL" by (cases ws) (auto simp: ws_end_def)
    have "\<exists>ws' d1. OutputString_run (Loop (int W) (int H)) ws d
        = OutputString_run (Loop (int W) (int H)) ws' d1
     \<and> ready W H rs d0 d1 \<and> work ws' d1 < work ws d
     \<and> t_write W ws (term_of d) = t_write W ws' (term_of d1)"
    proof (cases "is_ctrl c")
      case True
      from ctrl_step [OF less.prems True ws(2), of cs] obtain d1 where d1:
        "OutputString_char (int W) (int H) ws d = Inr (cs, False, d1)"
        "ready W H rs d0 d1" "term_of d1 = t_char W c (term_of d)"
        unfolding ws(1) by blast
      with run_loop_step [OF False d1(1)] ws show ?thesis
        by (intro exI [of _ cs] exI [of _ d1]) (simp add: work_def)
    next
      case False
      from print_step [OF less.prems assms(2,3) False, of cs] show ?thesis unfolding ws(1) .
    qed
    then obtain ws' d1 where step: "OutputString_run (Loop (int W) (int H)) ws d
        = OutputString_run (Loop (int W) (int H)) ws' d1" "ready W H rs d0 d1"
        "work ws' d1 < work ws d" "t_write W ws (term_of d) = t_write W ws' (term_of d1)"
      by blast
    from less.hyps [OF step(3,2)] show ?thesis unfolding step(1,4) .
  qed
qed

text \<open>
  A device that is ready for output: in a mode of \<open>W\<close> columns and \<open>H\<close> rows with a screen
  buffer of that size, the cursor inside it, the lock free.
\<close>

definition con_ready :: "nat \<Rightarrow> nat \<Rightarrow> addr list \<Rightarrow> VIRTUAL_CONSOLE_DEV \<Rightarrow> bool" where
  "con_ready W H rs d \<longleftrightarrow> screen_at W H rs d \<and> mem_ok d \<and> mode_is W H d \<and> \<not> TxtOutLock d
     \<and> 0 \<le> CursorColumn d \<and> CursorColumn d < int W"

lemma OutputString_sim:
  assumes "con_ready W H rs d" and "2 \<le> W"
  shows "\<exists>d'. OutputString ws d = Some (Inr (EFI_SUCCESS, d')) \<and> con_ready W H rs d'
     \<and> term_of d' = (t_write W ws (term_of d))\<lparr>t_attr := Attribute d\<rparr>
     \<and> core d' = core d \<and> grows_hist rs d d'"
proof -
  let ?d = "d\<lparr>TxtOutLock := True\<rparr>"
  have m: "mode_is W H d" "\<not> TxtOutLock d" using assms(1) by (simp_all add: con_ready_def)
  have "ready W H rs d ?d" using assms(1) by (simp add: ready_def con_ready_def)
  from loop_sim [OF this m(1) assms(2), of ws] obtain d1 where d1:
    "OutputString_run (Loop (int W) (int H)) ws ?d = Some (Inr (EFI_SUCCESS, d1))"
    "ready W H rs d d1" "term_of d1 = t_write W ws (term_of d)"
    by auto
  let ?d' = "d1\<lparr>Attribute := Attribute d, TxtOutLock := False\<rparr>"
  from d1(2) have c: "core d1 = core d" "TxtOutLock d1" by (simp_all add: ready_def in_loop_def)
  have "mode_is W H ?d'" using mode_is_core [of ?d' d W H] c(1) m(1) by simp
  with d1(2) have "con_ready W H rs ?d'" by (simp add: ready_def in_loop_def con_ready_def)
  moreover have "OutputString ws d = Some (Inr (EFI_SUCCESS, ?d'))"
    unfolding OutputString_def by (rule run_enter [OF m d1(1) c(2)])
  ultimately show ?thesis using d1(2,3) by (intro exI [of _ ?d']) (simp add: ready_def in_loop_def)
qed

end
