(* ===== verification/Con_Out_Ops.thy ===== *)
theory Con_Out_Ops
  imports Con_Out_Props
begin

unbundle bit_operations_syntax

text \<open>
  The other operations of \<open>VirtualConOut.c\<close> on a well-formed device: clearing and mode
  switching, the cursor, the attribute, reading the screen back.
\<close>

section \<open>Clearing the screen\<close>

lemma fill_step:
  "k < length xs \<Longrightarrow> (replicate k z @ drop k xs)[k := z] = replicate (Suc k) z @ drop (Suc k) xs"
  by (simp add: list_update_append replicate_app_Cons_same flip: Cons_nth_drop_Suc)

lemma clear_first_row:
  assumes "screen_at W H rs d" and "k \<le> W"
  shows "\<exists>p. mfold (\<lambda>i. store_cell 0 (int i) z) [0..<k] d = Inr (d\<lparr>Pool := p\<rparr>)
     \<and> screen_at W H rs (d\<lparr>Pool := p\<rparr>) \<and> mem_ok (d\<lparr>Pool := p\<rparr>) = mem_ok d
     \<and> rows_of (heap p) rs = (rows_of (heap (Pool d)) rs)[0 :=
          replicate k z @ drop k (rows_of (heap (Pool d)) rs ! 0)]"
  using assms(2)
proof (induction k)
  case 0
  with assms(1) show ?case by (intro exI [of _ "Pool d"]) simp
next
  case (Suc k)
  let ?R = "rows_of (heap (Pool d)) rs"
  note sa = screen_atD [OF assms(1)]
  have H: "0 < length rs" using sa by auto
  from Suc obtain p where p: "mfold (\<lambda>i. store_cell 0 (int i) z) [0..<k] d = Inr (d\<lparr>Pool := p\<rparr>)"
      "screen_at W H rs (d\<lparr>Pool := p\<rparr>)" "mem_ok (d\<lparr>Pool := p\<rparr>) = mem_ok d"
      "rows_of (heap p) rs = ?R[0 := replicate k z @ drop k (?R ! 0)]"
    by (meson Suc_leD)
  let ?d = "d\<lparr>Pool := p\<rparr>"
  let ?f = "\<lambda>ys. if k < length ys then Inr (ys[k := z]) else Inl OutOfBounds"
  have f: "\<forall>ys. length ys = W \<longrightarrow> ?f ys = Inr (ys[k := z]) \<and> length (ys[k := z]) = W"
    using Suc.prems by simp
  have "0 < int H" using H sa(2) by simp
  then obtain q where q: "with_pool (pool_update (rs ! nat 0) ?f) ?d = Inr (?d\<lparr>Pool := q\<rparr>)"
      "screen_at W H rs (?d\<lparr>Pool := q\<rparr>)" "mem_ok (?d\<lparr>Pool := q\<rparr>) = mem_ok ?d"
      "rows_of (heap q) rs = (rows_of (heap (Pool ?d)) rs)[nat 0 := (rows_of (heap (Pool ?d)) rs ! nat 0)[k := z]]"
    using pool_update_row [OF p(2) order_refl _ f] by blast
  have "store_cell 0 (int k) z ?d = Inr (?d\<lparr>Pool := q\<rparr>)"
    using q(1) H sb_row_ok [OF p(2), of 0] \<open>0 < int H\<close> by (simp add: store_cell_def StoreElem_def with_pool_def)
  moreover have "rows_of (heap q) rs = ?R[0 := replicate (Suc k) z @ drop (Suc k) (?R ! 0)]"
    using q(4) p(4) H fill_step [of k "?R ! 0" z] valid_rowsD(2) [OF sa(3) H] Suc.prems by simp
  ultimately show ?case using p(1,3) q(2,3)
    by (intro exI [of _ q]) (simp add: mfold_append)
qed

lemma clear_screen_sim:
  assumes "screen_at W H rs d"
  shows "\<exists>p. VirtualConsoleClearScreen (int W) (int H) a d = Inr (d\<lparr>Pool := p\<rparr>)
     \<and> screen_at W H rs (d\<lparr>Pool := p\<rparr>) \<and> mem_ok (d\<lparr>Pool := p\<rparr>) = mem_ok d
     \<and> rows_of (heap p) rs = replicate H (replicate W \<lparr>ch_Char = CHAR_NULL, ch_Attribute = a\<rparr>)"
proof -
  let ?z = "\<lparr>ch_Char = CHAR_NULL, ch_Attribute = a\<rparr>"
  let ?R = "rows_of (heap (Pool d)) rs"
  note sa = screen_atD [OF assms]
  have H: "0 < length rs" "0 < H" using sa by auto
  from clear_first_row [OF assms order_refl, of ?z] obtain p where p:
    "mfold (\<lambda>i. store_cell 0 (int i) ?z) [0..<W] d = Inr (d\<lparr>Pool := p\<rparr>)"
    "screen_at W H rs (d\<lparr>Pool := p\<rparr>)" "mem_ok (d\<lparr>Pool := p\<rparr>) = mem_ok d"
    "rows_of (heap p) rs = ?R[0 := replicate W ?z @ drop W (?R ! 0)]"
    by blast
  note sp = screen_atD [OF p(2)]
  have vp: "valid_rows (heap p) W rs" "H \<le> length rs" using sp(2,3) by simp_all
  have hd: "hd (rows_of (heap p) rs) = replicate W ?z"
    using p(4) H valid_rowsD(2) [OF sa(3) H(1)] by (cases ?R) (auto simp: rows_of_def)
  from efi_pool.clone_first [OF vp(1) H(2) vp(2)] obtain q where q:
      "mfold (\<lambda>i. CopyMem (rs ! i) (rs ! 0) W) [1..<H] p = Inr q"
      "rows_of (heap q) rs = replicate H (hd (rows_of (heap p) rs)) @ drop H (rows_of (heap p) rs)"
      "valid_rows (heap q) W rs" "\<forall>a. a \<notin> set rs \<longrightarrow> heap q a = heap p a"
      "(nxt q, avail q, junk q) = (nxt p, avail p, junk p)"
    by blast
  have "mfold (\<lambda>i d. rbind (sb_row d (int i)) (\<lambda>dst. rbind (sb_row d 0) (\<lambda>src.
           with_pool (CopyMem dst src W) d))) [1..<H] (d\<lparr>Pool := p\<rparr>)
      = rbind (mfold (\<lambda>i. CopyMem (rs ! i) (rs ! 0) W) [1..<H] p) (\<lambda>q. Inr (d\<lparr>Pool := q\<rparr>))"
    using sa(1,2) H by (intro mfold_with_pool) (auto simp: sb_row_def)
  then have "VirtualConsoleClearScreen (int W) (int H) a d = Inr (d\<lparr>Pool := q\<rparr>)"
    using p(1) q(1) by (simp add: VirtualConsoleClearScreen_def)
  moreover have "pool_ok q" using q(4,5) sp(9) vp(1) pool_ok_frame [of p W rs q] by simp
  then have "screen_at W H rs (d\<lparr>Pool := q\<rparr>)" using sp q(3) by (simp add: screen_at_def)
  moreover have "mem_ok (d\<lparr>Pool := q\<rparr>) = mem_ok d" using p(3) q(5) by (simp add: mem_ok_def)
  moreover have "rows_of (heap q) rs = replicate H (replicate W ?z)"
    using q(2) hd sp(2) by simp
  ultimately show ?thesis by blast
qed

lemma con_readyD:
  assumes "con_ready W H rs d"
  shows "screen_at W H rs d" "mem_ok d" "mode_is W H d" "\<not> TxtOutLock d"
    "0 \<le> CursorColumn d" "CursorColumn d < int W"
  using assms by (simp_all add: con_ready_def)

definition blank_screen :: "nat \<Rightarrow> nat \<Rightarrow> 32 word \<Rightarrow> nat \<Rightarrow> term_state" where
  "blank_screen W H a n = \<lparr>t_grid = replicate H (replicate W \<lparr>ch_Char = CHAR_NULL, ch_Attribute = scast a\<rparr>),
     t_col = 0, t_row = 0, t_attr = a, t_scrolled = n\<rparr>"

lemma mode_data_upd [simp]:
  "mode_data (d\<lparr>TxtOutLock := b\<rparr>) i = mode_data d i" "mode_data (d\<lparr>Pool := p\<rparr>) i = mode_data d i"
  "mode_data (d\<lparr>ScreenBuffer := s\<rparr>) i = mode_data d i"
  "mode_data (d\<lparr>ScreenHistory := h\<rparr>) i = mode_data d i"
  "mode_data (d\<lparr>CursorColumn := c\<rparr>) i = mode_data d i" "mode_data (d\<lparr>CursorRow := r\<rparr>) i = mode_data d i"
  "mode_data (d\<lparr>Mode := m\<rparr>) i = mode_data d i" "mode_data (d\<lparr>Attribute := a\<rparr>) i = mode_data d i"
  by (simp_all add: mode_data_def)

lemma mode_is_upd [simp]:
  "mode_is W H (d\<lparr>TxtOutLock := b\<rparr>) = mode_is W H d" "mode_is W H (d\<lparr>Pool := p\<rparr>) = mode_is W H d"
  "mode_is W H (d\<lparr>CursorColumn := c\<rparr>) = mode_is W H d" "mode_is W H (d\<lparr>CursorRow := r\<rparr>) = mode_is W H d"
  "mode_is W H (d\<lparr>Attribute := a\<rparr>) = mode_is W H d"
  "mode_is W H (d\<lparr>ScreenHistory := h\<rparr>) = mode_is W H d"
  by (simp_all add: mode_is_def)

lemma ClearScreen_sim:
  assumes "con_ready W H rs d"
  shows "\<exists>d'. ClearScreen d = Inr (EFI_SUCCESS, d') \<and> con_ready W H rs d'
     \<and> term_of d' = blank_screen W H (Attribute d) (length (ScreenHistory d)) \<and> core d' = core d
     \<and> ScreenHistory d' = ScreenHistory d"
proof -
  note c = con_readyD [OF assms]
  note s = screen_atD [OF c(1)]
  let ?d = "d\<lparr>TxtOutLock := True\<rparr>"
  have "screen_at W H rs ?d" using c(1) by simp
  from clear_screen_sim [OF this, of "scast (Attribute d)"] obtain p where p:
    "VirtualConsoleClearScreen (int W) (int H) (scast (Attribute d)) ?d = Inr (?d\<lparr>Pool := p\<rparr>)"
    "screen_at W H rs (?d\<lparr>Pool := p\<rparr>)" "mem_ok (?d\<lparr>Pool := p\<rparr>) = mem_ok ?d"
    "rows_of (heap p) rs = replicate H (replicate W \<lparr>ch_Char = CHAR_NULL, ch_Attribute = scast (Attribute d)\<rparr>)"
    by blast
  let ?d' = "?d\<lparr>Pool := p, CursorColumn := 0, CursorRow := 0, TxtOutLock := False\<rparr>"
  have "ClearScreen d = Inr (EFI_SUCCESS, ?d')"
    using c(3,4) p(1) by (simp add: ClearScreen_def mode_is_def lock_defs)
  moreover have "con_ready W H rs ?d'" using p(2,3) c s by (simp add: con_ready_def screen_at_def mem_ok_def)
  moreover have "term_of ?d' = blank_screen W H (Attribute d) (length (ScreenHistory d))"
    using p(4) s(1) by (simp add: term_of_def blank_screen_def)
  ultimately show ?thesis by (intro exI [of _ ?d']) simp
qed

text \<open>Stores and copies neither allocate nor free.\<close>

definition live :: "VIRTUAL_CONSOLE_DEV \<Rightarrow> addr set" where
  "live d = dom (heap (Pool d))"

lemma pool_update_live: "with_pool (pool_update a f) d = Inr d' \<Longrightarrow> live d' = live d"
  by (auto simp: with_pool_def pool_update_def pool_read_def live_def rbind_eq_Inr split: option.splits if_splits)

lemma CopyMem_live: "with_pool (CopyMem a b n) d = Inr d' \<Longrightarrow> live d' = live d"
  by (auto simp: with_pool_def pool_defs live_def rbind_eq_Inr split: option.splits if_splits)

lemma store_cell_live: "store_cell r c x d = Inr d' \<Longrightarrow> live d' = live d"
  by (auto simp: store_cell_def with_pool_def pool_defs live_def rbind_eq_Inr
      split: option.splits if_splits)

lemma mfold_live:
  assumes "\<And>i d d'. f i d = Inr d' \<Longrightarrow> live d' = live d" and "mfold f is d = Inr d'"
  shows "live d' = live d"
  using assms(2) by (induction "is" arbitrary: d) (auto simp: rbind_eq_Inr dest: assms(1))

lemma clear_screen_live:
  assumes "VirtualConsoleClearScreen c r a d = Inr d'" shows "live d' = live d"
proof -
  from assms obtain d1 where d1:
    "mfold (\<lambda>i. store_cell 0 (int i) \<lparr>ch_Char = CHAR_NULL, ch_Attribute = a\<rparr>) [0..<nat c] d = Inr d1"
    "mfold (\<lambda>i d. rbind (sb_row d (int i)) (\<lambda>dst. rbind (sb_row d 0) (\<lambda>src.
       with_pool (CopyMem dst src (nat c)) d))) [1..<nat r] d1 = Inr d'"
    unfolding VirtualConsoleClearScreen_def by (auto simp: rbind_eq_Inr)
  have "live d' = live d1"
    by (rule mfold_live [OF _ d1(2)]) (auto simp: rbind_eq_Inr dest: CopyMem_live)
  also have "\<dots> = live d" by (rule mfold_live [OF _ d1(1)]) (rule store_cell_live)
  finally show ?thesis .
qed

section \<open>Switching the mode\<close>

text \<open>The screen buffer a device has: none before the first mode, one row per line after it.\<close>

definition old_rows :: "VIRTUAL_CONSOLE_DEV \<Rightarrow> addr list" where
  "old_rows d = (if Mode d = -1 then [] else the (ScreenBuffer d))"

definition buf_ok :: "VIRTUAL_CONSOLE_DEV \<Rightarrow> bool" where
  "buf_ok d \<longleftrightarrow> pool_ok (Pool d) \<and> (Mode d \<noteq> -1 \<longrightarrow> (\<exists>W H rs. mode_is W H d \<and> ScreenBuffer d = Some rs
     \<and> length rs = H \<and> valid_rows (heap (Pool d)) W rs))"

lemma con_ready_buf_ok: "con_ready W H rs d \<Longrightarrow> buf_ok d"
  unfolding buf_ok_def con_ready_def screen_at_def by blast

definition freed :: "addr list \<Rightarrow> 'c pool \<Rightarrow> 'c pool" where
  "freed rs p = p\<lparr>heap := (\<lambda>a. if a \<in> set rs then None else heap p a)\<rparr>"

lemma FreePool_rows:
  assumes "valid_rows (heap p) W rs" and "k \<le> length rs"
  shows "mfold (\<lambda>i. FreePool (rs ! i)) [0..<k] p = Inr (freed (take k rs) p)"
  using assms(2)
proof (induction k)
  case 0
  then show ?case by (simp add: freed_def)
next
  case (Suc k)
  then have k: "k < length rs" by simp
  have "rs ! k \<notin> set (take k rs)"
    using valid_rows_distinct [OF assms(1)] k
    by (metis distinct_take id_take_nth_drop not_distinct_conv_prefix take_Suc_conv_app_nth Suc_leI
        distinct.simps(2) distinct_append list.set_intros(1) disjoint_iff)
  moreover have "heap p (rs ! k) \<noteq> None" using valid_rowsD(1) [OF assms(1) k] by simp
  ultimately have "FreePool (rs ! k) (freed (take k rs) p) = Inr (freed (take (Suc k) rs) p)"
    using k by (auto simp: FreePool_def freed_def take_Suc_conv_app_nth fun_eq_iff)
  with Suc show ?case by (simp add: mfold_append)
qed

lemma free_screen:
  assumes "valid_rows (heap (Pool d)) W rs" and "ScreenBuffer d = Some rs"
  shows "mfold (\<lambda>i d. rbind (sb_row d (int i)) (\<lambda>a. with_pool (FreePool a) d)) [0..<length rs] d
     = Inr (d\<lparr>Pool := freed rs (Pool d)\<rparr>)"
proof -
  have "mfold (\<lambda>i d. rbind (sb_row d (int i)) (\<lambda>a. with_pool (FreePool a) d)) [0..<length rs]
       (d\<lparr>Pool := Pool d\<rparr>)
     = rbind (mfold (\<lambda>i. FreePool (rs ! i)) [0..<length rs] (Pool d)) (\<lambda>q. Inr (d\<lparr>Pool := q\<rparr>))"
    using assms(2) by (intro mfold_with_pool) (auto simp: sb_row_def)
  then show ?thesis using FreePool_rows [OF assms(1) order_refl] by simp
qed

text \<open>The block an allocation returns, and the pool after \<open>n\<close> of them.\<close>

fun grown :: "nat \<Rightarrow> nat \<Rightarrow> 'c pool \<Rightarrow> 'c pool" where
  "grown W 0 p = p"
| "grown W (Suc n) p = (let q = grown W n p in
     q\<lparr>heap := (heap q)(nxt q := Some (map (junk q (nxt q)) [0..<W])), nxt := Suc (nxt q)\<rparr>)"

lemma grown_simps [simp]:
  "nxt (grown W n p) = nxt p + n" "avail (grown W n p) = avail p" "junk (grown W n p) = junk p"
  by (induction n) (simp_all add: Let_def)

lemma grown_heap: "heap (grown W n p) a =
    (if nxt p \<le> a \<and> a < nxt p + n then Some (map (junk p a) [0..<W]) else heap p a)"
  by (induction n) (auto simp: Let_def)

lemma valid_grown: "valid_rows (heap (grown W n p)) W [nxt p..<nxt p + n]"
  by (simp add: valid_rows_def list_all_iff grown_heap)

lemma pool_ok_grown: "pool_ok p \<Longrightarrow> pool_ok (grown W n p)"
  by (simp add: pool_ok_def grown_heap)

lemma pool_ok_freed: "pool_ok p \<Longrightarrow> pool_ok (freed rs p)"
  by (simp add: pool_ok_def freed_def)

lemma alloc_rows:
  assumes "\<forall>a. avail p a"
  shows "mfold (\<lambda>_. alloc_row (int W)) [0..<n] (d\<lparr>Pool := p, ScreenBuffer := Some []\<rparr>)
     = Inr (d\<lparr>Pool := grown W n p, ScreenBuffer := Some [nxt p..<nxt p + n]\<rparr>)"
  using assms by (induction n) (simp_all add: mfold_append alloc_row_def AllocatePool_def Let_def)

text \<open>
  What \<open>switch_mode\<close> leaves behind: the old rows freed, one address used for the pointer
  array, then the new rows.
\<close>

definition switched :: "nat \<Rightarrow> nat \<Rightarrow> VIRTUAL_CONSOLE_DEV \<Rightarrow> VIRTUAL_CONSOLE_CHAR pool" where
  "switched W H d = grown W H (freed (old_rows d) (Pool d)\<lparr>nxt := Suc (nxt (Pool d))\<rparr>)"

definition new_rows :: "nat \<Rightarrow> VIRTUAL_CONSOLE_DEV \<Rightarrow> addr list" where
  "new_rows H d = [Suc (nxt (Pool d))..<Suc (nxt (Pool d)) + H]"

lemma switch_mode_ok:
  assumes "buf_ok d" and "mem_ok d" and "ScreenHistory d = []"
  shows "switch_mode n \<lparr>Columns = int W, Rows = int H\<rparr> d
     = Inr (d\<lparr>ScreenHistory := [], Pool := switched W H d, ScreenBuffer := Some (new_rows H d),
              Mode := int32 n, CursorColumn := 0, CursorRow := 0\<rparr>)"
proof -
  let ?p = "freed (old_rows d) (Pool d)"
  let ?q = "?p\<lparr>nxt := Suc (nxt (Pool d))\<rparr>"
  have av: "\<forall>a. avail ?q a" "nxt ?p = nxt (Pool d)" "avail ?p = avail (Pool d)"
    using assms(2) by (simp_all add: mem_ok_def freed_def)
  have hist: "VirtualConsoleClearHistory d = Inr (d\<lparr>ScreenHistory := []\<rparr>)"
    using assms(3) by (simp add: VirtualConsoleClearHistory_def)
  let ?d = "d\<lparr>ScreenHistory := []\<rparr>"
  have rows: "mfold (\<lambda>_. alloc_row (int W)) [0..<H] (?d\<lparr>Pool := ?q, ScreenBuffer := Some []\<rparr>)
     = Inr (?d\<lparr>Pool := switched W H d, ScreenBuffer := Some (new_rows H d)\<rparr>)"
    using alloc_rows [OF av(1), of W H ?d] by (simp add: switched_def new_rows_def)
  show ?thesis
  proof (cases "Mode d = -1")
    case True
    then have "?p = Pool d" by (simp add: old_rows_def freed_def)
    with True hist rows assms(2) show ?thesis
      by (simp add: switch_mode_def pool_reserve_def mem_ok_def)
  next
    case False
    with assms(1) obtain W0 rs where old: "mode_is W0 (length rs) d" "ScreenBuffer d = Some rs"
      "valid_rows (heap (Pool d)) W0 rs" by (auto simp: buf_ok_def)
    then have rs: "old_rows d = rs" using False by (simp add: old_rows_def)
    have "mfold (\<lambda>i d. rbind (sb_row d (int i)) (\<lambda>a. with_pool (FreePool a) d)) [0..<length rs] ?d
        = Inr (?d\<lparr>Pool := ?p\<rparr>)"
      using free_screen [of ?d W0 rs] old(2,3) rs by simp
    with False hist rows old(1,2) av assms(2) show ?thesis
      by (simp add: switch_mode_def pool_reserve_def mem_ok_def mode_is_def)
  qed
qed

text \<open>A mode the device can be put in: number \<open>n\<close> of its table, of \<open>W\<close> columns and \<open>H\<close> rows.\<close>

definition has_mode :: "int \<Rightarrow> nat \<Rightarrow> nat \<Rightarrow> VIRTUAL_CONSOLE_DEV \<Rightarrow> bool" where
  "has_mode n W H d \<longleftrightarrow> 0 \<le> n \<and> n < MaxMode d \<and> MaxMode d < 2 ^ 31
     \<and> mode_data d n = Inr \<lparr>Columns = int W, Rows = int H\<rparr>
     \<and> 0 < W \<and> W + 1 < 2 ^ 31 \<and> 0 < H \<and> H < 2 ^ 31"

lemma has_mode_casts: "has_mode n W H d \<Longrightarrow> int32 n = n \<and> uintn (MaxMode d) = MaxMode d"
  by (simp add: has_mode_def casts)

lemma SetMode_switch_sim:
  assumes "buf_ok d" and "mem_ok d" and "ScreenHistory d = []" and "\<not> TxtOutLock d"
    and "has_mode n W H d" and "n \<noteq> Mode d"
  shows "\<exists>d'. SetMode n d = Inr (EFI_SUCCESS, d') \<and> con_ready W H (new_rows H d) d' \<and> Mode d' = n
     \<and> term_of d' = blank_screen W H (Attribute d) 0 \<and> ScreenHistory d' = []
     \<and> SimpleTextOutputModeData d' = SimpleTextOutputModeData d \<and> MaxMode d' = MaxMode d
     \<and> TxtInLock d' = TxtInLock d
     \<and> live d' = live d - set (old_rows d) \<union> set (new_rows H d)"
proof -
  note m = assms(5) [unfolded has_mode_def] and ca = has_mode_casts [OF assms(5)]
  let ?d1 = "d\<lparr>TxtOutLock := True\<rparr>"
  let ?rs = "new_rows H d"
  let ?d2 = "?d1\<lparr>ScreenHistory := [], Pool := switched W H d, ScreenBuffer := Some ?rs,
              Mode := n, CursorColumn := 0, CursorRow := 0\<rparr>"
  have b1: "buf_ok ?d1" using assms(1) by (simp add: buf_ok_def)
  have sw: "switched W H ?d1 = switched W H d" "new_rows H ?d1 = ?rs"
    by (simp_all add: switched_def new_rows_def old_rows_def)
  have switch: "switch_mode n \<lparr>Columns = int W, Rows = int H\<rparr> ?d1 = Inr ?d2"
    using switch_mode_ok [OF b1, of n W H] assms(2,3) ca by (simp add: sw)
  have pk: "pool_ok (freed (old_rows d) (Pool d)\<lparr>nxt := Suc (nxt (Pool d))\<rparr>)"
    using assms(1) pool_ok_freed [of "Pool d" "old_rows d"]
    by (simp add: buf_ok_def pool_ok_def freed_def)
  have sa: "screen_at W H ?rs ?d2"
    using m pool_ok_grown [OF pk] valid_grown [of W H "freed (old_rows d) (Pool d)\<lparr>nxt := Suc (nxt (Pool d))\<rparr>"]
    by (simp add: screen_at_def switched_def new_rows_def)
  from clear_screen_sim [OF this, of "scast (Attribute d)"] obtain p where p:
    "VirtualConsoleClearScreen (int W) (int H) (scast (Attribute d)) ?d2 = Inr (?d2\<lparr>Pool := p\<rparr>)"
    "screen_at W H ?rs (?d2\<lparr>Pool := p\<rparr>)" "mem_ok (?d2\<lparr>Pool := p\<rparr>) = mem_ok ?d2"
    "rows_of (heap p) ?rs = replicate H (replicate W \<lparr>ch_Char = CHAR_NULL, ch_Attribute = scast (Attribute d)\<rparr>)"
    by blast
  let ?d' = "?d2\<lparr>Pool := p, TxtOutLock := False\<rparr>"
  have "SetMode n d = Inr (EFI_SUCCESS, ?d')"
    using m ca assms(4,6) switch p(1) by (simp add: SetMode_def lock_defs)
  moreover have "mem_ok ?d2" using assms(2) by (simp add: mem_ok_def switched_def freed_def)
  then have "con_ready W H ?rs ?d'"
    using p(2,3) m by (simp add: con_ready_def mode_is_def screen_at_def mem_ok_def mode_data_def)
  moreover have "term_of ?d' = blank_screen W H (Attribute d) 0"
    using p(4) by (simp add: term_of_def blank_screen_def)
  moreover have "live ?d' = live d - set (old_rows d) \<union> set ?rs"
  proof -
    have "live ?d' = live ?d2" using clear_screen_live [OF p(1)] by (simp add: live_def)
    also have "\<dots> = live d - set (old_rows d) \<union> set ?rs"
      by (auto simp: live_def switched_def new_rows_def grown_heap freed_def split: if_splits)
    finally show ?thesis .
  qed
  ultimately show ?thesis by (intro exI [of _ ?d']) simp
qed

text \<open>Setting the mode the device is in clears the screen and leaves the cursor where it is.\<close>

lemma SetMode_same_sim:
  assumes "con_ready W H rs d" and "has_mode (Mode d) W H d"
  shows "\<exists>d'. SetMode (Mode d) d = Inr (EFI_SUCCESS, d') \<and> con_ready W H rs d'
     \<and> term_of d' = (blank_screen W H (Attribute d) (length (ScreenHistory d)))
          \<lparr>t_col := t_col (term_of d), t_row := t_row (term_of d)\<rparr>
     \<and> core d' = core d \<and> ScreenHistory d' = ScreenHistory d"
proof -
  note c = con_readyD [OF assms(1)] and m = assms(2) [unfolded has_mode_def]
  note s = screen_atD [OF c(1)] and ca = has_mode_casts [OF assms(2)]
  let ?d = "d\<lparr>TxtOutLock := True\<rparr>"
  have "screen_at W H rs ?d" using c(1) by simp
  from clear_screen_sim [OF this, of "scast (Attribute d)"] obtain p where p:
    "VirtualConsoleClearScreen (int W) (int H) (scast (Attribute d)) ?d = Inr (?d\<lparr>Pool := p\<rparr>)"
    "screen_at W H rs (?d\<lparr>Pool := p\<rparr>)" "mem_ok (?d\<lparr>Pool := p\<rparr>) = mem_ok ?d"
    "rows_of (heap p) rs = replicate H (replicate W \<lparr>ch_Char = CHAR_NULL, ch_Attribute = scast (Attribute d)\<rparr>)"
    by blast
  let ?d' = "?d\<lparr>Pool := p, TxtOutLock := False\<rparr>"
  have "SetMode (Mode d) d = Inr (EFI_SUCCESS, ?d')"
    using m ca c(4) p(1) by (simp add: SetMode_def lock_defs)
  moreover have "con_ready W H rs ?d'" using p(2,3) c s by (simp add: con_ready_def mem_ok_def screen_at_def)
  moreover have "term_of ?d' = (blank_screen W H (Attribute d) (length (ScreenHistory d)))
      \<lparr>t_col := t_col (term_of d), t_row := t_row (term_of d)\<rparr>"
    using p(4) s(1) by (simp add: term_of_def blank_screen_def)
  ultimately show ?thesis by (intro exI [of _ ?d']) simp
qed

section \<open>Cursor and attribute\<close>

lemma SetCursorPosition_cases:
  assumes "con_ready W H rs d" and "0 \<le> c" and "0 \<le> r"
  shows "SetCursorPosition c r d = Inr (if c < int W \<and> r < int H
     then (EFI_SUCCESS, d\<lparr>CursorColumn := c, CursorRow := r\<rparr>) else (EFI_UNSUPPORTED, d))"
proof -
  note k = con_readyD [OF assms(1)]
  have lock: "d\<lparr>TxtOutLock := False\<rparr> = d" using k(4) by (cases d) simp
  note s = screen_atD [OF k(1)]
  show ?thesis
  proof (cases "c < int W \<and> r < int H")
    case True
    with s assms(2,3) have "int32 c = c" "int32 r = r" by (simp_all add: casts)
    moreover have "d\<lparr>TxtOutLock := True, CursorColumn := c, CursorRow := r, TxtOutLock := False\<rparr>
       = d\<lparr>CursorColumn := c, CursorRow := r\<rparr>" using k(4) by (cases d) simp
    ultimately show ?thesis
      using True k(3,4) by (simp add: SetCursorPosition_def mode_is_def lock_defs)
  next
    case False
    then show ?thesis using k(3,4) lock by (auto simp: SetCursorPosition_def mode_is_def lock_defs)
  qed
qed

lemma SetAttribute_cases:
  assumes "\<not> TxtOutLock d"
  shows "SetAttribute a d = Inr (if a AND NOT 0x7F = 0
     then (EFI_SUCCESS, d\<lparr>Attribute := ucast a\<rparr>) else (EFI_UNSUPPORTED, d))"
proof -
  have "(a OR 0x7F = 0x7F) = (a AND NOT 0x7F = 0)"
    by (auto simp: bit_eq_iff bit_simps)
  moreover have "d\<lparr>TxtOutLock := True, Attribute := ucast a, TxtOutLock := False\<rparr>
     = d\<lparr>Attribute := ucast a\<rparr>" using assms by (cases d) simp
  ultimately show ?thesis using assms by (simp add: SetAttribute_def lock_defs)
qed

section \<open>Reading the screen back\<close>

lemma mfold_map: "mfold f (map g xs) s = mfold (\<lambda>x. f (g x)) xs s"
proof (induction xs arbitrary: s)
  case (Cons x xs)
  then have "mfold f (map g xs) = mfold (\<lambda>x. f (g x)) xs" by (simp add: fun_eq_iff)
  then show ?case by simp
qed simp

lemma put_lines:
  assumes "\<forall>a\<in>set as. \<exists>xs. heap (Pool d) a = Some xs \<and> length xs = W"
    and "(line + length as) * W \<le> length buf"
  shows "mfold (put_line W d) as (line, buf)
     = Inr (line + length as, take (line * W) buf @ concat (rows_of (heap (Pool d)) as)
                              @ drop ((line + length as) * W) buf)"
  using assms
proof (induction as arbitrary: line buf)
  case Nil
  then show ?case by (simp add: rows_of_def)
next
  case (Cons a as)
  from Cons.prems(1) obtain xs where xs: "heap (Pool d) a = Some xs" "length xs = W" by auto
  let ?buf = "take (line * W) buf @ xs @ drop (line * W + W) buf"
  have fit: "line * W + W \<le> length buf" using Cons.prems(2) by (simp add: algebra_simps)
  have len: "length ?buf = length buf" using fit xs(2) by simp
  have "put_line W d a (line, buf) = Inr (Suc line, ?buf)"
    using xs fit by (simp add: put_line_def pool_read_def)
  moreover have "mfold (put_line W d) as (Suc line, ?buf)
     = Inr (Suc line + length as, take (Suc line * W) ?buf @ concat (rows_of (heap (Pool d)) as)
                              @ drop ((Suc line + length as) * W) ?buf)"
    using Cons.prems len by (intro Cons.IH) (simp_all add: algebra_simps)
  moreover have "take (Suc line * W) ?buf = take (line * W) buf @ xs"
    using fit xs(2) by (simp add: add.commute min_def)
  moreover have "drop ((Suc line + length as) * W) ?buf = drop ((line + length (a # as)) * W) buf"
    using fit xs(2) by (simp add: algebra_simps)
  ultimately show ?case using xs(1) by (simp add: rows_of_def)
qed

lemma screen_lines:
  assumes "ScreenBuffer d = Some rs"
  shows "mfold (\<lambda>i s. rbind (sb_row d (int i)) (\<lambda>a. put_line W d a s)) [0..<length rs] s
     = mfold (put_line W d) rs s"
proof -
  have "mfold (\<lambda>i s. rbind (sb_row d (int i)) (\<lambda>a. put_line W d a s)) [0..<length rs] s
      = mfold (\<lambda>i. put_line W d (rs ! i)) [0..<length rs] s"
    using assms by (intro mfold_cong) (simp add: sb_row_def)
  also have "\<dots> = mfold (put_line W d) (map ((!) rs) [0..<length rs]) s" by (simp add: mfold_map)
  finally show ?thesis by (simp add: map_nth)
qed

text \<open>
  The lines a read returns: the history lines first when they are asked for. The history
  holds pointers, so what it shows is what the rows hold now.
\<close>

definition shown :: "bool \<Rightarrow> VIRTUAL_CONSOLE_DEV \<Rightarrow> addr list" where
  "shown hist d = (if hist then ScreenHistory d else []) @ the (ScreenBuffer d)"

definition hist_ok :: "addr list \<Rightarrow> VIRTUAL_CONSOLE_DEV \<Rightarrow> bool" where
  "hist_ok rs d \<longleftrightarrow> set (ScreenHistory d) \<subseteq> set rs"

lemma screen_need:
  assumes "con_ready W H rs d" and "has_mode (Mode d) W H d"
    and "W * length (shown hist d) < 2 ^ 64"
  shows "QueryMode (uintn (Mode d)) d = Inr (EFI_SUCCESS, Some (int W, int H))"
    and "uintn (int W * ((if hist then int (length (ScreenHistory d)) else 0) + int H))
      = int (W * length (shown hist d))"
proof -
  note c = con_readyD [OF assms(1)] and m = assms(2) [unfolded has_mode_def]
  note s = screen_atD [OF c(1)] and ca = has_mode_casts [OF assms(2)]
  have "uintn (Mode d) = Mode d" using m by (simp add: casts)
  then show "QueryMode (uintn (Mode d)) d = Inr (EFI_SUCCESS, Some (int W, int H))"
    using m ca by (simp add: QueryMode_def)
  let ?hs = "if hist then ScreenHistory d else []"
  have len: "length (shown hist d) = length ?hs + H" using s by (simp add: shown_def)
  have "W * (length ?hs + H) < 2 ^ 64" using assms(3) by (simp add: len)
  then show "uintn (int W * ((if hist then int (length (ScreenHistory d)) else 0) + int H))
      = int (W * length (shown hist d))"
    unfolding len
    by (subst uintn_id)
       (auto simp: of_nat_less_iff [symmetric, where 'a = int] simp del: of_nat_less_iff split: if_splits)
qed

lemma GetScreen_sim:
  assumes "con_ready W H rs d" and "has_mode (Mode d) W H d" and "hist_ok rs d"
    and "W * length (shown hist d) < 2 ^ 64" and "W * length (shown hist d) \<le> length b"
  shows "GetScreen (Some b) (Some (int (length b))) hist d
     = Inr (EFI_SUCCESS, Some (concat (rows_of (heap (Pool d)) (shown hist d))
                               @ drop (W * length (shown hist d)) b),
            Some (int (W * length (shown hist d))), d)"
proof -
  note c = con_readyD [OF assms(1)]
  note s = screen_atD [OF c(1)] and need = screen_need [OF assms(1,2,4)]
  let ?hs = "if hist then ScreenHistory d else []" and ?d = "d\<lparr>TxtOutLock := True\<rparr>"
  let ?out = "concat (rows_of (heap (Pool d)) (shown hist d)) @ drop (W * length (shown hist d)) b"
  have sh: "?hs @ rs = shown hist d" using s(1) by (simp add: shown_def)
  have "\<forall>a\<in>set (shown hist d). \<exists>xs. heap (Pool ?d) a = Some xs \<and> length xs = W"
    using s(1,3) assms(3) by (auto simp: valid_rows_def list_all_iff shown_def hist_ok_def)
  from put_lines [OF this, of 0 b] have "mfold (put_line W ?d) (?hs @ rs) (0, b)
      = Inr (length (shown hist d), ?out)"
    unfolding sh using assms(5) by (simp add: mult.commute)
  moreover have "mfold (\<lambda>i s. rbind (sb_row ?d (int i)) (\<lambda>a. put_line W ?d a s)) [0..<H] t
      = mfold (put_line W ?d) rs t" for t
    using screen_lines [of ?d rs W t] s(1,2) by simp
  ultimately obtain s1 where s1: "mfold (put_line W ?d) ?hs (0, b) = Inr s1"
    "mfold (\<lambda>i s. rbind (sb_row ?d (int i)) (\<lambda>a. put_line W ?d a s)) [0..<H] s1
      = Inr (length (shown hist d), ?out)"
    unfolding mfold_append rbind_eq_Inr by auto
  have lock: "d\<lparr>TxtOutLock := False\<rparr> = d" using c(4) by (cases d) simp
  have "\<not> int (length b) < int (W * length (shown hist d))" using assms(5) by (simp flip: of_nat_mult)
  with need c(4) s1 lock show ?thesis
    by (cases hist) (simp_all add: GetScreen_def Let_def lock_defs)
qed

lemma GetScreen_small:
  assumes "con_ready W H rs d" and "has_mode (Mode d) W H d"
    and "W * length (shown hist d) < 2 ^ 64" and "n < W * length (shown hist d)"
  shows "GetScreen b (Some (int n)) hist d
     = Inr (EFI_BUFFER_TOO_SMALL, b, Some (int (W * length (shown hist d))), d)"
proof -
  have "int n < int (W * length (shown hist d))" using assms(4) by (simp flip: of_nat_mult)
  with screen_need [OF assms(1-3)] show ?thesis by (simp add: GetScreen_def Let_def)
qed

end
