(* ===== verification/Con_Out_Thms.thy ===== *)
theory Con_Out_Thms
  imports Con_Out_Ops
begin

unbundle bit_operations_syntax

text \<open>
  The properties of the text output protocol, each with an application to a small device
  (\<open>sample_dev\<close>, two modes, a screen of two rows of four cells).
\<close>

section \<open>A small device\<close>

definition sample_pool :: "VIRTUAL_CONSOLE_CHAR pool" where
  "sample_pool = \<lparr>heap = [0 \<mapsto> replicate 4 blank_char, 1 \<mapsto> replicate 4 blank_char], nxt = 2,
     avail = (\<lambda>_. True), junk = (\<lambda>_ _. blank_char)\<rparr>"

definition sample_dev :: VIRTUAL_CONSOLE_DEV where
  "sample_dev = \<lparr>MaxMode = 3, Mode = 0, Attribute = 7, CursorColumn = 0, CursorRow = 1,
     CursorVisible = True, Handle = Some 1, WaitForKey = None, WaitForKeyEx = None,
     SimpleTextOutputModeData = Some [\<lparr>Columns = 4, Rows = 2\<rparr>, \<lparr>Columns = 3, Rows = 3\<rparr>, \<lparr>Columns = 4, Rows = 0\<rparr>],
     TxtOutLock = False, ScreenHistory = [], ScreenBuffer = Some [0, 1], TxtInLock = False,
     KeyQueue = [], KeyNotifyList = [], DevKeyToggleState = 0, Pool = sample_pool\<rparr>"

lemma sample_ready: "con_ready 4 2 [0, 1] sample_dev"
  by (simp add: con_ready_def screen_at_def mem_ok_def mode_is_def mode_data_def pool_ok_def
      valid_rows_def sample_dev_def sample_pool_def)

lemma sample_modes: "has_mode 0 4 2 sample_dev" "has_mode 1 3 3 sample_dev"
  by (simp_all add: has_mode_def mode_data_def sample_dev_def)

lemma sample_simps [simp]:
  "Mode sample_dev = 0" "MaxMode sample_dev = 3" "ScreenHistory sample_dev = []"
  "\<not> TxtOutLock sample_dev" "Attribute sample_dev = 7"
  by (simp_all add: sample_dev_def)

section \<open>OutputString\<close>

text \<open>
  C1. \<open>OutputString\<close> implements the reference terminal: on a device in a mode of at least two
  columns it terminates for every string, reports success, leaves on the screen and in the
  cursor exactly what writing the string character by character to the terminal leaves,
  restores the attribute, releases the lock, keeps the device well formed, touches nothing
  else, and adds to the history only the pointer of the first row.
\<close>

theorem OutputString_refines_terminal:
  assumes "con_ready W H rs d" and "2 \<le> W"
  shows "\<exists>d'. OutputString ws d = Some (Inr (EFI_SUCCESS, d')) \<and> con_ready W H rs d'
     \<and> term_of d' = (t_write W ws (term_of d))\<lparr>t_attr := Attribute d\<rparr>
     \<and> core d' = core d \<and> grows_hist rs d d'"
  by (rule OutputString_sim [OF assms])

theorem OutputString_refines_terminal_witness:
  "\<exists>d'. OutputString [65, WIDE_CHAR, 66, 67, 10] sample_dev = Some (Inr (EFI_SUCCESS, d'))
     \<and> con_ready 4 2 [0, 1] d' \<and> term_of d' = (t_write 4 [65, WIDE_CHAR, 66, 67, 10] (term_of sample_dev))\<lparr>t_attr := 7\<rparr>
     \<and> core d' = core sample_dev \<and> grows_hist [0, 1] sample_dev d'"
  using OutputString_refines_terminal [OF sample_ready, of "[65, WIDE_CHAR, 66, 67, 10]"] by simp

text \<open>
  The loop that never ends. In a mode of one column a wide character never fits; the loop
  wraps the line in front of it for ever.
\<close>

definition stuck :: "nat \<Rightarrow> addr list \<Rightarrow> VIRTUAL_CONSOLE_DEV \<Rightarrow> out_phase \<Rightarrow> wstr \<Rightarrow> VIRTUAL_CONSOLE_DEV \<Rightarrow> bool" where
  "stuck H rs d0 ph ws d \<longleftrightarrow> ph = Loop 1 (int H) \<and> in_loop 1 H rs d0 d \<and> mode_is 1 H d0
     \<and> wide_on d \<and> CursorColumn d = 0 \<and> (\<exists>c cs. ws = c # cs \<and> \<not> is_ctrl c)"

lemma stuck_char:
  assumes "stuck H rs d0 ph ws d"
  shows "\<not> ws_end ws" and "OutputString_char 1 (int H) ws d = Inr (ws, True, d\<lparr>CursorColumn := 2\<rparr>)"
proof -
  from assms obtain c cs where ws: "ws = c # cs" "\<not> is_ctrl c" "wide_on d" "CursorColumn d = 0"
    by (auto simp: stuck_def)
  then show "\<not> ws_end ws" by (simp add: ws_end_def is_ctrl_def)
  have "uintn 0 = 0" "uintn 2 = 2" "int32 2 = 2" "int32 1 = 1" by (simp_all add: casts)
  with ws show "OutputString_char 1 (int H) ws d = Inr (ws, True, d\<lparr>CursorColumn := 2\<rparr>)"
    by (simp add: OutputString_char_def is_ctrl_def Let_def)
qed

lemma stuck_next:
  assumes "stuck H rs d0 ph ws d"
  shows "\<exists>d'. OutputString_run Enter mCrLfString (d\<lparr>CursorColumn := 2, TxtOutLock := False\<rparr>)
        = Some (Inr (EFI_SUCCESS, d'))
     \<and> \<not> TxtOutLock d' \<and> stuck H rs d0 ph ws (d'\<lparr>TxtOutLock := True\<rparr>)"
proof -
  from assms have "in_loop 1 H rs d0 (d\<lparr>CursorColumn := 2\<rparr>)" "mode_is 1 H d0"
    by (simp_all add: stuck_def in_loop_def)
  from wrap_call [OF this] obtain d' where
    "OutputString_run Enter mCrLfString (d\<lparr>CursorColumn := 2, TxtOutLock := False\<rparr>) = Some (Inr (EFI_SUCCESS, d'))"
    "in_loop 1 H rs d0 (d'\<lparr>TxtOutLock := True\<rparr>)" "\<not> TxtOutLock d'" "CursorColumn d' = 0"
    "Attribute d' = Attribute d"
    by auto
  with assms show ?thesis by (intro exI [of _ d']) (simp add: stuck_def wide_on_def)
qed

lemma stuck_diverges_aux:
  assumes "OutputString_run ph ws d = Some y"
  shows "OutputString_run ph ws d = Some y \<and> \<not> stuck H rs d0 ph ws d"
proof (rule OutputString_run.raw_induct
    [where P = "\<lambda>ph ws d y. OutputString_run ph ws d = Some y \<and> \<not> stuck H rs d0 ph ws d", OF _ assms], goal_cases)
  case (1 f ph ws d y)
  have IH: "OutputString_run ph' ws' d' = Some y'" "\<not> stuck H rs d0 ph' ws' d'"
    if "f ph' ws' d' = Some y'" for ph' ws' d' y'
    using 1(1) [OF that] by simp_all
  have "OutputString_run ph ws d = Some y"
  proof (cases ph)
    case Enter
    show ?thesis using 1(2) IH(1) unfolding Enter
      by (subst OutputString_run.simps)
         (auto split: if_splits sum.splits prod.splits simp: bind_eq_Some_conv)
  next
    case (Loop m n)
    show ?thesis
    proof (cases "ws_end ws")
      case True
      with 1(2) show ?thesis unfolding Loop by (subst OutputString_run.simps) simp
    next
      case False
      show ?thesis
      proof (cases "OutputString_char m n ws d")
        case (Inl e)
        with 1(2) False show ?thesis unfolding Loop by (subst OutputString_run.simps) simp
      next
        case (Inr t)
        obtain ws' wraps d1 where t: "t = (ws', wraps, d1)" by (cases t)
        show ?thesis
        proof (cases "wraps \<and> (\<exists>d2. release_out d1 = Inr d2)")
          case True
          then obtain d2 where d2: "release_out d1 = Inr d2" by blast
          with True False Inr t 1(2) obtain r where r: "f Enter mCrLfString d2 = Some r"
            "(case rbind r (\<lambda>(_, d3). acquire_out d3) of Inl f \<Rightarrow> Some (Inl f)
               | Inr d4 \<Rightarrow> f (Loop m n) ws' d4) = Some y"
            unfolding Loop by (auto simp: bind_eq_Some_conv)
          with True False Inr t d2 IH(1) [OF r(1)] show ?thesis unfolding Loop
            by (subst OutputString_run.simps) (auto split: sum.splits dest: IH(1))
        next
          case no: False
          with False Inr t 1(2) show ?thesis unfolding Loop
            by (subst OutputString_run.simps) (auto split: sum.splits if_splits dest: IH(1))
        qed
      qed
    qed
  qed
  moreover have "\<not> stuck H rs d0 ph ws d"
  proof
    assume st: "stuck H rs d0 ph ws d"
    from stuck_next [OF st] obtain d' where d': "OutputString_run Enter mCrLfString
        (d\<lparr>CursorColumn := 2, TxtOutLock := False\<rparr>) = Some (Inr (EFI_SUCCESS, d'))"
      "\<not> TxtOutLock d'" "stuck H rs d0 ph ws (d'\<lparr>TxtOutLock := True\<rparr>)" by blast
    have ph: "ph = Loop 1 (int H)" "TxtOutLock d" using st by (simp_all add: stuck_def in_loop_def)
    from 1(2) stuck_char [OF st] ph obtain r where r:
      "f Enter mCrLfString (d\<lparr>CursorColumn := 2, TxtOutLock := False\<rparr>) = Some r"
      "(case rbind r (\<lambda>(_, d3). acquire_out d3) of Inl f \<Rightarrow> Some (Inl f)
        | Inr d4 \<Rightarrow> f ph ws d4) = Some y"
      by (auto simp: release_out_def bind_eq_Some_conv)
    from IH(1) [OF r(1)] d'(1) have "r = Inr (EFI_SUCCESS, d')" by simp
    with r(2) d'(2) have "f ph ws (d'\<lparr>TxtOutLock := True\<rparr>) = Some y"
      by (simp add: acquire_out_def)
    with IH(2) d'(3) show False by blast
  qed
  ultimately show ?case by blast
qed

lemma stuck_diverges: "stuck H rs d0 ph ws d \<Longrightarrow> OutputString_run ph ws d = None"
  using stuck_diverges_aux [of ph ws d] by (cases "OutputString_run ph ws d") auto

text \<open>
  \<open>OutputString\<close> never returns when it is asked to print a wide character in a mode of one
  column (which \<open>SetMode\<close> accepts): the string \<open>WIDE_CHAR\<close>, any printable character, anything.
\<close>

theorem OutputString_diverges_one_column:
  assumes "con_ready 1 H rs d" and "\<not> is_ctrl c"
  shows "OutputString (WIDE_CHAR # c # cs) d = None"
proof -
  note k = con_readyD [OF assms(1)]
  let ?d = "d\<lparr>TxtOutLock := True\<rparr>"
  let ?d1 = "?d\<lparr>Attribute := Attribute d OR EFI_WIDE_ATTRIBUTE\<rparr>"
  have "wide_on ?d1"
    by (simp add: wide_on_def EFI_WIDE_ATTRIBUTE_def bit_eq_iff bit_simps) (rule exI [of _ 7], simp add: bit_simps)
  then have st: "stuck H rs d (Loop 1 (int H)) (c # cs) ?d1"
    using k assms(2) by (simp add: stuck_def in_loop_def)
  have "OutputString_char 1 (int H) (WIDE_CHAR # c # cs) ?d = Inr (c # cs, False, ?d1)"
    by (simp add: OutputString_char_def char_defs)
  then have "OutputString_run (Loop 1 (int H)) (WIDE_CHAR # c # cs) ?d
      = OutputString_run (Loop 1 (int H)) (c # cs) ?d1"
    by (intro run_loop_step) (simp_all add: ws_end_def char_defs)
  also have "\<dots> = None" by (rule stuck_diverges [OF st])
  finally have "OutputString_run (Loop 1 (int H)) (WIDE_CHAR # c # cs) ?d = None" .
  with k(3,4) show ?thesis
    unfolding OutputString_def by (subst OutputString_run.simps) (simp add: mode_is_def lock_defs)
qed

definition narrow_dev :: VIRTUAL_CONSOLE_DEV where
  "narrow_dev = sample_dev\<lparr>SimpleTextOutputModeData := Some [\<lparr>Columns = 1, Rows = 2\<rparr>],
     Pool := sample_pool\<lparr>heap := [0 \<mapsto> [blank_char], 1 \<mapsto> [blank_char]]\<rparr>\<rparr>"

lemma narrow_ready: "con_ready 1 2 [0, 1] narrow_dev"
  by (simp add: con_ready_def screen_at_def mem_ok_def mode_is_def mode_data_def pool_ok_def
      valid_rows_def narrow_dev_def sample_dev_def sample_pool_def)

theorem OutputString_diverges_one_column_witness:
  "OutputString [WIDE_CHAR, 65] narrow_dev = None"
  using OutputString_diverges_one_column [OF narrow_ready, of 65 "[]"]
  by (simp add: is_ctrl_def char_defs)

section \<open>The screen and its history\<close>

lemma has_mode_core:
  assumes "core d' = core d" shows "has_mode n W H d' = has_mode n W H d" and "Mode d' = Mode d"
proof -
  have "MaxMode d' = MaxMode d" "Mode d' = Mode d" "SimpleTextOutputModeData d' = SimpleTextOutputModeData d"
    using arg_cong [OF assms, of MaxMode] arg_cong [OF assms, of Mode]
      arg_cong [OF assms, of SimpleTextOutputModeData] by (simp_all add: core_def)
  then show "has_mode n W H d' = has_mode n W H d" "Mode d' = Mode d"
    by (simp_all add: has_mode_def mode_data_def)
qed

lemma area_bound: "con_ready W H rs d \<Longrightarrow> W * H < 2 ^ 64"
proof -
  assume "con_ready W H rs d"
  note s = screen_atD [OF con_readyD(1) [OF this]]
  have "W \<le> 2 ^ 31" "H \<le> 2 ^ 31" using s(6,7) by simp_all
  then have "W * H \<le> 2 ^ 31 * 2 ^ 31" by (rule mult_le_mono)
  then show ?thesis by simp
qed

lemma shown_False: "con_ready W H rs d \<Longrightarrow> shown False d = rs \<and> length rs = H
    \<and> rows_of (heap (Pool d)) rs = t_grid (term_of d)"
  using screen_atD(1,2) [OF con_readyD(1)] by (simp add: shown_def term_of_def)

lemma written_screen:
  assumes "con_ready W H rs d" and "2 \<le> W" and "has_mode (Mode d) W H d" and "ScreenHistory d = []"
  obtains d' where "OutputString ws d = Some (Inr (EFI_SUCCESS, d'))" and "con_ready W H rs d'" and "has_mode (Mode d') W H d'"
    and "hist_ok rs d'" and "length (shown False d') = H" and "W * length (shown False d') < 2 ^ 64"
    and "rows_of (heap (Pool d')) (shown False d') = t_grid (t_write W ws (term_of d))"
proof -
  from OutputString_sim [OF assms(1,2), of ws] obtain d' where d':
    "OutputString ws d = Some (Inr (EFI_SUCCESS, d'))" "con_ready W H rs d'"
    "term_of d' = (t_write W ws (term_of d))\<lparr>t_attr := Attribute d\<rparr>" "core d' = core d" "grows_hist rs d d'"
    by blast
  have m: "has_mode (Mode d') W H d'" using assms(3) has_mode_core [OF d'(4)] by simp
  have "0 < H" using screen_atD(4,5) [OF con_readyD(1) [OF assms(1)]] by simp
  then have "rs \<noteq> []" using shown_False [OF assms(1)] by auto
  then have h: "hist_ok rs d'"
    using d'(5) assms(4) by (cases rs) (auto simp: hist_ok_def grows_hist_def)
  note sh = shown_False [OF d'(2)]
  have "W * length (shown False d') < 2 ^ 64" using area_bound [OF d'(2)] sh by simp
  then show ?thesis using that [OF d'(1,2) m h] sh d'(3) by simp
qed

text \<open>
  C4. What is written can be read back: after \<open>OutputString\<close>, \<open>GetScreen\<close> without history
  fills the caller's buffer with the rows of the reference terminal, one after the other,
  leaves the rest of the buffer and the device alone and reports the number of cells.
\<close>

theorem OutputString_GetScreen:
  assumes "con_ready W H rs d" and "2 \<le> W" and "has_mode (Mode d) W H d"
    and "ScreenHistory d = []" and "W * H \<le> length b"
  shows "\<exists>d'. OutputString ws d = Some (Inr (EFI_SUCCESS, d'))
     \<and> GetScreen (Some b) (Some (int (length b))) False d'
          = Inr (EFI_SUCCESS, Some (concat (t_grid (t_write W ws (term_of d))) @ drop (W * H) b),
                 Some (int (W * H)), d')"
proof -
  obtain d' where d': "OutputString ws d = Some (Inr (EFI_SUCCESS, d'))" "con_ready W H rs d'" "has_mode (Mode d') W H d'" "hist_ok rs d'"
      "length (shown False d') = H" "W * length (shown False d') < 2 ^ 64"
      "rows_of (heap (Pool d')) (shown False d') = t_grid (t_write W ws (term_of d))"
    by (rule written_screen [OF assms(1-4)])
  then show ?thesis using GetScreen_sim [OF d'(2-4,6), of b] assms(5) by (intro exI [of _ d']) simp
qed

theorem OutputString_GetScreen_witness:
  "\<exists>d'. OutputString [65, 66] sample_dev = Some (Inr (EFI_SUCCESS, d'))
     \<and> GetScreen (Some (replicate 8 blank_char)) (Some 8) False d'
          = Inr (EFI_SUCCESS, Some (concat (t_grid (t_write 4 [65, 66] (term_of sample_dev)))), Some 8, d')"
  using OutputString_GetScreen [OF sample_ready, of "replicate 8 blank_char" "[65, 66]"] sample_modes
  by simp

text \<open>
  The two-step protocol of \<open>GetScreen\<close>: a call with too small a count changes nothing and
  reports the number of cells needed; a second call with a buffer of that size succeeds and
  returns the lines, the history first when it is asked for.
\<close>

theorem GetScreen_retry:
  assumes "con_ready W H rs d" and "has_mode (Mode d) W H d" and "hist_ok rs d"
    and "W * length (shown hist d) < 2 ^ 64" and "n < W * length (shown hist d)"
  shows "\<exists>need. GetScreen b (Some (int n)) hist d = Inr (EFI_BUFFER_TOO_SMALL, b, Some (int need), d)
     \<and> (\<forall>b'. length b' = need \<longrightarrow> GetScreen (Some b') (Some (int need)) hist d
          = Inr (EFI_SUCCESS, Some (concat (rows_of (heap (Pool d)) (shown hist d))), Some (int need), d))"
proof (intro exI [of _ "W * length (shown hist d)"] conjI allI impI)
  show "GetScreen b (Some (int n)) hist d
      = Inr (EFI_BUFFER_TOO_SMALL, b, Some (int (W * length (shown hist d))), d)"
    by (rule GetScreen_small [OF assms(1,2,4,5)])
next
  fix b' :: "VIRTUAL_CONSOLE_CHAR list"
  assume "length b' = W * length (shown hist d)"
  with GetScreen_sim [OF assms(1-4), of b']
  show "GetScreen (Some b') (Some (int (W * length (shown hist d)))) hist d
      = Inr (EFI_SUCCESS, Some (concat (rows_of (heap (Pool d)) (shown hist d))),
             Some (int (W * length (shown hist d))), d)" by simp
qed

theorem GetScreen_retry_witness:
  "\<exists>need. GetScreen None (Some 3) True sample_dev = Inr (EFI_BUFFER_TOO_SMALL, None, Some (int need), sample_dev)
     \<and> (\<forall>b'. length b' = need \<longrightarrow> GetScreen (Some b') (Some (int need)) True sample_dev
          = Inr (EFI_SUCCESS, Some (concat (rows_of (heap (Pool sample_dev)) [0, 1])), Some (int need), sample_dev))"
  using GetScreen_retry [OF sample_ready, of True 3 None] sample_modes
  by (simp add: hist_ok_def shown_def) (simp add: sample_dev_def)

text \<open>
  C8. What the history really holds. Every line scrolled off is recorded as a pointer to the
  first row of the screen, so reading the screen with its history after a write returns, for
  each scrolled line, a copy of the row that is on top now.
\<close>

theorem history_shows_top_row:
  assumes "con_ready W H rs d" and "2 \<le> W" and "has_mode (Mode d) W H d" and "ScreenHistory d = []"
    and "t = t_write W ws (term_of d)" and "n = W * (t_scrolled t + H)" and "n < 2 ^ 64"
  shows "\<exists>d'. OutputString ws d = Some (Inr (EFI_SUCCESS, d'))
     \<and> (\<forall>b. length b = n \<longrightarrow> GetScreen (Some b) (Some (int n)) True d'
          = Inr (EFI_SUCCESS, Some (concat (replicate (t_scrolled t) (hd (t_grid t)) @ t_grid t)),
                 Some (int n), d'))"
proof -
  from OutputString_sim [OF assms(1,2), of ws] obtain d' where d':
    "OutputString ws d = Some (Inr (EFI_SUCCESS, d'))" "con_ready W H rs d'"
    "term_of d' = t\<lparr>t_attr := Attribute d\<rparr>" "core d' = core d" "grows_hist rs d d'"
    unfolding assms(5) by blast
  have "length (ScreenHistory d') = t_scrolled t"
    using arg_cong [OF d'(3), of t_scrolled] by (simp add: term_of_def)
  with d'(5) assms(4) have k: "ScreenHistory d' = replicate (t_scrolled t) (hd rs)"
    by (auto simp: grows_hist_def)
  have m: "has_mode (Mode d') W H d'" using assms(3) has_mode_core [OF d'(4)] by simp
  have "0 < H" using screen_atD(4,5) [OF con_readyD(1) [OF assms(1)]] by simp
  then have ne: "rs \<noteq> []" using shown_False [OF assms(1)] by auto
  then have h: "hist_ok rs d'" using k by (cases rs) (auto simp: hist_ok_def)
  have grid: "rows_of (heap (Pool d')) rs = t_grid t" "length rs = H"
    using shown_False [OF d'(2)] d'(3) by simp_all
  have sh: "shown True d' = replicate (t_scrolled t) (hd rs) @ rs"
    using k screen_atD(1) [OF con_readyD(1) [OF d'(2)]] by (simp add: shown_def)
  have rows: "rows_of (heap (Pool d')) (shown True d')
      = replicate (t_scrolled t) (hd (t_grid t)) @ t_grid t"
    unfolding sh grid(1) [symmetric] using ne by (cases rs) (simp_all add: rows_of_def)
  have "length b = n \<Longrightarrow> GetScreen (Some b) (Some (int n)) True d'
          = Inr (EFI_SUCCESS, Some (concat (rows_of (heap (Pool d')) (shown True d'))),
                 Some (int n), d')" for b
    using GetScreen_sim [OF d'(2) m h, of True b] sh grid(2) assms(6,7) by simp
  with d'(1) show ?thesis unfolding rows by (intro exI [of _ d']) simp
qed

lemma replicate_4: "replicate 4 x = [x, x, x, x]"
  by (simp add: numeral_eq_Suc)

lemma sample_write: "t_write 4 [65, 10, 66] (term_of sample_dev) =
    \<lparr>t_grid = [[\<lparr>ch_Char = 65, ch_Attribute = 7\<rparr>, blank_char, blank_char, blank_char],
               [blank_char, \<lparr>ch_Char = 66, ch_Attribute = 7\<rparr>, blank_char, blank_char]],
     t_col = 2, t_row = 1, t_attr = 7, t_scrolled = 1\<rparr>"
  by (simp add: t_char_def char_defs t_linefeed_def t_put_def t_store_def Let_def t_wide_def
      EFI_WIDE_ATTRIBUTE_def term_of_def sample_dev_def sample_pool_def rows_of_def replicate_4)

theorem history_shows_top_row_witness:
  "\<exists>d'. OutputString [65, 10, 66] sample_dev = Some (Inr (EFI_SUCCESS, d'))
     \<and> (\<forall>b. length b = 12 \<longrightarrow> GetScreen (Some b) (Some 12) True d'
          = Inr (EFI_SUCCESS,
              Some [\<lparr>ch_Char = 65, ch_Attribute = 7\<rparr>, blank_char, blank_char, blank_char,
                    \<lparr>ch_Char = 65, ch_Attribute = 7\<rparr>, blank_char, blank_char, blank_char,
                    blank_char, \<lparr>ch_Char = 66, ch_Attribute = 7\<rparr>, blank_char, blank_char],
              Some 12, d'))"
  using history_shows_top_row [OF sample_ready, of _ "[65, 10, 66]" 12] sample_modes
  unfolding sample_write by simp

section \<open>Modes\<close>

text \<open>
  C3. Switching to another mode, with an empty history: the device is ready in the new mode,
  blank, with the cursor at the origin, and no memory is lost: the rows of the old screen are
  freed and the rows of the new one are the only new blocks. It holds for the first mode of a
  device (no screen buffer yet) as well.
\<close>

theorem SetMode_switches:
  assumes "buf_ok d" and "mem_ok d" and "ScreenHistory d = []" and "\<not> TxtOutLock d"
    and "has_mode n W H d" and "n \<noteq> Mode d"
  shows "\<exists>d'. SetMode n d = Inr (EFI_SUCCESS, d') \<and> con_ready W H (new_rows H d) d' \<and> Mode d' = n
     \<and> term_of d' = blank_screen W H (Attribute d) 0
     \<and> live d' = live d - set (old_rows d) \<union> set (new_rows H d)"
  using SetMode_switch_sim [OF assms] by blast

theorem SetMode_switches_witness:
  "\<exists>d'. SetMode 1 sample_dev = Inr (EFI_SUCCESS, d') \<and> con_ready 3 3 [3, 4, 5] d' \<and> Mode d' = 1
     \<and> term_of d' = blank_screen 3 3 7 0
     \<and> live d' = live sample_dev - {0, 1} \<union> {3, 4, 5}"
proof -
  have "new_rows 3 sample_dev = [3, 4, 5]" "old_rows sample_dev = [0, 1]"
    by (simp_all add: new_rows_def old_rows_def sample_dev_def sample_pool_def upt_rec numeral_eq_Suc)
  with SetMode_switches [of sample_dev 1 3 3] con_ready_buf_ok [OF sample_ready]
    con_readyD(2) [OF sample_ready] sample_modes(2)
  show ?thesis by simp
qed

text \<open>
  Setting the mode the device is already in blanks the screen with the current attribute
  and keeps the cursor, the history and every block.
\<close>

theorem SetMode_same_mode:
  assumes "con_ready W H rs d" and "has_mode (Mode d) W H d"
  shows "\<exists>d'. SetMode (Mode d) d = Inr (EFI_SUCCESS, d') \<and> con_ready W H rs d'
     \<and> term_of d' = (blank_screen W H (Attribute d) (length (ScreenHistory d)))
          \<lparr>t_col := t_col (term_of d), t_row := t_row (term_of d)\<rparr>
     \<and> core d' = core d \<and> ScreenHistory d' = ScreenHistory d"
  by (rule SetMode_same_sim [OF assms])

theorem SetMode_same_mode_witness:
  "\<exists>d'. SetMode 0 sample_dev = Inr (EFI_SUCCESS, d') \<and> con_ready 4 2 [0, 1] d'
     \<and> term_of d' = (blank_screen 4 2 7 0)\<lparr>t_col := 0, t_row := 1\<rparr>"
  using SetMode_same_mode [OF sample_ready] sample_modes(1)
  by (auto simp: term_of_def sample_dev_def)

lemma FreePool_twice: "FreePool a p = Inr q \<Longrightarrow> heap q a = None"
  by (auto simp: FreePool_def split: option.splits)

lemma clear_history_frees:
  assumes "ScreenHistory d = replicate (Suc k) a"
  shows "VirtualConsoleClearHistory d = Inl DoubleFree
     \<or> (\<exists>p. VirtualConsoleClearHistory d = Inr (d\<lparr>Pool := p, ScreenHistory := []\<rparr>) \<and> heap p a = None)"
proof (cases "FreePool a (Pool d)")
  case (Inl e)
  then have "e = DoubleFree" by (auto simp: FreePool_def split: option.splits)
  with Inl assms show ?thesis by (simp add: VirtualConsoleClearHistory_def with_pool_def)
next
  case (Inr p)
  show ?thesis
  proof (cases k)
    case 0
    with Inr assms FreePool_twice [OF Inr] show ?thesis
      by (intro disjI2 exI [of _ p]) (simp add: VirtualConsoleClearHistory_def with_pool_def)
  next
    case (Suc j)
    with FreePool_twice [OF Inr] have "FreePool a p = Inl DoubleFree" by (simp add: FreePool_def)
    with Inr assms Suc show ?thesis by (simp add: VirtualConsoleClearHistory_def with_pool_def)
  qed
qed

text \<open>
  Once a line has been scrolled off, switching to another mode frees the first row of the
  screen twice: once as a line of the history, once as a row of the screen.
\<close>

theorem SetMode_after_scroll_double_free:
  assumes "con_ready W H rs d" and "has_mode n W' H' d" and "n \<noteq> Mode d"
    and "ScreenHistory d = replicate (Suc k) (hd rs)"
  shows "SetMode n d = Inl DoubleFree"
proof -
  note c = con_readyD [OF assms(1)] and m = assms(2) [unfolded has_mode_def]
  note s = screen_atD [OF c(1)] and ca = has_mode_casts [OF assms(2)]
  let ?d = "d\<lparr>TxtOutLock := True\<rparr>"
  have H: "rs \<noteq> []" "0 < H" using s by auto
  have "switch_mode n \<lparr>Columns = int W', Rows = int H'\<rparr> ?d = Inl DoubleFree"
  proof -
    have "ScreenHistory ?d = replicate (Suc k) (hd rs)" using assms(4) by simp
    from clear_history_frees [OF this] consider "VirtualConsoleClearHistory ?d = Inl DoubleFree"
      | p where "VirtualConsoleClearHistory ?d = Inr (?d\<lparr>Pool := p, ScreenHistory := []\<rparr>)"
          "heap p (hd rs) = None" by blast
    then show ?thesis
    proof cases
      case 1
      then show ?thesis by (simp add: switch_mode_def)
    next
      case 2
      have "[0..<H] = 0 # [1..<H]" using H(2) by (simp add: upt_conv_Cons)
      with 2 c(3) s(1,2) H show ?thesis
        by (simp add: switch_mode_def mode_is_def sb_row_def with_pool_def FreePool_def hd_conv_nth)
    qed
  qed
  with m ca c(4) assms(3) show ?thesis by (simp add: SetMode_def lock_defs)
qed

theorem SetMode_after_scroll_double_free_witness:
  "SetMode 1 (sample_dev\<lparr>ScreenHistory := [0]\<rparr>) = Inl DoubleFree"
proof -
  have "con_ready 4 2 [0, 1] (sample_dev\<lparr>ScreenHistory := [0]\<rparr>)"
    using sample_ready by (simp add: con_ready_def)
  moreover have "has_mode 1 3 3 (sample_dev\<lparr>ScreenHistory := [0]\<rparr>)"
    using sample_modes(2) by (simp add: has_mode_def)
  ultimately show ?thesis
    using SetMode_after_scroll_double_free [of 4 2 "[0, 1]" _ 1 3 3 0] by simp
qed

text \<open>
  \<open>QueryMode\<close> refuses a mode that has columns and no rows; \<open>SetMode\<close> accepts it and then
  clears a first row that does not exist.
\<close>

theorem SetMode_zero_rows_faults:
  assumes "buf_ok d" and "mem_ok d" and "ScreenHistory d = []" and "\<not> TxtOutLock d"
    and "0 \<le> n" and "n < MaxMode d" and "MaxMode d < 2 ^ 31" and "n \<noteq> Mode d" and "0 < W"
    and "mode_data d n = Inr \<lparr>Columns = int W, Rows = 0\<rparr>"
  shows "QueryMode n d = Inr (EFI_UNSUPPORTED, None) \<and> SetMode n d = Inl OutOfBounds"
proof
  have ca: "uintn (MaxMode d) = MaxMode d" "int32 n = n" using assms(5-7) by (simp_all add: casts)
  then show "QueryMode n d = Inr (EFI_UNSUPPORTED, None)"
    using assms(6,10) by (simp add: QueryMode_def)
  let ?d = "d\<lparr>TxtOutLock := True\<rparr>"
  have "buf_ok ?d" using assms(1) by (simp add: buf_ok_def)
  note sw = switch_mode_ok [OF this, of n W 0]
  have "[0..<W] = 0 # [1..<W]" using assms(9) by (simp add: upt_conv_Cons)
  with sw assms ca show "SetMode n d = Inl OutOfBounds"
    by (simp add: SetMode_def lock_defs VirtualConsoleClearScreen_def store_cell_def sb_row_def new_rows_def)
qed

theorem SetMode_zero_rows_faults_witness:
  "QueryMode 2 sample_dev = Inr (EFI_UNSUPPORTED, None) \<and> SetMode 2 sample_dev = Inl OutOfBounds"
  using SetMode_zero_rows_faults [of sample_dev 2 4] con_ready_buf_ok [OF sample_ready]
    con_readyD(2) [OF sample_ready]
  by (simp add: mode_data_def) (simp add: sample_dev_def)

section \<open>Cursor, attribute, clearing\<close>

text \<open>
  \<open>ClearScreen\<close> blanks every cell with the current attribute and homes the cursor;
  \<open>SetCursorPosition\<close> then moves it to any cell of the mode and refuses every other
  position, leaving the device as it was.
\<close>

theorem ClearScreen_then_cursor:
  assumes "con_ready W H rs d" and "0 \<le> c" and "0 \<le> r"
  shows "\<exists>d'. ClearScreen d = Inr (EFI_SUCCESS, d') \<and> con_ready W H rs d'
     \<and> term_of d' = blank_screen W H (Attribute d) (length (ScreenHistory d)) \<and> core d' = core d
     \<and> SetCursorPosition c r d' = Inr (if c < int W \<and> r < int H
         then (EFI_SUCCESS, d'\<lparr>CursorColumn := c, CursorRow := r\<rparr>) else (EFI_UNSUPPORTED, d'))"
proof -
  from ClearScreen_sim [OF assms(1)] obtain d' where d': "ClearScreen d = Inr (EFI_SUCCESS, d')"
    "con_ready W H rs d'" "term_of d' = blank_screen W H (Attribute d) (length (ScreenHistory d))"
    "core d' = core d" by blast
  with SetCursorPosition_cases [OF d'(2) assms(2,3)] show ?thesis by blast
qed

theorem ClearScreen_then_cursor_witness:
  "\<exists>d'. ClearScreen sample_dev = Inr (EFI_SUCCESS, d') \<and> con_ready 4 2 [0, 1] d'
     \<and> term_of d' = blank_screen 4 2 7 0 \<and> core d' = core sample_dev
     \<and> SetCursorPosition 4 1 d' = Inr (EFI_UNSUPPORTED, d')"
  using ClearScreen_then_cursor [OF sample_ready, of 4 1] by simp

text \<open>
  \<open>SetAttribute\<close> accepts exactly the attributes that fit in the seven colour bits and
  changes nothing but the attribute; so it can never turn the wide flag on.
\<close>

theorem SetAttribute_colour_bits:
  assumes "\<not> TxtOutLock d"
  shows "SetAttribute a d = Inr (if a AND NOT 0x7F = 0
       then (EFI_SUCCESS, d\<lparr>Attribute := ucast a\<rparr>) else (EFI_UNSUPPORTED, d))
     \<and> (\<forall>d'. SetAttribute a d = Inr (EFI_SUCCESS, d') \<longrightarrow> \<not> wide_on d')"
proof -
  have "\<not> wide_on (d\<lparr>Attribute := ucast a\<rparr>)" if "a AND NOT 0x7F = 0"
  proof -
    have "bit (a AND NOT 0x7F) 7 = bit a 7"
      unfolding bit_and_iff bit_not_iff by (simp add: bit_numeral_rec)
    with that have "\<not> bit a 7" by simp
    moreover have "bit (0x80 :: 32 word) n \<Longrightarrow> n = 7" for n
    proof -
      have "(0x80 :: 32 word) = 2 ^ 7" by simp
      then show "bit (0x80 :: 32 word) n \<Longrightarrow> n = 7" by (simp only: bit_exp_iff)
    qed
    ultimately have "bit (ucast a AND (0x80 :: 32 word)) n \<Longrightarrow> False" for n
      by (auto simp: bit_and_iff bit_ucast_iff)
    then have "ucast a AND (0x80 :: 32 word) = 0" by (intro bit_eqI) auto
    then show ?thesis by (simp add: wide_on_def EFI_WIDE_ATTRIBUTE_def)
  qed
  with SetAttribute_cases [OF assms, of a] show ?thesis by auto
qed

theorem SetAttribute_colour_bits_witness:
  "SetAttribute 0x1F sample_dev = Inr (EFI_SUCCESS, sample_dev\<lparr>Attribute := 0x1F\<rparr>)"
  using SetAttribute_colour_bits [of sample_dev "0x1F"] by simp

end
