(* ===== verification/Con_In_Thms.thy ===== *)
theory Con_In_Thms
  imports Con_In
begin

text \<open>
  The key queue as an interface (\<open>event_queue\<close>: what a producer and a consumer of events rely
  on, whatever the interleaving of their calls), its implementation by the virtual console,
  and the notification list.
\<close>

section \<open>The interface\<close>

datatype 'k queue_op = Enq 'k | Deq

text \<open>
  A run of calls: the keys accepted by the producer's calls and the keys handed to the
  consumer, in order, and the state reached.
\<close>

fun run_queue ::
  "('k \<Rightarrow> 'd \<Rightarrow> (efi_status \<times> 'd) result) \<Rightarrow> ('d \<Rightarrow> (efi_status \<times> 'k \<times> 'd) result)
    \<Rightarrow> 'k queue_op list \<Rightarrow> 'd \<Rightarrow> ('k list \<times> 'k list \<times> 'd) result" where
  "run_queue enq deq [] d = Inr ([], [], d)"
| "run_queue enq deq (Enq k # ops) d =
     rbind (enq k d) (\<lambda>(st, d1). rbind (run_queue enq deq ops d1) (\<lambda>(acc, got, d2).
       Inr ((if EFI_ERROR st then acc else k # acc), got, d2)))"
| "run_queue enq deq (Deq # ops) d =
     rbind (deq d) (\<lambda>(st, k, d1). rbind (run_queue enq deq ops d1) (\<lambda>(acc, got, d2).
       Inr (acc, (if EFI_ERROR st then got else k # got), d2)))"

locale event_queue =
  fixes enq :: "'k \<Rightarrow> 'd \<Rightarrow> (efi_status \<times> 'd) result"
    and deq :: "'d \<Rightarrow> (efi_status \<times> 'k \<times> 'd) result"
    and queue :: "'d \<Rightarrow> 'k list"
    and ok :: "'d \<Rightarrow> bool"
  assumes enq_law: "ok d \<Longrightarrow> \<exists>st d'. enq k d = Inr (st, d') \<and> ok d'
      \<and> (if EFI_ERROR st then queue d' = queue d else queue d' = queue d @ [k])"
    and deq_empty: "ok d \<Longrightarrow> queue d = [] \<Longrightarrow> \<exists>st k. deq d = Inr (st, k, d) \<and> EFI_ERROR st"
    and deq_first: "ok d \<Longrightarrow> queue d = k # ks
      \<Longrightarrow> \<exists>st d'. deq d = Inr (st, k, d') \<and> \<not> EFI_ERROR st \<and> queue d' = ks \<and> ok d'"
begin

text \<open>
  First in, first out, for every interleaving: what was in the queue followed by what was
  accepted is what was handed out followed by what is in the queue.
\<close>

lemma fifo:
  assumes "ok d"
  shows "\<exists>acc got d'. run_queue enq deq ops d = Inr (acc, got, d') \<and> ok d'
     \<and> queue d @ acc = got @ queue d'"
  using assms
proof (induction ops arbitrary: d)
  case Nil
  then show ?case by simp
next
  case (Cons op ops)
  show ?case
  proof (cases op)
    case (Enq k)
    from enq_law [OF Cons.prems, of k] obtain st d1 where d1: "enq k d = Inr (st, d1)" "ok d1"
      "if EFI_ERROR st then queue d1 = queue d else queue d1 = queue d @ [k]" by blast
    from Cons.IH [OF d1(2)] obtain acc got d' where
      "run_queue enq deq ops d1 = Inr (acc, got, d')" "ok d'" "queue d1 @ acc = got @ queue d'" by blast
    with Enq d1(1,3) show ?thesis by (cases "EFI_ERROR st") auto
  next
    case Deq
    show ?thesis
    proof (cases "queue d")
      case Nil
      from deq_empty [OF Cons.prems Nil] obtain st k where "deq d = Inr (st, k, d)" "EFI_ERROR st" by blast
      moreover from Cons.IH [OF Cons.prems] obtain acc got d' where
        "run_queue enq deq ops d = Inr (acc, got, d')" "ok d'" "queue d @ acc = got @ queue d'" by blast
      ultimately show ?thesis using Deq by auto
    next
      case q: (Cons k ks)
      from deq_first [OF Cons.prems q] obtain st d1 where d1: "deq d = Inr (st, k, d1)"
        "\<not> EFI_ERROR st" "queue d1 = ks" "ok d1" by blast
      from Cons.IH [OF d1(4)] obtain acc got d' where
        "run_queue enq deq ops d1 = Inr (acc, got, d')" "ok d'" "queue d1 @ acc = got @ queue d'" by blast
      with Deq d1 q show ?thesis by auto
    qed
  qed
qed

text \<open>Reading as often as there are keys in the queue hands out all of them and empties it.\<close>

lemma read_all:
  assumes "ok d"
  shows "\<exists>d'. run_queue enq deq (replicate (length (queue d)) Deq) d = Inr ([], queue d, d')
     \<and> queue d' = [] \<and> ok d'"
  using assms
proof (induction "queue d" arbitrary: d)
  case Nil
  then show ?case by (metis length_0_conv replicate_0 run_queue.simps(1))
next
  case (Cons k ks)
  from deq_first [OF Cons.prems Cons.hyps(2) [symmetric]] obtain st d1 where d1:
    "deq d = Inr (st, k, d1)" "\<not> EFI_ERROR st" "queue d1 = ks" "ok d1" by blast
  from Cons.hyps(1) [OF d1(3) [symmetric] d1(4)] d1 show ?case
    by (auto simp: Cons.hyps(2) [symmetric])
qed

end

section \<open>The virtual console provides it\<close>

definition in_key :: "EFI_KEY_DATA \<Rightarrow> VIRTUAL_CONSOLE_DEV \<Rightarrow> (efi_status \<times> VIRTUAL_CONSOLE_DEV) result" where
  "in_key k d = InputKey (Some k) d"

definition out_key ::
  "EFI_KEY_DATA \<Rightarrow> VIRTUAL_CONSOLE_DEV \<Rightarrow> (efi_status \<times> EFI_KEY_DATA \<times> VIRTUAL_CONSOLE_DEV) result" where
  "out_key k0 d = rbind (ReadKeyStrokeEx (Some k0) d) (\<lambda>(st, k, d). Inr (st, the k, d))"

lemma unlock_in: "\<not> TxtInLock d \<Longrightarrow> d\<lparr>TxtInLock := False\<rparr> = d"
  by (cases d) simp

lemma IsKeyQueueEmpty_ok: "\<not> TxtInLock d \<Longrightarrow> IsKeyQueueEmpty d = Inr (KeyQueue d = [], d)"
  by (simp add: IsKeyQueueEmpty_def lock_defs unlock_in)

lemma DequeKeyData_ok:
  assumes "\<not> TxtInLock d"
  shows "DequeKeyData (Some k0) d = (case KeyQueue d of [] \<Rightarrow> Inr (EFI_NOT_READY, k0, d)
     | k # ks \<Rightarrow> Inr (EFI_SUCCESS, k, d\<lparr>KeyQueue := ks\<rparr>))"
proof -
  have "d\<lparr>TxtInLock := True, KeyQueue := ks, TxtInLock := False\<rparr> = d\<lparr>KeyQueue := ks\<rparr>" for ks
    using assms by (cases d) simp
  with assms show ?thesis
    by (auto simp: DequeKeyData_def IsKeyQueueEmpty_ok lock_defs Let_def split: list.splits)
qed

interpretation vc_keys: event_queue in_key "out_key k0" KeyQueue "\<lambda>d. \<not> TxtInLock d"
proof unfold_locales
  fix d :: VIRTUAL_CONSOLE_DEV and k assume "\<not> TxtInLock d"
  then show "\<exists>st d'. in_key k d = Inr (st, d') \<and> \<not> TxtInLock d'
      \<and> (if EFI_ERROR st then KeyQueue d' = KeyQueue d else KeyQueue d' = KeyQueue d @ [k])"
    by (auto simp: in_key_def InputKey_def EnqueKeyData_def pool_reserve_def lock_defs)
next
  fix d :: VIRTUAL_CONSOLE_DEV assume "\<not> TxtInLock d" "KeyQueue d = []"
  then show "\<exists>st k. out_key k0 d = Inr (st, k, d) \<and> EFI_ERROR st"
    by (simp add: out_key_def ReadKeyStrokeEx_def DequeKeyData_ok)
next
  fix d :: VIRTUAL_CONSOLE_DEV and k ks assume "\<not> TxtInLock d" "KeyQueue d = k # ks"
  then show "\<exists>st d'. out_key k0 d = Inr (st, k, d') \<and> \<not> EFI_ERROR st \<and> KeyQueue d' = ks \<and> \<not> TxtInLock d'"
    by (simp add: out_key_def ReadKeyStrokeEx_def DequeKeyData_ok)
qed

section \<open>Properties of the input protocols\<close>

definition key_a :: EFI_KEY_DATA where
  "key_a = \<lparr>ScanCode = 0, UnicodeChar = 97, KeyShiftState = 0, KeyToggleState = 0\<rparr>"

definition key_b :: EFI_KEY_DATA where
  "key_b = \<lparr>ScanCode = 0, UnicodeChar = 98, KeyShiftState = 0, KeyToggleState = 0\<rparr>"

definition idle_dev :: VIRTUAL_CONSOLE_DEV where
  "idle_dev = \<lparr>MaxMode = 1, Mode = -1, Attribute = 7, CursorColumn = 0, CursorRow = 0,
     CursorVisible = True, Handle = None, WaitForKey = None, WaitForKeyEx = None,
     SimpleTextOutputModeData = None, TxtOutLock = False, ScreenHistory = [], ScreenBuffer = None,
     TxtInLock = False, KeyQueue = [], KeyNotifyList = [], DevKeyToggleState = 0,
     Pool = \<lparr>heap = Map.empty, nxt = 0, avail = (\<lambda>_. True), junk = (\<lambda>_ _. blank_char)\<rparr>\<rparr>"

lemma idle_unlocked [simp]: "\<not> TxtInLock idle_dev"
  by (simp add: idle_dev_def)

text \<open>
  C5. Keys are delivered in the order in which they were put in, whatever the interleaving of
  \<open>InputKey\<close> and \<open>ReadKeyStrokeEx\<close> and whichever allocations fail: every run of the two ends
  without a fault, with the lock free, and the keys that were queued followed by those that
  were accepted are those that were read followed by those still queued.
\<close>

theorem keys_fifo:
  assumes "\<not> TxtInLock d"
  shows "\<exists>acc got d'. run_queue in_key (out_key k0) ops d = Inr (acc, got, d') \<and> \<not> TxtInLock d'
     \<and> KeyQueue d @ acc = got @ KeyQueue d'"
  by (rule vc_keys.fifo [OF assms])

theorem keys_fifo_witness:
  "\<exists>acc got d'. run_queue in_key (out_key key_b) [Enq key_a, Deq, Deq, Enq key_b] idle_dev = Inr (acc, got, d')
     \<and> \<not> TxtInLock d' \<and> KeyQueue idle_dev @ acc = got @ KeyQueue d'"
  by (rule keys_fifo) (simp add: idle_dev_def)

text \<open>
  The wait event tells the truth: it is signalled exactly when the next read returns a
  key, and that key is the oldest one; a read that finds no key leaves the caller's variable
  and the device as they were.
\<close>

theorem WaitForKey_predicts_read:
  assumes "\<not> TxtInLock d"
  shows "WaitForKeyCallback d = Inr (KeyQueue d \<noteq> [], d)
     \<and> ReadKeyStroke k0 key d = (case KeyQueue d of [] \<Rightarrow> Inr (EFI_NOT_READY, key, d)
         | k # ks \<Rightarrow> Inr (EFI_SUCCESS, (ScanCode k, UnicodeChar k), d\<lparr>KeyQueue := ks\<rparr>))"
  using assms by (cases "KeyQueue d")
    (simp_all add: WaitForKeyCallback_def IsKeyQueueEmpty_ok ReadKeyStroke_def DequeKeyData_ok)

theorem WaitForKey_predicts_read_witness:
  "WaitForKeyCallback (idle_dev\<lparr>KeyQueue := [key_a]\<rparr>) = Inr (True, idle_dev\<lparr>KeyQueue := [key_a]\<rparr>)
     \<and> ReadKeyStroke key_b (1, 1) (idle_dev\<lparr>KeyQueue := [key_a]\<rparr>)
         = Inr (EFI_SUCCESS, (0, 97), idle_dev\<lparr>KeyQueue := []\<rparr>)"
  using WaitForKey_predicts_read [of "idle_dev\<lparr>KeyQueue := [key_a]\<rparr>" key_b "(1, 1)"]
  by (simp add: key_a_def)

lemma drain_keys_ok:
  assumes "\<not> TxtInLock d"
  shows "drain_keys k d = Inr (EFI_NOT_READY, d\<lparr>KeyQueue := []\<rparr>)"
  using assms
proof (induction "KeyQueue d" arbitrary: d k)
  case Nil
  then have "d\<lparr>KeyQueue := []\<rparr> = d" by (cases d) simp
  with Nil show ?case by (subst drain_keys.simps) (simp add: DequeKeyData_ok split: list.splits)
next
  case (Cons x xs)
  have "drain_keys x (d\<lparr>KeyQueue := xs\<rparr>) = Inr (EFI_NOT_READY, d\<lparr>KeyQueue := []\<rparr>)"
    using Cons.hyps(1) [of "d\<lparr>KeyQueue := xs\<rparr>" x] Cons.prems by simp
  with Cons show ?case
    by (subst drain_keys.simps) (simp add: DequeKeyData_ok Cons.hyps(2) [symmetric])
qed

text \<open>
  A reset of the input device empties the key queue and changes nothing else, and it
  always reports \<open>EFI_NOT_READY\<close>, never success.
\<close>

theorem ConInReset_drains:
  assumes "\<not> TxtInLock d"
  shows "ResetEx k0 ext d = Inr (EFI_NOT_READY, d\<lparr>KeyQueue := []\<rparr>)"
  by (simp add: ResetEx_def ConInReset_def drain_keys_ok [OF assms])

theorem ConInReset_drains_witness:
  "ResetEx key_a True (idle_dev\<lparr>KeyQueue := [key_a, key_b]\<rparr>) = Inr (EFI_NOT_READY, idle_dev\<lparr>KeyQueue := []\<rparr>)"
  using ConInReset_drains [of "idle_dev\<lparr>KeyQueue := [key_a, key_b]\<rparr>" key_a True]
  by simp

section \<open>Key notifications\<close>

text \<open>Handles are unique: they are addresses the pool has handed out, each once.\<close>

definition notify_ok :: "VIRTUAL_CONSOLE_DEV \<Rightarrow> bool" where
  "notify_ok d \<longleftrightarrow> distinct (map fst (KeyNotifyList d)) \<and> (\<forall>(a, n)\<in>set (KeyNotifyList d). a < nxt (Pool d))"

lemma remove_notify_None: "(remove_notify h xs = None) = (h \<notin> fst ` set xs)"
  by (induction xs rule: remove_notify.induct) auto

lemma remove_notify_Some:
  "distinct (map fst xs) \<Longrightarrow> h \<in> fst ` set xs \<Longrightarrow> remove_notify h xs = Some (filter (\<lambda>(a, n). a \<noteq> h) xs)"
proof (induction xs rule: remove_notify.induct)
  case (2 h a n xs)
  show ?case
  proof (cases "a = h")
    case True
    with 2 have "\<forall>x\<in>set xs. (case x of (a, n) \<Rightarrow> a \<noteq> h)" by (auto simp: image_iff)
    with True show ?thesis by (simp add: filter_True)
  next
    case False
    with 2 show ?thesis by auto
  qed
qed simp

lemma UnregisterKeyNotify_cases:
  assumes "notify_ok d"
  shows "UnregisterKeyNotify (Some h) d = (if h \<in> fst ` set (KeyNotifyList d)
     then (EFI_SUCCESS, d\<lparr>KeyNotifyList := filter (\<lambda>(a, n). a \<noteq> h) (KeyNotifyList d)\<rparr>)
     else (EFI_INVALID_PARAMETER, d))"
  using assms remove_notify_None [of h "KeyNotifyList d"] remove_notify_Some [of "KeyNotifyList d" h]
  by (auto simp: UnregisterKeyNotify_def notify_ok_def split: option.splits)

definition registered :: "addr \<Rightarrow> EFI_KEY_DATA \<Rightarrow> nat \<Rightarrow> VIRTUAL_CONSOLE_DEV \<Rightarrow> bool" where
  "registered h k cb d \<longleftrightarrow> (\<exists>n. (h, n) \<in> set (KeyNotifyList d) \<and> IsKeyRegistered (kn_KeyData n) k \<and> kn_Callback n = cb)"

lemma IsKeyRegistered_refl [simp]: "IsKeyRegistered k k"
  by (simp add: IsKeyRegistered_def)

text \<open>
  Registering a notification yields a handle under which the key is registered and keeps
  the handles unique; registering the same pair again returns a handle without adding a
  node; and unregistering the handle removes exactly that node.
\<close>

theorem notify_round_trip:
  assumes "notify_ok d" and "RegisterKeyNotify (Some k) (Some cb) (Some v) d = (EFI_SUCCESS, out, d')"
  shows "\<exists>h. out = Some (Some h) \<and> registered h k cb d' \<and> notify_ok d'
     \<and> (\<exists>h'. RegisterKeyNotify (Some k) (Some cb) (Some v) d' = (EFI_SUCCESS, Some (Some h'), d'))
     \<and> UnregisterKeyNotify (Some h) d'
         = (EFI_SUCCESS, d'\<lparr>KeyNotifyList := filter (\<lambda>(a, n). a \<noteq> h) (KeyNotifyList d')\<rparr>)"
proof -
  let ?P = "\<lambda>(a, n). IsKeyRegistered (kn_KeyData n) k \<and> kn_Callback n = cb"
  have "\<exists>h. out = Some (Some h) \<and> registered h k cb d' \<and> notify_ok d'"
  proof (cases "find ?P (KeyNotifyList d)")
    case None
    let ?n = "\<lparr>kn_KeyData = k, kn_Callback = cb\<rparr>" and ?a = "nxt (Pool d)"
    from None assms(2) have new: "out = Some (Some ?a)"
      "d' = d\<lparr>Pool := (Pool d)\<lparr>nxt := Suc ?a\<rparr>, KeyNotifyList := KeyNotifyList d @ [(?a, ?n)]\<rparr>"
      by (auto simp: RegisterKeyNotify_def pool_reserve_def split: if_splits)
    have "registered ?a k cb d'" unfolding registered_def new(2) by (rule exI [of _ ?n]) simp
    moreover have "notify_ok d'" using assms(1) unfolding notify_ok_def new(2) by fastforce
    ultimately show ?thesis using new(1) by blast
  next
    case (Some an)
    obtain a n where an: "an = (a, n)" by (cases an)
    from Some an have "(a, n) \<in> set (KeyNotifyList d)" "?P (a, n)" by (auto simp: find_Some_iff in_set_conv_nth)
    with assms Some an show ?thesis by (auto simp: RegisterKeyNotify_def registered_def)
  qed
  then obtain h where h: "out = Some (Some h)" "registered h k cb d'" "notify_ok d'" by blast
  then have "h \<in> fst ` set (KeyNotifyList d')" by (force simp: registered_def)
  moreover have "find ?P (KeyNotifyList d') \<noteq> None"
    using h(2) by (auto simp: find_None_iff registered_def)
  then have "\<exists>h'. RegisterKeyNotify (Some k) (Some cb) (Some v) d' = (EFI_SUCCESS, Some (Some h'), d')"
    by (auto simp: RegisterKeyNotify_def)
  ultimately show ?thesis using h UnregisterKeyNotify_cases [OF h(3), of h] by auto
qed

theorem notify_round_trip_witness:
  "\<exists>h d'. RegisterKeyNotify (Some key_a) (Some 5) (Some None) idle_dev = (EFI_SUCCESS, Some (Some h), d')
     \<and> registered h key_a 5 d' \<and> UnregisterKeyNotify (Some h) d'
         = (EFI_SUCCESS, d'\<lparr>KeyNotifyList := filter (\<lambda>(a, n). a \<noteq> h) (KeyNotifyList d')\<rparr>)"
proof -
  let ?d = "idle_dev\<lparr>Pool := (Pool idle_dev)\<lparr>nxt := 1\<rparr>,
     KeyNotifyList := [(0, \<lparr>kn_KeyData = key_a, kn_Callback = 5\<rparr>)]\<rparr>"
  have r: "RegisterKeyNotify (Some key_a) (Some 5) (Some None) idle_dev = (EFI_SUCCESS, Some (Some 0), ?d)"
    by (simp add: RegisterKeyNotify_def idle_dev_def pool_reserve_def)
  have "notify_ok idle_dev" by (simp add: notify_ok_def idle_dev_def)
  from notify_round_trip [OF this r] r show ?thesis by auto
qed

end
