(* ===== verification/Virtual_Console_Thms.thy ===== *)
theory Virtual_Console_Thms
  imports Virtual_Console Con_Out_Thms Con_In_Thms
begin

unbundle bit_operations_syntax

text \<open>
  The driver as a whole: which firmware lets it start, what it looks like then, that no
  sequence of calls brings it to a fault as long as the mode is not changed under a
  non-empty history, and that unloading it is safe under the same condition.
\<close>

section \<open>The invariant\<close>

definition modes_ok :: "VIRTUAL_CONSOLE_DEV \<Rightarrow> bool" where
  "modes_ok d \<longleftrightarrow> (\<exists>ms. SimpleTextOutputModeData d = Some ms \<and> MaxMode d = int (length ms)
     \<and> length ms < 2 ^ 31 \<and> (\<forall>m\<in>set ms. 2 \<le> Columns m \<and> Columns m + 1 < 2 ^ 31
        \<and> 0 < Rows m \<and> Rows m < 2 ^ 31))"

definition vc_inv :: "VIRTUAL_CONSOLE_DEV \<Rightarrow> bool" where
  "vc_inv d \<longleftrightarrow> modes_ok d \<and> \<not> TxtOutLock d \<and> \<not> TxtInLock d \<and> mem_ok d \<and> pool_ok (Pool d)
     \<and> (if Mode d = -1 then ScreenBuffer d = None \<and> ScreenHistory d = []
        else 0 \<le> Mode d \<and> Mode d < MaxMode d \<and> (\<exists>W H rs k. con_ready W H rs d
          \<and> ScreenHistory d = replicate k (hd rs)))"

text \<open>
  The calls the invariant covers: arguments of the right type (a \<open>UINTN\<close> is not negative,
  a buffer has the length the caller gives), and no change of mode under a history.
\<close>

definition mode_change_ok :: "int \<Rightarrow> VIRTUAL_CONSOLE_DEV \<Rightarrow> bool" where
  "mode_change_ok n d \<longleftrightarrow> 0 \<le> n \<and> (n = Mode d \<or> ScreenHistory d = [] \<or> MaxMode d \<le> n)"

fun safe_op :: "vc_op \<Rightarrow> VIRTUAL_CONSOLE_DEV \<Rightarrow> bool" where
  "safe_op (OpSetMode n) d = mode_change_ok n d"
| "safe_op (OpReset ext) d = mode_change_ok 0 d"
| "safe_op (OpQuery n) d = (0 \<le> n)"
| "safe_op (OpCursor c r) d = (0 \<le> c \<and> 0 \<le> r)"
| "safe_op (OpGetScreen b n h) d =
     ((case (b, n) of (Some bs, Some m) \<Rightarrow> m = int (length bs) | (None, Some m) \<Rightarrow> 0 \<le> m | _ \<Rightarrow> True)
      \<and> length (ScreenHistory d) < 2 ^ 31)"
| "safe_op _ d = True"

lemma mode_at:
  assumes "modes_ok d" and "0 \<le> n" and "n < MaxMode d"
  obtains W H where "has_mode n W H d" and "2 \<le> W"
proof -
  from assms(1) obtain ms where ms: "SimpleTextOutputModeData d = Some ms" "MaxMode d = int (length ms)"
    "length ms < 2 ^ 31" "\<forall>m\<in>set ms. 2 \<le> Columns m \<and> Columns m + 1 < 2 ^ 31 \<and> 0 < Rows m \<and> Rows m < 2 ^ 31"
    by (auto simp: modes_ok_def)
  let ?m = "ms ! nat n"
  have i: "nat n < length ms" using assms(2,3) ms(2) by auto
  with ms(4) have m: "2 \<le> Columns ?m" "Columns ?m + 1 < 2 ^ 31" "0 < Rows ?m" "Rows ?m < 2 ^ 31" by auto
  have "mode_data d n = Inr \<lparr>Columns = int (nat (Columns ?m)), Rows = int (nat (Rows ?m))\<rparr>"
    using ms(1) i assms(2) m by (simp add: mode_data_def)
  with m assms(2,3) ms(2,3) have "has_mode n (nat (Columns ?m)) (nat (Rows ?m)) d"
    by (simp add: has_mode_def nat_less_iff)
  with m(1) show thesis by (intro that) auto
qed

lemma con_ready_mode:
  assumes "con_ready W H rs d" and "has_mode (Mode d) W' H' d" shows "W' = W \<and> H' = H"
  using con_readyD(3) [OF assms(1)] assms(2) by (simp add: mode_is_def has_mode_def)

text \<open>What the invariant says of a device that has a mode.\<close>

lemma vc_inv_ready:
  assumes "vc_inv d" and "Mode d \<noteq> -1"
  obtains W H rs k where "con_ready W H rs d" and "has_mode (Mode d) W H d" and "2 \<le> W"
    and "ScreenHistory d = replicate k (hd rs)"
proof -
  from assms obtain W H rs k where c: "con_ready W H rs d" "ScreenHistory d = replicate k (hd rs)"
    and n: "modes_ok d" "0 \<le> Mode d" "Mode d < MaxMode d" by (auto simp: vc_inv_def)
  from mode_at [OF n] obtain W' H' where "has_mode (Mode d) W' H' d" "2 \<le> W'" .
  with con_ready_mode [OF c(1)] c that show thesis by auto
qed

lemma core_fields:
  assumes "core d' = core d"
  shows "MaxMode d' = MaxMode d" "Mode d' = Mode d" "TxtInLock d' = TxtInLock d"
    "SimpleTextOutputModeData d' = SimpleTextOutputModeData d"
  using arg_cong [OF assms, of MaxMode] arg_cong [OF assms, of Mode] arg_cong [OF assms, of TxtInLock]
    arg_cong [OF assms, of SimpleTextOutputModeData] by (simp_all add: core_def)

lemma vc_inv_output:
  assumes "vc_inv d" and "Mode d \<noteq> -1" and "con_ready W H rs d'" and "core d' = core d"
    and "ScreenHistory d' = replicate k (hd rs)"
  shows "vc_inv d'"
  using assms core_fields [OF assms(4)] con_readyD(2,4) [OF assms(3)]
    screen_atD(9) [OF con_readyD(1) [OF assms(3)]]
  by (auto simp: vc_inv_def modes_ok_def)

lemma vc_inv_keys [simp]:
  "vc_inv (d\<lparr>KeyQueue := ks\<rparr>) = vc_inv d" "vc_inv (d\<lparr>KeyNotifyList := ns\<rparr>) = vc_inv d"
  "vc_inv (d\<lparr>DevKeyToggleState := s\<rparr>) = vc_inv d" "vc_inv (d\<lparr>CursorVisible := v\<rparr>) = vc_inv d"
  "vc_inv (d\<lparr>Attribute := a\<rparr>) = vc_inv d"
  by (simp_all add: vc_inv_def modes_ok_def con_ready_def screen_at_def mem_ok_def mode_is_def mode_data_def)

lemma vc_inv_unlock [simp]:
  assumes "vc_inv d" shows "vc_inv (d\<lparr>TxtInLock := False\<rparr>)" "vc_inv (d\<lparr>TxtOutLock := False\<rparr>)"
proof -
  have "d\<lparr>TxtInLock := False\<rparr> = d" "d\<lparr>TxtOutLock := False\<rparr> = d"
    using assms by (simp_all add: vc_inv_def)
  with assms show "vc_inv (d\<lparr>TxtInLock := False\<rparr>)" "vc_inv (d\<lparr>TxtOutLock := False\<rparr>)" by simp_all
qed

lemma vc_inv_reserve:
  assumes "vc_inv d" and "nxt (Pool d) \<le> n" shows "vc_inv (d\<lparr>Pool := (Pool d)\<lparr>nxt := n\<rparr>\<rparr>)"
  using assms
  by (auto simp: vc_inv_def modes_ok_def con_ready_def screen_at_def mem_ok_def mode_is_def mode_data_def
      pool_ok_def)

lemma vc_inv_locks: "vc_inv d \<Longrightarrow> \<not> TxtOutLock d \<and> \<not> TxtInLock d"
  by (simp add: vc_inv_def)

section \<open>The operations keep it\<close>

lemma vc_Output:
  assumes "vc_inv d" shows "\<exists>d'. vc_exec k0 (OpOutput ws) d = Some (Inr d') \<and> vc_inv d'"
proof (cases "Mode d = -1")
  case True
  then have "OutputString ws d = Some (Inr (EFI_UNSUPPORTED, d))"
    unfolding OutputString_def by (subst OutputString_run.simps) simp
  with assms show ?thesis by (simp add: vc_exec_def)
next
  case False
  from vc_inv_ready [OF assms False] obtain W H rs k where c: "con_ready W H rs d" "2 \<le> W"
    "ScreenHistory d = replicate k (hd rs)" by metis
  from OutputString_sim [OF c(1,2), of ws] obtain d' where d':
    "OutputString ws d = Some (Inr (EFI_SUCCESS, d'))" "con_ready W H rs d'" "core d' = core d"
    "grows_hist rs d d'" by blast
  from d'(4) c(3) obtain k' where "ScreenHistory d' = replicate k' (hd rs)"
    by (auto simp: grows_hist_def simp flip: replicate_add)
  from vc_inv_output [OF assms False d'(2,3) this] d'(1) show ?thesis by (simp add: vc_exec_def)
qed

lemma vc_buf_ok:
  assumes "vc_inv d" shows "buf_ok d"
proof (cases "Mode d = -1")
  case True
  with assms show ?thesis by (simp add: buf_ok_def vc_inv_def)
next
  case False
  from vc_inv_ready [OF assms False] con_ready_buf_ok show ?thesis by metis
qed

lemma SetMode_inv:
  assumes "vc_inv d" and "mode_change_ok n d"
  shows "\<exists>st d'. SetMode n d = Inr (st, d') \<and> vc_inv d'"
proof (cases "MaxMode d \<le> n")
  case True
  moreover have "uintn (MaxMode d) = MaxMode d"
    using assms(1) by (auto simp: vc_inv_def modes_ok_def casts)
  ultimately have "SetMode n d = Inr (EFI_UNSUPPORTED, d)" by (simp add: SetMode_def)
  with assms(1) show ?thesis by blast
next
  case False
  have n: "0 \<le> n" "n < MaxMode d" "modes_ok d"
    using assms False by (simp_all add: mode_change_ok_def vc_inv_def)
  show ?thesis
  proof (cases "n = Mode d")
    case True
    with n have "Mode d \<noteq> -1" by auto
    from vc_inv_ready [OF assms(1) this] obtain W H rs k where c: "con_ready W H rs d"
      "has_mode (Mode d) W H d" "ScreenHistory d = replicate k (hd rs)" by metis
    from SetMode_same_sim [OF c(1,2)] obtain d' where "SetMode (Mode d) d = Inr (EFI_SUCCESS, d')"
      "con_ready W H rs d'" "core d' = core d" "ScreenHistory d' = ScreenHistory d" by blast
    with vc_inv_output [OF assms(1) \<open>Mode d \<noteq> -1\<close>] c(3) True show ?thesis by metis
  next
    case differ: False
    from mode_at [OF n(3,1,2)] obtain W H where m: "has_mode n W H d" by metis
    have h: "ScreenHistory d = []" using assms(2) False differ by (simp add: mode_change_ok_def)
    have st: "mem_ok d" "\<not> TxtOutLock d" "\<not> TxtInLock d" using assms(1) by (simp_all add: vc_inv_def)
    from SetMode_switch_sim [OF vc_buf_ok [OF assms(1)] st(1) h st(2) m differ] obtain d' where d':
      "SetMode n d = Inr (EFI_SUCCESS, d')" "con_ready W H (new_rows H d) d'" "Mode d' = n"
      "ScreenHistory d' = []" "SimpleTextOutputModeData d' = SimpleTextOutputModeData d"
      "MaxMode d' = MaxMode d" "TxtInLock d' = TxtInLock d" by blast
    have "ScreenHistory d' = replicate 0 (hd (new_rows H d))" using d'(4) by simp
    with d' n st(3) con_readyD(2,4) [OF d'(2)] screen_atD(9) [OF con_readyD(1) [OF d'(2)]]
    have "vc_inv d'" unfolding vc_inv_def modes_ok_def by auto
    with d'(1) show ?thesis by blast
  qed
qed

lemma SetAttribute_inv:
  assumes "vc_inv d" shows "\<exists>st d'. SetAttribute a d = Inr (st, d') \<and> vc_inv d'"
  using SetAttribute_cases [of d a] assms vc_inv_locks [OF assms] by auto

lemma vc_Reset:
  assumes "vc_inv d" and "mode_change_ok 0 d"
  shows "\<exists>d'. vc_exec k0 (OpReset ext) d = Some (Inr d') \<and> vc_inv d'"
proof -
  from SetMode_inv [OF assms] obtain st d1 where d1: "SetMode 0 d = Inr (st, d1)" "vc_inv d1" by blast
  let ?a = "scast (Attribute d1 AND 0x0F) OR push_bit 4 0 :: 64 word"
  from SetAttribute_inv [OF d1(2), of ?a] obtain st' d2 where
    "SetAttribute ?a d1 = Inr (st', d2)" "vc_inv d2" by blast
  with d1 show ?thesis
    by (cases "EFI_ERROR st") (simp_all add: vc_exec_def ConOutReset_def)
qed

lemma vc_Clear:
  assumes "vc_inv d" shows "\<exists>d'. vc_exec k0 OpClear d = Some (Inr d') \<and> vc_inv d'"
proof (cases "Mode d = -1")
  case True
  with assms show ?thesis by (simp add: vc_exec_def ClearScreen_def)
next
  case False
  from vc_inv_ready [OF assms False] obtain W H rs k where c: "con_ready W H rs d"
    "ScreenHistory d = replicate k (hd rs)" by metis
  from ClearScreen_sim [OF c(1)] obtain d' where d': "ClearScreen d = Inr (EFI_SUCCESS, d')"
    "con_ready W H rs d'" "core d' = core d" "ScreenHistory d' = ScreenHistory d" by blast
  with vc_inv_output [OF assms False d'(2,3)] c(2) show ?thesis by (simp add: vc_exec_def)
qed

lemma vc_Cursor:
  assumes "vc_inv d" and "0 \<le> c" and "0 \<le> r"
  shows "\<exists>d'. vc_exec k0 (OpCursor c r) d = Some (Inr d') \<and> vc_inv d'"
proof (cases "Mode d = -1")
  case True
  with assms(1) show ?thesis by (simp add: vc_exec_def SetCursorPosition_def)
next
  case False
  from vc_inv_ready [OF assms(1) False] obtain W H rs k where k: "con_ready W H rs d"
    "ScreenHistory d = replicate k (hd rs)" by metis
  let ?d = "d\<lparr>CursorColumn := c, CursorRow := r\<rparr>"
  have "vc_inv ?d" if "c < int W" "r < int H"
  proof (rule vc_inv_output [OF assms(1) False])
    show "con_ready W H rs ?d"
      using k(1) that assms(2,3) by (simp add: con_ready_def screen_at_def)
  qed (use k(2) in simp_all)
  with SetCursorPosition_cases [OF k(1) assms(2,3)] assms(1) show ?thesis
    by (auto simp: vc_exec_def)
qed

lemma hist_ok_replicate:
  assumes "con_ready W H rs d" and "ScreenHistory d = replicate k (hd rs)" shows "hist_ok rs d"
proof -
  have "rs \<noteq> []" using screen_atD(2,4,5) [OF con_readyD(1) [OF assms(1)]] by auto
  with assms(2) show ?thesis by (cases rs) (auto simp: hist_ok_def)
qed

lemma vc_GetScreen:
  assumes "vc_inv d" and "safe_op (OpGetScreen b n h) d"
  shows "\<exists>st b' n'. GetScreen b n h d = Inr (st, b', n', d)"
proof (cases n)
  case None
  then show ?thesis by (simp add: GetScreen_def)
next
  case n: (Some m)
  show ?thesis
  proof (cases "Mode d = -1")
    case True
    have "uintn (-1) = 2 ^ 64 - 1" by (simp add: uintn_def take_bit_minus_one_eq_mask mask_eq_exp_minus_1)
    moreover have "uintn (MaxMode d) \<le> 2 ^ 64 - 1" using uintn_range(2) [of "MaxMode d"] by simp
    ultimately have "QueryMode (uintn (Mode d)) d = Inr (EFI_UNSUPPORTED, None)"
      using True by (simp add: QueryMode_def)
    with n show ?thesis by (simp add: GetScreen_def)
  next
    case False
    from vc_inv_ready [OF assms(1) False] obtain W H rs k where c: "con_ready W H rs d"
      "has_mode (Mode d) W H d" "ScreenHistory d = replicate k (hd rs)" by metis
    note s = screen_atD [OF con_readyD(1) [OF c(1)]] and hist = hist_ok_replicate [OF c(1,3)]
    have "length (shown h d) \<le> 2 ^ 32" "W \<le> 2 ^ 31" using assms(2) s by (auto simp: shown_def)
    then have "W * length (shown h d) \<le> 2 ^ 31 * 2 ^ 32" by (intro mult_le_mono)
    then have bound: "W * length (shown h d) < 2 ^ 64" by simp
    have "0 \<le> m" using assms(2) n by (auto split: option.splits)
    then obtain m' where m: "m = int m'" using zero_le_imp_eq_int by blast
    show ?thesis
    proof (cases "m' < W * length (shown h d)")
      case True
      with GetScreen_small [OF c(1,2) bound] n m show ?thesis by auto
    next
      case large: False
      show ?thesis
      proof (cases b)
        case None
        have "\<not> m < int (W * length (shown h d))" using large m by (simp flip: of_nat_mult)
        with screen_need [OF c(1,2) bound] n None show ?thesis by (simp add: GetScreen_def Let_def)
      next
        case (Some bs)
        with assms(2) n m have "m' = length bs" by simp
        with GetScreen_sim [OF c(1,2) hist bound, of bs] large n m Some show ?thesis by simp
      qed
    qed
  qed
qed

text \<open>Each call the invariant covers returns, does not fault and keeps the invariant.\<close>

lemma vc_step_safe:
  assumes "vc_inv d" and "safe_op op d"
  shows "\<exists>d'. vc_exec k0 op d = Some (Inr d') \<and> vc_inv d'"
proof -
  note l = vc_inv_locks [OF assms(1)]
  note r = vc_inv_reserve [OF assms(1), of "Suc (nxt (Pool d))"]
  show ?thesis
  proof (cases op)
    case (OpReset ext)
    then show ?thesis using vc_Reset [OF assms(1)] assms(2) by simp
  next
    case (OpSetMode n)
    then show ?thesis using SetMode_inv [OF assms(1), of n] assms(2) by (auto simp: vc_exec_def)
  next
    case (OpSetAttribute a)
    then show ?thesis using SetAttribute_inv [OF assms(1), of a] by (auto simp: vc_exec_def)
  next
    case (OpQuery n)
    then have "\<exists>q. QueryMode n d = Inr q"
      using assms by (auto simp: QueryMode_def vc_inv_def modes_ok_def mode_data_def casts)
    with OpQuery assms(1) show ?thesis by (auto simp: vc_exec_def)
  next
    case (OpEnable v)
    with OpEnable l assms(1) show ?thesis by (simp add: vc_exec_def EnableCursor_def lock_defs)
  next
    case (OpGetScreen b n h)
    with vc_GetScreen [OF assms(1), of b n h] assms show ?thesis by (auto simp: vc_exec_def)
  next
    case (OpInputKey k)
    with OpInputKey l r show ?thesis
      by (auto simp: vc_exec_def InputKey_def EnqueKeyData_def pool_reserve_def lock_defs)
  next
    case (OpReadKey out)
    with l assms(1) show ?thesis
      by (auto simp: vc_exec_def ReadKeyStrokeEx_def DequeKeyData_ok split: option.splits list.splits)
  next
    case (OpResetIn ext)
    with l assms(1) show ?thesis by (simp add: vc_exec_def ResetEx_def ConInReset_def drain_keys_ok)
  next
    case (OpWait)
    with l assms(1) show ?thesis by (simp add: vc_exec_def WaitForKeyCallback_def IsKeyQueueEmpty_ok)
  next
    case (OpRegister k cb out)
    with r assms(1) show ?thesis
      by (auto simp: vc_exec_def RegisterKeyNotify_def pool_reserve_def split: option.splits)
  qed (use assms vc_Output vc_Clear vc_Cursor in
        \<open>auto simp: vc_exec_def SetState_def UnregisterKeyNotify_def split: option.splits\<close>)
qed

section \<open>Reachable states\<close>

text \<open>A small driver for the examples: no mode set yet, one mode of 4 by 2.\<close>

definition sample_vc :: VIRTUAL_CONSOLE_DEV where
  "sample_vc = idle_dev\<lparr>SimpleTextOutputModeData := Some [\<lparr>Columns = 4, Rows = 2\<rparr>]\<rparr>"

lemma sample_vc_inv: "vc_inv sample_vc"
  by (simp add: vc_inv_def modes_ok_def mem_ok_def pool_ok_def sample_vc_def idle_dev_def)

text \<open>
  C2. The driver is safe in every state it can reach by calls that respect the argument types
  and do not change the mode under a non-empty history: the invariant holds there (both
  locks free, the screen buffer a table of the size of the mode, the cursor inside it), and
  every further such call returns, without a fault.
\<close>

theorem vc_reachable_safe:
  assumes "vc_inv d0" and "vc_reach k0 safe_op d0 d"
  shows "vc_inv d \<and> (\<forall>op. safe_op op d \<longrightarrow> (\<exists>d'. vc_exec k0 op d = Some (Inr d') \<and> vc_inv d'))"
proof -
  from assms(2,1) have "vc_inv d"
  proof (induction rule: vc_reach.induct)
    case (step d op d')
    with vc_step_safe [OF step.IH step.hyps(2), of k0] show ?case by simp
  qed
  with vc_step_safe show ?thesis by blast
qed

theorem vc_reachable_safe_witness:
  "\<exists>d. vc_exec key_a (OpSetMode 0) sample_vc = Some (Inr d) \<and> vc_inv d
     \<and> (\<forall>op. safe_op op d \<longrightarrow> (\<exists>d'. vc_exec key_a op d = Some (Inr d') \<and> vc_inv d'))"
proof -
  have ok: "safe_op (OpSetMode 0) sample_vc"
    by (simp add: mode_change_ok_def sample_vc_def idle_dev_def)
  from vc_reachable_safe [OF sample_vc_inv vc_reach.start, of key_a] ok
  obtain d where d: "vc_exec key_a (OpSetMode 0) sample_vc = Some (Inr d)" by blast
  from vc_reachable_safe [OF sample_vc_inv vc_reach.step [where allowed = safe_op, OF vc_reach.start ok d]] d show ?thesis by blast
qed

section \<open>Starting the driver\<close>

definition queried :: "vc_firmware \<Rightarrow> VIRTUAL_CONSOLE_MODE_DATA \<Rightarrow> VIRTUAL_CONSOLE_MODE_DATA list" where
  "queried fw slot = fst (fold (query_mode fw) [0..<nat (uintn (fw_maxmode fw))] ([], slot))"

lemma search_default_le: "search_default m tbl \<le> length tbl"
  by (induction tbl) auto

lemma search_default_end: "search_default m tbl = length tbl \<longleftrightarrow> m \<notin> set tbl"
  by (induction tbl) auto

lemma add_default_cases:
  "add_default tbl i ms = (if ms ! i \<in> set tbl then Inr ms else Inl OutOfBounds)"
  using search_default_end [of "ms ! i" tbl] by (cases "ms ! i \<in> set tbl") (simp_all add: add_default_def Let_def)

lemma add_defaults:
  "mfold (add_default tbl) is ms = (if \<forall>i\<in>set is. ms ! i \<in> set tbl then Inr ms else Inl OutOfBounds)"
  by (induction "is") (auto simp: add_default_cases)

text \<open>
  The table of text modes. The function succeeds exactly when every mode the platform's
  console reports is one of the three built-in ones, and then returns the reported modes and
  nothing else; any other mode makes it read behind the end of the built-in table.
\<close>

theorem text_modes_exact:
  assumes "avail p (nxt p)"
  shows "InitializeVirtualConsoleTextMode fw slot p =
     (if set (queried fw slot) \<subseteq> set mTerminalConsoleModeData
      then Inr (queried fw slot, p\<lparr>nxt := Suc (nxt p)\<rparr>) else Inl OutOfBounds)"
proof -
  have "(\<forall>i\<in>set (rev [0..<length (queried fw slot)]). queried fw slot ! i \<in> set mTerminalConsoleModeData)
      \<longleftrightarrow> set (queried fw slot) \<subseteq> set mTerminalConsoleModeData"
    unfolding subset_eq all_set_conv_all_nth [of "queried fw slot" "\<lambda>m. m \<in> set mTerminalConsoleModeData"]
    by auto
  with assms show ?thesis
    by (simp add: InitializeVirtualConsoleTextMode_def pool_reserve_def add_defaults Let_def
        flip: queried_def)
qed

definition sample_fw :: vc_firmware where
  "sample_fw = \<lparr>fw_event = (EFI_SUCCESS, 1), fw_event_ex = (EFI_SUCCESS, 2), fw_maxmode = 2,
     fw_query = (\<lambda>i _. (EFI_SUCCESS, if i = 0 then \<lparr>Columns = 80, Rows = 25\<rparr> else \<lparr>Columns = 100, Rows = 31\<rparr>)),
     fw_install = (EFI_SUCCESS, 3), fw_uninstall = EFI_SUCCESS\<rparr>"

lemma sample_queried: "queried sample_fw m = [\<lparr>Columns = 80, Rows = 25\<rparr>, \<lparr>Columns = 100, Rows = 31\<rparr>]"
proof -
  have "[0..<2] = [0, 1::nat]" by (simp add: upt_rec)
  then show ?thesis by (simp add: queried_def query_mode_def sample_fw_def casts)
qed

theorem text_modes_exact_witness:
  "InitializeVirtualConsoleTextMode sample_fw \<lparr>Columns = 0, Rows = 0\<rparr> (Pool idle_dev)
     = Inr ([\<lparr>Columns = 80, Rows = 25\<rparr>, \<lparr>Columns = 100, Rows = 31\<rparr>], (Pool idle_dev)\<lparr>nxt := 1\<rparr>)"
  using text_modes_exact [of "Pool idle_dev" sample_fw "\<lparr>Columns = 0, Rows = 0\<rparr>"]
  unfolding sample_queried by (simp add: idle_dev_def mTerminalConsoleModeData_def)

text \<open>
  C35. The entry point establishes the invariant: on a firmware that creates both events,
  installs the protocols and reports only built-in modes, it succeeds and the device it
  leaves, with those modes, satisfies the invariant of C16.
\<close>

theorem Initialize_establishes_inv:
  assumes "\<not> EFI_ERROR (fst (fw_event fw))" and "\<not> EFI_ERROR (fst (fw_event_ex fw))"
    and "\<not> EFI_ERROR (fst (fw_install fw))"
    and "set (queried fw slot) \<subseteq> set mTerminalConsoleModeData" and "length (queried fw slot) < 2 ^ 31"
    and "\<forall>a. avail p a" and "\<forall>a. heap p a = None"
  shows "\<exists>d. InitializeVirtualConsole fw slot k0 (mVirtualConsoleDev p) = Inr (EFI_SUCCESS, d)
     \<and> vc_inv d \<and> SimpleTextOutputModeData d = Some (queried fw slot) \<and> Mode d = -1"
proof -
  have t: "InitializeVirtualConsoleTextMode fw slot p = Inr (queried fw slot, p\<lparr>nxt := Suc (nxt p)\<rparr>)"
    using text_modes_exact [of p fw slot] assms(4,6) by simp
  have "m \<in> set (queried fw slot) \<Longrightarrow> 2 \<le> Columns m \<and> Columns m + 1 < 2 ^ 31 \<and> 0 < Rows m \<and> Rows m < 2 ^ 31" for m
    using subsetD [OF assms(4), of m] by (auto simp: mTerminalConsoleModeData_def)
  with assms t show ?thesis
    by (auto simp: InitializeVirtualConsole_def mVirtualConsoleDev_def Let_def
        vc_inv_def modes_ok_def mem_ok_def pool_ok_def)
qed

theorem Initialize_establishes_inv_witness:
  "\<exists>d. InitializeVirtualConsole sample_fw \<lparr>Columns = 0, Rows = 0\<rparr> key_a (mVirtualConsoleDev (Pool idle_dev)) = Inr (EFI_SUCCESS, d)
     \<and> vc_inv d \<and> SimpleTextOutputModeData d = Some [\<lparr>Columns = 80, Rows = 25\<rparr>, \<lparr>Columns = 100, Rows = 31\<rparr>] \<and> Mode d = -1"
  using Initialize_establishes_inv [of sample_fw "\<lparr>Columns = 0, Rows = 0\<rparr>" "Pool idle_dev" key_a]
  unfolding sample_queried by (simp add: idle_dev_def sample_fw_def mTerminalConsoleModeData_def)

section \<open>Unloading the driver\<close>

lemma FreePool_list:
  assumes "distinct as" and "\<forall>a\<in>set as. heap p a \<noteq> None"
  shows "mfold FreePool as p = Inr (freed as p)"
  using assms
proof (induction as arbitrary: p)
  case Nil
  then show ?case by (simp add: freed_def)
next
  case (Cons a as)
  let ?q = "p\<lparr>heap := (heap p)(a := None)\<rparr>"
  have "FreePool a p = Inr ?q" using Cons.prems(2) by (auto simp: FreePool_def)
  moreover have "mfold FreePool as ?q = Inr (freed as ?q)" using Cons.prems by (intro Cons.IH) auto
  moreover have "freed as ?q = freed (a # as) p" by (auto simp: freed_def fun_eq_iff)
  ultimately show ?case by simp
qed

lemma free_screen_buffer_ok:
  assumes "con_ready W H rs d"
  shows "free_screen_buffer (int H) d = Inr (d\<lparr>Pool := freed rs (Pool d)\<rparr>)"
proof -
  note s = screen_atD [OF con_readyD(1) [OF assms]]
  have "mfold (\<lambda>i d. rbind (sb_row d (int i)) (\<lambda>a. with_pool (FreePool a) d)) (rev [0..<H]) (d\<lparr>Pool := Pool d\<rparr>)
      = rbind (mfold (\<lambda>i. FreePool (rs ! i)) (rev [0..<H]) (Pool d)) (\<lambda>q. Inr (d\<lparr>Pool := q\<rparr>))"
    using s(1,2) by (intro mfold_with_pool) (auto simp: sb_row_def)
  moreover have "mfold (\<lambda>i. FreePool (rs ! i)) (rev [0..<H]) (Pool d) = mfold FreePool (rev rs) (Pool d)"
    using mfold_map [of FreePool "(!) rs" "rev [0..<H]" "Pool d"] map_nth [of rs] s(2)
    by (simp add: rev_map [symmetric])
  moreover have "mfold FreePool (rev rs) (Pool d) = Inr (freed (rev rs) (Pool d))"
    using s(3) by (intro FreePool_list) (auto simp: valid_rows_def list_all_iff)
  moreover have "freed (rev rs) (Pool d) = freed rs (Pool d)" by (simp add: freed_def)
  ultimately show ?thesis using s(1) by (simp add: free_screen_buffer_def)
qed

lemma unload_query:
  assumes "vc_inv d" and "Mode d \<noteq> -1" and "con_ready W H rs d"
  shows "QueryMode (uintn (Mode d)) d = Inr (EFI_SUCCESS, Some (int W, int H))"
proof -
  from vc_inv_ready [OF assms(1,2)] obtain W' H' rs' where c: "con_ready W' H' rs' d"
    "has_mode (Mode d) W' H' d" by metis
  with con_ready_mode [OF assms(3) c(2)] have m: "has_mode (Mode d) W H d" by simp
  then have "uintn (Mode d) = Mode d" by (simp add: has_mode_def casts)
  with m has_mode_casts [OF m] show ?thesis by (simp add: QueryMode_def has_mode_def)
qed

text \<open>
  Unloading a driver whose history is empty frees every row of the screen, empties the
  key queue and the notification list and reports success; once a line has been scrolled off
  it frees the first row twice.
\<close>

theorem Unload_frees_screen:
  assumes "vc_inv d" and "Mode d \<noteq> -1" and "con_ready W H rs d" and "\<not> EFI_ERROR (fw_uninstall fw)"
  shows "(if ScreenHistory d = []
     then \<exists>d'. VirtualConsoleUnload fw k0 d = Inr (EFI_SUCCESS, d') \<and> live d' = live d - set rs
          \<and> KeyQueue d' = [] \<and> KeyNotifyList d' = []
     else VirtualConsoleUnload fw k0 d = Inl DoubleFree)"
proof -
  note l = vc_inv_locks [OF assms(1)] and s = screen_atD [OF con_readyD(1) [OF assms(3)]]
  let ?d = "d\<lparr>KeyQueue := [], KeyNotifyList := []\<rparr>"
  let ?d1 = "?d\<lparr>Pool := freed rs (Pool d)\<rparr>"
  have ready: "con_ready W H rs ?d" "vc_inv ?d" "Mode ?d \<noteq> -1"
    using assms(1-3) by (simp_all add: con_ready_def screen_at_def mem_ok_def mode_is_def mode_data_def)
  have pre: "VirtualConsoleUnload fw k0 d = rbind (ClearHistory ?d1) (\<lambda>(_, d). Inr (EFI_SUCCESS, d))"
    using assms(4) drain_keys_ok [of d k0] l unload_query [OF ready(2,3,1)] free_screen_buffer_ok [OF ready(1)]
    by (simp add: VirtualConsoleUnload_def VirtualConsoleFreeNotifyList_def Let_def)
  show ?thesis
  proof (cases "ScreenHistory d")
    case Nil
    then have "ClearHistory ?d1 = Inr (EFI_SUCCESS, ?d1\<lparr>TxtOutLock := False, ScreenHistory := []\<rparr>)"
      using l by (simp add: ClearHistory_def VirtualConsoleClearHistory_def lock_defs)
    with pre Nil show ?thesis by (auto simp: live_def freed_def split: if_splits)
  next
    case (Cons h hs)
    from assms(1,2) obtain W' H' rs' k where c: "con_ready W' H' rs' d" "ScreenHistory d = replicate k (hd rs')"
      by (metis vc_inv_ready)
    have "rs' = rs" using s(1) screen_atD(1) [OF con_readyD(1) [OF c(1)]] by simp
    with c(2) Cons have "h = hd rs" by (cases k) simp_all
    moreover have "rs \<noteq> []" using s by auto
    ultimately have "h \<in> set rs" by simp
    then have "ClearHistory ?d1 = Inl DoubleFree"
      using l Cons by (simp add: ClearHistory_def VirtualConsoleClearHistory_def lock_defs with_pool_def
          FreePool_def freed_def)
    with pre Cons show ?thesis by simp
  qed
qed

lemma sample_dev_inv: "vc_inv (sample_dev\<lparr>MaxMode := 2, SimpleTextOutputModeData :=
    Some [\<lparr>Columns = 4, Rows = 2\<rparr>, \<lparr>Columns = 3, Rows = 3\<rparr>]\<rparr>)" (is "vc_inv ?d")
  and sample_dev_ready: "con_ready 4 2 [0, 1] (sample_dev\<lparr>MaxMode := 2, SimpleTextOutputModeData :=
    Some [\<lparr>Columns = 4, Rows = 2\<rparr>, \<lparr>Columns = 3, Rows = 3\<rparr>]\<rparr>)"
proof -
  show ready: "con_ready 4 2 [0, 1] ?d"
    using sample_ready by (simp add: con_ready_def screen_at_def mem_ok_def mode_is_def mode_data_def)
  have "ScreenHistory ?d = replicate 0 (hd [0, 1])" by simp
  with ready show "vc_inv ?d" unfolding vc_inv_def modes_ok_def
    using con_readyD [OF sample_ready] screen_atD(9) [OF con_readyD(1) [OF sample_ready]]
    by (auto simp: mem_ok_def sample_dev_def)
qed

theorem Unload_frees_screen_witness:
  "\<exists>d'. VirtualConsoleUnload sample_fw key_a (sample_dev\<lparr>MaxMode := 2, SimpleTextOutputModeData :=
      Some [\<lparr>Columns = 4, Rows = 2\<rparr>, \<lparr>Columns = 3, Rows = 3\<rparr>]\<rparr>) = Inr (EFI_SUCCESS, d')
     \<and> live d' = {} \<and> KeyQueue d' = [] \<and> KeyNotifyList d' = []"
  using Unload_frees_screen [OF sample_dev_inv _ sample_dev_ready, of sample_fw key_a]
  by (simp add: sample_fw_def live_def) (simp add: sample_dev_def sample_pool_def)

end
