(* ===== verification/Misc_Strings.thy ===== *)
theory Misc_Strings
  imports Efi_Prelude
begin

unbundle bit_operations_syntax

text \<open>
  \<open>MicroPythonDxe/Uefi/misc.c\<close>: the conversions between the interpreter's UTF-8 strings and
  the firmware's UTF-16 strings, and the string helpers. A source buffer is the list of the
  elements that may be read; reading behind its end is the fault \<open>OutOfBounds\<close>. A destination
  buffer is the list of what has been written so far (all the loops write it from left to
  right) together with its capacity; writing behind its end is the same fault.
\<close>

type_synonym byte = "8 word"
type_synonym w16 = "16 word"

lemma rbind_cong [fundef_cong]:
  "m = m' \<Longrightarrow> (\<And>x. m' = Inr x \<Longrightarrow> f x = f' x) \<Longrightarrow> rbind m f = rbind m' f'"
  by (cases m') simp_all

definition rd :: "'a list \<Rightarrow> nat \<Rightarrow> 'a result" where
  "rd xs i = (if i < length xs then Inr (xs ! i) else Inl OutOfBounds)"

definition put :: "nat \<Rightarrow> 'a list \<Rightarrow> 'a \<Rightarrow> 'a list result" where
  "put cap dst x = (if length dst < cap then Inr (dst @ [x]) else Inl OutOfBounds)"

lemma put_length: "put cap dst x = Inr dst' \<Longrightarrow> length dst' = Suc (length dst)"
  by (auto simp: put_def split: if_splits)

section \<open>Line ends\<close>

text \<open>The loop of \<open>CountUnixEol\<close>, at \<open>Index = i\<close> with the count so far.\<close>

function count_eol :: "byte list \<Rightarrow> nat \<Rightarrow> nat \<Rightarrow> nat \<Rightarrow> nat result" where
  "count_eol src len i n =
     (if \<not> i < len then Inr n
      else rbind (rd src i) (\<lambda>c.
        if c = 0 then Inr n
        else if c = 10 then
          if i = 0 then count_eol src len (Suc i) (Suc n)
          else rbind (rd src (i - 1)) (\<lambda>b.
                 if b \<noteq> 13 then count_eol src len (Suc i) (Suc n) else count_eol src len (Suc i) n)
        else count_eol src len (Suc i) n))"
  by pat_completeness auto
termination by (relation "measure (\<lambda>(_, len, i, _). len - i)") auto

declare count_eol.simps [simp del]

definition CountUnixEol :: "byte list \<Rightarrow> nat \<Rightarrow> nat result" where
  "CountUnixEol src len = count_eol src len 0 0"

section \<open>UTF-8 to UTF-16\<close>

text \<open>\<open>utf8_charlen\<close> of the interpreter: the bytes that are not continuation bytes.\<close>

definition UTF8_IS_CONT :: "byte \<Rightarrow> bool" where
  "UTF8_IS_CONT b \<longleftrightarrow> b AND 0xC0 = 0x80"

definition utf8_charlen :: "byte list \<Rightarrow> nat \<Rightarrow> nat result" where
  "utf8_charlen src len =
     (if len \<le> length src then Inr (length (filter (\<lambda>b. \<not> UTF8_IS_CONT b) (take len src)))
      else Inl OutOfBounds)"

text \<open>The carriage return in front of a line feed at \<open>SrcBuf\<close> (\<open>Index\<close> is \<open>length dst\<close>).\<close>

definition put_cr :: "bool \<Rightarrow> byte list \<Rightarrow> nat \<Rightarrow> nat \<Rightarrow> w16 list \<Rightarrow> byte \<Rightarrow> w16 list result" where
  "put_cr conv src cap pos dst b0 =
     (if conv \<and> b0 = 10
      then if dst = [] then put cap dst 13
           else rbind (rd src (pos - 1)) (\<lambda>p. if p \<noteq> 13 then put cap dst 13 else Inr dst)
      else Inr dst)"

lemma put_cr_length: "put_cr conv src cap pos dst b0 = Inr dst' \<Longrightarrow> length dst \<le> length dst'"
  by (auto simp: put_cr_def rbind_eq_Inr split: if_splits dest!: put_length)

function utf8_loop :: "bool \<Rightarrow> byte list \<Rightarrow> nat \<Rightarrow> nat \<Rightarrow> nat \<Rightarrow> w16 list \<Rightarrow> w16 list result" where
  "utf8_loop conv src len cap pos dst =
     (if \<not> length dst < len then Inr dst
      else rbind (rd src pos) (\<lambda>b0.
        if b0 AND 0xE0 = 0xE0 then
          rbind (rd src (pos + 1)) (\<lambda>b1. rbind (rd src (pos + 2)) (\<lambda>b2.
          rbind (put cap dst (push_bit 12 (ucast (b0 AND 0x0F)) OR push_bit 6 (ucast (b1 AND 0x3F))
                              OR ucast (b2 AND 0x3F)))
            (\<lambda>dst'. utf8_loop conv src len cap (pos + 3) dst')))
        else if b0 AND 0xC0 = 0xC0 then
          rbind (rd src (pos + 1)) (\<lambda>b1.
          rbind (put cap dst (push_bit 6 (ucast (b0 AND 0x1F)) OR ucast (b1 AND 0x3F)))
            (\<lambda>dst'. utf8_loop conv src len cap (pos + 2) dst'))
        else
          rbind (put_cr conv src cap pos dst b0) (\<lambda>dst1.
          rbind (put cap dst1 (ucast b0))
            (\<lambda>dst'. utf8_loop conv src len cap (pos + 1) dst'))))"
  by pat_completeness auto
termination
  by (relation "measure (\<lambda>(_, _, len, _, _, dst). len - length dst)")
     (auto dest!: put_length put_cr_length)

declare utf8_loop.simps [simp del]

text \<open>
  \<open>Utf8ToUnicode\<close>. \<open>dst\<close> is the capacity of the caller's buffer, \<open>None\<close> when the function
  allocates it (\<open>grant\<close>: whether the pool has the memory). The result is the contents of the
  buffer with its terminator and the length that is returned.
\<close>

definition Utf8ToUnicode ::
  "bool \<Rightarrow> byte list \<Rightarrow> nat option \<Rightarrow> nat \<Rightarrow> bool \<Rightarrow> (w16 list \<times> nat) result" where
  "Utf8ToUnicode grant src dst len conv =
     rbind (if conv then CountUnixEol src len else Inr 0) (\<lambda>eols.
     rbind (utf8_charlen src len) (\<lambda>chars.
     let len' = chars + eols; cap = (case dst of None \<Rightarrow> len' + 1 | Some n \<Rightarrow> n) in
     rbind (rassert (dst \<noteq> None \<or> grant) AssertFailed) (\<lambda>_.
     rbind (utf8_loop conv src len' cap 0 []) (\<lambda>out.
     rbind (put cap out 0) (\<lambda>out'. Inr (out', len'))))))"

section \<open>UTF-16 to UTF-8\<close>

definition utf8_size :: "w16 \<Rightarrow> nat" where
  "utf8_size c = (if c < 0x80 then 1 else if c < 0x800 then 2 else 3)"

definition utf8_bytes :: "w16 \<Rightarrow> byte list" where
  "utf8_bytes c =
     (if c < 0x80 then [ucast c]
      else if c < 0x800 then [ucast (0xC0 OR drop_bit 6 c), ucast (0x80 OR (c AND 0x3F))]
      else [ucast (0xE0 OR (drop_bit 12 c AND 0x0F)), ucast (0x80 OR (drop_bit 6 c AND 0x3F)),
            ucast (0x80 OR (c AND 0x3F))])"

fun put_all :: "nat \<Rightarrow> 'a list \<Rightarrow> 'a list \<Rightarrow> 'a list result" where
  "put_all cap dst [] = Inr dst"
| "put_all cap dst (x # xs) = rbind (put cap dst x) (\<lambda>d. put_all cap d xs)"

definition UnicodeToUtf8 ::
  "bool \<Rightarrow> w16 list \<Rightarrow> nat option \<Rightarrow> nat \<Rightarrow> (byte list \<times> nat) result" where
  "UnicodeToUtf8 grant src dst len =
     (if \<not> len \<le> length src then Inl OutOfBounds
      else
        let size = sum_list (map utf8_size (take len src));
            cap = (case dst of None \<Rightarrow> size + 1 | Some n \<Rightarrow> n) in
        rbind (rassert (dst \<noteq> None \<or> grant) AssertFailed) (\<lambda>_.
        rbind (mfold (\<lambda>c out. put_all cap out (utf8_bytes c)) (take len src) []) (\<lambda>out.
        rbind (put cap out 0) (\<lambda>out'. Inr (out', length out)))))"

definition ToUpyString :: "bool \<Rightarrow> w16 list \<Rightarrow> nat option \<Rightarrow> nat \<Rightarrow> (byte list \<times> nat) result" where
  "ToUpyString grant src dst len = UnicodeToUtf8 grant src dst len"

definition ToUefiString :: "bool \<Rightarrow> byte list \<Rightarrow> nat option \<Rightarrow> nat \<Rightarrow> (w16 list \<times> nat) result" where
  "ToUefiString grant src dst len = Utf8ToUnicode grant src dst len True"

section \<open>Searching and copying\<close>

text \<open>
  \<open>StrStrR\<close> on two strings without their terminators. The inner loop compares from the end of
  the search string and yields the number of characters left when it stops; the C loop tests
  the characters before the count, so after a complete match it also reads the element in
  front of each of the two ranges, without using it.
\<close>

fun match_back :: "w16 list \<Rightarrow> w16 list \<Rightarrow> nat \<Rightarrow> nat \<Rightarrow> nat" where
  "match_back s t off 0 = 0"
| "match_back s t off (Suc n) = (if s ! (off + n) = t ! n then match_back s t off n else Suc n)"

fun strstrr_loop :: "w16 list \<Rightarrow> w16 list \<Rightarrow> nat \<Rightarrow> nat option" where
  "strstrr_loop s t n =
     (if length t \<le> n
      then if match_back s t (n - length t) (length t) = 0 then Some (n - length t)
           else (case n of 0 \<Rightarrow> None | Suc m \<Rightarrow> strstrr_loop s t m)
      else None)"

declare strstrr_loop.simps [simp del]

definition StrStrR :: "w16 list \<Rightarrow> w16 list \<Rightarrow> nat option" where
  "StrStrR s t =
     (if t = [] then Some 0 else if s = [] then None else strstrr_loop s t (length s))"

text \<open>
  \<open>StrDup\<close> of a terminated string (\<open>None\<close>: a null pointer). \<open>StrnCatS\<close> appends at most
  \<open>MaxLen\<close> characters of the source to the empty destination.
\<close>

definition StrDup :: "bool \<Rightarrow> w16 list option \<Rightarrow> nat \<Rightarrow> w16 list option" where
  "StrDup grant src maxlen =
     (case src of None \<Rightarrow> None
      | Some s \<Rightarrow>
          let n = (if maxlen = 0 then length s else maxlen) in
          if n = 0 then None else if grant then Some (take n s) else None)"

section \<open>Finding a script engine\<close>

text \<open>
  The firmware answers \<open>LocateHandleBuffer\<close> with a status and the handles, \<open>HandleProtocol\<close>
  with a status and an interface; \<open>GetType\<close> of an interface is \<open>ty\<close>. The second result is
  what the caller's variable holds at the end, which is the last interface tried.
\<close>

fun find_script ::
  "('h \<Rightarrow> efi_status \<times> 'i) \<Rightarrow> ('i \<Rightarrow> 32 word) \<Rightarrow> 32 word \<Rightarrow> 'h list \<Rightarrow> 'i \<Rightarrow> efi_status \<times> 'i" where
  "find_script proto ty wanted [] out = (EFI_NOT_FOUND, out)"
| "find_script proto ty wanted (h # hs) out =
     (case proto h of (st, i) \<Rightarrow>
       if \<not> EFI_ERROR st \<and> ty i = wanted then (EFI_SUCCESS, i) else find_script proto ty wanted hs i)"

definition FindScriptProtocolByType ::
  "efi_status \<times> 'h list \<Rightarrow> ('h \<Rightarrow> efi_status \<times> 'i) \<Rightarrow> ('i \<Rightarrow> 32 word) \<Rightarrow> 32 word \<Rightarrow> 'i
    \<Rightarrow> efi_status \<times> 'i" where
  "FindScriptProtocolByType located proto ty wanted out =
     (if wanted = 0 then (EFI_INVALID_PARAMETER, out)
      else if EFI_ERROR (fst located) then (fst located, out)
      else find_script proto ty wanted (snd located) out)"

end
