(* ===== verification/Usf_Files.thy ===== *)
theory Usf_Files
  imports Misc_Strings
begin

unbundle bit_operations_syntax

text \<open>
  \<open>MicroPythonDxe/Uefi/usf.c\<close>, first part: the standard streams and the table of file
  descriptors of the script file protocol. The console behind the streams (\<open>gST->ConOut\<close>,
  \<open>gST->ConIn\<close>) is an argument.
\<close>

section \<open>The standard streams\<close>

datatype EFI_FILE_HANDLE = mStdIn | mStdOut | mStdErr | FsHandle nat

definition SysStdIoClose :: "EFI_FILE_HANDLE \<Rightarrow> efi_status" where
  "SysStdIoClose h = EFI_SUCCESS"

definition SysStdIoDelete :: "EFI_FILE_HANDLE \<Rightarrow> efi_status" where
  "SysStdIoDelete h = EFI_SUCCESS"

definition SysStdIoFlush :: "EFI_FILE_HANDLE \<Rightarrow> efi_status" where
  "SysStdIoFlush h = EFI_SUCCESS"

definition SysStdIoOpen :: "EFI_FILE_HANDLE \<Rightarrow> w16 list \<Rightarrow> efi_status" where
  "SysStdIoOpen h name = EFI_NOT_FOUND"

definition SysStdIoGetPosition :: "EFI_FILE_HANDLE \<Rightarrow> efi_status" where
  "SysStdIoGetPosition h = EFI_UNSUPPORTED"

definition SysStdIoSetPosition :: "EFI_FILE_HANDLE \<Rightarrow> nat \<Rightarrow> efi_status" where
  "SysStdIoSetPosition h pos = EFI_UNSUPPORTED"

definition SysStdIoGetInfo :: "EFI_FILE_HANDLE \<Rightarrow> efi_status" where
  "SysStdIoGetInfo h = EFI_UNSUPPORTED"

definition SysStdIoSetInfo :: "EFI_FILE_HANDLE \<Rightarrow> efi_status" where
  "SysStdIoSetInfo h = EFI_UNSUPPORTED"

definition SysStdIoWrite :: "EFI_FILE_HANDLE \<Rightarrow> efi_status" where
  "SysStdIoWrite h = EFI_UNSUPPORTED"

definition SysStdIoRead :: "EFI_FILE_HANDLE \<Rightarrow> efi_status" where
  "SysStdIoRead h = EFI_UNSUPPORTED"

text \<open>
  Writing to the standard output: \<open>out\<close> is \<open>OutputString\<close> of the console behind the stream
  (\<open>None\<close> when it never returns), \<open>grant\<close> whether the conversion gets its buffer. The string
  it is handed carries its terminator. \<open>BufferSize\<close> is not changed.
\<close>

definition SysStdOutWrite ::
  "(w16 list \<Rightarrow> 'd \<Rightarrow> (efi_status \<times> 'd) result option) \<Rightarrow> bool \<Rightarrow> byte list \<Rightarrow> nat \<Rightarrow> 'd
    \<Rightarrow> (efi_status \<times> 'd) result option" where
  "SysStdOutWrite out grant buf bsize d =
     (case ToUefiString grant buf None bsize of
        Inl e \<Rightarrow> Some (Inl e)
      | Inr (ws, _) \<Rightarrow> out ws d)"

definition SysStdErrWrite ::
  "(w16 list \<Rightarrow> 'd \<Rightarrow> (efi_status \<times> 'd) result option) \<Rightarrow> bool \<Rightarrow> byte list \<Rightarrow> nat \<Rightarrow> 'd
    \<Rightarrow> (efi_status \<times> 'd) result option" where
  "SysStdErrWrite out grant buf bsize d =
     (case ToUefiString grant buf None bsize of
        Inl e \<Rightarrow> Some (Inl e)
      | Inr (ws, _) \<Rightarrow> out ws d)"

text \<open>The \<open>Write\<close> members of the three stream objects.\<close>

fun std_write ::
  "(w16 list \<Rightarrow> 'd \<Rightarrow> (efi_status \<times> 'd) result option)
    \<Rightarrow> (w16 list \<Rightarrow> 'd \<Rightarrow> (efi_status \<times> 'd) result option)
    \<Rightarrow> EFI_FILE_HANDLE \<Rightarrow> bool \<Rightarrow> byte list \<Rightarrow> nat \<Rightarrow> 'd \<Rightarrow> (efi_status \<times> 'd) result option" where
  "std_write out err mStdOut grant buf bsize d = SysStdOutWrite out grant buf bsize d"
| "std_write out err mStdErr grant buf bsize d = SysStdErrWrite err grant buf bsize d"
| "std_write out err h grant buf bsize d = Some (Inr (SysStdIoWrite h, d))"

section \<open>Reading a line\<close>

text \<open>
  A key event is what \<open>ReadKeyStroke\<close> returns after \<open>WaitForEvent\<close>: a status and the two
  codes. The events are a list; when it is used up the loop waits for ever. The commands the
  loop sends to the console are recorded in order.
\<close>

type_synonym key_event = "efi_status \<times> w16 \<times> w16"

datatype con_cmd = CmdOutput "w16 list" | CmdCursor int int

definition SCAN_DELETE :: w16 where "SCAN_DELETE = 8"
definition KEY_CR :: w16 where "KEY_CR = 13"
definition KEY_BS :: w16 where "KEY_BS = 8"

text \<open>\<open>CurrentString[--StringCurPos] = ' '\<close>, when there is something to take back.\<close>

definition take_back :: "byte list \<Rightarrow> nat \<Rightarrow> (byte list \<times> nat) result" where
  "take_back buf pos =
     (if pos = 0 then Inr (buf, pos)
      else if pos - 1 < length buf then Inr (buf[pos - 1 := 32], pos - 1) else Inl OutOfBounds)"

text \<open>One round: the new buffer and position, whether the line is complete, the output.\<close>

definition key_step ::
  "w16 \<Rightarrow> w16 \<Rightarrow> byte list \<Rightarrow> nat \<Rightarrow> (byte list \<times> nat \<times> bool \<times> con_cmd list) result" where
  "key_step scan uni buf pos =
     (if uni = 0 then
        (if scan = SCAN_DELETE then rbind (take_back buf pos) (\<lambda>(b, p). Inr (b, p, False, []))
         else Inr (buf, pos, False, []))
      else if uni = KEY_CR then Inr (buf, pos, True, [CmdOutput [10]])
      else if uni = KEY_BS then rbind (take_back buf pos) (\<lambda>(b, p). Inr (b, p, False, []))
      else if pos < length buf then Inr (buf[pos := ucast uni], Suc pos, False, [])
      else Inl OutOfBounds)"

fun read_line ::
  "int \<Rightarrow> int \<Rightarrow> nat \<Rightarrow> key_event list \<Rightarrow> byte list \<Rightarrow> nat
    \<Rightarrow> (efi_status \<times> byte list \<times> nat \<times> con_cmd list \<times> key_event list) result option" where
  "read_line col row maxstr [] buf pos = None"
| "read_line col row maxstr ((st, scan, uni) # keys) buf pos =
     (if EFI_ERROR st then Some (Inr (st, buf, pos, [], keys))
      else (case key_step scan uni buf pos of
              Inl e \<Rightarrow> Some (Inl e)
            | Inr (buf', pos', fin, cmds) \<Rightarrow>
                let cmds' = cmds @ [CmdCursor (uintn (col + int pos')) row] in
                if fin \<or> maxstr \<le> pos' then Some (Inr (st, buf', pos', cmds', keys))
                else map_option (\<lambda>r. rbind r (\<lambda>(s, b, p, cs, ks). Inr (s, b, p, cmds' @ cs, ks)))
                       (read_line col row maxstr keys buf' pos')))"

text \<open>
  \<open>SysStdInRead\<close>: \<open>buf\<close> is the caller's buffer, \<open>bsize\<close> its \<open>BufferSize\<close>; \<open>col\<close>, \<open>row\<close> and
  \<open>tcols\<close> are the cursor and the columns the console reports. The result is the status, the
  buffer, the size that is returned, the commands and the events left.
\<close>

definition SysStdInRead ::
  "int \<Rightarrow> int \<Rightarrow> int \<Rightarrow> key_event list \<Rightarrow> byte list \<Rightarrow> nat
    \<Rightarrow> (efi_status \<times> byte list \<times> nat \<times> con_cmd list \<times> key_event list) result option" where
  "SysStdInRead col row tcols keys buf bsize =
     (if bsize < 2 then Some (Inr (EFI_BUFFER_TOO_SMALL, buf, 2, [], keys))
      else
        let maxstr = (let m = nat (uintn (tcols - uintn col)) in if m > bsize then bsize else m) in
        if maxstr \<le> length buf
        then read_line col row maxstr keys (replicate maxstr 0 @ drop maxstr buf) 0
        else Some (Inl OutOfBounds))"

section \<open>The descriptor table\<close>

record 't USF_PRIVATE_DATA =
  FilePool :: "EFI_FILE_HANDLE option list"
  FileSystemTable :: "'t option"
  CurrentDirectory :: "w16 list option"

definition FILE_POOL_SIZE :: nat where "FILE_POOL_SIZE = 64"

text \<open>The loop of \<open>UsfMap\<close>: the first free entry from \<open>i\<close> on.\<close>

function first_free :: "EFI_FILE_HANDLE option list \<Rightarrow> nat \<Rightarrow> nat option" where
  "first_free pool i =
     (if i < length pool then if pool ! i = None then Some i else first_free pool (Suc i) else None)"
  by pat_completeness auto
termination by (relation "measure (\<lambda>(pool, i). length pool - i)") auto

declare first_free.simps [simp del]

definition UsfMap ::
  "EFI_FILE_HANDLE option \<Rightarrow> 't USF_PRIVATE_DATA \<Rightarrow> efi_status \<times> int option \<times> 't USF_PRIVATE_DATA" where
  "UsfMap handle u =
     (case handle of
        None \<Rightarrow> (EFI_INVALID_PARAMETER, None, u)
      | Some h \<Rightarrow>
          (case first_free (FilePool u) 3 of
             None \<Rightarrow> (EFI_NOT_FOUND, Some (-1), u)
           | Some i \<Rightarrow> (EFI_SUCCESS, Some (int i), u\<lparr>FilePool := (FilePool u)[i := Some h]\<rparr>)))"

definition UsfUnmap :: "int \<Rightarrow> 't USF_PRIVATE_DATA \<Rightarrow> efi_status \<times> 't USF_PRIVATE_DATA" where
  "UsfUnmap fd u =
     (if fd < 3 \<or> fd \<ge> int (length (FilePool u)) then (EFI_INVALID_PARAMETER, u)
      else (EFI_SUCCESS, u\<lparr>FilePool := (FilePool u)[nat fd := None]\<rparr>))"

definition UsfGetFileHandle ::
  "int \<Rightarrow> 't USF_PRIVATE_DATA \<Rightarrow> efi_status \<times> EFI_FILE_HANDLE option" where
  "UsfGetFileHandle fd u =
     (if fd < 0 \<or> fd \<ge> int (length (FilePool u)) then (EFI_INVALID_PARAMETER, None)
      else (case FilePool u ! nat fd of
              None \<Rightarrow> (EFI_NOT_FOUND, None)
            | Some h \<Rightarrow> (EFI_SUCCESS, Some h)))"

definition UsfSetStdIo ::
  "EFI_FILE_HANDLE option \<Rightarrow> EFI_FILE_HANDLE option \<Rightarrow> EFI_FILE_HANDLE option
    \<Rightarrow> 't USF_PRIVATE_DATA \<Rightarrow> efi_status \<times> 't USF_PRIVATE_DATA" where
  "UsfSetStdIo inp out err u =
     (let i = (case inp of None \<Rightarrow> mStdIn | Some h \<Rightarrow> h);
          o' = (case out of None \<Rightarrow> mStdOut | Some h \<Rightarrow> h);
          e = (case err of None \<Rightarrow> mStdErr | Some h \<Rightarrow> h)
      in (EFI_SUCCESS, u\<lparr>FilePool := (FilePool u)[0 := Some i, 1 := Some o', 2 := Some e]\<rparr>))"

text \<open>
  \<open>UsfInit\<close>: \<open>present\<close> says whether \<open>LocateProtocol\<close> finds an installed protocol, \<open>tbl\<close> is the
  answer of \<open>ConsistMappingTableInit\<close>, \<open>inst\<close> that of \<open>InstallProtocolInterface\<close>. The second
  component is the flag \<open>mProtocolInstalled\<close>.
\<close>

definition UsfInit ::
  "bool \<Rightarrow> efi_status \<times> 't \<Rightarrow> efi_status \<Rightarrow> 't USF_PRIVATE_DATA \<times> bool
    \<Rightarrow> (efi_status \<times> 't USF_PRIVATE_DATA \<times> bool) result" where
  "UsfInit present tbl inst s =
     (case s of (u, installed) \<Rightarrow>
        if present then Inr (EFI_ALREADY_STARTED, u, installed)
        else
          let u1 = u\<lparr>FilePool := (replicate FILE_POOL_SIZE None)[0 := Some mStdIn, 1 := Some mStdOut,
                                                               2 := Some mStdErr]\<rparr> in
          rbind (rassert (\<not> EFI_ERROR (fst tbl)) AssertFailed) (\<lambda>_.
          let u2 = u1\<lparr>FileSystemTable := Some (snd tbl)\<rparr> in
          if EFI_ERROR inst then Inr (EFI_NOT_STARTED, u2, installed)
          else Inr (EFI_SUCCESS, u2, True)))"

definition UsfDeinit ::
  "bool \<Rightarrow> efi_status \<Rightarrow> 't USF_PRIVATE_DATA \<times> bool \<Rightarrow> efi_status \<times> 't USF_PRIVATE_DATA \<times> bool" where
  "UsfDeinit has_image uninst s =
     (case s of (u, installed) \<Rightarrow>
        if installed \<and> has_image then (uninst, u, installed) else (EFI_SUCCESS, u, installed))"

end
