(* ===== verification/Usf_Paths.thy ===== *)
theory Usf_Paths
  imports Usf_Files
begin

text \<open>
  \<open>MicroPythonDxe/Uefi/usf.c\<close>, second part: path names and opening files. What the boot
  services, the file system drivers, the shell and the drive naming (\<open>GetConsistMappingName\<close>)
  answer is the argument \<open>fw\<close>; memory for copies of strings is granted. \<open>StrStr\<close> and
  \<open>StrnCatS\<close> are modelled by their documented effect. Opening and closing volumes is
  recorded in the order in which it happens.
\<close>

section \<open>Strings\<close>

definition SLASH :: w16 where "SLASH = 47"
definition SEP :: w16 where "SEP = 92"
definition DRIVE :: w16 where "DRIVE = 58"

definition PATH_PREFIX :: "w16 list" where "PATH_PREFIX = [SEP, SEP]"
definition ROOT_TYPE_INTERNAL :: "w16 list" where "ROOT_TYPE_INTERNAL = [SEP, SEP, DRIVE]"
definition ROOT_TYPE_LABEL :: "w16 list" where
  "ROOT_TYPE_LABEL = [SEP, SEP, 76, 65, 66, 69, 76, DRIVE]"

lemmas path_consts = SLASH_def SEP_def DRIVE_def PATH_PREFIX_def ROOT_TYPE_INTERNAL_def ROOT_TYPE_LABEL_def

text \<open>\<open>StrStr (s, t)\<close>: the rest of \<open>s\<close> from the first occurrence of \<open>t\<close> on.\<close>

fun StrStr :: "w16 list \<Rightarrow> w16 list \<Rightarrow> w16 list option" where
  "StrStr [] t = (if t = [] then Some [] else None)"
| "StrStr (c # s) t = (if take (length t) (c # s) = t then Some (c # s) else StrStr s t)"

text \<open>
  \<open>StrnCatS (Dst, DestMax, Src, n)\<close> fails when the result does not fit in \<open>DestMax\<close>; \<open>cap\<close> is
  the number of elements the destination really has.
\<close>

definition StrnCatS :: "nat \<Rightarrow> w16 list \<Rightarrow> nat \<Rightarrow> w16 list \<Rightarrow> nat \<Rightarrow> (bool \<times> w16 list) result" where
  "StrnCatS cap dst dmax src n =
     (let r = dst @ take n src in
      if \<not> length r < dmax then Inr (False, dst)
      else if length r < cap then Inr (True, r) else Inl OutOfBounds)"

text \<open>A copy that \<open>StrDup\<close> makes; the source string is not null.\<close>

definition str_dup :: "w16 list \<Rightarrow> nat \<Rightarrow> w16 list option" where
  "str_dup s n = StrDup True (Some s) n"

section \<open>Splitting and joining paths\<close>

text \<open>
  The drive is what stands between the first and the second colon, the second colon
  included. Without any colon the code computes with the null pointer.
\<close>

definition SplitDrive :: "w16 list \<Rightarrow> (w16 list option \<times> w16 list option) result" where
  "SplitDrive full =
     (case StrStr full [DRIVE] of
        None \<Rightarrow> Inl NullDeref
      | Some p \<Rightarrow>
          let full' = tl p in
          (case StrStr full' [DRIVE] of
             None \<Rightarrow> Inr (None, None)
           | Some p2 \<Rightarrow>
               let path = tl p2; dlen = length full' - length path in
               Inr (if dlen > 0 then str_dup full' dlen else None,
                    if length path > 0 then str_dup path (length path) else None)))"

text \<open>
  \<open>PathnCat\<close> changes the destination in place; the result is its contents, and whether the
  function returned the destination (\<open>True\<close>) or, after an error, the null pointer.
\<close>

definition PathnCat ::
  "nat \<Rightarrow> w16 list option \<Rightarrow> w16 list option \<Rightarrow> nat \<Rightarrow> (bool \<times> w16 list option) result" where
  "PathnCat cap dst src maxlen =
     (case (dst, src) of
        (Some d, Some s) \<Rightarrow>
          if maxlen = 0 \<or> s = [] then Inr (True, dst)
          else
            let len = length d in
            rbind (if len > 0 then
                     if last d \<noteq> SEP then
                       if hd s \<noteq> SEP
                       then rbind (StrnCatS cap d (len + maxlen + 1) [SEP] 1) (\<lambda>(okay, d'). Inr (okay, d', len + 1, s))
                       else Inr (True, d, len, s)
                     else if hd s = SEP then Inr (True, d, len, tl s)
                     else Inr (True, d, len, s)
                   else Inr (True, d, len, s)) (\<lambda>(okay, d', len', s').
            if \<not> okay then Inr (False, Some d')
            else rbind (StrnCatS cap d' (len' + maxlen + 1) s' maxlen) (\<lambda>(okay', d'').
                   Inr (okay', Some d'')))
      | _ \<Rightarrow> Inr (True, dst))"

section \<open>The firmware\<close>

record 'dp shell =
  GetCurDir :: "w16 list option"
  GetDevicePathFromFilePath :: "w16 list option \<Rightarrow> 'dp option"

datatype 'r vol_event = OpenVol 'r | CloseVol 'r

record ('h, 'dp, 'r) usf_firmware =
  Shell :: "'dp shell option"
  FsHandles :: "efi_status \<times> 'h list"
  DevicePathFromHandle :: "'h \<Rightarrow> 'dp option"
  ConsistMappingName :: "'dp \<Rightarrow> w16 list option"
  HandleProtocol :: "'h \<Rightarrow> efi_status"
  OpenVolume :: "'h \<Rightarrow> efi_status \<times> 'r"
  VolumeLabel :: "'r \<Rightarrow> efi_status \<times> w16 list"
  VolOpen :: "'r \<Rightarrow> w16 list \<Rightarrow> nat \<Rightarrow> nat \<Rightarrow> efi_status \<times> EFI_FILE_HANDLE option"
  RootFile :: "'r \<Rightarrow> EFI_FILE_HANDLE"

text \<open>\<open>GetConsistMappingName\<close> asserts that it is given a device path.\<close>

definition mapping_name :: "('h, 'dp, 'r) usf_firmware \<Rightarrow> 'dp option \<Rightarrow> w16 list option result" where
  "mapping_name fw dp = (case dp of None \<Rightarrow> Inl AssertFailed | Some p \<Rightarrow> Inr (ConsistMappingName fw p))"

section \<open>Finding file systems\<close>

fun by_label_loop ::
  "('h, 'dp, 'r) usf_firmware \<Rightarrow> w16 list \<Rightarrow> 'h list \<Rightarrow> ('dp option \<times> 'r vol_event list) result" where
  "by_label_loop fw label [] = Inr (None, [])"
| "by_label_loop fw label (h # hs) =
     rbind (rassert (\<not> EFI_ERROR (HandleProtocol fw h)) AssertFailed) (\<lambda>_.
     (case OpenVolume fw h of (st, root) \<Rightarrow>
       if EFI_ERROR st then by_label_loop fw label hs
       else (case VolumeLabel fw root of (st2, l) \<Rightarrow>
         if \<not> EFI_ERROR st2 \<and> label = l
         then Inr (DevicePathFromHandle fw h, [OpenVol root, CloseVol root])
         else rbind (by_label_loop fw label hs) (\<lambda>(dp, ev).
                Inr (dp, OpenVol root # CloseVol root # ev)))))"

definition GetDevicePathByLabel ::
  "('h, 'dp, 'r) usf_firmware \<Rightarrow> w16 list \<Rightarrow> ('dp option \<times> 'r vol_event list) result" where
  "GetDevicePathByLabel fw label =
     (case FsHandles fw of (st, hs) \<Rightarrow>
        if EFI_ERROR st then Inr (None, []) else by_label_loop fw label hs)"

fun by_name_loop :: "('h, 'dp, 'r) usf_firmware \<Rightarrow> w16 list \<Rightarrow> 'h list \<Rightarrow> 'h option result" where
  "by_name_loop fw name [] = Inr None"
| "by_name_loop fw name (h # hs) =
     rbind (mapping_name fw (DevicePathFromHandle fw h)) (\<lambda>n.
       if n = Some name then Inr (Some h) else by_name_loop fw name hs)"

definition GetHandleFromMapName ::
  "('h, 'dp, 'r) usf_firmware \<Rightarrow> w16 list option \<Rightarrow> 'h option result" where
  "GetHandleFromMapName fw name =
     (case name of None \<Rightarrow> Inr None
      | Some n \<Rightarrow> (case FsHandles fw of (st, hs) \<Rightarrow>
          if EFI_ERROR st then Inr None else by_name_loop fw n hs))"

section \<open>Normal form of a path\<close>

text \<open>
  The three pieces the normal form is made of: drive name, current directory, rest of the
  path. \<open>Left\<close> is an early return with a status.
\<close>

type_synonym pieces = "w16 list option \<times> w16 list option \<times> w16 list option"

definition relative_path ::
  "('h, 'dp, 'r) usf_firmware \<Rightarrow> w16 list option \<Rightarrow> w16 list \<Rightarrow> (efi_status + pieces) result" where
  "relative_path fw curdir copy =
     (let path = (\<lambda>dir. if hd copy = SEP then (None, Some (tl copy)) else (dir, Some copy)) in
      case Shell fw of
        None \<Rightarrow>
          (case curdir of None \<Rightarrow> Inr (Inl EFI_NO_MAPPING)
           | Some cd \<Rightarrow> rbind (SplitDrive cd) (\<lambda>(mapping, dir). Inr (Inr (mapping, path dir))))
      | Some sh \<Rightarrow>
          (case GetDevicePathFromFilePath sh (GetCurDir sh) of
             None \<Rightarrow> Inr (Inl EFI_NO_MAPPING)
           | Some dp \<Rightarrow>
               (case ConsistMappingName fw dp of
                  None \<Rightarrow> Inl AssertFailed
                | Some mapping \<Rightarrow>
                    (case GetCurDir sh of
                       None \<Rightarrow> Inl NullDeref
                     | Some cd \<Rightarrow>
                         let dir = (case StrStr cd [DRIVE] of None \<Rightarrow> None
                                    | Some p \<Rightarrow> str_dup (if take 1 (tl p) = [SEP] then tl (tl p) else tl p) 0)
                         in Inr (Inr (Some mapping, path dir))))))"

definition absolute_path ::
  "('h, 'dp, 'r) usf_firmware \<Rightarrow> w16 list \<Rightarrow> w16 list \<Rightarrow> (efi_status + pieces) result" where
  "absolute_path fw copy colon =
     (case Shell fw of
        None \<Rightarrow> Inr (Inl EFI_NO_MAPPING)
      | Some sh \<Rightarrow>
          rbind (mapping_name fw (GetDevicePathFromFilePath sh (Some copy))) (\<lambda>n.
            (case n of None \<Rightarrow> Inl AssertFailed
             | Some mapping \<Rightarrow> Inr (Inr (Some mapping, None, Some (tl colon))))))"

definition label_path ::
  "('h, 'dp, 'r) usf_firmware \<Rightarrow> w16 list \<Rightarrow> ((efi_status + pieces) \<times> 'r vol_event list) result" where
  "label_path fw tmp =
     (case StrStr tmp [DRIVE] of
        None \<Rightarrow> Inl NullDeref
      | Some p \<Rightarrow>
          let label = tl p;
              (l, path) = (case StrStr label [SEP] of
                             None \<Rightarrow> (label, None)
                           | Some q \<Rightarrow> (take (length label - length q) label, Some (tl q)))
          in rbind (GetDevicePathByLabel fw l) (\<lambda>(dp, ev).
               (case dp of None \<Rightarrow> Inr (Inl EFI_NOT_FOUND, ev)
                | Some d \<Rightarrow>
                    (case ConsistMappingName fw d of None \<Rightarrow> Inl AssertFailed
                     | Some mapping \<Rightarrow> Inr (Inr (Some mapping, None, path), ev)))))"

text \<open>Putting the pieces together in a buffer whose size is computed beforehand.\<close>

definition piece_length :: "w16 list option \<Rightarrow> nat" where
  "piece_length p = (case p of None \<Rightarrow> 0 | Some s \<Rightarrow> if s = [] then 0 else length s + 1)"

definition compose_path :: "w16 list \<Rightarrow> w16 list option \<Rightarrow> w16 list option \<Rightarrow> w16 list option result" where
  "compose_path mapping dir path =
     (let rootlen = length ROOT_TYPE_INTERNAL + length mapping + 1;
          cap = rootlen + piece_length dir + piece_length path + 1 in
      rbind (StrnCatS cap [] rootlen ROOT_TYPE_INTERNAL (length ROOT_TYPE_INTERNAL)) (\<lambda>(_, t).
      rbind (StrnCatS cap t rootlen mapping (length mapping)) (\<lambda>(_, t).
      rbind (if piece_length dir > 0 then PathnCat cap (Some t) dir (piece_length dir)
             else Inr (True, Some t)) (\<lambda>(_, t).
      rbind (if piece_length path > 0 then PathnCat cap t path (piece_length path)
             else Inr (True, t)) (\<lambda>(_, t). Inr t)))))"

definition UsfFilePathNorm ::
  "('h, 'dp, 'r) usf_firmware \<Rightarrow> w16 list option \<Rightarrow> w16 list \<Rightarrow> bool
    \<Rightarrow> (efi_status \<times> w16 list option \<times> 'r vol_event list) result" where
  "UsfFilePathNorm fw curdir filepath convert =
     (case str_dup filepath (length filepath) of
        None \<Rightarrow> Inl AssertFailed
      | Some c \<Rightarrow>
          let copy = map (\<lambda>x. if x = SLASH then SEP else x) c in
          rbind (if take (length PATH_PREFIX) copy \<noteq> PATH_PREFIX
                 then rbind (case StrStr copy [DRIVE] of
                               None \<Rightarrow> relative_path fw curdir copy
                             | Some p \<Rightarrow> absolute_path fw copy p) (\<lambda>r. Inr (r, []))
                 else if convert \<and> StrStr copy ROOT_TYPE_INTERNAL = None
                 then (case StrStr copy ROOT_TYPE_LABEL of
                         None \<Rightarrow> Inr (Inr (None, None, None), [])
                       | Some tmp \<Rightarrow> label_path fw tmp)
                 else Inr (Inr (None, None, None), [])) (\<lambda>(r, ev).
          (case r of
             Inl st \<Rightarrow> Inr (st, None, ev)
           | Inr (None, _, _) \<Rightarrow> Inr (EFI_SUCCESS, Some copy, ev)
           | Inr (Some mapping, dir, path) \<Rightarrow>
               rbind (compose_path mapping dir path) (\<lambda>t. Inr (EFI_SUCCESS, t, ev)))))"

section \<open>Opening files\<close>

fun open_root_loop ::
  "('h, 'dp, 'r) usf_firmware \<Rightarrow> w16 list \<Rightarrow> efi_status \<Rightarrow> 'h list
    \<Rightarrow> (efi_status \<times> 'r option \<times> 'r vol_event list) result" where
  "open_root_loop fw name st [] = Inr (st, None, [])"
| "open_root_loop fw name st (h # hs) =
     rbind (mapping_name fw (DevicePathFromHandle fw h)) (\<lambda>n.
       if n = Some name then
         if EFI_ERROR (HandleProtocol fw h) then open_root_loop fw name (HandleProtocol fw h) hs
         else (case OpenVolume fw h of (st', root) \<Rightarrow>
           if EFI_ERROR st' then open_root_loop fw name st' hs
           else Inr (st', Some root, [OpenVol root]))
       else open_root_loop fw name EFI_VOLUME_CORRUPTED hs)"

definition UsfOpenRoot ::
  "('h, 'dp, 'r) usf_firmware \<Rightarrow> w16 list \<Rightarrow> (efi_status \<times> 'r option \<times> 'r vol_event list) result" where
  "UsfOpenRoot fw name =
     (case FsHandles fw of (st, hs) \<Rightarrow>
        if EFI_ERROR st then Inr (st, None, []) else open_root_loop fw name st hs)"

text \<open>A volume whose label does not match is left open.\<close>

fun open_label_loop ::
  "('h, 'dp, 'r) usf_firmware \<Rightarrow> w16 list \<Rightarrow> efi_status \<Rightarrow> 'h list
    \<Rightarrow> (efi_status \<times> 'r option \<times> 'r vol_event list) result" where
  "open_label_loop fw label st [] = Inr (st, None, [])"
| "open_label_loop fw label st (h # hs) =
     rbind (rassert (\<not> EFI_ERROR (HandleProtocol fw h)) AssertFailed) (\<lambda>_.
     (case OpenVolume fw h of (st', root) \<Rightarrow>
       if EFI_ERROR st' then open_label_loop fw label EFI_VOLUME_CORRUPTED hs
       else (case VolumeLabel fw root of (st2, l) \<Rightarrow>
         if \<not> EFI_ERROR st2 \<and> l = label then Inr (st2, Some root, [OpenVol root])
         else rbind (open_label_loop fw label EFI_VOLUME_CORRUPTED hs) (\<lambda>(st3, r, ev).
                Inr (st3, r, OpenVol root # ev)))))"

definition UsfOpenRootByLabel ::
  "('h, 'dp, 'r) usf_firmware \<Rightarrow> w16 list \<Rightarrow> (efi_status \<times> 'r option \<times> 'r vol_event list) result" where
  "UsfOpenRootByLabel fw label =
     (case FsHandles fw of (st, hs) \<Rightarrow>
        if EFI_ERROR st then Inr (st, None, []) else open_label_loop fw label st hs)"

text \<open>The root name and, behind the first separator, the file name.\<close>

definition split_root :: "w16 list \<Rightarrow> w16 list \<times> w16 list option" where
  "split_root s = (case StrStr s [SEP] of
      None \<Rightarrow> (s, None)
    | Some q \<Rightarrow> (take (length s - length q) s, Some (tl q)))"

definition UsfOpen ::
  "('h, 'dp, 'r) usf_firmware \<Rightarrow> w16 list option \<Rightarrow> w16 list option \<Rightarrow> nat \<Rightarrow> nat
    \<Rightarrow> (efi_status \<times> EFI_FILE_HANDLE option \<times> 'r vol_event list) result" where
  "UsfOpen fw curdir filepath mode attrs =
     (case filepath of
        None \<Rightarrow> Inr (EFI_INVALID_PARAMETER, None, [])
      | Some fp \<Rightarrow>
          rbind (UsfFilePathNorm fw curdir fp False) (\<lambda>(_, norm, ev0).
          (case norm of
             None \<Rightarrow> Inr (EFI_UNSUPPORTED, None, ev0)
           | Some np \<Rightarrow>
               rbind (if StrStr np ROOT_TYPE_INTERNAL \<noteq> None
                      then (case split_root (drop (length ROOT_TYPE_INTERNAL) np) of (root, name) \<Rightarrow>
                              rbind (UsfOpenRoot fw root) (\<lambda>r. Inr (r, name)))
                      else if StrStr np ROOT_TYPE_LABEL \<noteq> None
                      then (case split_root (drop (length ROOT_TYPE_LABEL) np) of (root, name) \<Rightarrow>
                              rbind (UsfOpenRootByLabel fw root) (\<lambda>r. Inr (r, name)))
                      else Inr ((EFI_NOT_FOUND, None, []), None)) (\<lambda>((st, root, ev), name).
               if EFI_ERROR st then Inr (EFI_VOLUME_CORRUPTED, None, ev0 @ ev)
               else (case name of
                       None \<Rightarrow> Inr (st, map_option (RootFile fw) root, ev0 @ ev)
                     | Some n \<Rightarrow>
                         (case root of
                            None \<Rightarrow> Inr (st, None, ev0 @ ev)
                          | Some r \<Rightarrow>
                              (case VolOpen fw r n mode attrs of (st', h) \<Rightarrow>
                                 Inr (st', h, ev0 @ ev @ [CloseVol r]))))))))"

section \<open>Directories and tables\<close>

text \<open>\<open>Shell->SetCurDir\<close> is the second result: the path handed to the shell, if there is one.\<close>

definition UsfGetCurrentDirectory ::
  "('h, 'dp, 'r) usf_firmware \<Rightarrow> 't USF_PRIVATE_DATA
    \<Rightarrow> (w16 list option \<times> 't USF_PRIVATE_DATA \<times> 'r vol_event list) result" where
  "UsfGetCurrentDirectory fw u =
     (case Shell fw of
        None \<Rightarrow> Inr (StrDup True (CurrentDirectory u) 0, u, [])
      | Some sh \<Rightarrow>
          (case GetCurDir sh of
             None \<Rightarrow> Inr (StrDup True (CurrentDirectory u) 0, u, [])
           | Some path \<Rightarrow>
               rbind (UsfFilePathNorm fw (CurrentDirectory u) path True) (\<lambda>(st, cd, ev).
                 if EFI_ERROR st \<or> cd = None then Inr (None, u, ev)
                 else Inr (StrDup True cd 0, u\<lparr>CurrentDirectory := cd\<rparr>, ev))))"

definition UsfChangeCurrentDirectory ::
  "('h, 'dp, 'r) usf_firmware \<Rightarrow> w16 list option \<Rightarrow> 't USF_PRIVATE_DATA
    \<Rightarrow> (efi_status \<times> w16 list option \<times> 't USF_PRIVATE_DATA \<times> 'r vol_event list) result" where
  "UsfChangeCurrentDirectory fw dir u =
     (case dir of
        None \<Rightarrow> Inr (EFI_INVALID_PARAMETER, None, u, [])
      | Some d \<Rightarrow>
          rbind (UsfFilePathNorm fw (CurrentDirectory u) d True) (\<lambda>(st, path, ev).
            if EFI_ERROR st then Inr (st, None, u, ev)
            else Inr (EFI_SUCCESS, if Shell fw = None then None else path,
                      u\<lparr>CurrentDirectory := path\<rparr>, ev)))"

definition UsfGetFileSystemTable ::
  "('h, 'dp, 'r) usf_firmware \<Rightarrow> efi_status \<times> w16 list list" where
  "UsfGetFileSystemTable fw =
     (case FsHandles fw of (st, hs) \<Rightarrow>
        if EFI_ERROR st \<or> hs = [] then (EFI_NOT_FOUND, [])
        else (EFI_SUCCESS, concat (map (\<lambda>h. case DevicePathFromHandle fw h of None \<Rightarrow> []
                | Some dp \<Rightarrow> (case ConsistMappingName fw dp of None \<Rightarrow> [] | Some n \<Rightarrow> [n])) hs)))"

text \<open>
  \<open>UsfGetFilePathFromDevicePath\<close>: \<open>located\<close> is the status of \<open>LocateDevicePath\<close>, \<open>rest\<close> the text
  of what remains of the device path behind the file system (\<open>None\<close>: nothing).
\<close>

definition UsfGetFilePathFromDevicePath ::
  "('h, 'dp, 'r) usf_firmware \<Rightarrow> efi_status \<Rightarrow> w16 list option \<Rightarrow> 'dp option \<Rightarrow> w16 list option result" where
  "UsfGetFilePathFromDevicePath fw located rest dp =
     (case dp of None \<Rightarrow> Inr None
      | Some d \<Rightarrow>
          if EFI_ERROR located then Inr None
          else (case ConsistMappingName fw d of
                  None \<Rightarrow> Inr None
                | Some mapping \<Rightarrow>
                    let flen = (case rest of None \<Rightarrow> 0 | Some f \<Rightarrow> length f);
                        cap = length ROOT_TYPE_INTERNAL + length mapping + flen + 3 in
                    rbind (StrnCatS cap [] cap ROOT_TYPE_INTERNAL (length ROOT_TYPE_INTERNAL)) (\<lambda>(_, t).
                    rbind (StrnCatS cap t cap mapping (length mapping)) (\<lambda>(_, t).
                    rbind (PathnCat cap (Some t) rest flen) (\<lambda>(_, t). Inr t)))))"

text \<open>
  \<open>UsfGetDevicePathFromFilePath\<close>: the result is the handle and the file name that are handed to
  \<open>FileDevicePath\<close>.
\<close>

definition UsfGetDevicePathFromFilePath ::
  "('h, 'dp, 'r) usf_firmware \<Rightarrow> w16 list option \<Rightarrow> w16 list option
    \<Rightarrow> (('h \<times> w16 list) option \<times> 'r vol_event list) result" where
  "UsfGetDevicePathFromFilePath fw curdir path =
     (case path of None \<Rightarrow> Inr (None, [])
      | Some p \<Rightarrow>
          rbind (UsfFilePathNorm fw curdir p True) (\<lambda>(st, np, ev).
            if EFI_ERROR st then Inr (None, ev)
            else (case np of
                    None \<Rightarrow> Inl NullDeref
                  | Some q \<Rightarrow>
                      rbind (SplitDrive q) (\<lambda>(name, file).
                      rbind (GetHandleFromMapName fw name) (\<lambda>h.
                        Inr (map_option (\<lambda>h. (h, case file of None \<Rightarrow> [SEP] | Some f \<Rightarrow> f)) h, ev))))))"

end
