(* ===== verification/Fd_File.thy ===== *)
theory Fd_File
  imports Usf_Paths
begin

text \<open>
  \<open>MicroPythonDxe/Uefi/file.c\<close>: the file objects of Python. The objects are opened through the
  descriptor table and the paths of \<open>usf.c\<close> (\<open>UsfOpen\<close>, \<open>UsfMap\<close>, \<open>UsfUnmap\<close>,
  \<open>UsfGetFileHandle\<close> of the theories before). \<open>FileHandleLib\<close>, which forwards to the file
  system driver, is the record \<open>lib\<close> over an unspecified file system state \<open>'fs\<close>; \<open>loc\<close> is the
  status of \<open>LocateProtocol\<close>, \<open>raw\<close> the contents of an uninitialised local object. The seek
  function of \<open>MicroPython/py/stream.c\<close> that calls \<open>fdfile_ioctl\<close> is included, because
  \<open>seek\<close> and \<open>tell\<close> of a file object are that function.
\<close>

section \<open>State\<close>

datatype io_type = mp_type_fileio | mp_type_textio

record mp_obj_fdfile_t =
  base_type :: io_type
  fd :: int
  fh :: "EFI_FILE_HANDLE option"
  sfp :: bool

type_synonym w64 = "64 word"

record 'fs file_handle_lib =
  FileHandleGetInfo :: "EFI_FILE_HANDLE \<Rightarrow> 'fs \<Rightarrow> w64 option \<times> 'fs"
  FileHandleClose :: "EFI_FILE_HANDLE \<Rightarrow> 'fs \<Rightarrow> 'fs"
  FileHandleRead :: "EFI_FILE_HANDLE \<Rightarrow> nat \<Rightarrow> 'fs \<Rightarrow> efi_status \<times> byte list \<times> 'fs"
  FileHandleWrite :: "EFI_FILE_HANDLE \<Rightarrow> byte list \<Rightarrow> 'fs \<Rightarrow> efi_status \<times> nat \<times> 'fs"
  FileHandleGetPosition :: "EFI_FILE_HANDLE \<Rightarrow> 'fs \<Rightarrow> efi_status \<times> w64"
  FileHandleGetSize :: "EFI_FILE_HANDLE \<Rightarrow> 'fs \<Rightarrow> efi_status \<times> w64"
  FileHandleSetPosition :: "EFI_FILE_HANDLE \<Rightarrow> w64 \<Rightarrow> 'fs \<Rightarrow> efi_status \<times> 'fs"
  FileHandleSetSize :: "EFI_FILE_HANDLE \<Rightarrow> w64 \<Rightarrow> 'fs \<Rightarrow> efi_status \<times> 'fs"
  FileHandleFlush :: "EFI_FILE_HANDLE \<Rightarrow> 'fs \<Rightarrow> efi_status \<times> 'fs"

text \<open>
  What the file objects change: the descriptor table, the file system, and two logs, of the
  volumes opened and closed and of the handles closed.
\<close>

record ('t, 'fs, 'r) io_world =
  w_usf :: "'t USF_PRIVATE_DATA"
  w_fs :: 'fs
  w_vols :: "'r vol_event list"
  w_closed :: "EFI_FILE_HANDLE list"

datatype py_exc = ValueError | TypeError | MemoryError | OSError nat | OSErrorStatus efi_status

type_synonym 'a py = "py_exc + 'a"

definition ENOENT :: nat where "ENOENT = 2"
definition EINVAL :: nat where "EINVAL = 22"

definition EFI_FILE_MODE_READ :: w64 where "EFI_FILE_MODE_READ = 1"
definition EFI_FILE_MODE_WRITE :: w64 where "EFI_FILE_MODE_WRITE = 2"
definition EFI_FILE_MODE_CREATE :: w64 where "EFI_FILE_MODE_CREATE = 0x8000000000000000"
definition EFI_FILE_DIRECTORY :: w64 where "EFI_FILE_DIRECTORY = 0x10"

lemmas file_consts = ENOENT_def EINVAL_def EFI_FILE_MODE_READ_def EFI_FILE_MODE_WRITE_def
  EFI_FILE_MODE_CREATE_def EFI_FILE_DIRECTORY_def

definition close_handle ::
  "'fs file_handle_lib \<Rightarrow> EFI_FILE_HANDLE \<Rightarrow> ('t, 'fs, 'r) io_world \<Rightarrow> ('t, 'fs, 'r) io_world" where
  "close_handle lib h w = w\<lparr>w_fs := FileHandleClose lib h (w_fs w), w_closed := w_closed w @ [h]\<rparr>"

section \<open>Opening\<close>

definition IS_STD_FILE :: "mp_obj_fdfile_t \<Rightarrow> bool" where
  "IS_STD_FILE o' \<longleftrightarrow> fd o' = 0 \<or> fd o' = 1 \<or> fd o' = 2"

definition sfp_open_by_fd ::
  "efi_status \<Rightarrow> 't USF_PRIVATE_DATA \<Rightarrow> mp_obj_fdfile_t \<Rightarrow> int \<Rightarrow> efi_status \<times> mp_obj_fdfile_t" where
  "sfp_open_by_fd loc u self n =
     (if EFI_ERROR loc then (loc, self)
      else (case UsfGetFileHandle n u of (st, h) \<Rightarrow>
              let self1 = self\<lparr>fh := h\<rparr> in
              (st, if EFI_ERROR st then self1 else self1\<lparr>fd := n, sfp := True\<rparr>)))"

text \<open>What \<open>sfp_open\<close> does with the handle of a file that could be opened.\<close>

definition map_opened ::
  "'fs file_handle_lib \<Rightarrow> mp_obj_fdfile_t \<Rightarrow> EFI_FILE_HANDLE \<Rightarrow> ('t, 'fs, 'r) io_world
    \<Rightarrow> efi_status \<times> mp_obj_fdfile_t \<times> ('t, 'fs, 'r) io_world" where
  "map_opened lib self h w =
     (case UsfMap (Some h) (w_usf w) of (st, n, u) \<Rightarrow>
        let self1 = self\<lparr>fh := Some h, sfp := True, fd := (case n of None \<Rightarrow> fd self | Some i \<Rightarrow> i)\<rparr>;
            w1 = w\<lparr>w_usf := u\<rparr> in
        if EFI_ERROR st then (st, self1, close_handle lib h w1)
        else (case FileHandleGetInfo lib h (w_fs w1) of (info, fs) \<Rightarrow>
                let w2 = w1\<lparr>w_fs := fs\<rparr> in
                if (case info of None \<Rightarrow> True | Some attr \<Rightarrow> attr AND EFI_FILE_DIRECTORY \<noteq> 0)
                then (EFI_ACCESS_DENIED, self1, close_handle lib h w2)
                else (st, self1, w2)))"

definition sfp_open ::
  "('h, 'dp, 'r) usf_firmware \<Rightarrow> 'fs file_handle_lib \<Rightarrow> efi_status \<Rightarrow> mp_obj_fdfile_t \<Rightarrow> byte list \<Rightarrow> w64
    \<Rightarrow> ('t, 'fs, 'r) io_world \<Rightarrow> (efi_status \<times> mp_obj_fdfile_t \<times> ('t, 'fs, 'r) io_world) result" where
  "sfp_open fw lib loc self fname mode w =
     (if EFI_ERROR loc then Inr (loc, self, w)
      else
        rbind (Utf8ToUnicode True (fname @ [0]) None (length fname) False) (\<lambda>(uniname, _).
        rbind (UsfOpen fw (CurrentDirectory (w_usf w)) (Some (takeWhile (\<lambda>c. c \<noteq> 0) uniname)) (unat mode) 0)
          (\<lambda>(st, h, ev).
        let w1 = w\<lparr>w_vols := w_vols w @ ev\<rparr> in
        (case h of
           None \<Rightarrow> Inr (st, self, w1)
         | Some hdl \<Rightarrow>
             if EFI_ERROR st then Inr (st, self, w1) else Inr (map_opened lib self hdl w1)))))"

text \<open>The loop over the mode string: access bits, append, truncate and the class of the object.\<close>

fun mode_step :: "char \<Rightarrow> w64 \<times> bool \<times> bool \<times> io_type \<Rightarrow> w64 \<times> bool \<times> bool \<times> io_type" where
  "mode_step c (mode, app, trunc, ty) =
     (if c = CHR ''r'' then (mode OR EFI_FILE_MODE_READ, app, trunc, ty)
      else if c = CHR ''w''
      then (mode OR (EFI_FILE_MODE_READ OR EFI_FILE_MODE_WRITE OR EFI_FILE_MODE_CREATE), app, True, ty)
      else if c = CHR ''a''
      then (mode OR (EFI_FILE_MODE_READ OR EFI_FILE_MODE_WRITE OR EFI_FILE_MODE_CREATE), True, trunc, ty)
      else if c = CHR ''+'' then (mode OR (EFI_FILE_MODE_READ OR EFI_FILE_MODE_WRITE), app, trunc, ty)
      else if c = CHR ''b'' then (mode, app, trunc, mp_type_fileio)
      else if c = CHR ''t'' then (mode, app, trunc, mp_type_textio)
      else (mode, app, trunc, ty))"

definition parse_mode :: "io_type \<Rightarrow> string \<Rightarrow> w64 \<times> bool \<times> bool \<times> io_type" where
  "parse_mode ty s = fold mode_step s (0, False, False, ty)"

text \<open>What the code does behind a successful open, when the object has a handle.\<close>

definition position_file ::
  "'fs file_handle_lib \<Rightarrow> bool \<Rightarrow> bool \<Rightarrow> EFI_FILE_HANDLE \<Rightarrow> 'fs \<Rightarrow> 'fs" where
  "position_file lib app trunc h fs =
     (case FileHandleGetSize lib h fs of (st, sz) \<Rightarrow>
        if \<not> EFI_ERROR st \<and> sz > 0
        then let fs1 = (if app then snd (FileHandleSetPosition lib h sz fs) else fs)
             in if trunc then snd (FileHandleSetSize lib h 0 fs1) else fs1
        else fs)"

text \<open>The first argument of \<open>open\<close>: a small integer, a string, or any other object.\<close>

datatype file_arg = ArgInt int | ArgStr "byte list" | ArgOther

definition fdfile_open ::
  "('h, 'dp, 'r) usf_firmware \<Rightarrow> 'fs file_handle_lib \<Rightarrow> efi_status \<Rightarrow> mp_obj_fdfile_t \<Rightarrow> io_type
    \<Rightarrow> file_arg \<Rightarrow> string \<Rightarrow> ('t, 'fs, 'r) io_world
    \<Rightarrow> (mp_obj_fdfile_t py \<times> ('t, 'fs, 'r) io_world) result" where
  "fdfile_open fw lib loc raw ty file mode_s w =
     (case parse_mode ty mode_s of (mode, app, trunc, ty') \<Rightarrow>
        let o0 = raw\<lparr>base_type := ty'\<rparr> in
        (case file of
           ArgOther \<Rightarrow> Inr (Inl TypeError, w)
         | _ \<Rightarrow>
             rbind (case file of
                      ArgInt n \<Rightarrow> (case sfp_open_by_fd loc (w_usf w) o0 (int32 n) of (st, o1) \<Rightarrow> Inr (st, o1, w))
                    | ArgStr s \<Rightarrow> sfp_open fw lib loc o0 s mode w
                    | ArgOther \<Rightarrow> Inl NullDeref) (\<lambda>(st, o1, w1).
             if EFI_ERROR st then Inr (Inl (OSError ENOENT), w1)
             else (case fh o1 of
                     None \<Rightarrow> Inr (Inr o1, w1)
                   | Some h \<Rightarrow> Inr (Inr o1, w1\<lparr>w_fs := position_file lib app trunc h (w_fs w1)\<rparr>)))))"

section \<open>The stream operations\<close>

definition closed_file :: "mp_obj_fdfile_t \<Rightarrow> bool" where
  "closed_file o' \<longleftrightarrow> fd o' < 0 \<or> (fh o' = None \<or> \<not> sfp o')"

definition check_fd_is_open :: "mp_obj_fdfile_t \<Rightarrow> unit py" where
  "check_fd_is_open o' = (if closed_file o' then Inl ValueError else Inr ())"

text \<open>The start of every stream operation: the standard streams are looked up again.\<close>

definition std_redirect ::
  "efi_status \<Rightarrow> 't USF_PRIVATE_DATA \<Rightarrow> mp_obj_fdfile_t \<Rightarrow> mp_obj_fdfile_t \<Rightarrow> mp_obj_fdfile_t" where
  "std_redirect loc u raw o' = (if IS_STD_FILE o' then snd (sfp_open_by_fd loc u raw (fd o')) else o')"

definition with_open ::
  "mp_obj_fdfile_t \<Rightarrow> 'w \<Rightarrow> (EFI_FILE_HANDLE \<Rightarrow> 'a py \<times> 'w) \<Rightarrow> 'a py \<times> 'w" where
  "with_open o' w k = (case check_fd_is_open o' of
      Inl e \<Rightarrow> (Inl e, w)
    | Inr _ \<Rightarrow> (case fh o' of None \<Rightarrow> (Inl ValueError, w) | Some h \<Rightarrow> k h))"

text \<open>
  \<open>fdfile_read\<close> and \<open>fdfile_write\<close>: an error is returned to the stream layer as the status in
  \<open>errcode\<close>.
\<close>

definition fdfile_read ::
  "'fs file_handle_lib \<Rightarrow> efi_status \<Rightarrow> mp_obj_fdfile_t \<Rightarrow> mp_obj_fdfile_t \<Rightarrow> nat \<Rightarrow> ('t, 'fs, 'r) io_world
    \<Rightarrow> (efi_status + byte list) py \<times> ('t, 'fs, 'r) io_world" where
  "fdfile_read lib loc raw o' n w =
     with_open (std_redirect loc (w_usf w) raw o') w (\<lambda>h.
       (case FileHandleRead lib h n (w_fs w) of (st, bs, fs) \<Rightarrow>
          (Inr (if EFI_ERROR st then Inl st else Inr bs), w\<lparr>w_fs := fs\<rparr>)))"

definition fdfile_write ::
  "'fs file_handle_lib \<Rightarrow> efi_status \<Rightarrow> mp_obj_fdfile_t \<Rightarrow> mp_obj_fdfile_t \<Rightarrow> byte list \<Rightarrow> ('t, 'fs, 'r) io_world
    \<Rightarrow> (efi_status + nat) py \<times> ('t, 'fs, 'r) io_world" where
  "fdfile_write lib loc raw o' buf w =
     with_open (std_redirect loc (w_usf w) raw o') w (\<lambda>h.
       (case FileHandleWrite lib h buf (w_fs w) of (st, n, fs) \<Rightarrow>
          (Inr (if EFI_ERROR st then Inl st else Inr n), w\<lparr>w_fs := fs\<rparr>)))"

text \<open>
  The requests of \<open>fdfile_ioctl\<close>; a seek carries \<open>offset\<close> and \<open>whence\<close>. On success the result
  is the value \<open>0\<close> and, for a seek, the offset left in the caller's structure.
\<close>

datatype ioctl_request = MP_STREAM_SEEK w64 int | MP_STREAM_FLUSH | OtherRequest

datatype ioctl_error = ErrStatus efi_status | ErrNo nat

definition seek_target ::
  "'fs file_handle_lib \<Rightarrow> EFI_FILE_HANDLE \<Rightarrow> w64 \<Rightarrow> int \<Rightarrow> 'fs \<Rightarrow> efi_status \<times> w64" where
  "seek_target lib h offset whence fs =
     (if whence = 0 then (EFI_SUCCESS, offset)
      else if whence = 1
      then (case FileHandleGetPosition lib h fs of (st, pos) \<Rightarrow> (st, if EFI_ERROR st then pos else pos + offset))
      else if whence = 2
      then (case FileHandleGetSize lib h fs of (st, pos) \<Rightarrow> (st, if EFI_ERROR st then pos else pos + offset))
      else (EFI_INVALID_PARAMETER, 0))"

definition fdfile_ioctl ::
  "'fs file_handle_lib \<Rightarrow> efi_status \<Rightarrow> mp_obj_fdfile_t \<Rightarrow> mp_obj_fdfile_t \<Rightarrow> ioctl_request \<Rightarrow> ('t, 'fs, 'r) io_world
    \<Rightarrow> (ioctl_error + w64) py \<times> ('t, 'fs, 'r) io_world" where
  "fdfile_ioctl lib loc raw o' request w =
     with_open (std_redirect loc (w_usf w) raw o') w (\<lambda>h.
       (case request of
          MP_STREAM_SEEK offset whence \<Rightarrow>
            (case seek_target lib h offset whence (w_fs w) of (st, pos) \<Rightarrow>
               if EFI_ERROR st then (Inr (Inl (ErrStatus st)), w)
               else (case FileHandleSetPosition lib h pos (w_fs w) of (st2, fs) \<Rightarrow>
                       (Inr (if EFI_ERROR st2 then Inl (ErrStatus st2) else Inr 0), w\<lparr>w_fs := fs\<rparr>)))
        | MP_STREAM_FLUSH \<Rightarrow>
            (case FileHandleFlush lib h (w_fs w) of (st, fs) \<Rightarrow>
               (Inr (if EFI_ERROR st then Inl (ErrStatus st) else Inr 0), w\<lparr>w_fs := fs\<rparr>))
        | OtherRequest \<Rightarrow> (Inr (Inl (ErrNo EINVAL)), w)))"

definition fdfile_close ::
  "'fs file_handle_lib \<Rightarrow> mp_obj_fdfile_t \<Rightarrow> ('t, 'fs, 'r) io_world \<Rightarrow> mp_obj_fdfile_t \<times> ('t, 'fs, 'r) io_world" where
  "fdfile_close lib self w =
     (let w1 = (case fh self of None \<Rightarrow> w | Some h \<Rightarrow> close_handle lib h w);
          w2 = (if sfp self then w1\<lparr>w_usf := snd (UsfUnmap (fd self) (w_usf w1))\<rparr> else w1)
      in (self\<lparr>fd := -1, fh := None, sfp := False\<rparr>, w2))"

definition fdfile_fileno :: "mp_obj_fdfile_t \<Rightarrow> int py" where
  "fdfile_fileno self = (case check_fd_is_open self of Inl e \<Rightarrow> Inl e | Inr _ \<Rightarrow> Inr (fd self))"

section \<open>seek and tell\<close>

text \<open>
  \<open>stream_seek\<close> of the stream layer: the offset is a signed machine integer; an error of the
  request is raised as \<open>OSError\<close>; the offset left behind by the request is the result.
\<close>

definition stream_seek ::
  "'fs file_handle_lib \<Rightarrow> efi_status \<Rightarrow> mp_obj_fdfile_t \<Rightarrow> mp_obj_fdfile_t \<Rightarrow> w64 \<Rightarrow> int \<Rightarrow> ('t, 'fs, 'r) io_world
    \<Rightarrow> w64 py \<times> ('t, 'fs, 'r) io_world" where
  "stream_seek lib loc raw o' offset whence w =
     (if whence = 0 \<and> sint offset < 0 then (Inl (OSError EINVAL), w)
      else (case fdfile_ioctl lib loc raw o' (MP_STREAM_SEEK offset whence) w of (r, w1) \<Rightarrow>
              ((case r of
                  Inl e \<Rightarrow> Inl e
                | Inr (Inl (ErrStatus st)) \<Rightarrow> Inl (OSErrorStatus st)
                | Inr (Inl (ErrNo n)) \<Rightarrow> Inl (OSError n)
                | Inr (Inr off) \<Rightarrow> Inr off), w1)))"

definition stream_tell ::
  "'fs file_handle_lib \<Rightarrow> efi_status \<Rightarrow> mp_obj_fdfile_t \<Rightarrow> mp_obj_fdfile_t \<Rightarrow> ('t, 'fs, 'r) io_world
    \<Rightarrow> w64 py \<times> ('t, 'fs, 'r) io_world" where
  "stream_tell lib loc raw o' w = stream_seek lib loc raw o' 0 1 w"

text \<open>The standard stream objects.\<close>

definition mp_sys_std :: "int \<Rightarrow> mp_obj_fdfile_t" where
  "mp_sys_std n = \<lparr>base_type = mp_type_textio, fd = n, fh = None, sfp = False\<rparr>"

end
