(* ===== verification/Misc_Strings_Thms.thy ===== *)
theory Misc_Strings_Thms
  imports Misc_Strings
begin

unbundle bit_operations_syntax

text \<open>
  The two conversions are inverse to each other on all strings of 16-bit units; the
  conversion to the firmware's format adds the missing carriage returns; the search finds the
  last occurrence.
\<close>

section \<open>One character\<close>

lemma bit_high:
  fixes c :: "'a::len word"
  assumes "c < 2 ^ n" and "n \<le> i" shows "\<not> bit c i"
proof -
  have "(0 :: 'a word) < 2 ^ n" by (rule le_less_trans [OF word_zero_le assms(1)])
  with assms(1) have "uint c < 2 ^ n" by (simp add: word_less_def uint_2p)
  then have "take_bit n (uint c) = uint c" by (simp add: take_bit_int_eq_self)
  then have "bit (uint c) i = bit (take_bit n (uint c)) i" by simp
  then have "\<not> bit (uint c) i" using assms(2) by (simp add: bit_take_bit_iff)
  then show ?thesis by (simp add: bit_uint_iff) (metis bit_imp_le_length)
qed

text \<open>Equality of words, bit by bit over an explicit list of positions.\<close>

lemma word_eq_list: "(a :: 'a::len word) = b \<longleftrightarrow> list_all (\<lambda>i. bit a i = bit b i) [0..<LENGTH('a)]"
  by (auto simp: list_all_iff intro: bit_word_eqI)

lemma small_bits: "c < 0x80 \<Longrightarrow> 7 \<le> i \<Longrightarrow> \<not> bit (c :: w16) i"
  using bit_high [of c 7 i] by simp

lemma medium_bits: "c < 0x800 \<Longrightarrow> 11 \<le> i \<Longrightarrow> \<not> bit (c :: w16) i"
  using bit_high [of c 11 i] by simp

lemma small_byte:
  assumes "c < 0x80"
  shows "(ucast (c :: w16) :: byte) AND 0xE0 \<noteq> 0xE0" "(ucast c :: byte) AND 0xC0 \<noteq> 0xC0"
    "ucast (ucast c :: byte) = c" "\<not> UTF8_IS_CONT (ucast c)"
proof -
  have b7: "\<not> bit ((ucast c :: byte) AND x) 7" for x
    using small_bits [OF assms, of 7] by (simp add: bit_simps)
  have "bit (0xE0 :: byte) 7" "bit (0xC0 :: byte) 7" "bit (0x80 :: byte) 7" by simp_all
  with b7 show "(ucast c :: byte) AND 0xE0 \<noteq> 0xE0" "(ucast c :: byte) AND 0xC0 \<noteq> 0xC0"
      "\<not> UTF8_IS_CONT (ucast c)"
    unfolding UTF8_IS_CONT_def by metis+
  show "ucast (ucast c :: byte) = c"
  proof (rule bit_word_eqI)
    fix i assume "i < LENGTH(16)"
    then show "bit (ucast (ucast c :: byte) :: w16) i = bit c i"
      using small_bits [OF assms, of i] by (cases "i < 8") (auto simp: bit_simps)
  qed
qed

lemma medium_bytes:
  assumes "c < 0x800"
  shows "(ucast (0xC0 OR drop_bit 6 (c :: w16)) :: byte) AND 0xE0 \<noteq> 0xE0"
    "(ucast (0xC0 OR drop_bit 6 c) :: byte) AND 0xC0 = 0xC0"
    "push_bit 6 (ucast ((ucast (0xC0 OR drop_bit 6 c) :: byte) AND 0x1F))
       OR ucast ((ucast (0x80 OR (c AND 0x3F)) :: byte) AND 0x3F) = c"
proof -
  have "\<not> bit ((ucast (0xC0 OR drop_bit 6 c) :: byte) AND 0xE0) 5" "bit (0xE0 :: byte) 5"
    using medium_bits [OF assms, of 11] by (simp_all add: bit_simps)
  then show "(ucast (0xC0 OR drop_bit 6 c) :: byte) AND 0xE0 \<noteq> 0xE0" by metis
  show "(ucast (0xC0 OR drop_bit 6 c) :: byte) AND 0xC0 = 0xC0"
    unfolding word_eq_list by (simp add: upt_rec bit_simps)
  show "push_bit 6 (ucast ((ucast (0xC0 OR drop_bit 6 c) :: byte) AND 0x1F))
       OR ucast ((ucast (0x80 OR (c AND 0x3F)) :: byte) AND 0x3F) = c" 
    using medium_bits [OF assms] unfolding word_eq_list by (simp add: upt_rec bit_simps) (simp add: numeral_eq_Suc)
qed

lemma large_bytes:
  shows "(ucast (0xE0 OR (drop_bit 12 (c :: w16) AND 0x0F)) :: byte) AND 0xE0 = 0xE0"
    "push_bit 12 (ucast ((ucast (0xE0 OR (drop_bit 12 c AND 0x0F)) :: byte) AND 0x0F))
       OR push_bit 6 (ucast ((ucast (0x80 OR (drop_bit 6 c AND 0x3F)) :: byte) AND 0x3F))
       OR ucast ((ucast (0x80 OR (c AND 0x3F)) :: byte) AND 0x3F) = c"
proof -
  show "(ucast (0xE0 OR (drop_bit 12 c AND 0x0F)) :: byte) AND 0xE0 = 0xE0"
    unfolding word_eq_list by (simp add: upt_rec bit_simps)
  show "push_bit 12 (ucast ((ucast (0xE0 OR (drop_bit 12 c AND 0x0F)) :: byte) AND 0x0F))
       OR push_bit 6 (ucast ((ucast (0x80 OR (drop_bit 6 c AND 0x3F)) :: byte) AND 0x3F))
       OR ucast ((ucast (0x80 OR (c AND 0x3F)) :: byte) AND 0x3F) = c" 
    unfolding word_eq_list by (simp add: upt_rec bit_simps) (simp add: numeral_eq_Suc)
qed

lemma cont_byte: "UTF8_IS_CONT (ucast (0x80 OR ((x :: w16) AND 0x3F)))"
  unfolding UTF8_IS_CONT_def
  word_eq_list by (simp add: upt_rec bit_simps)

lemma lead_byte: "\<not> UTF8_IS_CONT (ucast (0xC0 OR (x :: w16)))" "\<not> UTF8_IS_CONT (ucast (0xE0 OR x))"
proof -
  have "bit ((ucast (0xC0 OR x) :: byte) AND 0xC0) 6" "bit ((ucast (0xE0 OR x) :: byte) AND 0xC0) 6"
    "\<not> bit (0x80 :: byte) 6" by (simp_all add: bit_simps)
  then show "\<not> UTF8_IS_CONT (ucast (0xC0 OR x))" "\<not> UTF8_IS_CONT (ucast (0xE0 OR x))"
    unfolding UTF8_IS_CONT_def by metis+
qed

lemma length_utf8_bytes [simp]: "length (utf8_bytes c) = utf8_size c"
  by (simp add: utf8_bytes_def utf8_size_def)

lemma utf8_chars [simp]: "length (filter (\<lambda>b. \<not> UTF8_IS_CONT b) (utf8_bytes c)) = 1"
  using small_byte(4) [of c] cont_byte lead_byte by (simp add: utf8_bytes_def)

text \<open>A character outside ASCII has only bytes outside ASCII.\<close>

lemma multi_byte:
  assumes "\<not> c < 0x80" and "b \<in> set (utf8_bytes c)" shows "bit b 7"
  using assms by (auto simp: utf8_bytes_def bit_simps split: if_splits)

lemma ascii_byte:
  assumes "b \<in> set (utf8_bytes c)" and "\<not> bit b 7" shows "utf8_bytes c = [b]" and "c = ucast b"
proof -
  have "c < 0x80" using multi_byte [of c b] assms by blast
  with assms(1) show "utf8_bytes c = [b]" "c = ucast b"
    using small_byte(3) [of c] by (simp_all add: utf8_bytes_def)
qed

section \<open>Encoding\<close>

definition utf8_of :: "w16 list \<Rightarrow> byte list" where
  "utf8_of ws = concat (map utf8_bytes ws)"

lemma utf8_of_simps [simp]: "utf8_of [] = []" "utf8_of (c # cs) = utf8_bytes c @ utf8_of cs"
  by (simp_all add: utf8_of_def)

lemma utf8_of_append: "utf8_of (xs @ ys) = utf8_of xs @ utf8_of ys"
  by (simp add: utf8_of_def)

lemma length_utf8_of: "length (utf8_of ws) = sum_list (map utf8_size ws)"
  by (induction ws) simp_all

lemma put_all_ok: "length dst + length xs \<le> cap \<Longrightarrow> put_all cap dst xs = Inr (dst @ xs)"
  by (induction xs arbitrary: dst) (simp_all add: put_def)

lemma encode_loop:
  "length dst + length (utf8_of ws) \<le> cap
     \<Longrightarrow> mfold (\<lambda>c out. put_all cap out (utf8_bytes c)) ws dst = Inr (dst @ utf8_of ws)"
  by (induction ws arbitrary: dst) (simp_all add: put_all_ok)

lemma UnicodeToUtf8_ok:
  "UnicodeToUtf8 True (ws @ rest) None (length ws) = Inr (utf8_of ws @ [0], length (utf8_of ws))"
  using encode_loop [of "[]" ws "length (utf8_of ws) + 1"]
  by (simp add: UnicodeToUtf8_def Let_def length_utf8_of put_def)

section \<open>Decoding\<close>

lemma rd_pre: "rd (pre @ x # post) (length pre) = Inr x"
  and rd_pre1: "rd (pre @ x # y # post) (length pre + 1) = Inr y"
  and rd_pre2: "rd (pre @ x # y # z # post) (length pre + 2) = Inr z"
  and rd_last: "pre \<noteq> [] \<Longrightarrow> rd (pre @ x # post) (length pre - 1) = Inr (last pre)"
  by (simp_all add: rd_def nth_append last_conv_nth)

lemma charlen_utf8: "utf8_charlen (utf8_of ws @ rest) (length (utf8_of ws)) = Inr (length ws)"
proof -
  have "length (filter (\<lambda>b. \<not> UTF8_IS_CONT b) (utf8_of ws)) = length ws"
    by (induction ws) (simp_all del: One_nat_def)
  then show ?thesis by (simp add: utf8_charlen_def)
qed

text \<open>The line ends the conversion adds: a carriage return in front of each bare line feed.\<close>

definition bare_lf :: "w16 list \<Rightarrow> w16 \<Rightarrow> bool" where
  "bare_lf before c \<longleftrightarrow> c = 10 \<and> (before = [] \<or> last before \<noteq> 13)"

fun unix2dos :: "w16 list \<Rightarrow> w16 list \<Rightarrow> w16 list" where
  "unix2dos before [] = []"
| "unix2dos before (c # cs) = (if bare_lf before c then [13, c] else [c]) @ unix2dos (before @ [c]) cs"

definition decoded :: "bool \<Rightarrow> w16 list \<Rightarrow> w16 \<Rightarrow> w16 list" where
  "decoded conv before c = (if conv \<and> bare_lf before c then [13, c] else [c])"

lemma last_utf8:
  assumes "xs \<noteq> []"
  shows "last (utf8_of xs) = 13 \<longleftrightarrow> last xs = 13" and "utf8_of xs \<noteq> []"
proof -
  from assms obtain ys c where xs: "xs = ys @ [c]" by (cases xs rule: rev_cases) auto
  have ne: "utf8_bytes c \<noteq> []" by (simp add: utf8_bytes_def)
  then show "utf8_of xs \<noteq> []" by (simp add: xs utf8_of_append)
  have "last (utf8_of xs) = last (utf8_bytes c)" using ne by (simp add: xs utf8_of_append)
  moreover have "last (utf8_bytes c) = 13 \<longleftrightarrow> c = 13"
  proof
    assume l: "last (utf8_bytes c) = 13"
    then have "13 \<in> set (utf8_bytes c)" using ne last_in_set by metis
    then show "c = 13" using ascii_byte(2) [of 13 c] by simp
  qed (simp add: utf8_bytes_def)
  ultimately show "last (utf8_of xs) = 13 \<longleftrightarrow> last xs = 13" by (simp add: xs)
qed

lemma lf_byte: "(ucast c :: byte) = 10 \<Longrightarrow> c < 0x80 \<Longrightarrow> c = (10 :: w16)"
  using small_byte(3) [of c] by auto

text \<open>One round of the decoding loop on one encoded character.\<close>

lemma decode_step:
  assumes "length dst < len" and "length dst + length (decoded conv before c) \<le> cap"
    and "dst = [] \<longleftrightarrow> before = []"
  shows "utf8_loop conv (utf8_of before @ utf8_bytes c @ post) len cap (length (utf8_of before)) dst
     = utf8_loop conv (utf8_of before @ utf8_bytes c @ post) len cap
         (length (utf8_of (before @ [c]))) (dst @ decoded conv before c)"
proof -
  let ?pre = "utf8_of before"
  consider "c < 0x80" | "\<not> c < 0x80" "c < 0x800" | "\<not> c < 0x80" "\<not> c < 0x800" by blast
  then show ?thesis
  proof cases
    case 1
    note s = small_byte [OF 1]
    have "rbind (put_cr conv (?pre @ ucast c # post) cap (length ?pre) dst (ucast c)) (\<lambda>d. put cap d c)
        = Inr (dst @ decoded conv before c)"
    proof (cases "conv \<and> c = 10")
      case True
      with assms(2,3) last_utf8 [of before] rd_last [of ?pre "10" post] show ?thesis
        by (cases "before = []") (auto simp: put_cr_def decoded_def bare_lf_def put_def)
    next
      case False
      with lf_byte [of c] 1 have "\<not> (conv \<and> (ucast c :: byte) = 10)" by blast
      with assms(2) False show ?thesis
        by (auto simp: put_cr_def decoded_def bare_lf_def put_def split: if_splits)
    qed
    then obtain dst1 where "put_cr conv (?pre @ ucast c # post) cap (length ?pre) dst (ucast c) = Inr dst1"
      "put cap dst1 c = Inr (dst @ decoded conv before c)"
      unfolding rbind_eq_Inr by blast
    with 1 s assms(1) show ?thesis
      by (subst utf8_loop.simps)
         (simp add: utf8_bytes_def rd_pre utf8_of_append utf8_size_def)
  next
    case 2
    note m = medium_bytes [OF 2(2)]
    have "c \<noteq> 10" using 2(1) by auto
    then have d: "decoded conv before c = [c]" by (simp add: decoded_def bare_lf_def)
    show ?thesis using 2 m assms(1,2) d
      by (subst utf8_loop.simps)
         (simp add: utf8_bytes_def rd_pre rd_pre1 [simplified] put_def utf8_of_append utf8_size_def)
  next
    case 3
    note m = large_bytes [of c]
    have "c \<noteq> 10" using 3(1) by auto
    then have d: "decoded conv before c = [c]" by (simp add: decoded_def bare_lf_def)
    show ?thesis using 3 m assms(1,2) d
      by (subst utf8_loop.simps)
         (simp add: utf8_bytes_def rd_pre rd_pre1 [simplified] rd_pre2 [simplified] put_def utf8_of_append utf8_size_def numeral_3_eq_3)
  qed
qed

fun decode_all :: "bool \<Rightarrow> w16 list \<Rightarrow> w16 list \<Rightarrow> w16 list" where
  "decode_all conv before [] = []"
| "decode_all conv before (c # cs) = decoded conv before c @ decode_all conv (before @ [c]) cs"

lemma decode_all_False [simp]: "decode_all False before ws = ws"
  by (induction ws arbitrary: before) (simp_all add: decoded_def)

lemma decode_all_True [simp]: "decode_all True before ws = unix2dos before ws"
  by (induction ws arbitrary: before) (simp_all add: decoded_def)

lemma decoded_nonempty [simp]: "decoded conv before c \<noteq> []"
  by (simp add: decoded_def)

lemma decode_loop:
  assumes "length dst + length (decode_all conv before ws) = len" and "len < cap"
    and "dst = [] \<longleftrightarrow> before = []"
  shows "utf8_loop conv (utf8_of before @ utf8_of ws @ post) len cap (length (utf8_of before)) dst
     = Inr (dst @ decode_all conv before ws)"
  using assms
proof (induction ws arbitrary: before dst)
  case Nil
  then show ?case by (subst utf8_loop.simps) simp
next
  case (Cons c cs)
  have "1 \<le> length (decoded conv before c)" by (simp add: decoded_def)
  then have pre: "length dst < len" "length dst + length (decoded conv before c) \<le> cap"
    using Cons.prems(1,2) unfolding decode_all.simps length_append by linarith+
  have src: "utf8_of before @ utf8_of (c # cs) @ post = utf8_of before @ utf8_bytes c @ (utf8_of cs @ post)"
    "utf8_of before @ utf8_bytes c @ (utf8_of cs @ post) = utf8_of (before @ [c]) @ utf8_of cs @ post"
    by (simp_all add: utf8_of_append)
  show ?case
    unfolding src(1) decode_step [OF pre Cons.prems(3)] unfolding src(2)
    using Cons.prems by (subst Cons.IH) auto
qed

lemma Utf8ToUnicode_ok:
  assumes "CountUnixEol (utf8_of ws @ rest) (length (utf8_of ws)) = Inr (length (unix2dos [] ws) - length ws)"
    and "length ws \<le> length (unix2dos [] ws)"
  shows "Utf8ToUnicode True (utf8_of ws @ rest) None (length (utf8_of ws)) conv
     = Inr (decode_all conv [] ws @ [0], length (decode_all conv [] ws))"
  using decode_loop [of "[]" conv "[]" ws "length (decode_all conv [] ws)" "length (decode_all conv [] ws) + 1" rest]
    assms charlen_utf8 [of ws rest]
  by (cases conv) (simp_all add: Utf8ToUnicode_def Let_def put_def)

section \<open>Counting line ends\<close>

lemma count_skip:
  assumes "\<forall>b\<in>set bs. b \<noteq> 0 \<and> b \<noteq> 10" and "length pre + length bs \<le> len"
  shows "count_eol (pre @ bs @ post) len (length pre) n = count_eol (pre @ bs @ post) len (length pre + length bs) n"
  using assms
proof (induction bs arbitrary: pre)
  case Nil
  then show ?case by simp
next
  case (Cons b bs)
  have "count_eol (pre @ (b # bs) @ post) len (length pre) n = count_eol (pre @ (b # bs) @ post) len (Suc (length pre)) n"
    using Cons.prems by (subst count_eol.simps) (simp add: rd_pre)
  also have "\<dots> = count_eol (pre @ (b # bs) @ post) len (Suc (length pre) + length bs) n"
    using Cons.IH [of "pre @ [b]"] Cons.prems by simp
  finally show ?case by simp
qed

lemma count_char:
  assumes "c \<noteq> 0" and "length (utf8_of (before @ [c])) \<le> len"
  shows "count_eol (utf8_of before @ utf8_bytes c @ post) len (length (utf8_of before)) n
     = count_eol (utf8_of before @ utf8_bytes c @ post) len (length (utf8_of (before @ [c])))
         (if bare_lf before c then Suc n else n)"
proof (cases "c = 10")
  case True
  then have c: "utf8_bytes c = [10]" by (simp add: utf8_bytes_def)
  have len: "length (utf8_of before) < len" using assms(2) c by (simp add: utf8_of_append)
  show ?thesis
  proof (cases "before = []")
    case b: True
    with len c True show ?thesis by (subst count_eol.simps) (simp add: rd_def bare_lf_def)
  next
    case False
    note l = last_utf8 [OF False]
    have "length (utf8_of before) \<noteq> 0" using l(2) by simp
    with len c True False l rd_last [OF l(2), of 10 post] show ?thesis
      by (subst count_eol.simps) (simp add: rd_pre utf8_of_append bare_lf_def)
  qed
next
  case False
  have "b \<noteq> 0 \<and> b \<noteq> 10" if "b \<in> set (utf8_bytes c)" for b
    using ascii_byte(2) [OF that] assms(1) False by auto
  with count_skip [of "utf8_bytes c" "utf8_of before" len post n] assms(2) False show ?thesis
    by (simp add: utf8_of_append bare_lf_def)
qed

lemma unix2dos_length: "length ws \<le> length (unix2dos before ws)"
  by (induction ws arbitrary: before) (auto intro: le_SucI)

lemma count_all:
  assumes "0 \<notin> set ws" and "len = length (utf8_of (before @ ws))"
  shows "count_eol (utf8_of before @ utf8_of ws @ post) len (length (utf8_of before)) n
     = Inr (n + (length (unix2dos before ws) - length ws))"
  using assms
proof (induction ws arbitrary: before n)
  case Nil
  then show ?case by (subst count_eol.simps) simp
next
  case (Cons c cs)
  have src: "utf8_of before @ utf8_of (c # cs) @ post = utf8_of before @ utf8_bytes c @ (utf8_of cs @ post)"
    "utf8_of before @ utf8_bytes c @ (utf8_of cs @ post) = utf8_of (before @ [c]) @ utf8_of cs @ post"
    by (simp_all add: utf8_of_append)
  have c: "c \<noteq> 0" "length (utf8_of (before @ [c])) \<le> len"
    using Cons.prems by (auto simp: utf8_of_append)
  have len: "len = length (utf8_of ((before @ [c]) @ cs))" using Cons.prems(2) by simp
  show ?case
    unfolding src(1) count_char [OF c] unfolding src(2)
    using Cons.IH [OF _ len] Cons.prems(1) unix2dos_length [of cs "before @ [c]"] by simp
qed

lemma CountUnixEol_ok:
  "0 \<notin> set ws \<Longrightarrow> CountUnixEol (utf8_of ws @ rest) (length (utf8_of ws)) = Inr (length (unix2dos [] ws) - length ws)"
  using count_all [of ws "length (utf8_of ws)" "[]" rest 0] by (simp add: CountUnixEol_def)

section \<open>Properties\<close>

text \<open>
  C36. Round trip of the string conversions: for every string of 16-bit units, whatever lies
  behind it in memory, converting it to UTF-8 into a fresh buffer and converting the result
  back without line-end conversion returns the string, terminated, and its length; neither
  conversion touches memory outside its buffers.
\<close>

theorem unicode_utf8_round_trip:
  "\<exists>bs. UnicodeToUtf8 True (ws @ rest) None (length ws) = Inr (bs @ [0], length bs)
     \<and> Utf8ToUnicode True (bs @ rest') None (length bs) False = Inr (ws @ [0], length ws)"
proof (intro exI [of _ "utf8_of ws"] conjI)
  show "UnicodeToUtf8 True (ws @ rest) None (length ws) = Inr (utf8_of ws @ [0], length (utf8_of ws))"
    by (rule UnicodeToUtf8_ok)
  show "Utf8ToUnicode True (utf8_of ws @ rest') None (length (utf8_of ws)) False = Inr (ws @ [0], length ws)"
    using decode_loop [of "[]" False "[]" ws "length ws" "length ws + 1" rest'] charlen_utf8 [of ws rest']
    by (simp add: Utf8ToUnicode_def Let_def put_def)
qed

text \<open>
  \<open>ToUefiString\<close> on the UTF-8 form of a string without zero characters yields the string
  with a carriage return in front of every line feed that has none, and the buffer it
  allocates from its two counts has exactly the right size.
\<close>

theorem ToUefiString_adds_cr:
  assumes "0 \<notin> set ws"
  shows "ToUefiString True (utf8_of ws @ rest) None (length (utf8_of ws))
     = Inr (unix2dos [] ws @ [0], length (unix2dos [] ws))"
  using decode_loop [of "[]" True "[]" ws "length (unix2dos [] ws)" "length (unix2dos [] ws) + 1" rest]
    charlen_utf8 [of ws rest] CountUnixEol_ok [OF assms, of rest] unix2dos_length [of ws "[]"]
  by (simp add: ToUefiString_def Utf8ToUnicode_def Let_def put_def)

lemma four: "(4 :: nat) = Suc (Suc (Suc (Suc 0)))" and five: "(5 :: nat) = Suc (Suc (Suc (Suc (Suc 0))))"
  by simp_all

theorem ToUefiString_adds_cr_witness:
  "ToUefiString True (utf8_of [65, 10, 13, 10] @ [0]) None 4 = Inr ([65, 13, 10, 13, 10, 0], 5)"
  using ToUefiString_adds_cr [of "[65, 10, 13, 10]" "[0]"]
  unfolding four five by (simp add: utf8_bytes_def bare_lf_def)

text \<open>
  With a zero byte in front of a line feed the two counts disagree with the loop: the
  count of line ends stops at the zero byte, the loop does not, and it writes behind the end
  of the buffer it has just allocated.
\<close>

theorem ToUefiString_overflows:
  "ToUefiString True ([0, 10] @ rest) None 2 = Inl OutOfBounds"
proof -
  have count: "CountUnixEol ([0, 10] @ rest) 2 = Inr 0"
    unfolding CountUnixEol_def by (subst count_eol.simps) (simp add: rd_def)
  have chars: "utf8_charlen ([0, 10] @ rest) 2 = Inr 2"
    by (simp add: utf8_charlen_def UTF8_IS_CONT_def)
  have "utf8_loop True ([0, 10] @ rest) (Suc (Suc 0)) (Suc (Suc (Suc 0))) 0 [] = utf8_loop True ([0, 10] @ rest) (Suc (Suc 0)) (Suc (Suc (Suc 0))) (Suc 0) [0]"
    by (subst utf8_loop.simps) (simp add: rd_def put_cr_def put_def)
  also have "\<dots> = utf8_loop True ([0, 10] @ rest) (Suc (Suc 0)) (Suc (Suc (Suc 0))) (Suc (Suc 0)) [0, 13, 10]"
    by (subst utf8_loop.simps) (simp add: rd_def put_cr_def put_def)
  also have "\<dots> = Inr [0, 13, 10]" by (subst utf8_loop.simps) simp
  finally show ?thesis using count chars
    by (simp add: ToUefiString_def Utf8ToUnicode_def Let_def put_def)
qed

section \<open>The interface of the conversions\<close>

lemma name_decoded:
  "Utf8ToUnicode True (utf8_of ws @ [0]) None (length (utf8_of ws)) False = Inr (ws @ [0], length ws)"
  using decode_loop [of "[]" False "[]" ws "length ws" "length ws + 1" "[0]"] charlen_utf8 [of ws "[0]"]
  by (simp add: Utf8ToUnicode_def Let_def put_def)

text \<open>
  What the file and console code relies on: decoding inverts encoding, and encoding works
  character by character, so that strings may be converted in pieces.
\<close>

locale string_codec =
  fixes enc :: "'a list \<Rightarrow> 'b list" and dec :: "'b list \<Rightarrow> 'a list result"
  assumes dec_enc: "dec (enc xs) = Inr xs"
    and enc_append: "enc (xs @ ys) = enc xs @ enc ys"
begin

lemma enc_inject: "enc xs = enc ys \<longleftrightarrow> xs = ys"
  using dec_enc by (metis sum.inject(2))

lemma dec_pieces: "dec (concat (map enc xss)) = Inr (concat xss)"
proof -
  have "enc [] = []" using enc_append [of "[]" "[]"] by simp
  then have "concat (map enc xss) = enc (concat xss)" by (induction xss) (simp_all add: enc_append)
  then show ?thesis by (simp add: dec_enc)
qed

end

definition upy_to_uefi :: "byte list \<Rightarrow> w16 list result" where
  "upy_to_uefi bs = rbind (Utf8ToUnicode True bs None (length bs) False) (\<lambda>(out, n). Inr (take n out))"

interpretation upy: string_codec utf8_of upy_to_uefi
proof unfold_locales
  show "upy_to_uefi (utf8_of xs) = Inr xs" for xs
    using decode_loop [of "[]" False "[]" xs "length xs" "length xs + 1" "[]"] charlen_utf8 [of xs "[]"]
    by (simp add: upy_to_uefi_def Utf8ToUnicode_def Let_def put_def)
  show "utf8_of (xs @ ys) = utf8_of xs @ utf8_of ys" for xs ys by (rule utf8_of_append)
qed

section \<open>Searching from the right\<close>

definition occurs_at :: "w16 list \<Rightarrow> w16 list \<Rightarrow> nat \<Rightarrow> bool" where
  "occurs_at s t p \<longleftrightarrow> p + length t \<le> length s \<and> take (length t) (drop p s) = t"

lemma match_back_zero: "match_back s t off n = 0 \<longleftrightarrow> (\<forall>i<n. s ! (off + i) = t ! i)"
  by (induction n) (auto simp: less_Suc_eq)

lemma match_back_occurs:
  assumes "off + length t \<le> length s"
  shows "match_back s t off (length t) = 0 \<longleftrightarrow> occurs_at s t off"
  using assms by (auto simp: match_back_zero occurs_at_def list_eq_iff_nth_eq)

lemma strstrr_loop_last:
  assumes "t \<noteq> []" and "n \<le> length s"
  shows "case strstrr_loop s t n of
      None \<Rightarrow> \<forall>p. p + length t \<le> n \<longrightarrow> \<not> occurs_at s t p
    | Some p \<Rightarrow> p + length t \<le> n \<and> occurs_at s t p \<and> (\<forall>q. q + length t \<le> n \<and> occurs_at s t q \<longrightarrow> q \<le> p)"
  using assms(2)
proof (induction n)
  case 0
  with assms(1) show ?case by (subst strstrr_loop.simps) simp
next
  case (Suc n)
  show ?case
  proof (cases "length t \<le> Suc n")
    case False
    then show ?thesis by (subst strstrr_loop.simps) simp
  next
    case True
    have m: "match_back s t (Suc n - length t) (length t) = 0 \<longleftrightarrow> occurs_at s t (Suc n - length t)"
      using True Suc.prems by (intro match_back_occurs) simp
    show ?thesis
    proof (cases "occurs_at s t (Suc n - length t)")
      case occ: True
      with True m show ?thesis by (subst strstrr_loop.simps) auto
    next
      case no: False
      with True m have step: "strstrr_loop s t (Suc n) = strstrr_loop s t n"
        by (subst strstrr_loop.simps) simp
      have less: "p + length t \<le> n" if "p + length t \<le> Suc n" "occurs_at s t p" for p
      proof (rule ccontr)
        assume "\<not> p + length t \<le> n"
        with that(1) have "p = Suc n - length t" by simp
        with that(2) no show False by simp
      qed
      have IH: "case strstrr_loop s t n of
          None \<Rightarrow> \<forall>p. p + length t \<le> n \<longrightarrow> \<not> occurs_at s t p
        | Some p \<Rightarrow> p + length t \<le> n \<and> occurs_at s t p \<and> (\<forall>q. q + length t \<le> n \<and> occurs_at s t q \<longrightarrow> q \<le> p)"
        using Suc.IH Suc.prems by simp
      show ?thesis
      proof (cases "strstrr_loop s t n")
        case None
        with IH less show ?thesis unfolding step by fastforce
      next
        case (Some p)
        with IH have "p + length t \<le> n" "occurs_at s t p" "\<forall>q. q + length t \<le> n \<and> occurs_at s t q \<longrightarrow> q \<le> p"
          by simp_all
        with less Some show ?thesis unfolding step by simp
      qed
    qed
  qed
qed

text \<open>
  \<open>StrStrR\<close> finds the last occurrence of a non-empty search string, and returns nothing
  exactly when there is none.
\<close>

theorem StrStrR_last_occurrence:
  assumes "t \<noteq> []"
  shows "case StrStrR s t of None \<Rightarrow> \<forall>p. \<not> occurs_at s t p
     | Some p \<Rightarrow> occurs_at s t p \<and> (\<forall>q. occurs_at s t q \<longrightarrow> q \<le> p)"
proof (cases "s = []")
  case True
  with assms show ?thesis by (simp add: StrStrR_def occurs_at_def)
next
  case False
  then have "StrStrR s t = strstrr_loop s t (length s)" using assms by (simp add: StrStrR_def)
  with strstrr_loop_last [OF assms, of "length s" s] show ?thesis
    by (auto simp: occurs_at_def split: option.splits)
qed

theorem StrStrR_last_occurrence_witness:
  "StrStrR [1, 2, 1, 2, 3] [1, 2] = Some (Suc (Suc 0)) \<and> occurs_at [1, 2, 1, 2, 3] [1, 2] (Suc (Suc 0))"
  using StrStrR_last_occurrence [of "[1, 2]" "[1, 2, 1, 2, 3]"]
  by (simp add: StrStrR_def strstrr_loop.simps)

lemma find_script_cases:
  "find_script proto ty wanted hs out = (st, i) \<Longrightarrow>
     (st = EFI_SUCCESS \<and> ty i = wanted \<and> (\<exists>h\<in>set hs. \<exists>s. proto h = (s, i) \<and> \<not> EFI_ERROR s))
   \<or> (st = EFI_NOT_FOUND \<and> (\<forall>h\<in>set hs. EFI_ERROR (fst (proto h)) \<or> ty (snd (proto h)) \<noteq> wanted))"
  by (induction proto ty wanted hs out rule: find_script.induct) (auto split: prod.splits if_splits)

end
