(* ===== verification/Usf_Files_Thms.thy ===== *)
theory Usf_Files_Thms
  imports Usf_Files Misc_Strings_Thms Con_Out_Thms
begin

unbundle bit_operations_syntax

text \<open>
  What the standard streams and the descriptor table promise. The streams rely on the
  console through the locale \<open>text_output\<close>, which the virtual console provides; the clients
  of the table rely on it through \<open>fd_table\<close>.
\<close>

section \<open>Writing to the standard output\<close>

locale text_output =
  fixes out :: "w16 list \<Rightarrow> 'd \<Rightarrow> (efi_status \<times> 'd) result option"
    and ok :: "'d \<Rightarrow> bool" and view :: "'d \<Rightarrow> 'v" and disp :: "w16 list \<Rightarrow> 'v \<Rightarrow> 'v"
  assumes out_law: "ok d \<Longrightarrow> \<exists>d'. out ws d = Some (Inr (EFI_SUCCESS, d')) \<and> ok d' \<and> view d' = disp ws (view d)"
begin

lemma write_shows:
  assumes "ok d" and "0 \<notin> set ws"
  shows "\<exists>d'. SysStdOutWrite out True (utf8_of ws @ rest) (length (utf8_of ws)) d = Some (Inr (EFI_SUCCESS, d'))
     \<and> ok d' \<and> view d' = disp (unix2dos [] ws @ [0]) (view d)"
proof -
  have "ToUefiString True (utf8_of ws @ rest) None (length (utf8_of ws))
      = Inr (unix2dos [] ws @ [0], length (unix2dos [] ws))"
    using decode_loop [of "[]" True "[]" ws "length (unix2dos [] ws)" "length (unix2dos [] ws) + 1" rest]
      charlen_utf8 [of ws rest] CountUnixEol_ok [OF assms(2), of rest] unix2dos_length [of ws "[]"]
    by (simp add: ToUefiString_def Utf8ToUnicode_def Let_def put_def)
  with out_law [OF assms(1), of "unix2dos [] ws @ [0]"] show ?thesis by (simp add: SysStdOutWrite_def)
qed

end

definition con_cols :: "VIRTUAL_CONSOLE_DEV \<Rightarrow> nat" where
  "con_cols d = (case mode_data d (Mode d) of Inr m \<Rightarrow> nat (Columns m) | Inl _ \<Rightarrow> 0)"

definition con_usable :: "VIRTUAL_CONSOLE_DEV \<Rightarrow> bool" where
  "con_usable d \<longleftrightarrow> (\<exists>W H rs. con_ready W H rs d \<and> 2 \<le> W)"

definition con_disp :: "w16 list \<Rightarrow> nat \<times> term_state \<Rightarrow> nat \<times> term_state" where
  "con_disp ws v = (case v of (W, t) \<Rightarrow> (W, (t_write W ws t)\<lparr>t_attr := t_attr t\<rparr>))"

lemma con_cols_ready: "con_ready W H rs d \<Longrightarrow> con_cols d = W"
  by (simp add: con_cols_def con_ready_def mode_is_def)

interpretation vc_out: text_output OutputString con_usable "\<lambda>d. (con_cols d, term_of d)" con_disp
proof unfold_locales
  fix d ws assume "con_usable d"
  then obtain W H rs where c: "con_ready W H rs d" "2 \<le> W" by (auto simp: con_usable_def)
  from OutputString_sim [OF c, of ws] obtain d' where d':
    "OutputString ws d = Some (Inr (EFI_SUCCESS, d'))" "con_ready W H rs d'"
    "term_of d' = (t_write W ws (term_of d))\<lparr>t_attr := Attribute d\<rparr>" by blast
  have "t_attr (term_of d) = Attribute d" by (simp add: term_of_def)
  with d' c con_cols_ready [OF c(1)] con_cols_ready [OF d'(2)] show "\<exists>d'. OutputString ws d = Some (Inr (EFI_SUCCESS, d'))
      \<and> con_usable d' \<and> (con_cols d', term_of d') = con_disp ws (con_cols d, term_of d)"
    by (auto simp: con_usable_def con_disp_def)
qed

lemma t_write_nul: "t_write W (xs @ [0]) t = t_write W xs t"
  by (induction xs arbitrary: t) (simp_all add: CHAR_NULL_def)

text \<open>
  C37. Text printed on the standard output appears on the console: writing the UTF-8 form of a
  string without zero characters to the stream succeeds and leaves on the virtual console
  what the reference terminal shows for that string with carriage returns added.
\<close>

theorem stdout_shows_text:
  assumes "con_ready W H rs d" and "2 \<le> W" and "0 \<notin> set ws"
  shows "\<exists>d'. std_write OutputString err mStdOut True (utf8_of ws @ rest) (length (utf8_of ws)) d
        = Some (Inr (EFI_SUCCESS, d'))
     \<and> term_of d' = (t_write W (unix2dos [] ws) (term_of d))\<lparr>t_attr := Attribute d\<rparr>"
proof -
  have "con_usable d" using assms(1,2) by (auto simp: con_usable_def)
  from vc_out.write_shows [OF this assms(3), of rest] obtain d' where
    "SysStdOutWrite OutputString True (utf8_of ws @ rest) (length (utf8_of ws)) d = Some (Inr (EFI_SUCCESS, d'))"
    "(con_cols d', term_of d') = con_disp (unix2dos [] ws @ [0]) (con_cols d, term_of d)"
    by blast
  moreover have attr: "t_attr (term_of d) = Attribute d" by (simp add: term_of_def)
  ultimately show ?thesis using con_cols_ready [OF assms(1)]
    by (intro exI [of _ d']) (simp add: con_disp_def t_write_nul attr)
qed

theorem stdout_shows_text_witness:
  "\<exists>d'. std_write OutputString OutputString mStdOut True (utf8_of [65, 10] @ [0]) (length (utf8_of [65, 10])) sample_dev
        = Some (Inr (EFI_SUCCESS, d'))
     \<and> term_of d' = (t_write 4 [65, 13, 10] (term_of sample_dev))\<lparr>t_attr := 7\<rparr>"
  using stdout_shows_text [OF sample_ready, of "[65, 10]" OutputString "[0]"]
  by (simp add: bare_lf_def del: utf8_of_simps t_write.simps)

section \<open>Reading a line\<close>

text \<open>The reference: a line that characters are added to and taken from at its end.\<close>

fun edit_line :: "nat \<Rightarrow> key_event list \<Rightarrow> byte list \<Rightarrow> (efi_status \<times> byte list) option" where
  "edit_line m [] line = None"
| "edit_line m ((st, scan, uni) # keys) line =
     (if EFI_ERROR st \<or> uni = KEY_CR then Some (st, line)
      else let line' = (if uni = KEY_BS \<or> uni = 0 \<and> scan = SCAN_DELETE then butlast line
                        else if uni = 0 then line else line @ [ucast uni])
           in if m \<le> length line' then Some (st, line') else edit_line m keys line')"

definition holds_line :: "byte list \<Rightarrow> byte list \<Rightarrow> bool" where
  "holds_line buf line \<longleftrightarrow> length line \<le> length buf \<and> take (length line) buf = line"

lemma take_back_line:
  assumes "holds_line buf line"
  shows "\<exists>buf'. take_back buf (length line) = Inr (buf', length (butlast line)) \<and> holds_line buf' (butlast line)
     \<and> length buf' = length buf \<and> (\<forall>i\<ge>length line. drop i buf' = drop i buf)"
proof (cases line rule: rev_cases)
  case Nil
  then show ?thesis by (simp add: take_back_def holds_line_def)
next
  case (snoc xs x)
  let ?buf = "buf[length xs := 32]"
  have "take (length xs) buf = xs"
    using assms snoc by (metis append_eq_conv_conj butlast_snoc holds_line_def length_append_singleton
        take_Suc_conv_app_nth Suc_le_eq butlast_take length_butlast diff_Suc_1 lessI less_imp_le_nat min.absorb2 take_take)
  with assms snoc show ?thesis
    by (intro exI [of _ ?buf]) (auto simp: take_back_def holds_line_def)
qed

definition edit_key :: "w16 \<Rightarrow> w16 \<Rightarrow> byte list \<Rightarrow> byte list" where
  "edit_key scan uni line = (if uni = KEY_BS \<or> uni = 0 \<and> scan = SCAN_DELETE then butlast line
     else if uni = 0 then line else line @ [ucast uni])"

lemma key_step_line:
  assumes "holds_line buf line" and "length line < length buf" and "uni \<noteq> KEY_CR"
  shows "\<exists>buf'. key_step scan uni buf (length line) = Inr (buf', length (edit_key scan uni line), False, [])
     \<and> holds_line buf' (edit_key scan uni line) \<and> length buf' = length buf
     \<and> (\<forall>i>length line. drop i buf' = drop i buf)"
proof -
  from take_back_line [OF assms(1)] obtain b where b: "take_back buf (length line) = Inr (b, length (butlast line))"
    "holds_line b (butlast line)" "length b = length buf" "\<forall>i\<ge>length line. drop i b = drop i buf" by blast
  have k: "KEY_BS \<noteq> 0" "KEY_CR \<noteq> 0" by (simp_all add: KEY_BS_def KEY_CR_def)
  consider "uni = KEY_BS \<or> uni = 0 \<and> scan = SCAN_DELETE" | "uni = 0" "scan \<noteq> SCAN_DELETE" | "uni \<noteq> 0" "uni \<noteq> KEY_BS"
    by blast
  then show ?thesis
  proof cases
    case 1
    with b k assms(3) show ?thesis
      by (intro exI [of _ b]) (auto simp: key_step_def edit_key_def)
  next
    case 2
    with assms k show ?thesis by (auto simp: key_step_def edit_key_def)
  next
    case 3
    let ?b = "buf[length line := ucast uni]"
    have "take (Suc (length line)) ?b = line @ [ucast uni]"
      using assms(1,2) by (simp add: holds_line_def take_Suc_conv_app_nth)
    with 3 assms show ?thesis
      by (intro exI [of _ ?b]) (simp add: key_step_def edit_key_def holds_line_def)
  qed
qed

text \<open>The frame: nothing behind the first \<open>n\<close> bytes of the buffer changes.\<close>

lemma read_line_sim:
  assumes "holds_line buf line" and "length line < n" and "n \<le> length buf" and "m \<le> n"
    and "line = [] \<or> length line < m"
  shows "case edit_line m keys line of
      None \<Rightarrow> read_line col row m keys buf (length line) = None
    | Some (st, line') \<Rightarrow> \<exists>buf' cmds rest.
        read_line col row m keys buf (length line) = Some (Inr (st, buf', length line', cmds, rest))
        \<and> holds_line buf' line' \<and> length buf' = length buf \<and> drop n buf' = drop n buf \<and> length line' \<le> n"
  using assms
proof (induction keys arbitrary: buf line)
  case Nil
  then show ?case by simp
next
  case (Cons key keys)
  obtain st scan uni where key: "key = (st, scan, uni)" by (cases key)
  consider "EFI_ERROR st" | "\<not> EFI_ERROR st" "uni = KEY_CR" | "\<not> EFI_ERROR st" "uni \<noteq> KEY_CR" by blast
  then show ?case
  proof cases
    case 1
    with key Cons.prems show ?thesis by simp
  next
    case 2
    have "KEY_CR \<noteq> 0" by (simp add: KEY_CR_def)
    with 2 key Cons.prems show ?thesis by (simp add: key_step_def Let_def)
  next
    case 3
    let ?line = "edit_key scan uni line"
    have len: "length line < length buf" using Cons.prems(2,3) by simp
    from key_step_line [OF Cons.prems(1) len 3(2), of scan] obtain b where b:
      "key_step scan uni buf (length line) = Inr (b, length ?line, False, [])"
      "holds_line b ?line" "length b = length buf" "\<forall>i>length line. drop i b = drop i buf" by blast
    have edit: "edit_line m (key # keys) line = (if m \<le> length ?line then Some (st, ?line) else edit_line m keys ?line)"
      using 3 key by (simp add: edit_key_def Let_def)
    have le: "length ?line \<le> Suc (length line)" by (auto simp: edit_key_def)
    have frame: "drop n b = drop n buf" using b(4) Cons.prems(2) by simp
    let ?c = "[CmdCursor (uintn (col + int (length ?line))) row]"
    show ?thesis
    proof (cases "m \<le> length ?line")
      case True
      with b frame le Cons.prems(2) key 3 show ?thesis unfolding edit by (simp add: Let_def)
    next
      case False
      have step: "read_line col row m (key # keys) buf (length line)
          = map_option (\<lambda>r. rbind r (\<lambda>(s, b, p, cs, ks). Inr (s, b, p, ?c @ cs, ks)))
              (read_line col row m keys b (length ?line))"
        using False b(1) key 3 by (simp add: Let_def)
      have "length ?line < n" "n \<le> length b" "?line = [] \<or> length ?line < m"
        using False Cons.prems b(3) by auto
      note IH = Cons.IH [OF b(2) this(1,2) Cons.prems(4) this(3)]
      show ?thesis
      proof (cases "edit_line m keys ?line")
        case None
        with IH edit False step show ?thesis by simp
      next
        case (Some r)
        obtain st' line' where r: "r = (st', line')" by (cases r)
        with IH Some obtain buf' cmds rest where
          "read_line col row m keys b (length ?line) = Some (Inr (st', buf', length line', cmds, rest))"
          "holds_line buf' line'" "length buf' = length b" "drop n buf' = drop n b" "length line' \<le> n" by auto
        with step edit False Some r b(3) frame show ?thesis by simp
      qed
    qed
  qed
qed

text \<open>
  C38. Reading a line from the standard input, for every sequence of key events: the function
  waits exactly as long as the reference line editor does, returns its status and its line at
  the start of the buffer with its length, and writes nothing outside the caller's buffer,
  nor behind the limit it computed from the buffer and the console width.
\<close>

theorem stdin_line_editing:
  assumes "2 \<le> bsize" and "bsize \<le> length buf" and "m = min (nat (uintn (tcols - uintn col))) bsize"
  shows "case edit_line m keys [] of
      None \<Rightarrow> SysStdInRead col row tcols keys buf bsize = None
    | Some (st, line) \<Rightarrow> \<exists>buf' cmds rest.
        SysStdInRead col row tcols keys buf bsize = Some (Inr (st, buf', length line, cmds, rest))
        \<and> take (length line) buf' = line \<and> length buf' = length buf
        \<and> drop (max 1 m) buf' = drop (max 1 m) buf"
proof -
  let ?b = "replicate m 0 @ drop m buf"
  have m: "m \<le> bsize" using assms(3) by simp
  have "SysStdInRead col row tcols keys buf bsize = read_line col row m keys ?b 0"
    using assms m by (auto simp: SysStdInRead_def Let_def min_def)
  moreover have "length ?b = length buf" "drop (max 1 m) ?b = drop (max 1 m) buf"
    using m assms(2) by (auto simp: max_def)
  moreover have "case edit_line m keys [] of
      None \<Rightarrow> read_line col row m keys ?b (length ([] :: byte list)) = None
    | Some (st, line') \<Rightarrow> \<exists>buf' cmds rest.
        read_line col row m keys ?b (length ([] :: byte list)) = Some (Inr (st, buf', length line', cmds, rest))
        \<and> holds_line buf' line' \<and> length buf' = length ?b \<and> drop (max 1 m) buf' = drop (max 1 m) ?b
        \<and> length line' \<le> max 1 m"
  proof (rule read_line_sim)
    show "max 1 m \<le> length ?b" using m assms(1,2) by simp
  qed (simp_all add: holds_line_def)
  ultimately show ?thesis by (auto simp: holds_line_def split: option.splits)
qed

theorem stdin_line_editing_witness:
  "\<exists>buf' cmds rest. SysStdInRead 0 0 80 [(EFI_SUCCESS, 0, 97), (EFI_SUCCESS, 0, 98), (EFI_SUCCESS, 0, 8),
        (EFI_SUCCESS, 0, 99), (EFI_SUCCESS, 0, 13)] (replicate 10 7) 10 = Some (Inr (EFI_SUCCESS, buf', 2, cmds, rest))
     \<and> take 2 buf' = [97, 99]"
proof -
  have "uintn 80 = 80" "uintn 0 = 0" by (simp_all add: casts)
  then have m: "10 = min (nat (uintn (80 - uintn 0))) (10 :: nat)" by simp
  have len: "2 \<le> (10 :: nat)" "10 \<le> length (replicate 10 (7 :: byte))" by simp_all
  have e: "edit_line 10 [(EFI_SUCCESS, 0, 97), (EFI_SUCCESS, 0, 98), (EFI_SUCCESS, 0, 8),
        (EFI_SUCCESS, 0, 99), (EFI_SUCCESS, 0, 13)] [] = Some (EFI_SUCCESS, [97, 99])"
    by (simp add: KEY_CR_def KEY_BS_def SCAN_DELETE_def Let_def)
  have two: "length [97, 99 :: byte] = 2" by simp
  show ?thesis
    using stdin_line_editing [OF len m, where keys = "[(EFI_SUCCESS, 0, 97), (EFI_SUCCESS, 0, 98), (EFI_SUCCESS, 0, 8),
        (EFI_SUCCESS, 0, 99), (EFI_SUCCESS, 0, 13)]" and row = 0]
    unfolding e option.case prod.case two by blast
qed

section \<open>The descriptor table as an interface\<close>

text \<open>
  What the file objects rely on: a new descriptor was free, gets the handle and disturbs no
  other; releasing a descriptor frees it and disturbs no other; a table that is full says so
  and stays as it is.
\<close>

text \<open>Assigning a list of handles, as long as there is room.\<close>

fun assign_all :: "('h \<Rightarrow> 's \<Rightarrow> int option \<times> 's) \<Rightarrow> 'h list \<Rightarrow> 's \<Rightarrow> (int list \<times> 's) option" where
  "assign_all assign [] s = Some ([], s)"
| "assign_all assign (h # hs) s = (case assign h s of (None, _) \<Rightarrow> None
     | (Some fd, s1) \<Rightarrow> map_option (\<lambda>(fds, s2). (fd # fds, s2)) (assign_all assign hs s1))"

locale fd_table =
  fixes lookup :: "'s \<Rightarrow> int \<Rightarrow> 'h option"
    and assign :: "'h \<Rightarrow> 's \<Rightarrow> int option \<times> 's"
    and release :: "int \<Rightarrow> 's \<Rightarrow> 's"
    and reserved :: "int set"
    and ok :: "'s \<Rightarrow> bool"
  assumes assign_ok: "ok s \<Longrightarrow> assign h s = (Some fd, s') \<Longrightarrow>
      ok s' \<and> fd \<notin> reserved \<and> lookup s fd = None \<and> lookup s' = (lookup s)(fd := Some h)"
    and assign_full: "ok s \<Longrightarrow> assign h s = (None, s') \<Longrightarrow> s' = s"
    and release_ok: "ok s \<Longrightarrow> fd \<notin> reserved \<Longrightarrow> ok (release fd s) \<and> lookup (release fd s) = (lookup s)(fd := None)"
begin

lemma assign_all_ok:
  assumes "ok s" and "assign_all assign hs s = Some (fds, s')"
  shows "ok s' \<and> distinct fds \<and> set fds \<inter> reserved = {} \<and> map (lookup s') fds = map Some hs
     \<and> (\<forall>fd. fd \<notin> set fds \<longrightarrow> lookup s' fd = lookup s fd) \<and> (\<forall>fd\<in>set fds. lookup s fd = None)"
  using assms
proof (induction hs arbitrary: s fds)
  case Nil
  then show ?case by simp
next
  case (Cons h hs)
  from Cons.prems(2) obtain fd s1 fds1 where a: "assign h s = (Some fd, s1)"
    "assign_all assign hs s1 = Some (fds1, s')" "fds = fd # fds1"
    by (auto split: prod.splits option.splits)
  note new = assign_ok [OF Cons.prems(1) a(1)]
  have IH: "ok s' \<and> distinct fds1 \<and> set fds1 \<inter> reserved = {} \<and> map (lookup s') fds1 = map Some hs
     \<and> (\<forall>fd. fd \<notin> set fds1 \<longrightarrow> lookup s' fd = lookup s1 fd) \<and> (\<forall>fd\<in>set fds1. lookup s1 fd = None)"
    by (rule Cons.IH [OF _ a(2)]) (use new in simp)
  have fd: "fd \<notin> set fds1" using IH new by (metis fun_upd_same option.distinct(1))
  have "\<forall>x\<in>set fds. lookup s x = None"
  proof
    fix x assume "x \<in> set fds"
    with a(3) consider "x = fd" | "x \<in> set fds1" "x \<noteq> fd" using fd by auto
    then show "lookup s x = None" using IH new by cases (auto dest!: bspec)
  qed
  with fd IH new a(3) show ?case by auto
qed

lemma assign_release:
  assumes "ok s" and "assign h s = (Some fd, s')"
  shows "ok (release fd s') \<and> lookup (release fd s') = lookup s"
  using assign_ok [OF assms] release_ok [of s' fd] by auto

end

definition usf_ok :: "'t USF_PRIVATE_DATA \<Rightarrow> bool" where
  "usf_ok u \<longleftrightarrow> length (FilePool u) = FILE_POOL_SIZE \<and> (\<forall>i<3. FilePool u ! i \<noteq> None)"

definition usf_lookup :: "'t USF_PRIVATE_DATA \<Rightarrow> int \<Rightarrow> EFI_FILE_HANDLE option" where
  "usf_lookup u fd = snd (UsfGetFileHandle fd u)"

definition usf_assign :: "EFI_FILE_HANDLE \<Rightarrow> 't USF_PRIVATE_DATA \<Rightarrow> int option \<times> 't USF_PRIVATE_DATA" where
  "usf_assign h u = (case UsfMap (Some h) u of (st, fd, u') \<Rightarrow> (if EFI_ERROR st then None else fd, u'))"

definition usf_release :: "int \<Rightarrow> 't USF_PRIVATE_DATA \<Rightarrow> 't USF_PRIVATE_DATA" where
  "usf_release fd u = snd (UsfUnmap fd u)"

lemma first_free_Some:
  "first_free pool i = Some j \<Longrightarrow> i \<le> j \<and> j < length pool \<and> pool ! j = None \<and> (\<forall>k. i \<le> k \<and> k < j \<longrightarrow> pool ! k \<noteq> None)"
proof (induction pool i rule: first_free.induct)
  case (1 pool i)
  show ?case
  proof (cases "i < length pool \<and> pool ! i \<noteq> None")
    case True
    with 1 have "first_free pool (Suc i) = Some j" by (simp add: first_free.simps [of pool i])
    with 1 True have "Suc i \<le> j \<and> j < length pool \<and> pool ! j = None \<and> (\<forall>k. Suc i \<le> k \<and> k < j \<longrightarrow> pool ! k \<noteq> None)"
      by blast
    with True show ?thesis by (metis Suc_leD Suc_le_eq le_neq_implies_less)
  next
    case False
    with 1(2) show ?thesis by (auto simp: first_free.simps [of pool i] split: if_splits)
  qed
qed

lemma first_free_None:
  "first_free pool i = None \<longleftrightarrow> (\<forall>k. i \<le> k \<and> k < length pool \<longrightarrow> pool ! k \<noteq> None)"
proof (induction pool i rule: first_free.induct)
  case (1 pool i)
  show ?case
  proof (cases "i < length pool \<and> pool ! i \<noteq> None")
    case True
    then have "first_free pool i = first_free pool (Suc i)" by (subst first_free.simps) auto
    with 1 True show ?thesis by (metis Suc_leD Suc_le_eq le_neq_implies_less)
  next
    case False
    then show ?thesis by (auto simp: first_free.simps [of pool i])
  qed
qed

lemma usf_lookup_nth:
  "usf_lookup u fd = (if 0 \<le> fd \<and> fd < int (length (FilePool u)) then FilePool u ! nat fd else None)"
  by (auto simp: usf_lookup_def UsfGetFileHandle_def split: option.splits)

interpretation usf: fd_table usf_lookup usf_assign usf_release "{fd. fd < 3}" usf_ok
proof unfold_locales
  fix s s' :: "'t USF_PRIVATE_DATA" and h fd
  assume s: "usf_ok s" and "usf_assign h s = (Some fd, s')"
  then obtain i where i: "first_free (FilePool s) 3 = Some i" "fd = int i"
    "s' = s\<lparr>FilePool := (FilePool s)[i := Some h]\<rparr>"
    by (auto simp: usf_assign_def UsfMap_def split: option.splits)
  with s first_free_Some [OF i(1)]
  show "usf_ok s' \<and> fd \<notin> {fd. fd < 3} \<and> usf_lookup s fd = None \<and> usf_lookup s' = (usf_lookup s)(fd := Some h)"
    by (auto simp: usf_ok_def usf_lookup_nth fun_eq_iff nth_list_update)
next
  fix s s' :: "'t USF_PRIVATE_DATA" and h
  assume "usf_assign h s = (None, s')"
  then show "s' = s" by (auto simp: usf_assign_def UsfMap_def split: option.splits)
next
  fix s :: "'t USF_PRIVATE_DATA" and fd :: int
  assume "usf_ok s" "fd \<notin> {fd. fd < 3}"
  then show "usf_ok (usf_release fd s) \<and> usf_lookup (usf_release fd s) = (usf_lookup s)(fd := None)"
    by (auto simp: usf_ok_def usf_release_def UsfUnmap_def usf_lookup_nth fun_eq_iff nth_list_update)
qed

text \<open>
  Mapping a handle takes the smallest free descriptor above the standard ones; it fails
  exactly when all 61 are taken, and then changes nothing; looking the descriptor up returns
  the handle until it is unmapped, every other descriptor is undisturbed, and unmapping
  restores the table as its clients see it.
\<close>

theorem UsfMap_smallest_free:
  assumes "usf_ok u" and "UsfMap (Some h) u = (st, fd, u')"
  shows "(if \<forall>i. 3 \<le> i \<and> i < 64 \<longrightarrow> usf_lookup u i \<noteq> None
          then st = EFI_NOT_FOUND \<and> fd = Some (-1) \<and> u' = u
          else st = EFI_SUCCESS \<and> (\<exists>i. fd = Some i \<and> 3 \<le> i \<and> i < 64 \<and> usf_lookup u i = None
            \<and> (\<forall>j. 3 \<le> j \<and> j < i \<longrightarrow> usf_lookup u j \<noteq> None)
            \<and> usf_lookup u' = (usf_lookup u)(i := Some h) \<and> usf_ok u'
            \<and> usf_lookup (snd (UsfUnmap i u')) = usf_lookup u))"
proof -
  have len: "length (FilePool u) = 64" using assms(1) by (simp add: usf_ok_def FILE_POOL_SIZE_def)
  have lk: "usf_lookup u (int k) = FilePool u ! k" if "k < 64" for k
    using that len by (simp add: usf_lookup_nth)
  have full: "(\<forall>i. 3 \<le> i \<and> i < 64 \<longrightarrow> usf_lookup u i \<noteq> None) \<longleftrightarrow> first_free (FilePool u) 3 = None"
  proof
    assume *: "\<forall>i. 3 \<le> i \<and> i < 64 \<longrightarrow> usf_lookup u i \<noteq> None"
    have "FilePool u ! k \<noteq> None" if "3 \<le> k" "k < 64" for k
      using * [rule_format, of "int k"] lk [of k] that by simp
    then show "first_free (FilePool u) 3 = None" unfolding first_free_None len by blast
  next
    assume *: "first_free (FilePool u) 3 = None"
    show "\<forall>i. 3 \<le> i \<and> i < 64 \<longrightarrow> usf_lookup u i \<noteq> None"
    proof (intro allI impI)
      fix i :: int assume i: "3 \<le> i \<and> i < 64"
      then have "3 \<le> nat i \<and> nat i < 64" by (simp add: nat_less_iff le_nat_iff)
      with * have "FilePool u ! nat i \<noteq> None" unfolding first_free_None len by blast
      with i lk [of "nat i"] show "usf_lookup u i \<noteq> None" by (simp add: nat_less_iff)
    qed
  qed
  show ?thesis
  proof (cases "first_free (FilePool u) 3")
    case None
    with full assms(2) show ?thesis by (auto simp: UsfMap_def)
  next
    case (Some i)
    note f = first_free_Some [OF Some]
    with Some assms(2) have r: "st = EFI_SUCCESS" "fd = Some (int i)" "usf_assign h u = (Some (int i), u')"
      by (auto simp: UsfMap_def usf_assign_def)
    have small: "usf_lookup u j \<noteq> None" if "3 \<le> j" "j < int i" for j
      using f lk [of "nat j"] that len by (auto simp: nat_less_iff)
    from usf.assign_ok [OF assms(1) r(3)] usf.assign_release [OF assms(1) r(3)] small f len full Some r(1,2)
    show ?thesis by (auto simp: usf_release_def)
  qed
qed

definition empty_usf :: "unit USF_PRIVATE_DATA" where
  "empty_usf = \<lparr>FilePool = (replicate FILE_POOL_SIZE None)[0 := Some mStdIn, 1 := Some mStdOut, 2 := Some mStdErr],
     FileSystemTable = None, CurrentDirectory = None\<rparr>"

lemma empty_usf_ok: "usf_ok empty_usf"
  by (auto simp: usf_ok_def empty_usf_def FILE_POOL_SIZE_def nth_list_update less_Suc_eq numeral_3_eq_3)

theorem UsfMap_smallest_free_witness:
  "\<exists>st fd u'. UsfMap (Some (FsHandle 9)) empty_usf = (st, fd, u') \<and>
     (if \<forall>i. 3 \<le> i \<and> i < 64 \<longrightarrow> usf_lookup empty_usf i \<noteq> None
          then st = EFI_NOT_FOUND \<and> fd = Some (-1) \<and> u' = empty_usf
          else st = EFI_SUCCESS \<and> (\<exists>i. fd = Some i \<and> 3 \<le> i \<and> i < 64 \<and> usf_lookup empty_usf i = None
            \<and> (\<forall>j. 3 \<le> j \<and> j < i \<longrightarrow> usf_lookup empty_usf j \<noteq> None)
            \<and> usf_lookup u' = (usf_lookup empty_usf)(i := Some (FsHandle 9)) \<and> usf_ok u'
            \<and> usf_lookup (snd (UsfUnmap i u')) = usf_lookup empty_usf))"
  using UsfMap_smallest_free [OF empty_usf_ok, of "FsHandle 9"]
  by (cases "UsfMap (Some (FsHandle 9)) empty_usf") blast

text \<open>
  Any number of files opened one after the other get different descriptors, none of them
  a standard one, and each descriptor leads to its own file; the standard streams and all
  other descriptors are as before.
\<close>

theorem open_files_distinct:
  assumes "usf_ok u" and "assign_all usf_assign hs u = Some (fds, u')"
  shows "distinct fds \<and> (\<forall>fd\<in>set fds. 3 \<le> fd) \<and> map (usf_lookup u') fds = map Some hs
     \<and> (\<forall>fd. fd \<notin> set fds \<longrightarrow> usf_lookup u' fd = usf_lookup u fd) \<and> usf_ok u'"
  using usf.assign_all_ok [OF assms] by force

theorem open_files_distinct_witness:
  "\<exists>fds u'. assign_all usf_assign [FsHandle 1, FsHandle 2] empty_usf = Some (fds, u')
     \<and> distinct fds \<and> map (usf_lookup u') fds = [Some (FsHandle 1), Some (FsHandle 2)]"
proof -
  have "\<exists>fds u'. assign_all usf_assign [FsHandle 1, FsHandle 2] empty_usf = Some (fds, u')"
    by (simp add: usf_assign_def UsfMap_def empty_usf_def FILE_POOL_SIZE_def first_free.simps [of _ 3]
        first_free.simps [of _ 4] nth_list_update)
  then obtain fds u' where "assign_all usf_assign [FsHandle 1, FsHandle 2] empty_usf = Some (fds, u')" by blast
  with open_files_distinct [OF empty_usf_ok this] show ?thesis by auto
qed

end
