(* ===== verification/Usf_Paths_Thms.thy ===== *)
theory Usf_Paths_Thms
  imports Usf_Paths
begin

text \<open>
  Paths: joining never leaves its buffer and never doubles a separator, the normal form is
  stable and splits into the drive it was made from, relative paths resolve against the
  current directory, and opening a file closes the volume it went through.
\<close>

section \<open>Searching and joining\<close>

lemma StrStr_char: "StrStr s [c] = (if c \<in> set s then Some (dropWhile (\<lambda>x. x \<noteq> c) s) else None)"
  by (induction s) auto

lemma StrStr_char_app: "c \<notin> set a \<Longrightarrow> StrStr (a @ c # b) [c] = Some (c # b)"
  by (induction a) auto

text \<open>The reference join: exactly one separator between two non-empty parts.\<close>

definition join :: "w16 list \<Rightarrow> w16 list \<Rightarrow> w16 list" where
  "join d s = (if s = [] then d else if d = [] then s
     else (if last d = SEP then d else d @ [SEP]) @ (if hd s = SEP then tl s else s))"

lemma length_join: "length (join d s) \<le> length d + length s + 1"
  by (auto simp: join_def)

lemma PathnCat_join:
  assumes "length s \<le> maxlen" and "length d + length s + 1 < cap"
  shows "PathnCat cap (Some d) (Some s) maxlen = Inr (True, Some (join d s))"
proof (cases "maxlen = 0 \<or> s = []")
  case True
  with assms(1) show ?thesis by (auto simp: PathnCat_def join_def)
next
  case False
  then obtain c cs where s: "s = c # cs" by (cases s) auto
  show ?thesis
  proof (cases "d = []")
    case True
    with False assms s show ?thesis by (simp add: PathnCat_def join_def StrnCatS_def Let_def)
  next
    case d: False
    with False assms s show ?thesis
      by (cases "last d = SEP"; cases "c = SEP") (simp_all add: PathnCat_def join_def StrnCatS_def Let_def)
  qed
qed

definition opt_join :: "w16 list \<Rightarrow> w16 list option \<Rightarrow> w16 list" where
  "opt_join d s = (case s of None \<Rightarrow> d | Some x \<Rightarrow> join d x)"

lemma piece_join:
  assumes "length d + piece_length p < cap"
  shows "(if piece_length p > 0 then PathnCat cap (Some d) p (piece_length p) else Inr (True, Some d))
     = Inr (True, Some (opt_join d p))"
proof (cases p)
  case None
  then show ?thesis by (simp add: piece_length_def opt_join_def)
next
  case (Some s)
  with assms PathnCat_join [of s "piece_length p" d cap] show ?thesis
    by (auto simp: piece_length_def opt_join_def join_def split: if_splits)
qed

lemma length_opt_join: "length (opt_join d p) \<le> length d + piece_length p"
  using length_join [of d] by (auto simp: opt_join_def piece_length_def join_def split: option.splits)

lemma compose_path_ok:
  "compose_path mapping dir path = Inr (Some (opt_join (opt_join (ROOT_TYPE_INTERNAL @ mapping) dir) path))"
proof -
  let ?r = "ROOT_TYPE_INTERNAL @ mapping"
  let ?cap = "length ROOT_TYPE_INTERNAL + length mapping + 1 + piece_length dir + piece_length path + 1"
  have d: "(if piece_length dir > 0 then PathnCat ?cap (Some ?r) dir (piece_length dir) else Inr (True, Some ?r))
     = Inr (True, Some (opt_join ?r dir))"
    by (rule piece_join) simp
  have p: "(if piece_length path > 0 then PathnCat ?cap (Some (opt_join ?r dir)) path (piece_length path)
        else Inr (True, Some (opt_join ?r dir))) = Inr (True, Some (opt_join (opt_join ?r dir) path))"
    using length_opt_join [of ?r dir] by (intro piece_join) simp
  show ?thesis
    unfolding compose_path_def Let_def StrnCatS_def using d p by simp
qed

text \<open>A drive name: it ends with the colon and has no other.\<close>

definition drive_name :: "w16 list \<Rightarrow> bool" where
  "drive_name n \<longleftrightarrow> n \<noteq> [] \<and> last n = DRIVE \<and> DRIVE \<notin> set (butlast n)"

lemma SplitDrive_internal:
  assumes "drive_name n"
  shows "SplitDrive (ROOT_TYPE_INTERNAL @ n @ rest) = Inr (Some n, if rest = [] then None else Some rest)"
proof -
  from assms obtain m where n: "n = m @ [DRIVE]" "DRIVE \<notin> set m"
    by (metis append_butlast_last_id drive_name_def)
  have "StrStr (ROOT_TYPE_INTERNAL @ n @ rest) [DRIVE] = Some (DRIVE # n @ rest)"
    by (simp add: path_consts)
  moreover have "StrStr (n @ rest) [DRIVE] = Some (DRIVE # rest)"
    using StrStr_char_app [OF n(2), of rest] by (simp add: n(1))
  ultimately show ?thesis
    by (simp add: SplitDrive_def Let_def str_dup_def StrDup_def n(1))
qed

lemma str_dup_all: "s \<noteq> [] \<Longrightarrow> str_dup s (length s) = Some s" "s \<noteq> [] \<Longrightarrow> str_dup s 0 = Some s"
  by (simp_all add: str_dup_def StrDup_def)

definition norm_seps :: "w16 list \<Rightarrow> w16 list" where
  "norm_seps = map (\<lambda>x. if x = SLASH then SEP else x)"

lemma norm_internal:
  "UsfFilePathNorm fw cd (ROOT_TYPE_INTERNAL @ x) conv = Inr (EFI_SUCCESS, Some (norm_seps (ROOT_TYPE_INTERNAL @ x)), [])"
proof -
  let ?c = "norm_seps (ROOT_TYPE_INTERNAL @ x)"
  have "take (length PATH_PREFIX) ?c = PATH_PREFIX" "StrStr ?c ROOT_TYPE_INTERNAL \<noteq> None"
    by (simp_all add: norm_seps_def path_consts)
  moreover have dup: "str_dup (ROOT_TYPE_INTERNAL @ x) (length (ROOT_TYPE_INTERNAL @ x)) = Some (ROOT_TYPE_INTERNAL @ x)"
    by (rule str_dup_all(1)) (simp add: ROOT_TYPE_INTERNAL_def)
  ultimately show ?thesis
    unfolding UsfFilePathNorm_def dup option.case Let_def norm_seps_def [symmetric] by auto
qed

lemma norm_relative:
  assumes "Shell fw = None" and "drive_name n" and "p \<noteq> []" and "DRIVE \<notin> set p"
    and "take 2 (norm_seps p) \<noteq> [SEP, SEP]"
  shows "UsfFilePathNorm fw (Some (ROOT_TYPE_INTERNAL @ n @ dir)) p conv =
     Inr (EFI_SUCCESS, Some (join (if hd (norm_seps p) = SEP then ROOT_TYPE_INTERNAL @ n
                                   else join (ROOT_TYPE_INTERNAL @ n) dir)
                                  (if hd (norm_seps p) = SEP then tl (norm_seps p) else norm_seps p)), [])"
proof -
  let ?p = "norm_seps p"
  have pre: "take (length PATH_PREFIX) ?p \<noteq> PATH_PREFIX"
    using assms(5) by (simp add: PATH_PREFIX_def numeral_2_eq_2)
  have no: "StrStr ?p [DRIVE] = None"
    using assms(4) by (auto simp: StrStr_char norm_seps_def path_consts)
  have dirj: "opt_join (ROOT_TYPE_INTERNAL @ n) (if dir = [] then None else Some dir) = join (ROOT_TYPE_INTERNAL @ n) dir"
    by (simp add: opt_join_def join_def)
  have "relative_path fw (Some (ROOT_TYPE_INTERNAL @ n @ dir)) ?p =
     Inr (Inr (Some n, if hd ?p = SEP then (None, Some (tl ?p)) else (if dir = [] then None else Some dir, Some ?p)))"
    using assms(1) SplitDrive_internal [OF assms(2), of dir] by (simp add: relative_path_def Let_def)
  with pre no dirj show ?thesis
    unfolding UsfFilePathNorm_def norm_seps_def [symmetric]
    using str_dup_all(1) [OF assms(3)]
    by (cases "hd ?p = SEP") (simp_all add: Let_def compose_path_ok opt_join_def flip: norm_seps_def)
qed

section \<open>Properties\<close>

definition no_shell :: "(nat, nat, nat) usf_firmware" where
  "no_shell = \<lparr>Shell = None, FsHandles = (EFI_SUCCESS, [1, 2]), DevicePathFromHandle = Some,
     ConsistMappingName = (\<lambda>n. Some [70, 83, of_nat n, DRIVE]), HandleProtocol = (\<lambda>_. EFI_SUCCESS),
     OpenVolume = (\<lambda>h. (EFI_SUCCESS, h)), VolumeLabel = (\<lambda>r. (EFI_SUCCESS, [65 + of_nat r])),
     VolOpen = (\<lambda>r name mode attrs. (EFI_SUCCESS, Some (FsHandle (10 + r)))), RootFile = FsHandle\<rparr>"

definition drive1 :: "w16 list" where "drive1 = [70, 83, 1, DRIVE]"

lemma drive1_name: "drive_name drive1"
  by (simp add: drive_name_def drive1_def path_consts)

text \<open>
  C40. Without a shell, a relative path resolves against the current directory: the result is
  the root prefix, the drive of the current directory, its directory (unless the path starts
  with a separator) and the path, with every slash turned into a backslash and exactly one
  separator between the parts; the buffer computed for it is never overrun.
\<close>

theorem path_norm_relative:
  assumes "Shell fw = None" and "drive_name n" and "p \<noteq> []" and "DRIVE \<notin> set p"
    and "take 2 (norm_seps p) \<noteq> [SEP, SEP]"
  shows "UsfFilePathNorm fw (Some (ROOT_TYPE_INTERNAL @ n @ dir)) p conv =
     Inr (EFI_SUCCESS, Some (join (if hd (norm_seps p) = SEP then ROOT_TYPE_INTERNAL @ n
                                   else join (ROOT_TYPE_INTERNAL @ n) dir)
                                  (if hd (norm_seps p) = SEP then tl (norm_seps p) else norm_seps p)), [])"
  by (rule norm_relative [OF assms])

theorem path_norm_relative_witness:
  "UsfFilePathNorm no_shell (Some (ROOT_TYPE_INTERNAL @ drive1 @ [SEP, 97])) [98, SLASH, 99] True
     = Inr (EFI_SUCCESS, Some (ROOT_TYPE_INTERNAL @ drive1 @ [SEP, 97, SEP, 98, SEP, 99]), [])"
  using path_norm_relative [OF _ drive1_name, of no_shell "[98, SLASH, 99]" "[SEP, 97]" True]
  by (simp add: no_shell_def norm_seps_def join_def drive1_def path_consts)

lemma norm_seps_idem [simp]: "norm_seps (norm_seps x) = norm_seps x"
  by (auto simp: norm_seps_def path_consts)

lemma norm_seps_append [simp]: "norm_seps (x @ y) = norm_seps x @ norm_seps y"
  by (simp add: norm_seps_def)

lemma norm_seps_root [simp]: "norm_seps ROOT_TYPE_INTERNAL = ROOT_TYPE_INTERNAL"
  by (simp add: norm_seps_def path_consts)

text \<open>
  Changing the directory and asking for it, without a shell: a path in normal form becomes
  the current directory (with slashes turned into backslashes), is what
  \<open>UsfGetCurrentDirectory\<close> returns, and changing to the returned path changes nothing.
\<close>

theorem chdir_getcwd:
  assumes "Shell fw = None"
  shows "\<exists>u'. UsfChangeCurrentDirectory fw (Some (ROOT_TYPE_INTERNAL @ x)) u = Inr (EFI_SUCCESS, None, u', [])
     \<and> UsfGetCurrentDirectory fw u' = Inr (Some (ROOT_TYPE_INTERNAL @ norm_seps x), u', [])
     \<and> UsfChangeCurrentDirectory fw (Some (ROOT_TYPE_INTERNAL @ norm_seps x)) u' = Inr (EFI_SUCCESS, None, u', [])
     \<and> FilePool u' = FilePool u"
proof -
  let ?u = "u\<lparr>CurrentDirectory := Some (ROOT_TYPE_INTERNAL @ norm_seps x)\<rparr>"
  have ne: "ROOT_TYPE_INTERNAL \<noteq> []" by (simp add: ROOT_TYPE_INTERNAL_def)
  have "UsfChangeCurrentDirectory fw (Some (ROOT_TYPE_INTERNAL @ x)) u = Inr (EFI_SUCCESS, None, ?u, [])"
    "UsfChangeCurrentDirectory fw (Some (ROOT_TYPE_INTERNAL @ norm_seps x)) ?u = Inr (EFI_SUCCESS, None, ?u, [])"
    using assms by (simp_all add: UsfChangeCurrentDirectory_def norm_internal)
  moreover have "UsfGetCurrentDirectory fw ?u = Inr (Some (ROOT_TYPE_INTERNAL @ norm_seps x), ?u, [])"
    using assms ne by (simp add: UsfGetCurrentDirectory_def StrDup_def Let_def)
  ultimately show ?thesis by (intro exI [of _ ?u]) simp
qed

theorem chdir_getcwd_witness:
  "\<exists>u'. UsfChangeCurrentDirectory no_shell (Some (ROOT_TYPE_INTERNAL @ drive1)) \<lparr>FilePool = [], FileSystemTable = Some (), CurrentDirectory = None\<rparr>
       = Inr (EFI_SUCCESS, None, u', [])
     \<and> UsfGetCurrentDirectory no_shell u' = Inr (Some (ROOT_TYPE_INTERNAL @ drive1), u', [])"
  using chdir_getcwd [of no_shell drive1 "\<lparr>FilePool = [], FileSystemTable = Some (), CurrentDirectory = None\<rparr>"]
  by (auto simp: no_shell_def norm_seps_def drive1_def path_consts)

text \<open>The first file system that carries a given drive name.\<close>

definition first_named :: "('h, 'dp, 'r) usf_firmware \<Rightarrow> w16 list \<Rightarrow> 'h list \<Rightarrow> 'h \<Rightarrow> bool" where
  "first_named fw n hs h \<longleftrightarrow> (\<exists>as bs. hs = as @ h # bs
     \<and> (\<forall>a\<in>set as. \<exists>dp. DevicePathFromHandle fw a = Some dp \<and> ConsistMappingName fw dp \<noteq> Some n)
     \<and> (\<exists>dp. DevicePathFromHandle fw h = Some dp \<and> ConsistMappingName fw dp = Some n))"

lemma open_root_found:
  assumes "first_named fw n hs h" and "\<not> EFI_ERROR (HandleProtocol fw h)"
    and "OpenVolume fw h = (st', r)" and "\<not> EFI_ERROR st'"
  shows "open_root_loop fw n st hs = Inr (st', Some r, [OpenVol r])"
proof -
  from assms(1) obtain as bs where hs: "hs = as @ h # bs"
    and as: "\<forall>a\<in>set as. \<exists>dp. DevicePathFromHandle fw a = Some dp \<and> ConsistMappingName fw dp \<noteq> Some n"
    and h: "\<exists>dp. DevicePathFromHandle fw h = Some dp \<and> ConsistMappingName fw dp = Some n"
    unfolding first_named_def by blast
  from as have "open_root_loop fw n st (as @ h # bs) = Inr (st', Some r, [OpenVol r])"
  proof (induction as arbitrary: st)
    case Nil
    with h assms(2-4) show ?case by (auto simp: mapping_name_def)
  next
    case (Cons a as)
    then show ?case by (auto simp: mapping_name_def)
  qed
  then show ?thesis by (simp add: hs)
qed

lemma split_root_name: "SEP \<notin> set n \<Longrightarrow> split_root (n @ SEP # f) = (n, Some f)"
  by (simp add: split_root_def StrStr_char_app)

lemma UsfOpen_internal:
  assumes "FsHandles fw = (sth, hs)" and "\<not> EFI_ERROR sth" and "first_named fw n hs h"
    and "\<not> EFI_ERROR (HandleProtocol fw h)" and "OpenVolume fw h = (stv, r)" and "\<not> EFI_ERROR stv"
    and "SEP \<notin> set n" and "SLASH \<notin> set n"
    and "VolOpen fw r (norm_seps f) mode attrs = (st, fh)"
  shows "UsfOpen fw cd (Some (ROOT_TYPE_INTERNAL @ n @ SEP # f)) mode attrs = Inr (st, fh, [OpenVol r, CloseVol r])"
proof -
  have n: "norm_seps n = n" using assms(8) by (induction n) (auto simp: norm_seps_def)
  have sep: "norm_seps (SEP # f) = SEP # norm_seps f" by (simp add: norm_seps_def path_consts)
  let ?np = "ROOT_TYPE_INTERNAL @ n @ SEP # norm_seps f"
  have norm: "UsfFilePathNorm fw cd (ROOT_TYPE_INTERNAL @ n @ SEP # f) False = Inr (EFI_SUCCESS, Some ?np, [])"
    using norm_internal [of fw cd "n @ SEP # f" False] by (simp add: n sep)
  have int: "StrStr ?np ROOT_TYPE_INTERNAL \<noteq> None" by (simp add: path_consts)
  have root: "UsfOpenRoot fw n = Inr (stv, Some r, [OpenVol r])"
    using open_root_found [OF assms(3-6)] assms(1,2) by (simp add: UsfOpenRoot_def)
  have "UsfOpen fw cd (Some (ROOT_TYPE_INTERNAL @ n @ SEP # f)) mode attrs
      = (case VolOpen fw r (norm_seps f) mode attrs of (st', h) \<Rightarrow> Inr (st', h, [] @ [OpenVol r] @ [CloseVol r]))"
    using norm int root split_root_name [OF assms(7), of "norm_seps f"] assms(6)
    by (simp add: UsfOpen_def)
  then show ?thesis by (simp add: assms(9))
qed

text \<open>
  Opening a file by its normal form opens the first volume that carries the drive name,
  asks it for the file name behind the separator with the caller's mode and attributes, hands
  back its answer, and closes the volume again, whether the file could be opened or not.
\<close>

theorem UsfOpen_closes_root:
  assumes "FsHandles fw = (sth, hs)" and "\<not> EFI_ERROR sth" and "first_named fw n hs h"
    and "\<not> EFI_ERROR (HandleProtocol fw h)" and "OpenVolume fw h = (stv, r)" and "\<not> EFI_ERROR stv"
    and "SEP \<notin> set n" and "SLASH \<notin> set n"
    and "VolOpen fw r (norm_seps f) mode attrs = (st, fh)"
  shows "UsfOpen fw cd (Some (ROOT_TYPE_INTERNAL @ n @ SEP # f)) mode attrs = Inr (st, fh, [OpenVol r, CloseVol r])"
  by (rule UsfOpen_internal [OF assms])

theorem UsfOpen_closes_root_witness:
  "UsfOpen no_shell None (Some (ROOT_TYPE_INTERNAL @ [70, 83, 2, DRIVE] @ SEP # [97])) 1 0
     = Inr (EFI_SUCCESS, Some (FsHandle 12), [OpenVol 2, CloseVol 2])"
proof -
  have first: "first_named no_shell [70, 83, 2, DRIVE] [1, 2] 2"
    unfolding first_named_def
    by (rule exI [of _ "[1]"], rule exI [of _ "[]"]) (simp add: no_shell_def path_consts)
  show ?thesis
    by (rule UsfOpen_closes_root [where sth = EFI_SUCCESS and stv = EFI_SUCCESS, OF _ _ first]) (simp_all add: no_shell_def path_consts norm_seps_def)
qed

text \<open>
  Opening a volume by its label leaves every volume tried before the match open: on a
  platform where all volumes open and have labels, the volumes in front of the first match
  are opened and none of them is closed.
\<close>

theorem UsfOpenRootByLabel_leaks:
  assumes "FsHandles fw = (st0, as @ h # bs)" and "\<not> EFI_ERROR st0"
    and "\<forall>a\<in>set (as @ [h]). \<not> EFI_ERROR (HandleProtocol fw a) \<and> fst (OpenVolume fw a) = EFI_SUCCESS
           \<and> fst (VolumeLabel fw (snd (OpenVolume fw a))) = EFI_SUCCESS"
    and "\<forall>a\<in>set as. snd (VolumeLabel fw (snd (OpenVolume fw a))) \<noteq> label"
    and "snd (VolumeLabel fw (snd (OpenVolume fw h))) = label"
  shows "UsfOpenRootByLabel fw label = Inr (EFI_SUCCESS, Some (snd (OpenVolume fw h)),
     map (\<lambda>a. OpenVol (snd (OpenVolume fw a))) (as @ [h]))"
proof -
  have "open_label_loop fw label st (as @ h # bs) = Inr (EFI_SUCCESS, Some (snd (OpenVolume fw h)),
     map (\<lambda>a. OpenVol (snd (OpenVolume fw a))) (as @ [h]))" for st
    using assms(3,4)
  proof (induction as arbitrary: st)
    case Nil
    obtain st1 r where r: "OpenVolume fw h = (st1, r)" by fastforce
    obtain st2 l where l: "VolumeLabel fw r = (st2, l)" by fastforce
    from Nil assms(5) r l show ?case by simp
  next
    case (Cons a as)
    obtain st1 r where r: "OpenVolume fw a = (st1, r)" by fastforce
    obtain st2 l where l: "VolumeLabel fw r = (st2, l)" by fastforce
    from Cons.prems have IH: "open_label_loop fw label EFI_VOLUME_CORRUPTED (as @ h # bs)
        = Inr (EFI_SUCCESS, Some (snd (OpenVolume fw h)), map (\<lambda>a. OpenVol (snd (OpenVolume fw a))) (as @ [h]))"
      by (intro Cons.IH) simp_all
    from Cons.prems r l IH show ?case by simp
  qed
  with assms(1,2) show ?thesis by (simp add: UsfOpenRootByLabel_def)
qed

theorem UsfOpenRootByLabel_leaks_witness:
  "UsfOpenRootByLabel no_shell [67] = Inr (EFI_SUCCESS, Some 2, [OpenVol 1, OpenVol 2])"
  using UsfOpenRootByLabel_leaks [of no_shell EFI_SUCCESS "[1]" 2 "[]" "[67]"]
  by (simp add: no_shell_def)

text \<open>
  Paths that end in an assertion instead of an error: the empty path, and with a shell an
  absolute path on a drive the shell does not know.
\<close>

theorem path_norm_asserts:
  assumes "Shell fw = Some sh" and "c \<noteq> SEP" and "c \<noteq> SLASH" and "DRIVE \<in> set (c # p)"
    and "GetDevicePathFromFilePath sh (Some (norm_seps (c # p))) = None"
  shows "UsfFilePathNorm fw cd [] conv = Inl AssertFailed \<and> UsfFilePathNorm fw cd (c # p) conv = Inl AssertFailed"
proof
  show "UsfFilePathNorm fw cd [] conv = Inl AssertFailed"
    by (simp add: UsfFilePathNorm_def str_dup_def StrDup_def)
  let ?p = "norm_seps (c # p)"
  have hd: "hd ?p = c" "?p \<noteq> []" using assms(3) by (simp_all add: norm_seps_def)
  have pre: "take (length PATH_PREFIX) ?p \<noteq> PATH_PREFIX"
    using hd assms(2) by (cases ?p) (auto simp: PATH_PREFIX_def)
  have "DRIVE \<in> set ?p" using assms(4) by (force simp: norm_seps_def path_consts)
  then obtain q where q: "StrStr ?p [DRIVE] = Some q" by (simp add: StrStr_char)
  have dup: "str_dup (c # p) (length (c # p)) = Some (c # p)" by (rule str_dup_all(1)) simp
  show "UsfFilePathNorm fw cd (c # p) conv = Inl AssertFailed"
    unfolding UsfFilePathNorm_def dup option.case Let_def norm_seps_def [symmetric]
    using pre q assms(1,5) by (simp add: absolute_path_def mapping_name_def)
qed

theorem path_norm_asserts_witness:
  "UsfFilePathNorm (no_shell\<lparr>Shell := Some \<lparr>GetCurDir = None, GetDevicePathFromFilePath = (\<lambda>_. None)\<rparr>\<rparr>) None [] True = Inl AssertFailed
   \<and> UsfFilePathNorm (no_shell\<lparr>Shell := Some \<lparr>GetCurDir = None, GetDevicePathFromFilePath = (\<lambda>_. None)\<rparr>\<rparr>) None [90, DRIVE] True = Inl AssertFailed"
  by (rule path_norm_asserts [where sh = "\<lparr>GetCurDir = None, GetDevicePathFromFilePath = (\<lambda>_. None)\<rparr>"])
     (simp_all add: path_consts)

end
