(* ===== verification/Fd_File_Thms.thy ===== *)
theory Fd_File_Thms
  imports Fd_File Misc_Strings_Thms Usf_Files_Thms Usf_Paths_Thms
begin

text \<open>
  Theorems about the file objects: opening and closing restore the descriptor table, closed
  objects are inert, modes are read from the mode string as documented; and three defects:
  refused directories keep their descriptor, \<open>tell\<close> answers zero, and an object opened from a
  descriptor number shares and closes a handle it does not own.
\<close>

section \<open>Opening\<close>

lemma map_opened_ok:
  assumes "map_opened lib self h w = (st, f, w1)" and "\<not> EFI_ERROR st"
  shows "\<exists>u1. usf_assign h (w_usf w) = (Some (fd f), u1) \<and> w_usf w1 = u1 \<and> sfp f
     \<and> w_closed w1 = w_closed w \<and> fh f = Some h"
  using assms
  by (auto simp: map_opened_def usf_assign_def Let_def UsfMap_def split: if_splits option.splits prod.splits)

lemma sfp_open_mapped:
  assumes "sfp_open fw lib loc self name mode w = Inr (st, f, w1)" and "\<not> EFI_ERROR st"
    and "fh self = None" and "fh f = Some h"
  shows "\<exists>u1. usf_assign h (w_usf w) = (Some (fd f), u1) \<and> w_usf w1 = u1 \<and> sfp f
     \<and> w_closed w1 = w_closed w"
proof -
  from assms obtain h' ev where m: "map_opened lib self h' (w\<lparr>w_vols := w_vols w @ ev\<rparr>) = (st, f, w1)"
    by (auto simp: sfp_open_def Let_def rbind_eq_Inr split: if_splits option.splits)
  from map_opened_ok [OF m assms(2)] assms(4) show ?thesis by auto
qed

lemma fdfile_open_mapped:
  assumes "fdfile_open fw lib loc raw ty (ArgStr name) m w = Inr (Inr f, w1)"
    and "fh raw = None" and "fh f = Some h"
  shows "\<exists>u1. usf_assign h (w_usf w) = (Some (fd f), u1) \<and> w_usf w1 = u1 \<and> sfp f
     \<and> w_closed w1 = w_closed w"
proof -
  obtain mode app trunc ty' where m: "parse_mode ty m = (mode, app, trunc, ty')" by (metis prod_cases4)
  from assms(1,3) obtain st w2 where so: "sfp_open fw lib loc (raw\<lparr>base_type := ty'\<rparr>) name mode w = Inr (st, f, w2)"
      "\<not> EFI_ERROR st" and w1: "w_usf w1 = w_usf w2" "w_closed w1 = w_closed w2"
    by (auto simp: fdfile_open_def m Let_def rbind_eq_Inr split: if_splits option.splits)
  from sfp_open_mapped [OF so] assms(2,3) w1 show ?thesis by simp
qed

text \<open>Every operation on a closed object raises the same error and changes nothing.\<close>

lemma closed_ops:
  assumes "closed_file f" and "\<not> IS_STD_FILE f"
  shows "fdfile_read lib loc raw f n w = (Inl ValueError, w)"
    and "fdfile_write lib loc raw f bs w = (Inl ValueError, w)"
    and "fdfile_ioctl lib loc raw f req w = (Inl ValueError, w)"
    and "fdfile_fileno f = Inl ValueError"
  using assms by (simp_all add: fdfile_read_def fdfile_write_def fdfile_ioctl_def fdfile_fileno_def
      with_open_def std_redirect_def check_fd_is_open_def)

text \<open>
  C39. Opening a file by name and closing it: the object gets a fresh descriptor above the
  standard ones which leads to its handle; closing it closes the handle once and restores the
  descriptor table; afterwards every operation on the object raises \<open>ValueError\<close> and changes
  nothing, and closing it again does nothing.
\<close>

theorem open_close_restores:
  assumes "usf_ok (w_usf w)" and "fh raw = None"
    and "fdfile_open fw lib loc raw ty (ArgStr name) m w = Inr (Inr f, w1)" and "fh f = Some h"
    and "fdfile_close lib f w1 = (f2, w2)"
  shows "3 \<le> fd f \<and> usf_lookup (w_usf w) (fd f) = None
     \<and> usf_lookup (w_usf w1) = (usf_lookup (w_usf w))(fd f := Some h) \<and> fdfile_fileno f = Inr (fd f)
     \<and> usf_lookup (w_usf w2) = usf_lookup (w_usf w) \<and> w_closed w2 = w_closed w @ [h]
     \<and> fdfile_read lib loc raw f2 n w2 = (Inl ValueError, w2)
     \<and> fdfile_write lib loc raw f2 bs w2 = (Inl ValueError, w2)
     \<and> fdfile_ioctl lib loc raw f2 req w2 = (Inl ValueError, w2)
     \<and> fdfile_close lib f2 w2 = (f2, w2)"
proof -
  from fdfile_open_mapped [OF assms(3,2,4)] obtain u1 where u1: "usf_assign h (w_usf w) = (Some (fd f), u1)"
    "w_usf w1 = u1" "sfp f" "w_closed w1 = w_closed w" by blast
  note new = usf.assign_ok [OF assms(1) u1(1)] and restored = usf.assign_release [OF assms(1) u1(1)]
  have f2: "f2 = f\<lparr>fd := -1, fh := None, sfp := False\<rparr>"
    and w2: "w_usf w2 = usf_release (fd f) u1" "w_closed w2 = w_closed w @ [h]"
    using assms(4,5) u1 by (auto simp: fdfile_close_def close_handle_def usf_release_def Let_def)
  have "closed_file f2" "\<not> IS_STD_FILE f2" by (simp_all add: f2 closed_file_def IS_STD_FILE_def)
  note ops = closed_ops [OF this]
  have "fdfile_close lib f2 w2 = (f2, w2)" by (simp add: f2 fdfile_close_def Let_def)
  moreover have "fdfile_fileno f = Inr (fd f)"
    using new assms(4) u1(3) by (simp add: fdfile_fileno_def check_fd_is_open_def closed_file_def)
  ultimately show ?thesis using new restored u1(2) w2 by (simp add: ops)
qed

lemma open_fd_again:
  assumes "usf_ok (w_usf w)" and "fh raw = None"
    and "fdfile_open fw lib loc raw ty (ArgStr name) m w = Inr (Inr f, w1)" and "fh f = Some h"
    and "\<not> EFI_ERROR loc'"
  shows "\<exists>g w2. fdfile_open fw lib loc' raw ty (ArgInt (fd f)) m' w1 = Inr (Inr g, w2)
     \<and> fh g = Some h \<and> sfp g \<and> fd g = fd f \<and> w_usf w2 = w_usf w1 \<and> w_closed w2 = w_closed w1 \<and> 3 \<le> fd f"
proof -
  from fdfile_open_mapped [OF assms(3,2,4)] obtain u1 where u1: "usf_assign h (w_usf w) = (Some (fd f), u1)"
    "w_usf w1 = u1" by blast
  note new = usf.assign_ok [OF assms(1) u1(1)]
  have lk: "usf_lookup u1 (fd f) = Some h" using new by simp
  then have range: "0 \<le> fd f" "fd f < int (length (FilePool u1))"
    by (auto simp: usf_lookup_nth [of u1] split: if_splits)
  have len: "length (FilePool u1) = 64" using new by (simp add: usf_ok_def FILE_POOL_SIZE_def)
  then have i32: "int32 (fd f) = fd f" using range by (simp add: int32_id)
  have get: "UsfGetFileHandle (fd f) u1 = (EFI_SUCCESS, Some h)"
    using lk range by (simp add: usf_lookup_nth UsfGetFileHandle_def)
  show ?thesis using new assms(5)
    by (cases "parse_mode ty m'") (auto simp: fdfile_open_def sfp_open_by_fd_def i32 get u1(2) Let_def)
qed

text \<open>
  An object opened from the descriptor number of another shares its handle: after the
  first is closed the second still counts as open, and closing it too closes the handle a
  second time.
\<close>

theorem open_by_fd_closes_twice:
  assumes "usf_ok (w_usf w)" and "fh raw = None"
    and "fdfile_open fw lib loc raw ty (ArgStr name) m w = Inr (Inr f, w1)" and "fh f = Some h"
    and "fdfile_open fw lib loc' raw ty (ArgInt (fd f)) m' w1 = Inr (Inr g, w2)"
    and "\<not> EFI_ERROR loc'"
    and "fdfile_close lib f w2 = (f2, w3)" and "fdfile_close lib g w3 = (g2, w4)"
  shows "fdfile_fileno g = Inr (fd f) \<and> usf_lookup (w_usf w3) (fd f) = None
     \<and> w_closed w4 = w_closed w @ [h, h]"
proof -
  from fdfile_open_mapped [OF assms(3,2,4)] obtain u1 where u1: "usf_assign h (w_usf w) = (Some (fd f), u1)"
    "w_usf w1 = u1" "sfp f" "w_closed w1 = w_closed w" by blast
  note new = usf.assign_ok [OF assms(1) u1(1)]
  from open_fd_again [OF assms(1-4) assms(6), of "m'"] assms(5) have g: "fh g = Some h" "sfp g" "fd g = fd f" "w_usf w2 = u1"
      "w_closed w2 = w_closed w" "3 \<le> fd f" using u1 by auto
  have w3: "w_closed w3 = w_closed w @ [h]" "w_usf w3 = usf_release (fd f) u1"
    using assms(4,7) u1 g by (auto simp: fdfile_close_def close_handle_def usf_release_def Let_def)
  have "w_closed w4 = w_closed w3 @ [h]"
    using assms(8) g by (auto simp: fdfile_close_def close_handle_def Let_def)
  moreover have "fdfile_fileno g = Inr (fd f)"
    using g by (simp add: fdfile_fileno_def check_fd_is_open_def closed_file_def)
  moreover have "usf_lookup (w_usf w3) (fd f) = None"
    using usf.release_ok [of u1 "fd f"] new w3 by simp
  ultimately show ?thesis using w3 by simp
qed

section \<open>Refused directories\<close>

text \<open>The descriptors that are still free.\<close>

definition free_fds :: "'t USF_PRIVATE_DATA \<Rightarrow> int set" where
  "free_fds u = {i. 3 \<le> i \<and> i < 64 \<and> usf_lookup u i = None}"

lemma finite_free_fds [simp]: "finite (free_fds u)"
  by (rule finite_subset [of _ "{3..63}"]) (auto simp: free_fds_def)

lemma usf_assign_free:
  assumes "usf_ok u" and "free_fds u \<noteq> {}"
  shows "\<exists>i u'. UsfMap (Some h) u = (EFI_SUCCESS, Some i, u') \<and> usf_ok u' \<and> CurrentDirectory u' = CurrentDirectory u
     \<and> i \<in> free_fds u \<and> free_fds u' = free_fds u - {i}"
proof (cases "usf_assign h u")
  case (Pair n u')
  have len: "length (FilePool u) = 64" using assms(1) by (simp add: usf_ok_def FILE_POOL_SIZE_def)
  from assms(2) len obtain x where "3 \<le> x" "x < 64" "FilePool u ! nat x = None"
    by (auto simp: free_fds_def usf_lookup_nth)
  with len have "3 \<le> nat x \<and> nat x < length (FilePool u) \<and> FilePool u ! nat x = None" by auto
  then have "first_free (FilePool u) 3 \<noteq> None" unfolding first_free_None by blast
  then obtain i where i: "first_free (FilePool u) 3 = Some i" by blast
  have m: "UsfMap (Some h) u = (EFI_SUCCESS, Some (int i), u')" and n: "n = Some (int i)"
    and c: "CurrentDirectory u' = CurrentDirectory u"
    using Pair by (auto simp: usf_assign_def UsfMap_def i)
  have new: "usf_ok u' \<and> int i \<notin> {fd. fd < 3} \<and> usf_lookup u (int i) = None \<and> usf_lookup u' = (usf_lookup u)(int i := Some h)"
    using usf.assign_ok [OF assms(1)] Pair n by blast
  have "int i < 64"
    using new usf_lookup_nth [of u' "int i"] by (auto simp: usf_ok_def FILE_POOL_SIZE_def split: if_splits)
  with new m c show ?thesis by (auto simp: free_fds_def intro!: exI)
qed

lemma UsfMap_full:
  assumes "usf_ok u" and "free_fds u = {}"
  shows "UsfMap (Some h) u = (EFI_NOT_FOUND, Some (-1), u)"
proof -
  have len: "length (FilePool u) = 64" using assms(1) by (simp add: usf_ok_def FILE_POOL_SIZE_def)
  have "FilePool u ! k \<noteq> None" if "3 \<le> k" "k < 64" for k
  proof
    assume "FilePool u ! k = None"
    with that len have "int k \<in> free_fds u" by (simp add: free_fds_def usf_lookup_nth)
    with assms(2) show False by simp
  qed
  with len have "first_free (FilePool u) 3 = None" by (simp add: first_free_None)
  then show ?thesis by (simp add: UsfMap_def)
qed

text \<open>
  The file system hands out the handle \<open>h\<close> for the name \<open>ws\<close> opened with the mode string \<open>m\<close>, and
  its information says that \<open>h\<close> is a directory.
\<close>

definition hands_out :: "('h, 'dp, 'r) usf_firmware \<Rightarrow> w16 list option \<Rightarrow> w16 list \<Rightarrow> string \<Rightarrow> EFI_FILE_HANDLE \<Rightarrow> bool" where
  "hands_out fw cd ws m h \<longleftrightarrow> 0 \<notin> set ws \<and>
     (\<exists>st ev. UsfOpen fw cd (Some ws) (unat (fst (parse_mode mp_type_textio m))) 0 = Inr (st, Some h, ev) \<and> \<not> EFI_ERROR st)"

definition is_directory :: "'fs file_handle_lib \<Rightarrow> EFI_FILE_HANDLE \<Rightarrow> bool" where
  "is_directory lib h \<longleftrightarrow> (\<forall>fs. \<exists>attr. fst (FileHandleGetInfo lib h fs) = Some attr \<and> attr AND EFI_FILE_DIRECTORY \<noteq> 0)"

lemma fdfile_open_handed:
  assumes "hands_out fw (CurrentDirectory (w_usf w)) ws m h" and "\<not> EFI_ERROR loc"
  shows "\<exists>ty' ev st f w1. map_opened lib (raw\<lparr>base_type := ty'\<rparr>) h (w\<lparr>w_vols := w_vols w @ ev\<rparr>) = (st, f, w1)
     \<and> (EFI_ERROR st \<longrightarrow> fdfile_open fw lib loc raw mp_type_textio (ArgStr (utf8_of ws)) m w = Inr (Inl (OSError ENOENT), w1))
     \<and> (\<not> EFI_ERROR st \<longrightarrow> (\<exists>fs. fdfile_open fw lib loc raw mp_type_textio (ArgStr (utf8_of ws)) m w = Inr (Inr f, w1\<lparr>w_fs := fs\<rparr>)))"
proof -
  obtain mode app trunc ty' where m: "parse_mode mp_type_textio m = (mode, app, trunc, ty')" by (metis prod_cases4)
  from assms(1) m obtain st ev where uo: "UsfOpen fw (CurrentDirectory (w_usf w)) (Some ws) (unat mode) 0 = Inr (st, Some h, ev)"
      "\<not> EFI_ERROR st" and ws: "0 \<notin> set ws" by (auto simp: hands_out_def)
  obtain st' f w1 where r: "map_opened lib (raw\<lparr>base_type := ty'\<rparr>) h (w\<lparr>w_vols := w_vols w @ ev\<rparr>) = (st', f, w1)"
    by (metis prod_cases3)
  have tw: "takeWhile (\<lambda>c. c \<noteq> 0) (ws @ [0]) = ws" using ws by (induction ws) auto
  have "sfp_open fw lib loc (raw\<lparr>base_type := ty'\<rparr>) (utf8_of ws) mode w = Inr (st', f, w1)"
    using uo assms(2) r by (simp add: sfp_open_def name_decoded tw)
  then have "EFI_ERROR st' \<longrightarrow> fdfile_open fw lib loc raw mp_type_textio (ArgStr (utf8_of ws)) m w = Inr (Inl (OSError ENOENT), w1)"
    and "\<not> EFI_ERROR st' \<longrightarrow> (\<exists>fs. fdfile_open fw lib loc raw mp_type_textio (ArgStr (utf8_of ws)) m w = Inr (Inr f, w1\<lparr>w_fs := fs\<rparr>))"
    using map_opened_ok [OF r] by (auto simp: fdfile_open_def m)
  with r show ?thesis by blast
qed

lemma open_directory_step:
  assumes "hands_out fw (CurrentDirectory (w_usf w)) ws m h" and "\<not> EFI_ERROR loc" and "is_directory lib h"
    and "usf_ok (w_usf w)" and "free_fds (w_usf w) \<noteq> {}"
  shows "\<exists>w1. fdfile_open fw lib loc raw mp_type_textio (ArgStr (utf8_of ws)) m w = Inr (Inl (OSError ENOENT), w1)
     \<and> usf_ok (w_usf w1) \<and> CurrentDirectory (w_usf w1) = CurrentDirectory (w_usf w)
     \<and> card (free_fds (w_usf w1)) = card (free_fds (w_usf w)) - 1 \<and> w_closed w1 = w_closed w @ [h]"
proof -
  from fdfile_open_handed [OF assms(1,2)] obtain ty' ev st f w1
    where r: "map_opened lib (raw\<lparr>base_type := ty'\<rparr>) h (w\<lparr>w_vols := w_vols w @ ev\<rparr>) = (st, f, w1)"
      and e: "EFI_ERROR st \<longrightarrow> fdfile_open fw lib loc raw mp_type_textio (ArgStr (utf8_of ws)) m w = Inr (Inl (OSError ENOENT), w1)"
    by blast
  from usf_assign_free [OF assms(4,5), of h] obtain i u' where u': "UsfMap (Some h) (w_usf w) = (EFI_SUCCESS, Some i, u')"
      "usf_ok u'" "CurrentDirectory u' = CurrentDirectory (w_usf w)" "i \<in> free_fds (w_usf w)"
      "free_fds u' = free_fds (w_usf w) - {i}" by blast
  obtain attr fs where info: "FileHandleGetInfo lib h (w_fs w) = (Some attr, fs)" "attr AND EFI_FILE_DIRECTORY \<noteq> 0"
    using assms(3) unfolding is_directory_def by (metis prod.collapse)
  have "st = EFI_ACCESS_DENIED \<and> w_usf w1 = u' \<and> w_closed w1 = w_closed w @ [h]"
    using r u'(1) info by (auto simp: map_opened_def close_handle_def Let_def)
  with e u' show ?thesis by (auto simp: card_Diff_singleton)
qed

text \<open>The world after trying to open the same name once more, and again.\<close>

definition reopen ::
  "('h, 'dp, 'r) usf_firmware \<Rightarrow> 'fs file_handle_lib \<Rightarrow> efi_status \<Rightarrow> mp_obj_fdfile_t \<Rightarrow> w16 list \<Rightarrow> string
    \<Rightarrow> ('t, 'fs, 'r) io_world \<Rightarrow> ('t, 'fs, 'r) io_world" where
  "reopen fw lib loc raw ws m w =
     (case fdfile_open fw lib loc raw mp_type_textio (ArgStr (utf8_of ws)) m w of Inl _ \<Rightarrow> w | Inr (_, w1) \<Rightarrow> w1)"

lemma reopen_directory:
  assumes "hands_out fw (CurrentDirectory (w_usf w)) ws m h" and "\<not> EFI_ERROR loc" and "is_directory lib h"
    and "usf_ok (w_usf w)" and "n \<le> card (free_fds (w_usf w))"
  shows "usf_ok (w_usf ((reopen fw lib loc raw ws m ^^ n) w))
     \<and> CurrentDirectory (w_usf ((reopen fw lib loc raw ws m ^^ n) w)) = CurrentDirectory (w_usf w)
     \<and> card (free_fds (w_usf ((reopen fw lib loc raw ws m ^^ n) w))) = card (free_fds (w_usf w)) - n
     \<and> w_closed ((reopen fw lib loc raw ws m ^^ n) w) = w_closed w @ replicate n h"
  using assms(5)
proof (induction n)
  case 0
  show ?case using assms(4) by simp
next
  case (Suc n)
  define v where "v = (reopen fw lib loc raw ws m ^^ n) w"
  have IH: "usf_ok (w_usf v)" "CurrentDirectory (w_usf v) = CurrentDirectory (w_usf w)"
    "card (free_fds (w_usf v)) = card (free_fds (w_usf w)) - n" "w_closed v = w_closed w @ replicate n h"
    using Suc by (simp_all add: v_def)
  have ne: "free_fds (w_usf v) \<noteq> {}" using IH(3) Suc.prems by auto
  have ho: "hands_out fw (CurrentDirectory (w_usf v)) ws m h" using assms(1) IH(2) by simp
  from open_directory_step [OF ho assms(2,3) IH(1) ne, of raw] obtain w1
    where w1: "fdfile_open fw lib loc raw mp_type_textio (ArgStr (utf8_of ws)) m v = Inr (Inl (OSError ENOENT), w1)"
      and new: "usf_ok (w_usf w1)" "CurrentDirectory (w_usf w1) = CurrentDirectory (w_usf v)"
        "card (free_fds (w_usf w1)) = card (free_fds (w_usf v)) - 1" "w_closed w1 = w_closed v @ [h]" by blast
  have "(reopen fw lib loc raw ws m ^^ Suc n) w = reopen fw lib loc raw ws m v" by (simp add: v_def)
  also have "\<dots> = w1" by (simp add: reopen_def w1)
  finally have step: "(reopen fw lib loc raw ws m ^^ Suc n) w = w1" .
  from new IH show ?case unfolding step by (simp add: replicate_append_same)
qed

text \<open>
  Refusing a directory loses a descriptor: trying to open a directory raises \<open>OSError\<close> and
  closes its handle, but the descriptor stays taken; after as many tries as there were free
  descriptors, no file can be opened any more, though no handle is open.
\<close>

theorem open_directory_leaks_fd:
  assumes "hands_out fw (CurrentDirectory (w_usf w)) ws m h" and "\<not> EFI_ERROR loc" and "is_directory lib h"
    and "usf_ok (w_usf w)" and "hands_out fw (CurrentDirectory (w_usf w)) ws' m' h'"
    and "w1 = (reopen fw lib loc raw ws m ^^ card (free_fds (w_usf w))) w"
  shows "w_closed w1 = w_closed w @ replicate (card (free_fds (w_usf w))) h \<and> free_fds (w_usf w1) = {}
     \<and> (\<exists>w2. fdfile_open fw lib loc raw mp_type_textio (ArgStr (utf8_of ws')) m' w1 = Inr (Inl (OSError ENOENT), w2)
          \<and> w_usf w2 = w_usf w1)"
proof -
  note r = reopen_directory [OF assms(1-4) order_refl, of raw, folded assms(6)]
  then have free: "free_fds (w_usf w1) = {}" by simp
  have ho: "hands_out fw (CurrentDirectory (w_usf w1)) ws' m' h'" using assms(5) r by simp
  from fdfile_open_handed [OF ho assms(2)] obtain ty' ev st f w2
    where m: "map_opened lib (raw\<lparr>base_type := ty'\<rparr>) h' (w1\<lparr>w_vols := w_vols w1 @ ev\<rparr>) = (st, f, w2)"
      and e: "EFI_ERROR st \<longrightarrow> fdfile_open fw lib loc raw mp_type_textio (ArgStr (utf8_of ws')) m' w1 = Inr (Inl (OSError ENOENT), w2)"
    by blast
  have "UsfMap (Some h') (w_usf w1) = (EFI_NOT_FOUND, Some (-1), w_usf w1)"
    by (rule UsfMap_full) (use r free in simp_all)
  then have "st = EFI_NOT_FOUND \<and> w_usf w2 = w_usf w1"
    using m by (auto simp: map_opened_def close_handle_def Let_def)
  with e free r show ?thesis by auto
qed

section \<open>A small platform\<close>

text \<open>
  Two volumes, the first with a directory, the second with a file; a file system is a pair of
  position and size.
\<close>

definition small_lib :: "(w64 \<times> w64) file_handle_lib" where
  "small_lib = \<lparr>FileHandleGetInfo = (\<lambda>h fs. (Some (if h = FsHandle 11 then EFI_FILE_DIRECTORY else 0), fs)),
     FileHandleClose = (\<lambda>h fs. fs), FileHandleRead = (\<lambda>h n fs. (EFI_SUCCESS, [], fs)),
     FileHandleWrite = (\<lambda>h bs fs. (EFI_SUCCESS, length bs, fs)),
     FileHandleGetPosition = (\<lambda>h fs. (EFI_SUCCESS, fst fs)), FileHandleGetSize = (\<lambda>h fs. (EFI_SUCCESS, snd fs)),
     FileHandleSetPosition = (\<lambda>h p fs. (EFI_SUCCESS, (p, snd fs))),
     FileHandleSetSize = (\<lambda>h n fs. (EFI_SUCCESS, (fst fs, n))), FileHandleFlush = (\<lambda>h fs. (EFI_SUCCESS, fs))\<rparr>"

definition small_world :: "(unit, w64 \<times> w64, nat) io_world" where
  "small_world = \<lparr>w_usf = empty_usf, w_fs = (7, 100), w_vols = [], w_closed = []\<rparr>"

definition no_file :: mp_obj_fdfile_t where
  "no_file = \<lparr>base_type = mp_type_textio, fd = 0, fh = None, sfp = False\<rparr>"

definition small_name :: "w16 \<Rightarrow> w16 list" where
  "small_name v = ROOT_TYPE_INTERNAL @ [70, 83, v, DRIVE] @ SEP # [97]"

lemma small_hands_out:
  "hands_out no_shell cd (small_name 1) m (FsHandle 11)" "hands_out no_shell cd (small_name 2) m (FsHandle 12)"
proof -
  let ?n = "\<lambda>v. [70, 83, v, DRIVE] :: w16 list"
  have first: "first_named no_shell (?n 1) [1, 2] 1" "first_named no_shell (?n 2) [1, 2] 2"
    unfolding first_named_def
    by (rule exI [of _ "[]"], rule exI [of _ "[2]"], simp add: no_shell_def path_consts)
      (rule exI [of _ "[1]"], rule exI [of _ "[]"], simp add: no_shell_def path_consts)
  have "UsfOpen no_shell cd (Some (small_name 1)) mode 0 = Inr (EFI_SUCCESS, Some (FsHandle 11), [OpenVol 1, CloseVol 1])" for mode
    unfolding small_name_def
    by (rule UsfOpen_internal [where sth = EFI_SUCCESS and stv = EFI_SUCCESS, OF _ _ first(1)])
      (simp_all add: no_shell_def path_consts)
  moreover have "UsfOpen no_shell cd (Some (small_name 2)) mode 0 = Inr (EFI_SUCCESS, Some (FsHandle 12), [OpenVol 2, CloseVol 2])" for mode
    unfolding small_name_def
    by (rule UsfOpen_internal [where sth = EFI_SUCCESS and stv = EFI_SUCCESS, OF _ _ first(2)])
      (simp_all add: no_shell_def path_consts)
  ultimately show "hands_out no_shell cd (small_name 1) m (FsHandle 11)" "hands_out no_shell cd (small_name 2) m (FsHandle 12)"
    by (auto simp: hands_out_def small_name_def path_consts)
qed

lemma small_free: "usf_ok (w_usf small_world)" "free_fds (w_usf small_world) = {3..63}"
  using empty_usf_ok by (auto simp: small_world_def free_fds_def usf_lookup_nth empty_usf_def FILE_POOL_SIZE_def nth_list_update)

lemma small_directory: "is_directory small_lib (FsHandle 11)"
  by (simp add: is_directory_def small_lib_def EFI_FILE_DIRECTORY_def)

lemma small_open:
  "\<exists>f w1. fdfile_open no_shell small_lib EFI_SUCCESS no_file mp_type_textio (ArgStr (utf8_of (small_name 2))) m small_world
      = Inr (Inr f, w1) \<and> fh f = Some (FsHandle 12)"
proof -
  have loc: "\<not> EFI_ERROR EFI_SUCCESS" by simp
  from fdfile_open_handed [OF small_hands_out(2) loc, of small_lib no_file small_world m]
  obtain ty' ev st f w1
    where r: "map_opened small_lib (no_file\<lparr>base_type := ty'\<rparr>) (FsHandle 12) (small_world\<lparr>w_vols := w_vols small_world @ ev\<rparr>) = (st, f, w1)"
      and e: "\<not> EFI_ERROR st \<longrightarrow> (\<exists>fs. fdfile_open no_shell small_lib EFI_SUCCESS no_file mp_type_textio
                (ArgStr (utf8_of (small_name 2))) m small_world = Inr (Inr f, w1\<lparr>w_fs := fs\<rparr>))"
    by blast
  obtain j u' where "UsfMap (Some (FsHandle 12)) (w_usf small_world) = (EFI_SUCCESS, Some j, u')"
    using usf_assign_free [OF small_free(1), of "FsHandle 12"] by (auto simp: small_free(2))
  with r have "st = EFI_SUCCESS" by (auto simp: map_opened_def Let_def small_lib_def)
  with e map_opened_ok [OF r] show ?thesis by auto
qed

theorem open_close_restores_witness:
  "\<exists>f w1. fdfile_open no_shell small_lib EFI_SUCCESS no_file mp_type_textio (ArgStr (utf8_of (small_name 2))) ''r'' small_world
      = Inr (Inr f, w1) \<and> usf_lookup (w_usf w1) \<noteq> usf_lookup (w_usf small_world)
     \<and> usf_lookup (w_usf (snd (fdfile_close small_lib f w1))) = usf_lookup (w_usf small_world)
     \<and> w_closed (snd (fdfile_close small_lib f w1)) = [FsHandle 12]"
proof -
  from small_open [of "''r''"] obtain f w1 where op: "fdfile_open no_shell small_lib EFI_SUCCESS no_file mp_type_textio
      (ArgStr (utf8_of (small_name 2))) ''r'' small_world = Inr (Inr f, w1)" "fh f = Some (FsHandle 12)" by blast
  have raw: "fh no_file = None" by (simp add: no_file_def)
  have c: "fdfile_close small_lib f w1 = (fst (fdfile_close small_lib f w1), snd (fdfile_close small_lib f w1))" by simp
  from open_close_restores [OF small_free(1) raw op c] have
    "usf_lookup (w_usf small_world) (fd f) = None"
    "usf_lookup (w_usf w1) = (usf_lookup (w_usf small_world))(fd f := Some (FsHandle 12))"
    "usf_lookup (w_usf (snd (fdfile_close small_lib f w1))) = usf_lookup (w_usf small_world)"
    "w_closed (snd (fdfile_close small_lib f w1)) = [FsHandle 12]" by (simp_all add: small_world_def)
  moreover from this(1,2) have "usf_lookup (w_usf w1) \<noteq> usf_lookup (w_usf small_world)"
    by (metis fun_upd_same option.distinct(1))
  ultimately show ?thesis using op(1) by blast
qed

theorem open_by_fd_closes_twice_witness:
  "\<exists>f g w1 w2. fdfile_open no_shell small_lib EFI_SUCCESS no_file mp_type_textio (ArgStr (utf8_of (small_name 2))) ''r'' small_world
      = Inr (Inr f, w1)
     \<and> fdfile_open no_shell small_lib EFI_SUCCESS no_file mp_type_textio (ArgInt (fd f)) ''r'' w1 = Inr (Inr g, w2)
     \<and> w_closed (snd (fdfile_close small_lib g (snd (fdfile_close small_lib f w2)))) = [FsHandle 12, FsHandle 12]"
proof -
  from small_open [of "''r''"] obtain f w1 where op: "fdfile_open no_shell small_lib EFI_SUCCESS no_file mp_type_textio
      (ArgStr (utf8_of (small_name 2))) ''r'' small_world = Inr (Inr f, w1)" "fh f = Some (FsHandle 12)" by blast
  have raw: "fh no_file = None" by (simp add: no_file_def)
  from open_fd_again [OF small_free(1) raw op, where loc' = EFI_SUCCESS and m' = "''r''"] obtain g w2
    where g: "fdfile_open no_shell small_lib EFI_SUCCESS no_file mp_type_textio (ArgInt (fd f)) ''r'' w1 = Inr (Inr g, w2)"
    by auto
  obtain f2 w3 where f2: "fdfile_close small_lib f w2 = (f2, w3)" by (metis surj_pair)
  obtain g2 w4 where g2: "fdfile_close small_lib g w3 = (g2, w4)" by (metis surj_pair)
  from open_by_fd_closes_twice [OF small_free(1) raw op g _ f2 g2] have "w_closed w4 = [FsHandle 12, FsHandle 12]"
    by (simp add: small_world_def)
  with op(1) g f2 g2 show ?thesis by auto
qed

theorem open_directory_leaks_fd_witness:
  "\<exists>w1. w1 = (reopen no_shell small_lib EFI_SUCCESS no_file (small_name 1) ''r'' ^^ 61) small_world
     \<and> w_closed w1 = replicate 61 (FsHandle 11)
     \<and> (\<exists>w2. fdfile_open no_shell small_lib EFI_SUCCESS no_file mp_type_textio (ArgStr (utf8_of (small_name 2))) ''r'' w1
          = Inr (Inl (OSError ENOENT), w2))"
proof -
  have c: "card (free_fds (w_usf small_world)) = 61" by (simp add: small_free(2))
  from open_directory_leaks_fd [OF small_hands_out(1) _ small_directory small_free(1) small_hands_out(2) refl,
      of EFI_SUCCESS no_file "''r''" "''r''"]
  show ?thesis unfolding c by (auto simp: small_world_def)
qed

section \<open>Positions\<close>

text \<open>
  A library whose handle \<open>h\<close> has a position and a size, as the file protocol documents: both can
  be read, and setting the position succeeds and changes nothing else that is read here.
\<close>

definition seekable :: "'fs file_handle_lib \<Rightarrow> EFI_FILE_HANDLE \<Rightarrow> ('fs \<Rightarrow> w64) \<Rightarrow> ('fs \<Rightarrow> w64) \<Rightarrow> bool" where
  "seekable lib h pos sz \<longleftrightarrow> (\<forall>fs. FileHandleGetPosition lib h fs = (EFI_SUCCESS, pos fs)
     \<and> FileHandleGetSize lib h fs = (EFI_SUCCESS, sz fs)
     \<and> (\<forall>p. \<exists>fs'. FileHandleSetPosition lib h p fs = (EFI_SUCCESS, fs') \<and> pos fs' = p \<and> sz fs' = sz fs))"

text \<open>
  Seeking in an open file moves the position to the offset from the start, the current
  position or the end, modulo \<open>2\<^sup>6\<^sup>4\<close>, and refuses a negative absolute offset and an unknown origin
  without moving; but what \<open>seek\<close> and then \<open>tell\<close> return is zero, wherever the file is.
\<close>

theorem seek_moves_tell_zero:
  fixes w :: "('t, 'fs, 'r) io_world"
  assumes "seekable lib h pos sz" and "fh f = Some h" and "sfp f" and "3 \<le> fd f"
    and "stream_seek lib loc raw f off whence w = (r, w1)"
    and "stream_tell lib loc raw f w1 = (t, w2)"
  shows "(if whence = 0 \<and> sint off < 0 then r = Inl (OSError EINVAL) \<and> w1 = w
          else if whence \<notin> {0, 1, 2} then r = Inl (OSErrorStatus EFI_INVALID_PARAMETER) \<and> w1 = w
          else r = Inr 0 \<and> pos (w_fs w1) = (if whence = 0 then 0 else if whence = 1 then pos (w_fs w) else sz (w_fs w)) + off)
     \<and> t = Inr 0 \<and> pos (w_fs w2) = pos (w_fs w1) \<and> w_usf w2 = w_usf w"
proof -
  have op: "with_open (std_redirect loc (w_usf v) raw f) v k = k h" for v :: "('t, 'fs, 'r) io_world" and k
    using assms(2-4) by (simp add: with_open_def std_redirect_def check_fd_is_open_def closed_file_def IS_STD_FILE_def)
  from assms(1) have g: "FileHandleGetPosition lib h fs = (EFI_SUCCESS, pos fs)"
    "FileHandleGetSize lib h fs = (EFI_SUCCESS, sz fs)" for fs by (auto simp: seekable_def)
  have s: "fst (FileHandleSetPosition lib h p fs) = EFI_SUCCESS"
    "pos (snd (FileHandleSetPosition lib h p fs)) = p" for p fs
    using assms(1) by (auto simp: seekable_def dest!: spec [of _ fs] spec [of _ p])
  have io: "fdfile_ioctl lib loc raw f (MP_STREAM_SEEK o' wh) v = (case seek_target lib h o' wh (w_fs v) of (st, p) \<Rightarrow>
      if EFI_ERROR st then (Inr (Inl (ErrStatus st)), v)
      else (Inr (Inr 0), v\<lparr>w_fs := snd (FileHandleSetPosition lib h p (w_fs v))\<rparr>))" for o' wh and v :: "('t, 'fs, 'r) io_world"
    using s(1) by (simp add: fdfile_ioctl_def op split: prod.splits) (metis fst_conv EFI_ERROR.simps(1))
  from assms(6) have t: "t = Inr 0" "w2 = w1\<lparr>w_fs := snd (FileHandleSetPosition lib h (pos (w_fs w1)) (w_fs w1))\<rparr>"
    by (auto simp: stream_tell_def stream_seek_def io seek_target_def g)
  have seek: "(r, w1) = (if whence = 0 \<and> sint off < 0 then (Inl (OSError EINVAL), w)
      else if whence \<notin> {0, 1, 2} then (Inl (OSErrorStatus EFI_INVALID_PARAMETER), w)
      else (Inr 0, w\<lparr>w_fs := snd (FileHandleSetPosition lib h
              ((if whence = 0 then 0 else if whence = 1 then pos (w_fs w) else sz (w_fs w)) + off) (w_fs w))\<rparr>))"
    unfolding assms(5) [symmetric] by (simp add: stream_seek_def io seek_target_def g)
  consider "whence = 0 \<and> sint off < 0" | "\<not> (whence = 0 \<and> sint off < 0)" "whence \<notin> {0, 1, 2}"
    | "whence = 0" "\<not> sint off < 0" | "whence = 1" | "whence = 2" by blast
  then show ?thesis using seek t s(2) by cases simp_all
qed

definition small_file :: mp_obj_fdfile_t where
  "small_file = \<lparr>base_type = mp_type_textio, fd = 3, fh = Some (FsHandle 12), sfp = True\<rparr>"

theorem seek_moves_tell_zero_witness:
  "fst (w_fs (snd (stream_seek small_lib EFI_SUCCESS no_file small_file (-10) 2 small_world))) = 90
     \<and> fst (stream_tell small_lib EFI_SUCCESS no_file small_file
          (snd (stream_seek small_lib EFI_SUCCESS no_file small_file (-10) 2 small_world))) = Inr 0"
proof -
  have sk: "seekable small_lib (FsHandle 12) fst snd" by (simp add: seekable_def small_lib_def)
  have f: "fh small_file = Some (FsHandle 12)" "sfp small_file" "3 \<le> fd small_file" by (simp_all add: small_file_def)
  show ?thesis
    using seek_moves_tell_zero [OF sk f surjective_pairing surjective_pairing,
        where loc = EFI_SUCCESS and raw = no_file and off = "-10" and whence = 2 and w = small_world]
    by (simp add: small_world_def)
qed

section \<open>Mode strings\<close>

text \<open>The access bits and the class a mode string asks for.\<close>

definition mode_access :: "string \<Rightarrow> w64" where
  "mode_access s = (if set s \<inter> set ''rwa+'' \<noteq> {} then EFI_FILE_MODE_READ else 0)
     OR (if set s \<inter> set ''wa+'' \<noteq> {} then EFI_FILE_MODE_WRITE else 0)
     OR (if set s \<inter> set ''wa'' \<noteq> {} then EFI_FILE_MODE_CREATE else 0)"

definition mode_class :: "io_type \<Rightarrow> string \<Rightarrow> io_type" where
  "mode_class ty s = (case rev (filter (\<lambda>c. c \<in> set ''bt'') s) of
      [] \<Rightarrow> ty | c # _ \<Rightarrow> if c = CHR ''b'' then mp_type_fileio else mp_type_textio)"

lemma mode_access_snoc:
  "mode_access (s @ [c]) = mode_access s OR mode_access [c]"
  by (auto simp: mode_access_def file_consts)

text \<open>
  The mode string of \<open>open\<close>: whatever the order and the repetitions, the file is read when
  one of \<open>r\<close>, \<open>w\<close>, \<open>a\<close>, \<open>+\<close> occurs, written when one of \<open>w\<close>, \<open>a\<close>, \<open>+\<close> does, created and
  appended to or truncated as \<open>a\<close> and \<open>w\<close> say; the last of \<open>b\<close> and \<open>t\<close> decides the class, and
  all other characters are ignored.
\<close>

theorem mode_string_meaning:
  "parse_mode ty s = (mode_access s, CHR ''a'' \<in> set s, CHR ''w'' \<in> set s, mode_class ty s)"
proof (induction s rule: rev_induct)
  case Nil
  show ?case by (simp add: parse_mode_def mode_access_def mode_class_def)
next
  case (snoc c s)
  have "parse_mode ty (s @ [c]) = mode_step c (parse_mode ty s)" by (simp add: parse_mode_def)
  also have "\<dots> = mode_step c (mode_access s, CHR ''a'' \<in> set s, CHR ''w'' \<in> set s, mode_class ty s)"
    by (simp only: snoc)
  finally show ?case
    by (auto simp: mode_access_snoc mode_class_def mode_access_def [of "[c]"] or.assoc)
qed

end
