(* ===== verification/Efi_Direct.thy ===== *)
theory Efi_Direct
  imports Misc_Strings "HOL-Library.Signed_Division"
begin

text \<open>
  \<open>Drivers/efidirect\<close>: the input and display drivers through which LVGL reaches the firmware
  (\<open>EfiInput.c\<close>, \<open>EfiMonitor.c\<close> and the module functions of \<open>modEfiDirect.c\<close>). The pointer
  device, the key reader and the graphics handles are arguments; what the display driver asks
  of them is recorded as a list of events. Coordinates are \<open>lv_coord_t\<close>, 16-bit signed.
\<close>

section \<open>Arithmetic\<close>

definition int16 :: "int \<Rightarrow> int" where
  "int16 x = (x + 2 ^ 15) mod 2 ^ 16 - 2 ^ 15"

text \<open>
  Division of two \<open>INT32\<close> values: towards zero, with the processor's divide error for a zero
  divisor and for the one quotient that does not fit.
\<close>

definition div32 :: "int \<Rightarrow> int \<Rightarrow> int result" where
  "div32 a b = (if b = 0 \<or> (a = - (2 ^ 31) \<and> b = -1) then Inl DivideError else Inr (a sdiv b))"

section \<open>Input\<close>

record EFI_SIMPLE_POINTER_STATE =
  RelativeMovementX :: int
  RelativeMovementY :: int
  LeftButton :: bool

record EFI_SIMPLE_POINTER_MODE =
  ResolutionX :: int
  ResolutionY :: int

datatype lv_indev_state = LV_INDEV_STATE_REL | LV_INDEV_STATE_PR

record lv_indev_data_t =
  point_x :: int
  point_y :: int
  key :: "32 word"
  state :: lv_indev_state

text \<open>One axis: \<open>x\<close> is the static variable, \<open>mv\<close> the movement, \<open>res\<close> the resolution.\<close>

definition mouse_axis :: "int \<Rightarrow> int \<Rightarrow> int \<Rightarrow> int result" where
  "mouse_axis res mv x = rbind (div32 mv (int32 res)) (\<lambda>q. Inr (max (int16 (x + int16 q)) 0))"

text \<open>
  \<open>mouse_read\<close>: \<open>pointer\<close> is \<open>gSimplePointer\<close> with its mode, \<open>st\<close> what \<open>GetState\<close> answers. The
  static variables \<open>X\<close>, \<open>Y\<close> are a pair; the function always returns false.
\<close>

definition mouse_read ::
  "EFI_SIMPLE_POINTER_MODE option \<Rightarrow> efi_status \<times> EFI_SIMPLE_POINTER_STATE \<Rightarrow> int \<times> int \<Rightarrow> lv_indev_data_t
    \<Rightarrow> (bool \<times> (int \<times> int) \<times> lv_indev_data_t) result" where
  "mouse_read pointer st xy data =
     (case pointer of
        None \<Rightarrow> Inr (False, xy, data)
      | Some m \<Rightarrow>
          if EFI_ERROR (fst st) then Inr (False, xy, data)
          else
            rbind (mouse_axis (ResolutionX m) (RelativeMovementX (snd st)) (fst xy)) (\<lambda>x.
            rbind (mouse_axis (ResolutionY m) (RelativeMovementY (snd st)) (snd xy)) (\<lambda>y.
            Inr (False, (x, y), data\<lparr>point_x := x, point_y := y,
                   state := (if LeftButton (snd st) then LV_INDEV_STATE_PR else LV_INDEV_STATE_REL)\<rparr>))))"

definition ConvertEfiKeyToLvgl :: "w16 \<Rightarrow> w16 \<Rightarrow> 32 word" where
  "ConvertEfiKeyToLvgl scan uni =
     (if uni = 13 then 10
      else if uni = 8 then 8
      else if uni = 9 then 9
      else if scan = 1 then 17
      else if scan = 2 then 18
      else if scan = 3 then 19
      else if scan = 4 then 20
      else if scan = 8 then 127
      else if scan = 5 then 2
      else if scan = 6 then 3
      else ucast uni)"

text \<open>\<open>keyboard_read\<close>: \<open>stroke\<close> is the answer of \<open>ReadKeyStroke\<close>, scan code and character.\<close>

definition keyboard_read :: "efi_status \<times> w16 \<times> w16 \<Rightarrow> lv_indev_data_t \<Rightarrow> bool \<times> lv_indev_data_t" where
  "keyboard_read stroke data =
     (case stroke of (st, scan, uni) \<Rightarrow>
        if EFI_ERROR st then (False, data\<lparr>state := LV_INDEV_STATE_REL\<rparr>)
        else (False, data\<lparr>key := ConvertEfiKeyToLvgl scan uni, state := LV_INDEV_STATE_PR\<rparr>))"

definition input_init :: "efi_status \<times> EFI_SIMPLE_POINTER_MODE \<Rightarrow> EFI_SIMPLE_POINTER_MODE option" where
  "input_init located = (if EFI_ERROR (fst located) then None else Some (snd located))"

section \<open>Display\<close>

record 'g MONITOR_PRIVATE =
  Gop :: 'g
  Width :: nat
  Height :: nat

record ('h, 'g) gop_firmware =
  GopHandles :: "efi_status \<times> 'h list"
  HandleGop :: "'h \<Rightarrow> efi_status \<times> 'g"
  LocateGop :: "efi_status \<times> 'g"
  HorizontalResolution :: "'g \<Rightarrow> nat"
  VerticalResolution :: "'g \<Rightarrow> nat"

text \<open>
  \<open>Blt g n x y w h\<close>: a transfer of a buffer of \<open>n\<close> pixels to the rectangle at \<open>x\<close>, \<open>y\<close> of width
  \<open>w\<close> and height \<open>h\<close> (all \<open>UINTN\<close>). \<open>GetHandles\<close> and \<open>FreeHandles\<close> are the handle buffer,
  \<open>FlushReady\<close> is \<open>lv_disp_flush_ready\<close>.
\<close>

datatype 'g lv_event = Blt 'g nat int int int int | GetHandles | FreeHandles | FlushReady

record lv_area_t =
  x1 :: int
  y1 :: int
  x2 :: int
  y2 :: int

definition blt_all ::
  "('h, 'g) gop_firmware \<Rightarrow> lv_area_t \<Rightarrow> nat \<Rightarrow> int \<Rightarrow> int \<Rightarrow> 'h list \<Rightarrow> 'g lv_event list" where
  "blt_all fw area n w h hs = concat (map (\<lambda>hdl. case HandleGop fw hdl of (st, g) \<Rightarrow>
      if EFI_ERROR st then [] else [Blt g n (uintn (x1 area)) (uintn (y1 area)) (uintn w) (uintn h)]) hs)"

text \<open>\<open>monitor_flush\<close>: \<open>n\<close> is the number of pixels in \<open>color_p\<close>.\<close>

definition monitor_flush ::
  "('h, 'g) gop_firmware \<Rightarrow> 'g MONITOR_PRIVATE option \<Rightarrow> lv_area_t \<Rightarrow> nat \<Rightarrow> 'g lv_event list result" where
  "monitor_flush fw tPrivate area n =
     (let w = int16 (x2 area - x1 area + 1); h = int16 (y2 area - y1 area + 1) in
      (case tPrivate of
         None \<Rightarrow> Inl NullDeref
       | Some _ \<Rightarrow>
           (case GopHandles fw of (st, hs) \<Rightarrow>
              if EFI_ERROR st then Inr []
              else if hs = [] then Inr [GetHandles]
              else Inr (GetHandles # blt_all fw area n w h hs @ [FreeHandles, FlushReady]))))"

definition monitor_init ::
  "('h, 'g) gop_firmware \<Rightarrow> bool \<Rightarrow> int \<Rightarrow> int \<Rightarrow> 'g MONITOR_PRIVATE option
    \<Rightarrow> ('g MONITOR_PRIVATE option \<times> 'g lv_event list) result" where
  "monitor_init fw grant w h tPrivate =
     (case tPrivate of
        Some p \<Rightarrow> Inr (Some p, [])
      | None \<Rightarrow>
          rbind (rassert grant AssertFailed) (\<lambda>_.
          (case LocateGop fw of (st, g) \<Rightarrow>
             rbind (rassert (\<not> EFI_ERROR st) AssertFailed) (\<lambda>_.
             let p = \<lparr>Gop = g, Width = min 0 (HorizontalResolution fw g), Height = min 0 (VerticalResolution fw g)\<rparr> in
             (case GopHandles fw of (st2, hs) \<Rightarrow>
                if EFI_ERROR st2 then Inr (Some p, [])
                else if hs = [] then Inr (Some p, [GetHandles])
                else Inr (Some p, [GetHandles, Blt g 1 0 0 100 100]))))))"

definition monitor_deinit :: "'g MONITOR_PRIVATE option \<Rightarrow> 'g MONITOR_PRIVATE option result" where
  "monitor_deinit tPrivate = (case tPrivate of None \<Rightarrow> Inl AssertFailed | Some _ \<Rightarrow> Inr None)"

section \<open>The module\<close>

definition mp_init_efidirect ::
  "('h, 'g) gop_firmware \<Rightarrow> bool \<Rightarrow> efi_status \<times> EFI_SIMPLE_POINTER_MODE \<Rightarrow> int \<Rightarrow> int \<Rightarrow> 'g MONITOR_PRIVATE option
    \<Rightarrow> ('g MONITOR_PRIVATE option \<times> EFI_SIMPLE_POINTER_MODE option \<times> 'g lv_event list) result" where
  "mp_init_efidirect fw grant located w h tPrivate =
     rbind (monitor_init fw grant w h tPrivate) (\<lambda>(p, ev). Inr (p, input_init located, ev))"

definition mp_deinit_efidirect :: "'g MONITOR_PRIVATE option \<Rightarrow> 'g MONITOR_PRIVATE option result" where
  "mp_deinit_efidirect tPrivate = monitor_deinit tPrivate"

end
