(* ===== verification/Efi_Direct_Thms.thy ===== *)
theory Efi_Direct_Thms
  imports Efi_Direct
begin

text \<open>
  Theorems about the LVGL drivers: where the pointer is after any sequence of reads, what a
  flush sends to the displays, and what initialising the display does.
\<close>

section \<open>The pointer\<close>

lemma int16_range: "- (2 ^ 15) \<le> int16 x" "int16 x < 2 ^ 15"
  unfolding int16_def
  using pos_mod_bound [of "2 ^ 16 :: int" "x + 2 ^ 15"] pos_mod_sign [of "2 ^ 16 :: int" "x + 2 ^ 15"]
  by simp_all

lemma int16_id [casts]: "- (2 ^ 15) \<le> x \<Longrightarrow> x < 2 ^ 15 \<Longrightarrow> int16 x = x"
  by (simp add: int16_def)

lemma int16_over:
  assumes "2 ^ 15 \<le> x" and "x < 2 ^ 16"
  shows "int16 x < 0"
proof -
  have "int16 x = int16 (x - 2 ^ 16)" unfolding int16_def using mod_diff_right_eq [of "x + 2 ^ 15" "2 ^ 16" "2 ^ 16 :: int"]
    by (simp add: algebra_simps)
  also have "\<dots> = x - 2 ^ 16" by (rule int16_id) (use assms in simp_all)
  finally show ?thesis using assms(2) by simp
qed

text \<open>
  The walk of the pointer along one axis: steps are clamped at zero, and a step over the
  largest coordinate comes out at zero.
\<close>

definition walk :: "int \<Rightarrow> int \<Rightarrow> int" where
  "walk step x = (if x + step > 32767 then 0 else max 0 (x + step))"

definition on_axis :: "int \<Rightarrow> bool" where
  "on_axis x \<longleftrightarrow> 0 \<le> x \<and> x \<le> 32767"

lemma walk_on_axis: "on_axis (walk s x)"
  by (auto simp: walk_def on_axis_def)

lemma mouse_axis_walk:
  assumes "0 < res" and "res < 2 ^ 31" and "on_axis x"
  shows "mouse_axis res mv x = Inr (walk (int16 (mv sdiv res)) x)"
proof -
  have r: "int32 res = res" using assms(1,2) by (simp add: int32_id)
  let ?s = "int16 (mv sdiv res)"
  have "max (int16 (x + ?s)) 0 = walk ?s x"
  proof (cases "x + ?s > 32767")
    case True
    have "int16 (x + ?s) < 0"
      by (rule int16_over) (use True assms(3) int16_range [of "mv sdiv res"] in \<open>auto simp: on_axis_def\<close>)
    with True show ?thesis by (simp add: walk_def)
  next
    case False
    have "int16 (x + ?s) = x + ?s"
      by (rule int16_id) (use False assms(3) int16_range [of "mv sdiv res"] in \<open>auto simp: on_axis_def\<close>)
    with False show ?thesis by (simp add: walk_def)
  qed
  then show ?thesis using assms(1) r by (simp add: mouse_axis_def div32_def)
qed

text \<open>Reading again and again: the answers of the device, oldest first.\<close>

fun mouse_reads ::
  "EFI_SIMPLE_POINTER_MODE \<Rightarrow> (efi_status \<times> EFI_SIMPLE_POINTER_STATE) list \<Rightarrow> int \<times> int \<Rightarrow> lv_indev_data_t
    \<Rightarrow> ((int \<times> int) \<times> lv_indev_data_t) result" where
  "mouse_reads m [] xy data = Inr (xy, data)"
| "mouse_reads m (s # ss) xy data =
     rbind (mouse_read (Some m) s xy data) (\<lambda>(_, xy', data'). mouse_reads m ss xy' data')"

definition steps :: "(EFI_SIMPLE_POINTER_STATE \<Rightarrow> int) \<Rightarrow> int \<Rightarrow> (efi_status \<times> EFI_SIMPLE_POINTER_STATE) list \<Rightarrow> int list" where
  "steps axis res ss = map (\<lambda>s. int16 (axis (snd s) sdiv res)) (filter (\<lambda>s. \<not> EFI_ERROR (fst s)) ss)"

lemma mouse_reads_walk:
  assumes "0 < ResolutionX m" "ResolutionX m < 2 ^ 31" "0 < ResolutionY m" "ResolutionY m < 2 ^ 31"
    and "on_axis x" "on_axis y"
  shows "\<exists>data'. mouse_reads m ss (x, y) data =
      Inr ((fold walk (steps RelativeMovementX (ResolutionX m) ss) x,
            fold walk (steps RelativeMovementY (ResolutionY m) ss) y), data')
    \<and> on_axis (fold walk (steps RelativeMovementX (ResolutionX m) ss) x)
    \<and> on_axis (fold walk (steps RelativeMovementY (ResolutionY m) ss) y)
    \<and> ((\<exists>s\<in>set ss. \<not> EFI_ERROR (fst s)) \<longrightarrow>
         point_x data' = fold walk (steps RelativeMovementX (ResolutionX m) ss) x
         \<and> point_y data' = fold walk (steps RelativeMovementY (ResolutionY m) ss) y)
    \<and> ((\<forall>s\<in>set ss. EFI_ERROR (fst s)) \<longrightarrow> data' = data)"
  using assms(5,6)
proof (induction ss arbitrary: x y data)
  case Nil
  then show ?case by (simp add: steps_def)
next
  case (Cons s ss)
  show ?case
  proof (cases "EFI_ERROR (fst s)")
    case True
    then show ?thesis using Cons.IH [OF Cons.prems, of data] by (simp add: mouse_read_def steps_def)
  next
    case False
    let ?x = "walk (int16 (RelativeMovementX (snd s) sdiv ResolutionX m)) x"
      and ?y = "walk (int16 (RelativeMovementY (snd s) sdiv ResolutionY m)) y"
    let ?d = "data\<lparr>point_x := ?x, point_y := ?y,
        state := (if LeftButton (snd s) then LV_INDEV_STATE_PR else LV_INDEV_STATE_REL)\<rparr>"
    have rd: "mouse_read (Some m) s (x, y) data = Inr (False, (?x, ?y), ?d)"
      using False mouse_axis_walk [OF assms(1,2) Cons.prems(1)] mouse_axis_walk [OF assms(3,4) Cons.prems(2)]
      by (simp add: mouse_read_def)
    have st: "steps a r (s # ss) = int16 (a (snd s) sdiv r) # steps a r ss" for a r
      using False by (simp add: steps_def)
    have none: "steps a r ss = []" if "\<forall>s\<in>set ss. EFI_ERROR (fst s)" for a r
      using that by (simp add: steps_def filter_empty_conv)
    from Cons.IH [OF walk_on_axis walk_on_axis, of "int16 (RelativeMovementX (snd s) sdiv ResolutionX m)" x
        "int16 (RelativeMovementY (snd s) sdiv ResolutionY m)" y ?d] obtain data' where d:
      "mouse_reads m ss (?x, ?y) ?d = Inr ((fold walk (steps RelativeMovementX (ResolutionX m) ss) ?x,
            fold walk (steps RelativeMovementY (ResolutionY m) ss) ?y), data')"
      "on_axis (fold walk (steps RelativeMovementX (ResolutionX m) ss) ?x)"
      "on_axis (fold walk (steps RelativeMovementY (ResolutionY m) ss) ?y)"
      "(\<exists>s\<in>set ss. \<not> EFI_ERROR (fst s)) \<longrightarrow>
         point_x data' = fold walk (steps RelativeMovementX (ResolutionX m) ss) ?x
         \<and> point_y data' = fold walk (steps RelativeMovementY (ResolutionY m) ss) ?y"
      "(\<forall>s\<in>set ss. EFI_ERROR (fst s)) \<longrightarrow> data' = ?d" by blast
    show ?thesis
    proof (intro exI [of _ data'] conjI)
      show "mouse_reads m (s # ss) (x, y) data =
        Inr ((fold walk (steps RelativeMovementX (ResolutionX m) (s # ss)) x,
            fold walk (steps RelativeMovementY (ResolutionY m) (s # ss)) y), data')" by (simp add: rd st d(1))
      show "(\<exists>s\<in>set (s # ss). \<not> EFI_ERROR (fst s)) \<longrightarrow>
         point_x data' = fold walk (steps RelativeMovementX (ResolutionX m) (s # ss)) x
         \<and> point_y data' = fold walk (steps RelativeMovementY (ResolutionY m) (s # ss)) y"
        using d(4,5) none by (cases "\<forall>s\<in>set ss. EFI_ERROR (fst s)") (simp_all add: st)
    qed (use d(2,3) False in \<open>simp_all add: st\<close>)
  qed
qed

text \<open>
  The pointer after any sequence of reads of a device that supports both axes: each
  successful read adds the movement in units of the resolution, clamped at zero, failed reads
  change nothing, and the coordinates stay within the 16-bit range, a step over its end
  coming out at zero; the coordinates of the last successful read are what LVGL is told. On a
  device without a horizontal axis (resolution zero) a successful read divides by zero.
\<close>

theorem mouse_position:
  assumes "0 < ResolutionX m" "ResolutionX m < 2 ^ 31" "0 < ResolutionY m" "ResolutionY m < 2 ^ 31"
    and "on_axis x" "on_axis y"
    and "\<exists>s\<in>set ss. \<not> EFI_ERROR (fst s)"
  shows "(\<exists>data' X Y. mouse_reads m ss (x, y) data = Inr ((X, Y), data')
     \<and> X = fold walk (steps RelativeMovementX (ResolutionX m) ss) x
     \<and> Y = fold walk (steps RelativeMovementY (ResolutionY m) ss) y
     \<and> on_axis X \<and> on_axis Y \<and> point_x data' = X \<and> point_y data' = Y)
    \<and> mouse_read (Some (m\<lparr>ResolutionX := 0\<rparr>)) (EFI_SUCCESS, st) (x, y) data = Inl DivideError"
  using mouse_reads_walk [OF assms(1-6), of ss data] assms(7)
  by (auto simp: mouse_read_def mouse_axis_def div32_def int32_id)

definition small_mouse :: EFI_SIMPLE_POINTER_MODE where
  "small_mouse = \<lparr>ResolutionX = 4, ResolutionY = 4\<rparr>"

definition moved :: "int \<Rightarrow> int \<Rightarrow> efi_status \<times> EFI_SIMPLE_POINTER_STATE" where
  "moved dx dy = (EFI_SUCCESS, \<lparr>RelativeMovementX = dx, RelativeMovementY = dy, LeftButton = False\<rparr>)"

definition no_data :: lv_indev_data_t where
  "no_data = \<lparr>point_x = 0, point_y = 0, key = 0, state = LV_INDEV_STATE_REL\<rparr>"

theorem mouse_position_witness:
  "\<exists>data'. mouse_reads small_mouse [moved 40 (-7), moved (-12) 20] (5, 0) no_data = Inr ((12, 5), data')
     \<and> point_x data' = 12 \<and> point_y data' = 5"
proof -
  have ev: "fold walk (steps RelativeMovementX 4 [moved 40 (-7), moved (-12) 20]) 5 = 12"
    "fold walk (steps RelativeMovementY 4 [moved 40 (-7), moved (-12) 20]) 0 = 5"
    by (simp_all add: steps_def moved_def walk_def int16_def signed_divide_int_def)
  show ?thesis
    using mouse_position [of small_mouse 5 0 "[moved 40 (-7), moved (-12) 20]" no_data "snd (moved 0 0)"] ev
    by (auto simp: small_mouse_def moved_def on_axis_def)
qed

section \<open>The display\<close>

text \<open>
  Flushing an area of a display that was initialised: every graphics device that offers
  its protocol is sent the buffer once, at the area's corner and with the area's width and
  height, and the flush is reported as ready once, at the end. Where no graphics handle is
  found nothing is drawn and the flush is never reported as ready.
\<close>

theorem monitor_flush_draws:
  assumes "0 \<le> x1 a" "x1 a \<le> x2 a" "x2 a < 32767" "0 \<le> y1 a" "y1 a \<le> y2 a" "y2 a < 32767"
    and "GopHandles fw = (st, hs)"
  shows "\<exists>evs. monitor_flush fw (Some p) a n = Inr evs
     \<and> (if EFI_ERROR st \<or> hs = [] then FlushReady \<notin> set evs \<and> (\<forall>g k x y w h. Blt g k x y w h \<notin> set evs)
        else last evs = FlushReady \<and> count_list evs FlushReady = 1
          \<and> filter (\<lambda>e. e \<notin> {GetHandles, FreeHandles, FlushReady}) evs
            = map (\<lambda>hdl. Blt (snd (HandleGop fw hdl)) n (x1 a) (y1 a) (x2 a - x1 a + 1) (y2 a - y1 a + 1))
                (filter (\<lambda>hdl. \<not> EFI_ERROR (fst (HandleGop fw hdl))) hs))"
proof -
  have w: "int16 (x2 a - x1 a + 1) = x2 a - x1 a + 1" "int16 (y2 a - y1 a + 1) = y2 a - y1 a + 1"
    by (rule int16_id; use assms(1-6) in simp)+
  have u: "uintn (x1 a) = x1 a" "uintn (y1 a) = y1 a" "uintn (x2 a - x1 a + 1) = x2 a - x1 a + 1"
    "uintn (y2 a - y1 a + 1) = y2 a - y1 a + 1"
    by (rule uintn_id; use assms(1-6) in simp)+
  let ?b = "\<lambda>hdl. Blt (snd (HandleGop fw hdl)) n (x1 a) (y1 a) (x2 a - x1 a + 1) (y2 a - y1 a + 1)"
  have b: "blt_all fw a n (x2 a - x1 a + 1) (y2 a - y1 a + 1) hs = map ?b (filter (\<lambda>hdl. \<not> EFI_ERROR (fst (HandleGop fw hdl))) hs)"
    unfolding blt_all_def u by (induction hs) (auto split: prod.splits)
  have c: "count_list (map ?b l) FlushReady = 0" "filter (\<lambda>e. e \<notin> {GetHandles, FreeHandles, FlushReady}) (map ?b l) = map ?b l" for l
    by (induction l) simp_all
  show ?thesis
    using assms(7) c by (auto simp: monitor_flush_def Let_def w b)
qed

definition two_gops :: "(nat, nat) gop_firmware" where
  "two_gops = \<lparr>GopHandles = (EFI_SUCCESS, [1, 2]), HandleGop = (\<lambda>h. (EFI_SUCCESS, 10 + h)), LocateGop = (EFI_SUCCESS, 11),
     HorizontalResolution = (\<lambda>_. 800), VerticalResolution = (\<lambda>_. 600)\<rparr>"

theorem monitor_flush_draws_witness:
  "\<exists>evs. monitor_flush two_gops (Some \<lparr>Gop = 11, Width = 0, Height = 0\<rparr>) \<lparr>x1 = 10, y1 = 20, x2 = 19, y2 = 24\<rparr> 50 = Inr evs
     \<and> last evs = FlushReady
     \<and> filter (\<lambda>e. e \<notin> {GetHandles, FreeHandles, FlushReady}) evs = [Blt 11 50 10 20 10 5, Blt 12 50 10 20 10 5]"
  using monitor_flush_draws [of "\<lparr>x1 = 10, y1 = 20, x2 = 19, y2 = 24\<rparr>" two_gops EFI_SUCCESS "[1, 2]"
      "\<lparr>Gop = 11, Width = 0, Height = 0\<rparr>" 50]
  by (auto simp: two_gops_def)

text \<open>
  Initialising the display on a platform with graphics devices stores the device with
  width and height zero, whatever the resolution and the arguments are, sends it a rectangle
  of 100 by 100 pixels from a buffer of one pixel, and never frees the handle buffer; a second
  initialisation does nothing, and after it was closed it can be initialised again.
\<close>

theorem monitor_init_effects:
  assumes "LocateGop fw = (st, g)" and "\<not> EFI_ERROR st" and "GopHandles fw = (st', hs)" and "\<not> EFI_ERROR st'" and "hs \<noteq> []"
  shows "\<exists>p evs. monitor_init fw True w h None = Inr (Some p, evs) \<and> Gop p = g \<and> Width p = 0 \<and> Height p = 0
     \<and> Blt g 1 0 0 100 100 \<in> set evs \<and> GetHandles \<in> set evs \<and> FreeHandles \<notin> set evs
     \<and> monitor_init fw True w' h' (Some p) = Inr (Some p, [])
     \<and> rbind (monitor_deinit (Some p)) (monitor_init fw True w h) = Inr (Some p, evs)"
  using assms by (simp add: monitor_init_def monitor_deinit_def Let_def rassert_def)

theorem monitor_init_effects_witness:
  "\<exists>p evs. monitor_init two_gops True 800 600 None = Inr (Some p, evs) \<and> Width p = 0 \<and> Height p = 0
     \<and> Blt 11 1 0 0 100 100 \<in> set evs"
  using monitor_init_effects [of two_gops EFI_SUCCESS 11 EFI_SUCCESS "[1, 2]" 800 600 0 0] by (auto simp: two_gops_def)

end
