(* ===== verification/Sfs_Mapping.thy ===== *)
theory Sfs_Mapping
  imports Misc_Strings
begin

text \<open>
  \<open>MicroPythonDxe/Uefi/sfsmapping.c\<close>: the names of drives. The name of a device is made from the
  class of its medium, the place of its controller in a sorted table of all controllers, and
  the numbers found in the rest of its device path.

  A device path is the list of its nodes without the final end node; a node is its type, its
  subtype and the bytes behind the four-byte header, and a field of a structure the code casts a
  node to is read from these bytes at its offset. \<open>DevicePathCompare\<close> and \<open>PerformQuickSort\<close> are
  library functions and arguments here, as are the platform settings and the answers of the
  USB stack (\<open>sfs_env\<close>). Memory for printed strings is a budget: the number of further requests
  (one for a call of \<open>CatPrint\<close>, one for each buffer of \<open>DevPathSerialVendor\<close> and
  \<open>DevPathSerialIScsi\<close>) that can be served; the requests of \<open>GetHIDevicePath\<close>, whose failure the code
  does not look at, are taken to succeed. Every node is at least as long as the structure the code
  casts it to.

  \<open>UnicodeSPrint\<close> called with a buffer size of zero writes nothing (so its documentation); the
  code does this with buffers on the stack and goes on to read them. What such a buffer happens
  to hold, up to its first zero, is the field \<open>Stack\<close>, for every state it is read in.
\<close>

section \<open>Device paths\<close>

record dp_node =
  NodeType :: byte
  NodeSubType :: byte
  NodeData :: "byte list"

type_synonym dev_path = "dp_node list"

fun le_nat :: "byte list \<Rightarrow> nat" where
  "le_nat [] = 0"
| "le_nat (b # bs) = unat b + 256 * le_nat bs"

text \<open>The little-endian field of \<open>n\<close> bytes at an offset behind the header.\<close>

definition fld :: "nat \<Rightarrow> nat \<Rightarrow> dp_node \<Rightarrow> nat" where
  "fld off n nd = le_nat (take n (drop off (NodeData nd)))"

definition DevicePathNodeLength :: "dp_node \<Rightarrow> nat" where
  "DevicePathNodeLength nd = 4 + length (NodeData nd)"

definition HARDWARE_DEVICE_PATH :: byte where "HARDWARE_DEVICE_PATH = 1"
definition ACPI_DEVICE_PATH :: byte where "ACPI_DEVICE_PATH = 2"
definition MESSAGING_DEVICE_PATH :: byte where "MESSAGING_DEVICE_PATH = 3"
definition MEDIA_DEVICE_PATH :: byte where "MEDIA_DEVICE_PATH = 4"

definition end_instance :: dp_node where
  "end_instance = \<lparr>NodeType = 0x7F, NodeSubType = 1, NodeData = []\<rparr>"

lemmas dp_consts = HARDWARE_DEVICE_PATH_def ACPI_DEVICE_PATH_def MESSAGING_DEVICE_PATH_def MEDIA_DEVICE_PATH_def

section \<open>Names under construction\<close>

datatype MTD_TYPE = MTDTypeUnknown | MTDTypeFloppy | MTDTypeHardDisk | MTDTypeCDRom | MTDTypeEnd

record DEVICE_CONSIST_MAPPING_INFO =
  Hi :: nat
  Mtd :: MTD_TYPE
  Csd :: "w16 list option"
  Digital :: bool

type_synonym item = "nat \<times> DEVICE_CONSIST_MAPPING_INFO"

record sfs_env =
  PcdUsbExtendedDecode :: bool
  UsbInterface :: "dev_path \<Rightarrow> efi_status \<times> nat \<times> nat"
  PcdShellVendorExtendedDecode :: nat
  PcdShellDecodeIScsiMapNames :: bool
  SasDevicePathGuid :: "byte list"
  Stack :: "item \<Rightarrow> w16 list"

text \<open>
  \<open>CatPrint\<close> on the string of a \<open>POOL_PRINT\<close>: \<open>s\<close> is the text the format produces, cut to the 4096
  bytes of the intermediate buffer.
\<close>

definition CatPrint :: "w16 list \<Rightarrow> nat \<Rightarrow> w16 list option \<Rightarrow> efi_status \<times> nat \<times> w16 list option" where
  "CatPrint s budget str =
     (if budget = 0 then (EFI_OUT_OF_RESOURCES, 0, str)
      else (EFI_SUCCESS, budget - 1, Some ((case str of None \<Rightarrow> [] | Some t \<Rightarrow> t) @ take 2047 s)))"

definition cat_csd :: "w16 list \<Rightarrow> item \<Rightarrow> efi_status \<times> item" where
  "cat_csd s it = (case it of (b, m) \<Rightarrow>
     (case CatPrint s b (Csd m) of (st, b', str) \<Rightarrow> (st, b', m\<lparr>Csd := str\<rparr>)))"

text \<open>\<open>Status = f; if (!EFI_ERROR (Status)) Status = g;\<close>\<close>

definition and_then :: "('s \<Rightarrow> efi_status \<times> 's) \<Rightarrow> ('s \<Rightarrow> efi_status \<times> 's) \<Rightarrow> 's \<Rightarrow> efi_status \<times> 's" where
  "and_then f g s = (case f s of (st, s') \<Rightarrow> if EFI_ERROR st then (st, s') else g s')"

text \<open>\<open>n\<close> buffers one after the other.\<close>

definition take_mem :: "nat \<Rightarrow> item \<Rightarrow> efi_status \<times> item" where
  "take_mem n it = (case it of (b, m) \<Rightarrow>
     if n \<le> b then (EFI_SUCCESS, b - n, m) else (EFI_OUT_OF_RESOURCES, 0, m))"

definition flip_digital :: "item \<Rightarrow> item" where
  "flip_digital it = (case it of (b, m) \<Rightarrow> (b, m\<lparr>Digital := \<not> Digital m\<rparr>))"

text \<open>Decimal digits, as \<open>%d\<close> and \<open>%ld\<close> print them.\<close>

fun dec_nat :: "nat \<Rightarrow> w16 list" where
  "dec_nat n = (if n < 10 then [48 + of_nat n] else dec_nat (n div 10) @ [48 + of_nat (n mod 10)])"

declare dec_nat.simps [simp del]

definition dec_int :: "int \<Rightarrow> w16 list" where
  "dec_int i = (if i < 0 then 45 # dec_nat (nat (- i)) else dec_nat (nat i))"

definition int64 :: "int \<Rightarrow> int" where
  "int64 x = (x + 2 ^ 63) mod 2 ^ 64 - 2 ^ 63"

function AppendCSDNum2 :: "nat \<Rightarrow> item \<Rightarrow> efi_status \<times> item" where
  "AppendCSDNum2 num it =
     (if num div 25 > 0 then and_then (AppendCSDNum2 (num div 25)) (cat_csd [of_nat (num mod 25) + 97]) it
      else cat_csd [of_nat (num mod 25) + 97] it)"
  by pat_completeness auto
termination by (relation "measure fst") auto

declare AppendCSDNum2.simps [simp del]

definition AppendCSDNum :: "nat \<Rightarrow> item \<Rightarrow> efi_status \<times> item" where
  "AppendCSDNum num it =
     (case (if Digital (snd it) then cat_csd (dec_int (int64 (int num))) it else AppendCSDNum2 num it) of
        (st, it') \<Rightarrow> (st, if EFI_ERROR st then it' else flip_digital it'))"

text \<open>One character of \<open>AppendCSDStr\<close>: the text it prints, \<open>None\<close> when it is skipped.\<close>

definition digital_char :: "w16 \<Rightarrow> w16 list option" where
  "digital_char c =
     (if c = 48 \<or> (50 \<le> c \<and> c \<le> 57) then Some [c]
      else if c = 49 then Some [49, 54]
      else if 97 \<le> c \<and> c \<le> 102 then Some [49, c - 97 + 48]
      else if 65 \<le> c \<and> c \<le> 70 then Some [49, c - 65 + 48]
      else None)"

definition letter_char :: "w16 \<Rightarrow> w16 list option" where
  "letter_char c =
     (if 48 \<le> c \<and> c \<le> 57 then Some [c - 48 + 97]
      else if 97 \<le> c \<and> c \<le> 102 then Some [c - 97 + 107]
      else if 65 \<le> c \<and> c \<le> 70 then Some [c - 65 + 107]
      else None)"

fun append_chars :: "(w16 \<Rightarrow> w16 list option) \<Rightarrow> w16 list \<Rightarrow> item \<Rightarrow> efi_status \<times> item" where
  "append_chars f [] it = (EFI_SUCCESS, it)"
| "append_chars f (c # cs) it =
     (case f c of None \<Rightarrow> append_chars f cs it
      | Some s \<Rightarrow> and_then (cat_csd s) (append_chars f cs) it)"

definition AppendCSDStr :: "w16 list \<Rightarrow> item \<Rightarrow> efi_status \<times> item" where
  "AppendCSDStr s it =
     (case append_chars (if Digital (snd it) then digital_char else letter_char) s it of
        (st, it') \<Rightarrow> if EFI_ERROR st then (st, it') else (EFI_SUCCESS, flip_digital it'))"

text \<open>
  A buffer on the stack that \<open>UnicodeSPrint\<close> was given with size zero, appended. It was never written; \<open>Stack env\<close> is any function that
  says what it holds, and two runs with different contents are runs with two of them.
\<close>

definition append_stack :: "sfs_env \<Rightarrow> item \<Rightarrow> efi_status \<times> item" where
  "append_stack env it = AppendCSDStr (Stack env it) it"

text \<open>\<open>%g\<close> is printed into a buffer of size zero.\<close>

definition AppendCSDGuid :: "sfs_env \<Rightarrow> byte list \<Rightarrow> item \<Rightarrow> efi_status \<times> item" where
  "AppendCSDGuid env guid = append_stack env"

section \<open>Comparing nodes\<close>

definition DevPathCompareAcpi :: "dp_node option \<Rightarrow> dp_node option \<Rightarrow> int" where
  "DevPathCompareAcpi p q =
     (case (p, q) of
        (Some a, Some b) \<Rightarrow>
          if fld 0 4 a > fld 0 4 b \<or> (fld 0 4 a = fld 0 4 b \<and> fld 4 4 a > fld 4 4 b) then 1
          else if fld 0 4 a = fld 0 4 b \<and> fld 4 4 a = fld 4 4 b then 0
          else -1
      | _ \<Rightarrow> -2)"

definition DevPathComparePci :: "dp_node \<Rightarrow> dp_node \<Rightarrow> int" where
  "DevPathComparePci a b =
     (if fld 1 1 a > fld 1 1 b \<or> (fld 1 1 a = fld 1 1 b \<and> fld 0 1 a > fld 0 1 b) then 1
      else if fld 1 1 a = fld 1 1 b \<and> fld 0 1 a = fld 0 1 b then 0
      else -1)"

text \<open>\<open>CompareMem\<close>: the difference of the first bytes that differ.\<close>

fun CompareMem :: "byte list \<Rightarrow> byte list \<Rightarrow> int" where
  "CompareMem (a # as) (b # bs) = (if a = b then CompareMem as bs else uint a - uint b)"
| "CompareMem _ _ = 0"

text \<open>All bytes of a node, the header first.\<close>

definition node_bytes :: "dp_node \<Rightarrow> byte list" where
  "node_bytes nd = [NodeType nd, NodeSubType nd, of_nat (DevicePathNodeLength nd),
     of_nat (DevicePathNodeLength nd div 256)] @ NodeData nd"

definition DevPathCompareDefault :: "dp_node \<Rightarrow> dp_node \<Rightarrow> int" where
  "DevPathCompareDefault a b =
     (if DevicePathNodeLength a > DevicePathNodeLength b then 1
      else if DevicePathNodeLength a < DevicePathNodeLength b then -1
      else CompareMem (node_bytes a) (node_bytes b))"

section \<open>Nodes\<close>

text \<open>
  One function per kind of node; the last argument but one is the device path the node is part
  of, which only the function for USB looks at.
\<close>

type_synonym serial_fun = "sfs_env \<Rightarrow> dp_node \<Rightarrow> dev_path \<Rightarrow> item \<Rightarrow> efi_status \<times> item"

definition set_mtd :: "MTD_TYPE \<Rightarrow> item \<Rightarrow> item" where
  "set_mtd t it = (case it of (b, m) \<Rightarrow> (b, m\<lparr>Mtd := t\<rparr>))"

definition DevPathSerialHardDrive :: serial_fun where
  "DevPathSerialHardDrive env nd dp it =
     AppendCSDNum (fld 0 4 nd) (if Mtd (snd it) = MTDTypeUnknown then set_mtd MTDTypeHardDisk it else it)"

definition DevPathSerialAtapi :: serial_fun where
  "DevPathSerialAtapi env nd dp = AppendCSDNum (fld 0 1 nd * 2 + fld 1 1 nd)"

definition DevPathSerialCdRom :: serial_fun where
  "DevPathSerialCdRom env nd dp it = AppendCSDNum (fld 0 4 nd) (set_mtd MTDTypeCDRom it)"

definition DevPathSerialFibre :: serial_fun where
  "DevPathSerialFibre env nd dp = and_then (AppendCSDNum (fld 4 8 nd)) (AppendCSDNum (fld 12 8 nd))"

definition DevPathSerialUart :: serial_fun where
  "DevPathSerialUart env nd dp =
     and_then (AppendCSDNum (fld 4 8 nd)) (and_then (AppendCSDNum (fld 12 1 nd))
       (and_then (AppendCSDNum (fld 13 1 nd)) (AppendCSDNum (fld 14 1 nd))))"

text \<open>Class 8 is mass storage; subclass 6 is SCSI, 5 and 4 are floppies, 2 is a CD-ROM.\<close>

definition usb_medium :: "nat \<Rightarrow> nat \<Rightarrow> item \<Rightarrow> item" where
  "usb_medium cls sub it =
     (if cls = 8 \<and> Mtd (snd it) = MTDTypeUnknown
      then if sub = 6 then set_mtd MTDTypeHardDisk it
           else if sub = 5 \<or> sub = 4 then set_mtd MTDTypeFloppy it
           else if sub = 2 then set_mtd MTDTypeCDRom it
           else it
      else it)"

definition DevPathSerialUsb :: serial_fun where
  "DevPathSerialUsb env nd dp =
     and_then (and_then (AppendCSDNum (fld 0 1 nd)) (AppendCSDNum (fld 1 1 nd))) (\<lambda>it.
       if PcdUsbExtendedDecode env
       then (case UsbInterface env dp of (st, cls, sub) \<Rightarrow>
               (st, if EFI_ERROR st then it else usb_medium cls sub it))
       else (EFI_SUCCESS, it))"

definition hex_digit :: "nat \<Rightarrow> w16" where
  "hex_digit n = (if n < 10 then 48 + of_nat n else 65 + of_nat (n - 10))"

definition hex_bytes :: "byte list \<Rightarrow> w16 list" where
  "hex_bytes bs = concat (map (\<lambda>b. [hex_digit (unat b div 16), hex_digit (unat b mod 16)]) bs)"

definition DevPathSerialVendor :: serial_fun where
  "DevPathSerialVendor env nd dp =
     and_then (AppendCSDGuid env (take 16 (NodeData nd)))
       (if take 16 (NodeData nd) = SasDevicePathGuid env
        then and_then (AppendCSDNum (fld 20 8 nd)) (and_then (AppendCSDNum (fld 28 8 nd))
               (and_then (AppendCSDNum (fld 36 2 nd)) (AppendCSDNum (fld 38 2 nd))))
        else let n = min (DevicePathNodeLength nd - 20) (PcdShellVendorExtendedDecode env) in
             if n \<noteq> 0
             then and_then (take_mem (Suc n)) (AppendCSDStr (hex_bytes (take n (drop 16 (NodeData nd)))))
             else (\<lambda>it. (EFI_SUCCESS, it)))"

definition DevPathSerialLun :: serial_fun where
  "DevPathSerialLun env nd dp = AppendCSDNum (fld 0 1 nd)"

definition DevPathSerialSata :: serial_fun where
  "DevPathSerialSata env nd dp =
     and_then (AppendCSDNum (fld 0 2 nd)) (and_then (AppendCSDNum (fld 2 2 nd)) (AppendCSDNum (fld 4 2 nd)))"

text \<open>The target name ends at its first zero byte, where \<open>AppendCSDStr\<close> stops.\<close>

definition DevPathSerialIScsi :: serial_fun where
  "DevPathSerialIScsi env nd dp =
     (if PcdShellDecodeIScsiMapNames env
      then and_then (AppendCSDNum (fld 0 2 nd)) (and_then (AppendCSDNum (fld 2 2 nd))
             (and_then (AppendCSDNum (fld 4 8 nd)) (and_then (AppendCSDNum (fld 12 2 nd))
               (let n = DevicePathNodeLength nd - 18 in
                if n > 0
                then and_then (take_mem 1)
                  (AppendCSDStr (takeWhile (\<lambda>c. c \<noteq> 0) (map ucast (take n (drop 14 (NodeData nd))))))
                else (\<lambda>it. (EFI_SUCCESS, it))))))
      else (\<lambda>it. (EFI_SUCCESS, it)))"

definition DevPathSerialI2O :: serial_fun where
  "DevPathSerialI2O env nd dp = AppendCSDNum (fld 0 4 nd)"

text \<open>The addresses in these nodes are printed into buffers of size zero.\<close>

definition DevPathSerialMacAddr :: serial_fun where
  "DevPathSerialMacAddr env nd dp = append_stack env"

definition DevPathSerialInfiniBand :: serial_fun where
  "DevPathSerialInfiniBand env nd dp =
     and_then (append_stack env) (and_then (AppendCSDNum (fld 20 8 nd))
       (and_then (AppendCSDNum (fld 28 8 nd)) (AppendCSDNum (fld 36 8 nd))))"

definition DevPathSerialIPv4 :: serial_fun where
  "DevPathSerialIPv4 env nd dp =
     and_then (append_stack env) (and_then (AppendCSDNum (fld 8 2 nd))
       (and_then (append_stack env) (AppendCSDNum (fld 10 2 nd))))"

definition DevPathSerialIPv6 :: serial_fun where
  "DevPathSerialIPv6 env nd dp =
     and_then (append_stack env) (and_then (AppendCSDNum (fld 32 2 nd))
       (and_then (append_stack env) (AppendCSDNum (fld 34 2 nd))))"

definition DevPathSerialScsi :: serial_fun where
  "DevPathSerialScsi env nd dp = and_then (AppendCSDNum (fld 0 2 nd)) (AppendCSDNum (fld 2 2 nd))"

definition DevPathSerial1394 :: serial_fun where
  "DevPathSerial1394 env nd dp = append_stack env"

definition DevPathSerialAcpi :: serial_fun where
  "DevPathSerialAcpi env nd dp it =
     (if fld 0 4 nd mod 0x10000 = 0x41D0 \<and> fld 0 4 nd div 0x10000 = 0x0604
      then AppendCSDNum (fld 4 4 nd) (set_mtd MTDTypeFloppy it)
      else (EFI_SUCCESS, it))"

definition DevPathSerialDefault :: serial_fun where
  "DevPathSerialDefault env nd dp it = (EFI_SUCCESS, it)"

definition DevPathConsistMappingTable :: "((byte \<times> byte) \<times> serial_fun) list" where
  "DevPathConsistMappingTable =
    [((HARDWARE_DEVICE_PATH, 1), DevPathSerialDefault), ((ACPI_DEVICE_PATH, 1), DevPathSerialAcpi),
     ((MESSAGING_DEVICE_PATH, 1), DevPathSerialAtapi), ((MESSAGING_DEVICE_PATH, 2), DevPathSerialScsi),
     ((MESSAGING_DEVICE_PATH, 3), DevPathSerialFibre), ((MESSAGING_DEVICE_PATH, 4), DevPathSerial1394),
     ((MESSAGING_DEVICE_PATH, 5), DevPathSerialUsb), ((MESSAGING_DEVICE_PATH, 6), DevPathSerialI2O),
     ((MESSAGING_DEVICE_PATH, 11), DevPathSerialMacAddr), ((MESSAGING_DEVICE_PATH, 12), DevPathSerialIPv4),
     ((MESSAGING_DEVICE_PATH, 13), DevPathSerialIPv6), ((MESSAGING_DEVICE_PATH, 9), DevPathSerialInfiniBand),
     ((MESSAGING_DEVICE_PATH, 14), DevPathSerialUart), ((MESSAGING_DEVICE_PATH, 10), DevPathSerialVendor),
     ((MESSAGING_DEVICE_PATH, 17), DevPathSerialLun), ((MESSAGING_DEVICE_PATH, 18), DevPathSerialSata),
     ((MESSAGING_DEVICE_PATH, 19), DevPathSerialIScsi), ((MEDIA_DEVICE_PATH, 1), DevPathSerialHardDrive),
     ((MEDIA_DEVICE_PATH, 2), DevPathSerialCdRom), ((MEDIA_DEVICE_PATH, 3), DevPathSerialVendor)]"

section \<open>Controllers and the table\<close>

definition IsHIDevicePathNode :: "dp_node \<Rightarrow> bool" where
  "IsHIDevicePathNode nd =
     (if NodeType nd = HARDWARE_DEVICE_PATH then True
      else if NodeType nd = ACPI_DEVICE_PATH
      then fld 0 4 nd div 0x10000 \<notin> {0x0301, 0x0401, 0x0501, 0x0604}
      else False)"

fun hi_loop :: "nat \<Rightarrow> dev_path \<Rightarrow> dev_path \<Rightarrow> dev_path" where
  "hi_loop cnt hi [] = hi"
| "hi_loop cnt hi (nd # dp) =
     (if IsHIDevicePathNode nd then hi_loop cnt (hi @ replicate cnt end_instance @ [nd]) dp
      else hi_loop (Suc cnt) hi dp)"

definition GetHIDevicePath :: "dev_path \<Rightarrow> dev_path" where
  "GetHIDevicePath dp = hi_loop 0 [] dp"

fun find_serial :: "byte \<times> byte \<Rightarrow> ((byte \<times> byte) \<times> serial_fun) list \<Rightarrow> serial_fun" where
  "find_serial k [] = DevPathSerialDefault"
| "find_serial k ((k', f) # tab) = (if k = k' then f else find_serial k tab)"

fun info_loop :: "sfs_env \<Rightarrow> dev_path \<Rightarrow> dev_path \<Rightarrow> item \<Rightarrow> efi_status \<times> item" where
  "info_loop env orig [] it = (EFI_SUCCESS, it)"
| "info_loop env orig (nd # dp) it =
     (case find_serial (NodeType nd, NodeSubType nd) DevPathConsistMappingTable env nd orig it of
        (st, it') \<Rightarrow> if EFI_ERROR st then (st, fst it', (snd it')\<lparr>Csd := None\<rparr>) else info_loop env orig dp it')"

definition GetDeviceConsistMappingInfo :: "sfs_env \<Rightarrow> dev_path \<Rightarrow> item \<Rightarrow> efi_status \<times> item" where
  "GetDeviceConsistMappingInfo env dp it = info_loop env dp dp (fst it, (snd it)\<lparr>Csd := None\<rparr>)"

text \<open>
  \<open>ConsistMappingTableInit\<close>: \<open>handles\<close> are the handles with a device path protocol, each with the path
  \<open>DevicePathFromHandle\<close> finds and whether it carries a block device or a file system.
\<close>

fun add_controllers ::
  "(dev_path \<Rightarrow> dev_path \<Rightarrow> int) \<Rightarrow> (dev_path option \<times> bool) list \<Rightarrow> dev_path list \<Rightarrow> dev_path list" where
  "add_controllers cmp [] tab = tab"
| "add_controllers cmp ((dp, storage) # hs) tab =
     (case dp of
        None \<Rightarrow> add_controllers cmp hs tab
      | Some p \<Rightarrow>
          let hi = GetHIDevicePath p in
          if \<not> storage then add_controllers cmp hs tab
          else if \<exists>t\<in>set tab. cmp t hi = 0 then add_controllers cmp hs tab
          else add_controllers cmp hs (tab @ [hi]))"

definition ConsistMappingTableInit ::
  "(dev_path \<Rightarrow> dev_path \<Rightarrow> int) \<Rightarrow> ((dev_path \<Rightarrow> dev_path \<Rightarrow> int) \<Rightarrow> dev_path list \<Rightarrow> dev_path list) \<Rightarrow> bool
    \<Rightarrow> efi_status \<times> (dev_path option \<times> bool) list \<Rightarrow> (efi_status \<times> dev_path list option) result" where
  "ConsistMappingTableInit cmp qsort grant handles =
     (case handles of (st, hs) \<Rightarrow>
        rbind (rassert (\<not> EFI_ERROR st) AssertFailed) (\<lambda>_.
          if \<not> grant then Inr (EFI_OUT_OF_RESOURCES, None)
          else Inr (EFI_SUCCESS, Some (qsort cmp (add_controllers cmp hs [])))))"

fun index_of :: "(dev_path \<Rightarrow> dev_path \<Rightarrow> int) \<Rightarrow> dev_path \<Rightarrow> dev_path list \<Rightarrow> nat option" where
  "index_of cmp hi [] = None"
| "index_of cmp hi (t # tab) = (if cmp t hi = 0 then Some 0 else map_option Suc (index_of cmp hi tab))"

text \<open>The blocks \<open>ConsistMappingTableDeinit\<close> frees, in order.\<close>

datatype block = Entry nat | TableBlock

definition ConsistMappingTableDeinit :: "dev_path list option \<Rightarrow> (efi_status \<times> block list) result" where
  "ConsistMappingTableDeinit tab =
     (case tab of None \<Rightarrow> Inl AssertFailed
      | Some t \<Rightarrow> Inr (EFI_SUCCESS, map Entry [0..<length t] @ [TableBlock]))"

text \<open>The names of the media, up to the end mark.\<close>

definition mMTDName :: "(MTD_TYPE \<times> w16 list) list" where
  "mMTDName = [(MTDTypeUnknown, [70]), (MTDTypeFloppy, [70, 80]), (MTDTypeHardDisk, [72, 68]), (MTDTypeCDRom, [67, 68])]"

type_synonym out_str = "nat \<times> w16 list option"

definition cat_str :: "w16 list \<Rightarrow> out_str \<Rightarrow> efi_status \<times> out_str" where
  "cat_str s o' = (case o' of (b, str) \<Rightarrow> CatPrint s b str)"

definition print_name :: "DEVICE_CONSIST_MAPPING_INFO \<Rightarrow> out_str \<Rightarrow> efi_status \<times> out_str" where
  "print_name m =
     and_then (and_then (and_then
       (case map_of mMTDName (Mtd m) of None \<Rightarrow> (\<lambda>s. (EFI_SUCCESS, s)) | Some n \<Rightarrow> cat_str n)
       (cat_str (dec_int (int32 (int (Hi m))))))
       (case Csd m of None \<Rightarrow> (\<lambda>s. (EFI_SUCCESS, s)) | Some c \<Rightarrow> cat_str c))
       (\<lambda>s. if snd s \<noteq> None then cat_str [58] s else (EFI_SUCCESS, s))"

definition GetConsistMappingName ::
  "(dev_path \<Rightarrow> dev_path \<Rightarrow> int) \<Rightarrow> sfs_env \<Rightarrow> nat \<Rightarrow> dev_path list \<Rightarrow> dev_path \<Rightarrow> w16 list option" where
  "GetConsistMappingName cmp env budget tab dp =
     (case index_of cmp (GetHIDevicePath dp) tab of
        None \<Rightarrow> None
      | Some i \<Rightarrow>
          (case GetDeviceConsistMappingInfo env dp
                  (budget, \<lparr>Hi = i, Mtd = MTDTypeUnknown, Csd = None, Digital = False\<rparr>) of
             (st, b, m) \<Rightarrow>
               if EFI_ERROR st then None
               else (case print_name m (b, None) of (st', _, str) \<Rightarrow> if EFI_ERROR st' then None else str)))"

end
