(* ===== verification/Sfs_Mapping_Thms.thy ===== *)
theory Sfs_Mapping_Thms
  imports Sfs_Mapping
begin

text \<open>
  Theorems about drive names: the text that is appended can be read back, names tell drives
  apart, every drive has a name, and the names do not depend on the order in which the firmware
  lists its handles; and names of network and vendor devices depend on uninitialised memory.
\<close>

section \<open>Three-way comparison\<close>

text \<open>
  The contract of a comparison function for sorting, and what a client may conclude from it.
\<close>

locale three_way =
  fixes cmp :: "'a \<Rightarrow> 'a \<Rightarrow> int"
  assumes cmp_refl: "cmp x x = 0"
    and cmp_anti: "cmp x y < 0 \<longleftrightarrow> 0 < cmp y x"
    and cmp_trans: "cmp x y \<le> 0 \<Longrightarrow> cmp y z \<le> 0 \<Longrightarrow> cmp x z \<le> 0"
begin

lemma cmp_sym: "cmp x y = 0 \<longleftrightarrow> cmp y x = 0"
  using cmp_anti [of x y] cmp_anti [of y x] by linarith

lemma cmp_linear: "cmp x y \<le> 0 \<or> cmp y x \<le> 0"
  using cmp_anti [of x y] cmp_anti [of y x] by linarith

lemma cmp_equiv_trans: "cmp x y = 0 \<Longrightarrow> cmp y z = 0 \<Longrightarrow> cmp x z = 0"
  using cmp_trans [of x y z] cmp_trans [of z y x] cmp_sym cmp_anti [of x z] by (metis linorder_not_less order_antisym order_refl)

end

text \<open>
  Two lists that are strictly sorted and have the same elements up to equivalence have equivalent
  elements in every place.
\<close>

context three_way
begin

lemma less_equiv: "cmp x y < 0 \<Longrightarrow> cmp y z = 0 \<Longrightarrow> cmp x z < 0"
  by (metis cmp_anti cmp_equiv_trans cmp_sym cmp_trans less_le linorder_not_le)

lemma strict_sorted_classes:
  "sorted_wrt (\<lambda>x y. cmp x y < 0) xs \<Longrightarrow> sorted_wrt (\<lambda>x y. cmp x y < 0) ys \<Longrightarrow>
   \<forall>x\<in>set xs. \<exists>y\<in>set ys. cmp x y = 0 \<Longrightarrow> \<forall>y\<in>set ys. \<exists>x\<in>set xs. cmp x y = 0 \<Longrightarrow>
   list_all2 (\<lambda>x y. cmp x y = 0) xs ys"
proof (induction xs arbitrary: ys)
  case (Cons x xs)
  obtain y ys' where ys: "ys = y # ys'" using Cons.prems(3) by (cases ys) auto
  obtain x1 where x1: "x1 \<in> set (x # xs)" "cmp x1 y = 0" using Cons.prems(4) ys by auto
  obtain y1 where y1: "y1 \<in> set ys" "cmp x y1 = 0" using Cons.prems(3) by auto
  have "cmp x x1 \<le> 0" using x1(1) Cons.prems(1) by (auto simp: cmp_refl)
  then have le: "cmp x y \<le> 0" using x1(2) cmp_trans [of x x1 y] by simp
  have "cmp y y1 \<le> 0" using y1(1) Cons.prems(2) ys by (auto simp: cmp_refl)
  then have "cmp y x \<le> 0" using y1(2) cmp_sym [of x y1] cmp_trans [of y y1 x] by simp
  then have xy: "cmp x y = 0" using le cmp_anti [of x y] by linarith
  have "\<exists>v\<in>set ys'. cmp u v = 0" if u: "u \<in> set xs" for u
  proof -
    have "cmp x u < 0" using Cons.prems(1) u by simp
    then have "cmp u y \<noteq> 0" using xy less_equiv [of x u y] by auto
    then show ?thesis using Cons.prems(3) u ys by auto
  qed
  moreover have "\<exists>u\<in>set xs. cmp u v = 0" if v: "v \<in> set ys'" for v
  proof -
    have "cmp y v < 0" using Cons.prems(2) v ys by simp
    then have "cmp x v \<noteq> 0" using xy cmp_sym [of x v] cmp_equiv_trans [of v x y] less_equiv [of y v y] cmp_refl [of y] by auto
    then show ?thesis using Cons.prems(4) v ys by auto
  qed
  ultimately have "list_all2 (\<lambda>x y. cmp x y = 0) xs ys'"
    using Cons.prems(1,2) ys by (intro Cons.IH) auto
  then show ?case using ys xy by simp
qed simp

lemma strictly_sorted:
  assumes "sorted_wrt (\<lambda>x y. cmp x y \<le> 0) xs" and "pairwise (\<lambda>x y. cmp x y \<noteq> 0) (set xs)" and "distinct xs"
  shows "sorted_wrt (\<lambda>x y. cmp x y < 0) xs"
  using assms
proof (induction xs)
  case (Cons x xs)
  then show ?case by (auto simp: pairwise_insert less_le)
qed simp

end

interpretation pci: three_way DevPathComparePci
  by unfold_locales (auto simp: DevPathComparePci_def split: if_splits)

interpretation acpi: three_way "\<lambda>a b. DevPathCompareAcpi (Some a) (Some b)"
  by unfold_locales (auto simp: DevPathCompareAcpi_def split: if_splits)

lemma CompareMem_refl [simp]: "CompareMem xs xs = 0"
  by (induction xs) auto

lemma CompareMem_anti: "CompareMem xs ys = - CompareMem ys xs"
  by (induction xs ys rule: CompareMem.induct) auto

lemma CompareMem_eq: "length xs = length ys \<Longrightarrow> CompareMem xs ys = 0 \<Longrightarrow> xs = ys"
  by (induction xs ys rule: list_induct2) (auto simp: word_uint_eq_iff split: if_splits)

lemma CompareMem_trans:
  "length xs = length ys \<Longrightarrow> length ys = length zs \<Longrightarrow> CompareMem xs ys \<le> 0 \<Longrightarrow> CompareMem ys zs \<le> 0
    \<Longrightarrow> CompareMem xs zs \<le> 0"
proof (induction xs ys zs rule: list_induct3)
  case (Cons x xs y ys z zs)
  then show ?case by (auto simp: word_uint_eq_iff split: if_splits)
qed simp

lemma node_bytes_eq: "length (NodeData a) = length (NodeData b) \<Longrightarrow> node_bytes a = node_bytes b \<Longrightarrow> a = b"
  by (simp add: node_bytes_def)

text \<open>Byte strings, the shorter one first: what \<open>DevPathCompareDefault\<close> does with nodes.\<close>

definition bytes_cmp :: "byte list \<Rightarrow> byte list \<Rightarrow> int" where
  "bytes_cmp xs ys = (if length xs > length ys then 1 else if length xs < length ys then -1 else CompareMem xs ys)"

interpretation bytes: three_way bytes_cmp
proof unfold_locales
  fix x y z :: "byte list"
  show "bytes_cmp x x = 0" by (simp add: bytes_cmp_def)
  show "bytes_cmp x y < 0 \<longleftrightarrow> 0 < bytes_cmp y x"
    using CompareMem_anti [of x y] by (auto simp: bytes_cmp_def)
  show "bytes_cmp x y \<le> 0 \<Longrightarrow> bytes_cmp y z \<le> 0 \<Longrightarrow> bytes_cmp x z \<le> 0"
    using CompareMem_trans [of x y z] by (auto simp: bytes_cmp_def split: if_splits)
qed

lemma DevPathCompareDefault_bytes: "DevPathCompareDefault a b = bytes_cmp (node_bytes a) (node_bytes b)"
  by (simp add: DevPathCompareDefault_def bytes_cmp_def node_bytes_def DevicePathNodeLength_def)

lemma bytes_cmp_eq: "bytes_cmp xs ys = 0 \<longleftrightarrow> xs = ys"
  using CompareMem_eq by (auto simp: bytes_cmp_def split: if_splits)

interpretation deflt: three_way DevPathCompareDefault
  by unfold_locales
    (auto simp: DevPathCompareDefault_bytes bytes.cmp_refl bytes.cmp_anti intro: bytes.cmp_trans)

lemma DevPathCompareDefault_eq: "DevPathCompareDefault a b = 0 \<longleftrightarrow> a = b"
  using node_bytes_eq [of a b] by (auto simp: DevPathCompareDefault_bytes bytes_cmp_eq node_bytes_def)

section \<open>Numbers\<close>

text \<open>Base 25 with letters, most significant first, and its value.\<close>

fun b25 :: "nat \<Rightarrow> w16 list" where
  "b25 n = (if n < 25 then [] else b25 (n div 25)) @ [of_nat (n mod 25) + 97]"

declare b25.simps [simp del]

definition val25 :: "w16 list \<Rightarrow> nat" where
  "val25 s = foldl (\<lambda>v c. v * 25 + unat (c - 97)) 0 s"

definition val10 :: "w16 list \<Rightarrow> nat" where
  "val10 s = foldl (\<lambda>v c. v * 10 + unat (c - 48)) 0 s"

lemma unat_small: "n < 65536 \<Longrightarrow> unat (of_nat n :: w16) = n"
  by (simp add: unat_of_nat take_bit_eq_mod)

lemma val25_b25 [simp]: "val25 (b25 n) = n"
proof (induction n rule: b25.induct)
  case (1 n)
  have "unat (of_nat (n mod 25) :: w16) = n mod 25" by (rule unat_small) (simp add: order_less_trans [of _ 25])
  then show ?case using 1 by (subst b25.simps) (auto simp: val25_def)
qed

lemma val10_dec [simp]: "val10 (dec_nat n) = n"
proof (induction n rule: dec_nat.induct)
  case (1 n)
  have "unat (of_nat (n mod 10) :: w16) = n mod 10" by (rule unat_small) (simp add: order_less_trans [of _ 10])
  moreover have "n < 10 \<Longrightarrow> unat (of_nat n :: w16) = n" by (rule unat_small) simp
  ultimately show ?case using 1 by (subst dec_nat.simps) (auto simp: val10_def)
qed

definition is_letter :: "w16 \<Rightarrow> bool" where "is_letter c \<longleftrightarrow> 97 \<le> c \<and> c \<le> 122"
definition is_dig :: "w16 \<Rightarrow> bool" where "is_dig c \<longleftrightarrow> 48 \<le> c \<and> c \<le> 57"

lemma letter_of: "k < 26 \<Longrightarrow> is_letter (of_nat k + 97)"
proof -
  assume k: "k < 26"
  have "unat (of_nat k + 97 :: w16) = k + 97"
    using k by (simp add: unat_word_ariths unat_small)
  then show ?thesis using k by (simp add: is_letter_def word_le_nat_alt)
qed

lemma dig_of: "k < 10 \<Longrightarrow> is_dig (48 + of_nat k)"
proof -
  assume k: "k < 10"
  have "unat (48 + of_nat k :: w16) = 48 + k"
    using k by (simp add: unat_word_ariths unat_small)
  then show ?thesis using k by (simp add: is_dig_def word_le_nat_alt)
qed

lemma b25_letters: "\<forall>c\<in>set (b25 n). is_letter c"
  by (induction n rule: b25.induct) (subst b25.simps, auto intro: letter_of less_trans [of _ 25])

lemma dec_digits: "\<forall>c\<in>set (dec_nat n). is_dig c"
  by (induction n rule: dec_nat.induct) (subst dec_nat.simps, auto intro: dig_of)

lemma blocks_nonempty: "b25 n \<noteq> []" "dec_nat n \<noteq> []"
  by (subst b25.simps, simp) (subst dec_nat.simps, simp)

lemma letter_not_dig: "is_letter c \<Longrightarrow> \<not> is_dig c"
  by (simp add: is_letter_def is_dig_def word_le_nat_alt)

text \<open>What numbers leave behind: letters and digits in turn, from \<open>d\<close> on.\<close>

fun csd_text :: "bool \<Rightarrow> nat list \<Rightarrow> w16 list" where
  "csd_text d [] = []"
| "csd_text d (n # ns) = (if d then dec_nat n else b25 n) @ csd_text (\<not> d) ns"

lemma takeWhile_block:
  "\<forall>c\<in>set xs. P c \<Longrightarrow> ys = [] \<or> \<not> P (hd ys) \<Longrightarrow> takeWhile P (xs @ ys) = xs \<and> dropWhile P (xs @ ys) = ys"
  by (cases ys) auto

definition block :: "bool \<Rightarrow> w16 \<Rightarrow> bool" where
  "block d c = (if d then is_dig c else is_letter c)"

lemma block_other: "block d c \<Longrightarrow> \<not> block (\<not> d) c" "\<not> block d 58"
  by (auto simp: block_def letter_not_dig) (auto simp: is_letter_def is_dig_def)

lemma block_num:
  "\<forall>c\<in>set (if d then dec_nat n else b25 n). block d c" "(if d then dec_nat n else b25 n) \<noteq> []"
  using b25_letters dec_digits blocks_nonempty by (auto simp: block_def)

lemma csd_head: "csd_text d ns @ 58 # t = [] \<or> \<not> block (\<not> d) (hd (csd_text d ns @ 58 # t))"
proof (cases ns)
  case Nil
  then show ?thesis using block_other(2) by simp
next
  case (Cons n ms)
  let ?b = "if d then dec_nat n else b25 n"
  have "hd (?b @ csd_text (\<not> d) ms @ 58 # t) \<in> set ?b" using block_num(2) [where d = d and n = n] by (simp add: hd_append)
  then have "block d (hd (csd_text d ns @ 58 # t))" using block_num(1) [where d = d and n = n] Cons by auto
  then show ?thesis using block_other(1) by blast
qed

lemma num_inj: "(if d then dec_nat n else b25 n) = (if d then dec_nat m else b25 m) \<Longrightarrow> n = m"
  by (cases d) (metis val10_dec val25_b25)+

lemma csd_text_inj: "csd_text d ns @ 58 # t = csd_text d ms @ 58 # u \<Longrightarrow> ns = ms \<and> t = u"
proof (induction ns arbitrary: d ms)
  case Nil
  show ?case
  proof (cases ms)
    case Nil
    with Nil.prems show ?thesis by simp
  next
    case (Cons m ms')
    let ?b = "if d then dec_nat m else b25 m"
    have "hd (csd_text d ms @ 58 # u) = 58" using Nil.prems by (metis append_Nil csd_text.simps(1) list.sel(1))
    moreover have "hd (csd_text d ms @ 58 # u) \<in> set ?b"
      using block_num(2) [where d = d and n = m] Cons by (simp add: hd_append)
    ultimately show ?thesis using block_num(1) [where d = d and n = m] block_other(2) by auto
  qed
next
  case (Cons n ns)
  let ?b = "\<lambda>n. if d then dec_nat n else b25 n"
  obtain m ms' where ms: "ms = m # ms'"
  proof (cases ms)
    case Nil
    have "hd (csd_text d (n # ns) @ 58 # t) = 58" using Cons.prems Nil by simp
    moreover have "hd (csd_text d (n # ns) @ 58 # t) \<in> set (?b n)"
      using block_num(2) [where d = d and n = n] by (simp add: hd_append)
    ultimately show ?thesis using block_num(1) [where d = d and n = n] block_other(2) by auto
  qed
  have tw: "takeWhile (block d) (?b k @ csd_text (\<not> d) ks @ 58 # v) = ?b k
      \<and> dropWhile (block d) (?b k @ csd_text (\<not> d) ks @ 58 # v) = csd_text (\<not> d) ks @ 58 # v" for k ks v
    by (rule takeWhile_block [OF block_num(1)]) (use csd_head [of "\<not> d" ks v] in simp)
  have eq: "?b n @ csd_text (\<not> d) ns @ 58 # t = ?b m @ csd_text (\<not> d) ms' @ 58 # u"
    using Cons.prems ms by simp
  then have "?b n = ?b m" "csd_text (\<not> d) ns @ 58 # t = csd_text (\<not> d) ms' @ 58 # u"
    using tw by metis+
  then show ?case using Cons.IH [of "\<not> d" ms'] num_inj ms by blast
qed

section \<open>Appending\<close>

definition csd :: "DEVICE_CONSIST_MAPPING_INFO \<Rightarrow> w16 list" where
  "csd m = (case Csd m of None \<Rightarrow> [] | Some t \<Rightarrow> t)"

lemma csd_upd [simp]: "csd (m\<lparr>Csd := Some t\<rparr>) = t" "csd (m\<lparr>Mtd := x\<rparr>) = csd m" "csd (m\<lparr>Digital := d\<rparr>) = csd m"
  by (simp_all add: csd_def)

lemma cat_csd_ok:
  "0 < b \<Longrightarrow> length s \<le> 2047 \<Longrightarrow> cat_csd s (b, m) = (EFI_SUCCESS, b - 1, m\<lparr>Csd := Some (csd m @ s)\<rparr>)"
  by (simp add: cat_csd_def CatPrint_def csd_def)

lemma and_then_ok [simp]: "f s = (EFI_SUCCESS, s') \<Longrightarrow> and_then f g s = g s'"
  by (simp add: and_then_def)

text \<open>\<open>AppendCSDNum2\<close> is printing in base 25, one call of \<open>CatPrint\<close> per letter.\<close>

lemma AppendCSDNum2_b25:
  "length (b25 n) \<le> b \<Longrightarrow> AppendCSDNum2 n (b, m) = (EFI_SUCCESS, b - length (b25 n), m\<lparr>Csd := Some (csd m @ b25 n)\<rparr>)"
proof (induction n arbitrary: b m rule: b25.induct)
  case (1 n)
  show ?case
  proof (cases "n < 25")
    case True
    then show ?thesis using 1(2) by (subst AppendCSDNum2.simps) (simp add: b25.simps [of n] cat_csd_ok)
  next
    case False
    have b: "b25 n = b25 (n div 25) @ [of_nat (n mod 25) + 97]" using False by (subst b25.simps) simp
    have rec: "AppendCSDNum2 (n div 25) (b, m)
        = (EFI_SUCCESS, b - length (b25 (n div 25)), m\<lparr>Csd := Some (csd m @ b25 (n div 25))\<rparr>)"
      by (rule 1(1)) (use False 1(2) b in simp_all)
    have "AppendCSDNum2 n (b, m) = cat_csd [of_nat (n mod 25) + 97]
        (b - length (b25 (n div 25)), m\<lparr>Csd := Some (csd m @ b25 (n div 25))\<rparr>)"
      using False by (subst AppendCSDNum2.simps) (simp add: and_then_def rec div_eq_0_iff)
    then show ?thesis using 1(2) by (simp add: b cat_csd_ok)
  qed
qed

lemma length_dec: "n < 10 ^ k \<Longrightarrow> 0 < k \<Longrightarrow> length (dec_nat n) \<le> k"
proof (induction n arbitrary: k rule: dec_nat.induct)
  case (1 n)
  show ?case
  proof (cases "n < 10")
    case True
    then show ?thesis using 1(3) by (subst dec_nat.simps) simp
  next
    case False
    obtain k' where k: "k = Suc k'" "0 < k'"
    proof (cases k)
      case (Suc j)
      then show ?thesis using that [of j] False 1(2) by (cases j) simp_all
    qed (use 1(3) in simp)
    have "length (dec_nat (n div 10)) \<le> k'"
      by (rule 1(1)) (use False k 1(2) in \<open>simp_all add: less_mult_imp_div_less mult.commute\<close>)
    then show ?thesis using False k by (subst dec_nat.simps) simp
  qed
qed

lemma dec_int64: "n < 2 ^ 63 \<Longrightarrow> dec_int (int64 (int n)) = dec_nat n"
  by (simp add: int64_def dec_int_def zmod_trivial_iff)

definition num_text :: "bool \<Rightarrow> nat \<Rightarrow> w16 list" where
  "num_text d n = (if d then dec_nat n else b25 n)"

lemma num_text_len: "n < 2 ^ 63 \<Longrightarrow> d \<Longrightarrow> length (num_text d n) \<le> 2047"
  using length_dec [of n 20] by (simp add: num_text_def)

lemma AppendCSDNum_ok:
  assumes "n < 2 ^ 63" and "length (num_text (Digital m) n) \<le> b"
  shows "\<exists>b'. b - length (num_text (Digital m) n) \<le> b' \<and>
     AppendCSDNum n (b, m) = (EFI_SUCCESS, b', m\<lparr>Csd := Some (csd m @ num_text (Digital m) n), Digital := \<not> Digital m\<rparr>)"
proof (cases "Digital m")
  case True
  have b: "0 < b" using assms(2) True blocks_nonempty(2) [of n] by (cases b) (auto simp: num_text_def)
  have l: "length (dec_nat n) \<le> 2047" using num_text_len [OF assms(1) True] True by (simp add: num_text_def)
  have "AppendCSDNum n (b, m) = (EFI_SUCCESS, b - 1, m\<lparr>Csd := Some (csd m @ num_text (Digital m) n), Digital := \<not> Digital m\<rparr>)"
    using cat_csd_ok [OF b l, of m] True assms(1)
    by (simp add: AppendCSDNum_def dec_int64 flip_digital_def num_text_def)
  moreover have "b - length (num_text (Digital m) n) \<le> b - 1"
    using True blocks_nonempty(2) [of n] by (cases "dec_nat n") (simp_all add: num_text_def)
  ultimately show ?thesis by blast
next
  case False
  then show ?thesis
    using AppendCSDNum2_b25 [of n b m] assms(2) by (simp add: AppendCSDNum_def flip_digital_def num_text_def)
qed

text \<open>What a sequence of numbers does.\<close>

definition appended :: "nat list \<Rightarrow> DEVICE_CONSIST_MAPPING_INFO \<Rightarrow> DEVICE_CONSIST_MAPPING_INFO" where
  "appended ns m = (if ns = [] then m
     else m\<lparr>Csd := Some (csd m @ csd_text (Digital m) ns), Digital := (Digital m \<noteq> odd (length ns))\<rparr>)"

lemma csd_text_append: "csd_text d (ns @ ms) = csd_text d ns @ csd_text (d \<noteq> odd (length ns)) ms"
proof (induction ns arbitrary: d)
  case (Cons n ns)
  then show ?case by (cases d) simp_all
qed simp

lemma appended_append: "appended (ns @ ms) m = appended ms (appended ns m)"
  by (cases "Digital m"; cases "even (length ns)") (auto simp: appended_def csd_text_append)

lemma csd_appended: "csd (appended ns m) = csd m @ csd_text (Digital m) ns"
  by (auto simp: appended_def)

lemma appended_upd [simp]:
  "appended ns (m\<lparr>Mtd := t\<rparr>) = (appended ns m)\<lparr>Mtd := t\<rparr>" "Mtd (appended ns m) = Mtd m" "Hi (appended ns m) = Hi m"
  by (simp_all add: appended_def)

lemma appended_Nil [simp]: "appended [] m = m"
  by (simp add: appended_def)

text \<open>A computation that appends the numbers \<open>ns\<close> and needs no more memory than their text has places.\<close>

definition appends :: "(item \<Rightarrow> efi_status \<times> item) \<Rightarrow> nat list \<Rightarrow> bool" where
  "appends f ns \<longleftrightarrow> (\<forall>b m. length (csd_text (Digital m) ns) \<le> b \<longrightarrow>
     (\<exists>b'. b - length (csd_text (Digital m) ns) \<le> b' \<and> f (b, m) = (EFI_SUCCESS, b', appended ns m)))"

lemma appends_num: "n < 2 ^ 63 \<Longrightarrow> appends (AppendCSDNum n) [n]"
  using AppendCSDNum_ok [of n] by (simp add: appends_def appended_def num_text_def)

lemma Digital_appended: "Digital (appended ns m) = (Digital m \<noteq> odd (length ns))"
  by (auto simp: appended_def)

lemma appends_then: "appends f ns \<Longrightarrow> appends g ms \<Longrightarrow> appends (and_then f g) (ns @ ms)"
  unfolding appends_def
proof (intro allI impI)
  fix b m
  let ?d = "Digital m" and ?e = "Digital (appended ns m)"
  assume f: "\<forall>b m. length (csd_text (Digital m) ns) \<le> b \<longrightarrow>
      (\<exists>b'. b - length (csd_text (Digital m) ns) \<le> b' \<and> f (b, m) = (EFI_SUCCESS, b', appended ns m))"
    and g: "\<forall>b m. length (csd_text (Digital m) ms) \<le> b \<longrightarrow>
      (\<exists>b'. b - length (csd_text (Digital m) ms) \<le> b' \<and> g (b, m) = (EFI_SUCCESS, b', appended ms m))"
  assume "length (csd_text ?d (ns @ ms)) \<le> b"
  then have b: "length (csd_text ?d ns) + length (csd_text ?e ms) \<le> b"
    by (simp add: csd_text_append Digital_appended)
  then obtain b' where b': "b - length (csd_text ?d ns) \<le> b'" "f (b, m) = (EFI_SUCCESS, b', appended ns m)"
    using f [rule_format, of m b] by auto
  have "length (csd_text ?e ms) \<le> b'" using b b'(1) by linarith
  then obtain b'' where "b' - length (csd_text ?e ms) \<le> b''"
      "g (b', appended ns m) = (EFI_SUCCESS, b'', appended ms (appended ns m))"
    using g [rule_format, of "appended ns m" b'] by blast
  with b' b show "\<exists>b'. b - length (csd_text ?d (ns @ ms)) \<le> b' \<and>
      and_then f g (b, m) = (EFI_SUCCESS, b', appended (ns @ ms) m)"
    by (intro exI [of _ b'']) (simp add: and_then_def appended_append csd_text_append Digital_appended)
qed

lemmas appends_nums = appends_then [OF appends_num appends_num, simplified]

section \<open>Numbers and strings read back\<close>

lemma length_b25: "n < 25 ^ k \<Longrightarrow> 0 < k \<Longrightarrow> length (b25 n) \<le> k"
proof (induction n arbitrary: k rule: b25.induct)
  case (1 n)
  show ?case
  proof (cases "n < 25")
    case True
    then show ?thesis using 1(3) by (subst b25.simps) simp
  next
    case False
    obtain k' where k: "k = Suc k'" "0 < k'"
    proof (cases k)
      case (Suc j)
      then show ?thesis using that [of j] False 1(2) by (cases j) simp_all
    qed (use 1(3) in simp)
    have "length (b25 (n div 25)) \<le> k'"
      by (rule 1(1)) (use False k 1(2) in \<open>simp_all add: less_mult_imp_div_less mult.commute\<close>)
    then show ?thesis using False k by (subst b25.simps) simp
  qed
qed

text \<open>
  \<open>AppendCSDNum2\<close> is equivalent to printing in base 25: for every number of 64 bits it ends, with
  at most 14 calls of \<open>CatPrint\<close>, having appended letters from \<open>a\<close> to \<open>y\<close> whose value as digits is the
  number.
\<close>

theorem AppendCSDNum2_reads_back:
  assumes "n < 2 ^ 64" and "14 \<le> budget"
  shows "\<exists>s. AppendCSDNum2 n (budget, m) = (EFI_SUCCESS, budget - length s, m\<lparr>Csd := Some (csd m @ s)\<rparr>)
     \<and> length s \<le> 14 \<and> (\<forall>c\<in>set s. 97 \<le> c \<and> c \<le> 121) \<and> val25 s = n"
proof -
  have len: "length (b25 n) \<le> 14" by (rule length_b25) (use assms(1) in simp_all)
  moreover have "97 \<le> c \<and> c \<le> 121" if "c \<in> set (b25 n)" for c using that
  proof (induction n rule: b25.induct)
    case (1 n)
    have "unat (of_nat (n mod 25) + 97 :: w16) = n mod 25 + 97" by (simp add: unat_word_ariths unat_small)
    moreover have "n mod 25 < 25" by simp
    ultimately have "97 \<le> (of_nat (n mod 25) + 97 :: w16) \<and> of_nat (n mod 25) + 97 \<le> (121 :: w16)"
      unfolding word_le_nat_alt by simp
    then show ?case using 1 by (auto simp: b25.simps [of n] split: if_splits)
  qed
  ultimately show ?thesis using AppendCSDNum2_b25 [of n budget m] assms(2) by (intro exI [of _ "b25 n"]) simp
qed

theorem AppendCSDNum2_reads_back_witness:
  "\<exists>s. AppendCSDNum2 (2 ^ 64 - 1) (20, \<lparr>Hi = 0, Mtd = MTDTypeUnknown, Csd = None, Digital = False\<rparr>)
      = (EFI_SUCCESS, 20 - length s, \<lparr>Hi = 0, Mtd = MTDTypeUnknown, Csd = Some s, Digital = False\<rparr>) \<and> val25 s = 2 ^ 64 - 1"
  using AppendCSDNum2_reads_back [of "2 ^ 64 - 1" 20 "\<lparr>Hi = 0, Mtd = MTDTypeUnknown, Csd = None, Digital = False\<rparr>"]
  by (auto simp: csd_def)

text \<open>Hexadecimal digits and the text they are appended as.\<close>

definition hex_val :: "w16 \<Rightarrow> nat option" where
  "hex_val c = (if 48 \<le> c \<and> c \<le> 57 then Some (unat c - 48)
     else if 97 \<le> c \<and> c \<le> 102 then Some (unat c - 87)
     else if 65 \<le> c \<and> c \<le> 70 then Some (unat c - 55) else None)"

definition char_text :: "bool \<Rightarrow> nat \<Rightarrow> w16 list" where
  "char_text d v = (if d then (if v = 1 then [49, 54] else if v < 10 then [of_nat v + 48] else [49, of_nat (v - 10) + 48])
     else [of_nat v + 97])"

lemma hex_cases: "hex_val c = Some v \<Longrightarrow> v < 16"
  by (auto simp: hex_val_def word_le_nat_alt split: if_splits)

definition hex_chars :: "w16 list" where
  "hex_chars = map of_nat ([48..<58] @ [97..<103] @ [65..<71])"

lemma hex_val_chars: "hex_val c = Some v \<Longrightarrow> c \<in> set hex_chars"
proof -
  assume "hex_val c = Some v"
  then have "unat c \<in> {48..<58} \<union> ({97..<103} \<union> {65..<71})"
    by (auto simp: hex_val_def word_le_nat_alt split: if_splits)
  then have "(of_nat (unat c) :: w16) \<in> set hex_chars" unfolding hex_chars_def set_map set_append set_upt by (rule imageI)
  then show ?thesis by simp
qed

lemma hex_chars_text:
  "\<forall>c\<in>set hex_chars. digital_char c = map_option (char_text True) (hex_val c) \<and> letter_char c = map_option (char_text False) (hex_val c)"
  by code_simp

lemma char_fun_text:
  "hex_val c = Some v \<Longrightarrow> (if d then digital_char else letter_char) c = Some (char_text d v)"
  using hex_chars_text hex_val_chars by (cases d) auto

text \<open>The texts of the 16 digits: none is a prefix of another with something behind it.\<close>

lemma char_text_inj:
  assumes "v < 16" and "w < 16" and "char_text d v @ xs = char_text d w @ ys"
  shows "v = w \<and> xs = ys"
proof -
  have "\<forall>d\<in>{True, False}. \<forall>v\<in>set [0..<16]. \<forall>w\<in>set [0..<16].
      take (length (char_text d w)) (char_text d v) = take (length (char_text d v)) (char_text d w) \<longrightarrow> v = w"
    by code_simp
  moreover have "take (length (char_text d w)) (char_text d v) = take (length (char_text d v)) (char_text d w)"
    using assms(3) by (metis append_eq_append_conv_if take_all_iff append_take_drop_id linorder_le_cases take_all)
  ultimately have "v = w" using assms(1,2) by (cases d) auto
  then show ?thesis using assms(3) by simp
qed

lemma append_chars_status: "append_chars f s it = (st, it') \<Longrightarrow> \<not> EFI_ERROR st \<Longrightarrow> st = EFI_SUCCESS"
  by (induction s arbitrary: it) (auto simp: and_then_def split: option.splits prod.splits if_splits)

lemma append_chars_hex:
  "append_chars (if d then digital_char else letter_char) s (b, m) = (EFI_SUCCESS, it) \<Longrightarrow> \<forall>c\<in>set s. hex_val c \<noteq> None \<Longrightarrow>
   csd (snd it) = csd m @ concat (map (\<lambda>c. char_text d (the (hex_val c))) s)"
proof (induction s arbitrary: b m)
  case (Cons c s)
  obtain v where v: "hex_val c = Some v" using Cons.prems(2) by auto
  have len: "length (char_text d v) \<le> 2047" by (simp add: char_text_def)
  have f: "append_chars (if d then digital_char else letter_char) (c # s) (b, m)
      = and_then (cat_csd (char_text d v)) (append_chars (if d then digital_char else letter_char) s) (b, m)"
    using char_fun_text [OF v, of d] by (simp only: append_chars.simps option.case)
  have b: "0 < b" using Cons.prems(1) unfolding f by (cases b) (auto simp: and_then_def cat_csd_def CatPrint_def)
  have "append_chars (if d then digital_char else letter_char) s (b - 1, m\<lparr>Csd := Some (csd m @ char_text d v)\<rparr>) = (EFI_SUCCESS, it)"
    using Cons.prems(1) unfolding f by (simp add: and_then_def cat_csd_ok [OF b len])
  then show ?case using Cons.IH [of "b - 1" "m\<lparr>Csd := Some (csd m @ char_text d v)\<rparr>"] Cons.prems(2) v by simp
qed auto

lemma hex_text_inj:
  "concat (map (char_text d) vs) = concat (map (char_text d) ws) \<Longrightarrow> \<forall>v\<in>set vs. v < 16 \<Longrightarrow> \<forall>w\<in>set ws. w < 16 \<Longrightarrow> vs = ws"
proof (induction vs arbitrary: ws)
  case Nil
  then show ?case by (cases ws) (auto simp: char_text_def split: if_splits)
next
  case (Cons v vs)
  then obtain w ws' where ws: "ws = w # ws'" by (cases ws) (auto simp: char_text_def split: if_splits)
  then show ?case using Cons char_text_inj [of v w d "concat (map (char_text d) vs)" "concat (map (char_text d) ws')"] by auto
qed

text \<open>
  \<open>AppendCSDStr\<close> loses nothing of a hexadecimal string, neither in letters nor in digits: if two
  strings leave the same text behind, they have the same digits (up to the case of letters). In
  digits this needs the replacement of 1 by 16, since a letter becomes 1 and another digit.
\<close>

theorem AppendCSDStr_injective:
  assumes "AppendCSDStr s (b, m) = (EFI_SUCCESS, it)" and "AppendCSDStr s' (b', m) = (EFI_SUCCESS, it')"
    and "\<forall>c\<in>set s. hex_val c \<noteq> None" and "\<forall>c\<in>set s'. hex_val c \<noteq> None" and "csd (snd it) = csd (snd it')"
  shows "map hex_val s = map hex_val s'"
proof -
  let ?f = "if Digital m then digital_char else letter_char" and ?v = "map (\<lambda>c. the (hex_val c))"
  have t: "csd (snd it) = csd m @ concat (map (char_text (Digital m)) (?v s))"
    if a: "AppendCSDStr s (b, m) = (EFI_SUCCESS, it)" and h: "\<forall>c\<in>set s. hex_val c \<noteq> None" for s b it
  proof -
    obtain it1 where "append_chars ?f s (b, m) = (EFI_SUCCESS, it1)" "it = flip_digital it1"
      using a append_chars_status [of ?f s "(b, m)"]
      by (cases "append_chars ?f s (b, m)") (auto simp: AppendCSDStr_def split: if_splits)
    then show ?thesis using append_chars_hex [of "Digital m" s b m it1] h
      by (simp add: flip_digital_def comp_def split: prod.splits)
  qed
  have "?v s = ?v s'"
  proof (rule hex_text_inj)
    show "concat (map (char_text (Digital m)) (?v s)) = concat (map (char_text (Digital m)) (?v s'))"
      using t [OF assms(1,3)] t [OF assms(2,4)] assms(5) by simp
  qed (use assms(3,4) hex_cases in fastforce)+
  then have "map Some (?v s) = map Some (?v s')" by simp
  then show ?thesis using assms(3,4) by (simp add: comp_def cong: map_cong)
qed

theorem AppendCSDStr_injective_witness:
  "map hex_val [49, 65] = map hex_val [49, 97]"
proof (rule AppendCSDStr_injective)
  let ?m = "\<lparr>Hi = 0, Mtd = MTDTypeUnknown, Csd = None, Digital = True\<rparr>"
  show "AppendCSDStr [49, 65] (9, ?m) = (EFI_SUCCESS, 7, \<lparr>Hi = 0, Mtd = MTDTypeUnknown, Csd = Some [49, 54, 49, 48], Digital = False\<rparr>)"
    and "AppendCSDStr [49, 97] (9, ?m) = (EFI_SUCCESS, 7, \<lparr>Hi = 0, Mtd = MTDTypeUnknown, Csd = Some [49, 54, 49, 48], Digital = False\<rparr>)"
    by (simp_all add: AppendCSDStr_def digital_char_def and_then_def cat_csd_def CatPrint_def flip_digital_def)
qed (simp_all add: hex_val_def)

end
