(* ===== verification/Sfs_Names_Thms.thy ===== *)
theory Sfs_Names_Thms
  imports Sfs_Mapping_Thms "HOL-Library.Multiset"
begin

text \<open>
  The promises of drive names: the table of controllers, the names made with it, and what the
  names of two drives have to do with each other.
\<close>

section \<open>The table\<close>

text \<open>What the code relies on of \<open>DevicePathCompare\<close>: it compares device paths three-way.\<close>

locale dev_path_order = three_way cmp for cmp :: "dev_path \<Rightarrow> dev_path \<Rightarrow> int"
begin

lemma index_of_None: "index_of cmp hi tab = None \<longleftrightarrow> (\<forall>t\<in>set tab. cmp t hi \<noteq> 0)"
  by (induction tab) auto

lemma index_of_less: "index_of cmp hi tab = Some i \<Longrightarrow> i < length tab \<and> cmp (tab ! i) hi = 0"
  by (induction tab arbitrary: i) (auto split: if_splits)

lemma index_of_classes:
  "list_all2 (\<lambda>x y. cmp x y = 0) xs ys \<Longrightarrow> index_of cmp hi xs = index_of cmp hi ys"
proof (induction xs ys rule: list_all2_induct)
  case (Cons x xs y ys)
  have "cmp x hi = 0 \<longleftrightarrow> cmp y hi = 0"
    using Cons.hyps(1) cmp_sym [of x y] cmp_equiv_trans [of x y hi] cmp_equiv_trans [of y x hi] by blast
  then show ?case using Cons.IH by simp
qed simp

lemma index_of_equiv: "cmp a b = 0 \<Longrightarrow> index_of cmp a tab = index_of cmp b tab"
proof (induction tab)
  case (Cons t tab)
  have "cmp t a = 0 \<longleftrightarrow> cmp t b = 0"
    using Cons.prems cmp_sym [of a b] cmp_equiv_trans [of t a b] cmp_equiv_trans [of t b a] by blast
  then show ?case using Cons by simp
qed simp

lemma index_of_same:
  assumes "index_of cmp a tab = Some i" and "index_of cmp b tab = Some i"
  shows "cmp a b = 0"
  using index_of_less [OF assms(1)] index_of_less [OF assms(2)] cmp_sym cmp_equiv_trans by blast

end

text \<open>The controllers of the handles that carry a block device or a file system.\<close>

definition controllers :: "(dev_path option \<times> bool) list \<Rightarrow> dev_path set" where
  "controllers hs = {GetHIDevicePath p | p. (Some p, True) \<in> set hs}"

lemma controllers_Cons:
  "controllers ((dp, s) # hs) = (case dp of Some p \<Rightarrow> if s then {GetHIDevicePath p} else {} | None \<Rightarrow> {}) \<union> controllers hs"
  by (auto simp: controllers_def split: option.splits)

lemma controllers_mset: "mset hs = mset hs' \<Longrightarrow> controllers hs = controllers hs'"
  by (auto simp: controllers_def dest: mset_eq_setD)

lemma add_controllers_source: "set (add_controllers cmp hs tab) \<subseteq> set tab \<union> controllers hs"
proof (induction hs arbitrary: tab)
  case (Cons h hs)
  obtain dp s where h: "h = (dp, s)" by force
  show ?case
  proof (cases dp)
    case None
    then show ?thesis using Cons.IH [of tab] by (simp add: h controllers_Cons)
  next
    case (Some p)
    then show ?thesis using Cons.IH [of tab] Cons.IH [of "tab @ [GetHIDevicePath p]"]
      by (auto simp: h controllers_Cons Let_def)
  qed
qed simp

lemma add_controllers_keeps: "set tab \<subseteq> set (add_controllers cmp hs tab)"
  by (induction cmp hs tab rule: add_controllers.induct) (auto simp: Let_def split: option.splits)

context dev_path_order
begin

lemma add_controllers_covers: "\<forall>c\<in>controllers hs. \<exists>t\<in>set (add_controllers cmp hs tab). cmp t c = 0"
proof (induction hs arbitrary: tab)
  case Nil
  then show ?case by (simp add: controllers_def)
next
  case (Cons h hs)
  obtain dp s where h: "h = (dp, s)" by force
  have tab: "t \<in> set tab \<Longrightarrow> t \<in> set (add_controllers cmp hs tab)" for t tab using add_controllers_keeps by blast
  show ?case using Cons.IH tab cmp_refl unfolding h controllers_Cons
    by (fastforce simp: Let_def split: option.splits if_splits)
qed

lemma add_controllers_apart:
  "distinct tab \<Longrightarrow> pairwise (\<lambda>x y. cmp x y \<noteq> 0) (set tab) \<Longrightarrow>
   distinct (add_controllers cmp hs tab) \<and> pairwise (\<lambda>x y. cmp x y \<noteq> 0) (set (add_controllers cmp hs tab))"
proof (induction hs arbitrary: tab)
  case (Cons h hs)
  obtain dp s where h: "h = (dp, s)" by force
  have "distinct (tab @ [hi]) \<and> pairwise (\<lambda>x y. cmp x y \<noteq> 0) (set (tab @ [hi]))" if "\<forall>t\<in>set tab. cmp t hi \<noteq> 0" for hi
    using that Cons.prems cmp_refl cmp_sym by (auto simp: pairwise_insert)
  then show ?case using Cons by (auto simp: h Let_def split: option.splits)
qed simp

text \<open>With a sorting function that sorts.\<close>

lemma table_props:
  assumes "mset tab = mset (add_controllers cmp hs [])" and "sorted_wrt (\<lambda>x y. cmp x y \<le> 0) tab"
  shows "sorted_wrt (\<lambda>x y. cmp x y < 0) tab" and "set tab \<subseteq> controllers hs"
    and "\<forall>c\<in>controllers hs. \<exists>t\<in>set tab. cmp t c = 0"
proof -
  have set: "set tab = set (add_controllers cmp hs [])" by (rule mset_eq_setD [OF assms(1)])
  have "distinct tab" using add_controllers_apart [of "[]" hs] mset_eq_imp_distinct_iff [OF assms(1)] by simp
  then show "sorted_wrt (\<lambda>x y. cmp x y < 0) tab"
    using strictly_sorted [OF assms(2)] add_controllers_apart [of "[]" hs] by (simp add: set)
  show "set tab \<subseteq> controllers hs" using add_controllers_source [of cmp hs "[]"] by (simp add: set)
  show "\<forall>c\<in>controllers hs. \<exists>t\<in>set tab. cmp t c = 0" using add_controllers_covers [of hs "[]"] by (simp add: set)
qed

lemma tables_agree:
  assumes "mset tab = mset (add_controllers cmp hs [])" "sorted_wrt (\<lambda>x y. cmp x y \<le> 0) tab"
    and "mset tab' = mset (add_controllers cmp hs' [])" "sorted_wrt (\<lambda>x y. cmp x y \<le> 0) tab'"
    and "controllers hs = controllers hs'"
  shows "index_of cmp hi tab = index_of cmp hi tab'"
proof (rule index_of_classes, rule strict_sorted_classes)
  note a = table_props [OF assms(1,2)] and b = table_props [OF assms(3,4)]
  show "sorted_wrt (\<lambda>x y. cmp x y < 0) tab" "sorted_wrt (\<lambda>x y. cmp x y < 0) tab'" by (rule a(1), rule b(1))
  show "\<forall>x\<in>set tab. \<exists>y\<in>set tab'. cmp x y = 0" using a(2) b(3) assms(5) cmp_sym by blast
  show "\<forall>y\<in>set tab'. \<exists>x\<in>set tab. cmp x y = 0" using b(2) a(3) assms(5) by blast
qed

end

section \<open>Numbers and media of a device path\<close>

text \<open>
  The numbers a node leaves in the name, its medium, and the nodes for which this is all: not those
  whose text comes from uninitialised memory, not the vendor nodes and the decoded iSCSI targets,
  and USB nodes only if the USB stack answers.
\<close>

definition is_floppy :: "dp_node \<Rightarrow> bool" where
  "is_floppy nd \<longleftrightarrow> fld 0 4 nd mod 0x10000 = 0x41D0 \<and> fld 0 4 nd div 0x10000 = 0x0604"

definition node_nums :: "dp_node \<Rightarrow> nat list" where
  "node_nums nd = (let k = (NodeType nd, NodeSubType nd) in
     if k = (2, 1) \<and> is_floppy nd then [fld 4 4 nd]
     else if k = (3, 1) then [fld 0 1 nd * 2 + fld 1 1 nd]
     else if k = (3, 2) then [fld 0 2 nd, fld 2 2 nd]
     else if k = (3, 3) then [fld 4 8 nd, fld 12 8 nd]
     else if k = (3, 5) then [fld 0 1 nd, fld 1 1 nd]
     else if k = (3, 14) then [fld 4 8 nd, fld 12 1 nd, fld 13 1 nd, fld 14 1 nd]
     else if k = (3, 17) then [fld 0 1 nd]
     else if k = (3, 18) then [fld 0 2 nd, fld 2 2 nd, fld 4 2 nd]
     else if k \<in> {(3, 6), (4, 1), (4, 2)} then [fld 0 4 nd]
     else [])"

definition node_mtd :: "sfs_env \<Rightarrow> dev_path \<Rightarrow> dp_node \<Rightarrow> MTD_TYPE \<Rightarrow> MTD_TYPE" where
  "node_mtd env orig nd t = (let k = (NodeType nd, NodeSubType nd) in
     if k = (2, 1) \<and> is_floppy nd then MTDTypeFloppy
     else if k = (4, 2) then MTDTypeCDRom
     else if k = (4, 1) \<and> t = MTDTypeUnknown then MTDTypeHardDisk
     else if k = (3, 5) \<and> PcdUsbExtendedDecode env \<and> fst (snd (UsbInterface env orig)) = 8 \<and> t = MTDTypeUnknown
     then (let sub = snd (snd (UsbInterface env orig)) in
           if sub = 6 then MTDTypeHardDisk else if sub = 5 \<or> sub = 4 then MTDTypeFloppy
           else if sub = 2 then MTDTypeCDRom else t)
     else t)"

definition plain :: "sfs_env \<Rightarrow> dev_path \<Rightarrow> dp_node \<Rightarrow> bool" where
  "plain env orig nd \<longleftrightarrow> (let k = (NodeType nd, NodeSubType nd) in
     k \<notin> {(3, 4), (3, 9), (3, 10), (3, 11), (3, 12), (3, 13), (4, 3)}
     \<and> (k = (3, 19) \<longrightarrow> \<not> PcdShellDecodeIScsiMapNames env)
     \<and> (k = (3, 5) \<and> PcdUsbExtendedDecode env \<longrightarrow> fst (UsbInterface env orig) = EFI_SUCCESS))"

abbreviation serial :: "dp_node \<Rightarrow> serial_fun" where
  "serial nd \<equiv> find_serial (NodeType nd, NodeSubType nd) DevPathConsistMappingTable"

text \<open>What a node does, up to the memory it needs.\<close>

definition node_ok :: "sfs_env \<Rightarrow> dev_path \<Rightarrow> dp_node \<Rightarrow> bool" where
  "node_ok env orig nd \<longleftrightarrow> (\<forall>b m. length (csd_text (Digital m) (node_nums nd)) \<le> b \<longrightarrow>
     (\<exists>b'. b - length (csd_text (Digital m) (node_nums nd)) \<le> b' \<and>
        serial nd env nd orig (b, m) = (EFI_SUCCESS, b', (appended (node_nums nd) m)\<lparr>Mtd := node_mtd env orig nd (Mtd m)\<rparr>)))"

lemma appended_same_mtd: "(appended ns m)\<lparr>Mtd := Mtd m\<rparr> = appended ns m"
  by (cases m) (simp add: appended_def)

lemma node_okI:
  assumes "serial nd env nd orig = f" and "appends f (node_nums nd)" and "\<And>t. node_mtd env orig nd t = t"
  shows "node_ok env orig nd"
  using assms(2) by (simp add: node_ok_def appends_def assms(1,3) appended_same_mtd)

lemma appends_Default: "appends (\<lambda>it. (EFI_SUCCESS, it)) []"
  by (simp add: appends_def)

lemmas node_simps = DevPathConsistMappingTable_def dp_consts node_nums_def node_mtd_def Let_def

lemma appends_three:
  "\<lbrakk>a < 2 ^ 63; b < 2 ^ 63; c < 2 ^ 63\<rbrakk> \<Longrightarrow>
   appends (and_then (AppendCSDNum a) (and_then (AppendCSDNum b) (AppendCSDNum c))) [a, b, c]"
  using appends_then [OF appends_num [of a] appends_nums [of b c]] by simp

lemma appends_four:
  "\<lbrakk>a < 2 ^ 63; b < 2 ^ 63; c < 2 ^ 63; d < 2 ^ 63\<rbrakk> \<Longrightarrow>
   appends (and_then (AppendCSDNum a) (and_then (AppendCSDNum b) (and_then (AppendCSDNum c) (AppendCSDNum d)))) [a, b, c, d]"
  using appends_then [OF appends_num [of a] appends_three [of b c d]] by simp


text \<open>Nodes that set the medium before or after they append.\<close>

lemma node_okI_before:
  assumes "\<And>b m. serial nd env nd orig (b, m) = f (b, m\<lparr>Mtd := node_mtd env orig nd (Mtd m)\<rparr>)"
    and "appends f (node_nums nd)"
  shows "node_ok env orig nd"
  unfolding node_ok_def
proof (intro allI impI)
  fix b and m :: DEVICE_CONSIST_MAPPING_INFO
  assume "length (csd_text (Digital m) (node_nums nd)) \<le> b"
  then show "\<exists>b'. b - length (csd_text (Digital m) (node_nums nd)) \<le> b' \<and>
      serial nd env nd orig (b, m) = (EFI_SUCCESS, b', (appended (node_nums nd) m)\<lparr>Mtd := node_mtd env orig nd (Mtd m)\<rparr>)"
    using assms(2) [unfolded appends_def, rule_format, of "m\<lparr>Mtd := node_mtd env orig nd (Mtd m)\<rparr>" b]
    by (simp add: assms(1))
qed

lemma node_ok_usb:
  assumes k: "(NodeType nd, NodeSubType nd) = (3, 5)" and "plain env orig nd"
    and "\<forall>n\<in>set (node_nums nd). n < 2 ^ 63"
  shows "node_ok env orig nd"
  unfolding node_ok_def
proof (intro allI impI)
  fix b and m :: DEVICE_CONSIST_MAPPING_INFO
  let ?ns = "[fld 0 1 nd, fld 1 1 nd]"
  obtain st cls sub where u: "UsbInterface env orig = (st, cls, sub)" by (cases "UsbInterface env orig") auto
  have nums: "node_nums nd = ?ns" using k by (simp add: node_nums_def Let_def)
  assume "length (csd_text (Digital m) (node_nums nd)) \<le> b"
  then obtain b' where b': "b - length (csd_text (Digital m) ?ns) \<le> b'"
    "and_then (AppendCSDNum (fld 0 1 nd)) (AppendCSDNum (fld 1 1 nd)) (b, m) = (EFI_SUCCESS, b', appended ?ns m)"
    using appends_nums [of "fld 0 1 nd" "fld 1 1 nd"] assms(3) unfolding appends_def nums by auto
  have ok: "PcdUsbExtendedDecode env \<Longrightarrow> st = EFI_SUCCESS" using assms(1,2) by (simp add: plain_def u)
  have "serial nd env nd orig = DevPathSerialUsb env nd orig" using k by (simp add: DevPathConsistMappingTable_def dp_consts)
  moreover have "DevPathSerialUsb env nd orig (b, m) =
      (EFI_SUCCESS, b', (appended ?ns m)\<lparr>Mtd := node_mtd env orig nd (Mtd m)\<rparr>)"
    unfolding DevPathSerialUsb_def
      and_then_ok [where f = "and_then (AppendCSDNum (fld 0 1 nd)) (AppendCSDNum (fld 1 1 nd))", OF b'(2)]
    using k ok by (simp add: appended_same_mtd u node_mtd_def Let_def usb_medium_def set_mtd_def)
  ultimately show "\<exists>b'. b - length (csd_text (Digital m) (node_nums nd)) \<le> b' \<and>
      serial nd env nd orig (b, m) = (EFI_SUCCESS, b', (appended (node_nums nd) m)\<lparr>Mtd := node_mtd env orig nd (Mtd m)\<rparr>)"
    using b'(1) nums by auto
qed


text \<open>Nodes the table has no entry for, or the empty one.\<close>

lemma node_ok_other:
  assumes "(NodeType nd, NodeSubType nd) \<notin> fst ` set (tl DevPathConsistMappingTable)"
  shows "node_ok env orig nd"
proof (rule node_okI [OF refl])
  define k where "k = (NodeType nd, NodeSubType nd)"
  have ne: "k \<noteq> (2, 1) \<and> k \<noteq> (3, 1) \<and> k \<noteq> (3, 2) \<and> k \<noteq> (3, 3) \<and> k \<noteq> (3, 5) \<and> k \<noteq> (3, 14) \<and> k \<noteq> (3, 17)
      \<and> k \<noteq> (3, 18) \<and> k \<notin> {(3, 6), (4, 1), (4, 2)}"
    using assms unfolding k_def [symmetric] by (simp add: DevPathConsistMappingTable_def dp_consts)
  then have nums: "node_nums nd = []" unfolding node_nums_def Let_def k_def [symmetric] by simp
  show "node_mtd env orig nd t = t" for t using ne unfolding node_mtd_def Let_def k_def [symmetric] by simp
  have "serial nd = DevPathSerialDefault"
    using assms unfolding k_def [symmetric] by (simp add: DevPathConsistMappingTable_def dp_consts)
  then show "appends (serial nd env nd orig) (node_nums nd)"
    by (simp add: nums DevPathSerialDefault_def [abs_def] appends_Default)
qed

lemma node_ok_messaging:
  assumes "NodeType nd = 3" and "plain env orig nd" and small: "\<forall>n\<in>set (node_nums nd). n < 2 ^ 63"
  shows "node_ok env orig nd"
proof -
  consider "NodeSubType nd = 1" | "NodeSubType nd = 2" | "NodeSubType nd = 3" | "NodeSubType nd = 5" | "NodeSubType nd = 6"
    | "NodeSubType nd = 14" | "NodeSubType nd = 17" | "NodeSubType nd = 18" | "NodeSubType nd = 19"
    | "(NodeType nd, NodeSubType nd) \<notin> fst ` set (tl DevPathConsistMappingTable)"
    using assms(1,2) by (simp add: DevPathConsistMappingTable_def dp_consts plain_def) metis
  then show ?thesis
  proof cases
    case 4
    then show ?thesis using node_ok_usb assms by simp
  next
    case 10
    then show ?thesis by (rule node_ok_other)
  next
    case 9
    then show ?thesis using assms(1,2)
      by (intro node_okI [OF refl])
        (simp_all add: node_simps plain_def DevPathSerialIScsi_def [abs_def] appends_Default)
  qed (rule node_okI [OF refl], use assms(1) small in \<open>simp_all add: node_simps DevPathSerialAtapi_def [abs_def]
      DevPathSerialScsi_def [abs_def] DevPathSerialFibre_def [abs_def] DevPathSerialI2O_def [abs_def]
      DevPathSerialUart_def [abs_def] DevPathSerialLun_def [abs_def] DevPathSerialSata_def [abs_def]
      appends_num appends_nums appends_three appends_four\<close>)+
qed

lemma DevPathSerialAcpi_floppy:
  "DevPathSerialAcpi env nd orig it =
     (if is_floppy nd then AppendCSDNum (fld 4 4 nd) (set_mtd MTDTypeFloppy it) else (EFI_SUCCESS, it))"
  by (simp add: DevPathSerialAcpi_def is_floppy_def)

lemma plain_node_ok:
  assumes "plain env orig nd" and "\<forall>n\<in>set (node_nums nd). n < 2 ^ 63"
  shows "node_ok env orig nd"
proof -
  consider "NodeType nd = 3" | "NodeType nd = 2" "NodeSubType nd = 1" | "NodeType nd = 4" "NodeSubType nd = 1"
    | "NodeType nd = 4" "NodeSubType nd = 2"
    | "(NodeType nd, NodeSubType nd) \<notin> fst ` set (tl DevPathConsistMappingTable)"
    using assms(1) by (simp add: DevPathConsistMappingTable_def dp_consts plain_def) metis
  then show ?thesis
  proof cases
    case 1
    then show ?thesis using node_ok_messaging assms by blast
  next
    case 2
    show ?thesis
    proof (cases "is_floppy nd")
      case True
      then show ?thesis using 2 assms(2)
        by (intro node_okI_before [where f = "AppendCSDNum (fld 4 4 nd)"])
          (simp_all add: node_simps DevPathSerialAcpi_floppy set_mtd_def appends_num)
    next
      case False
      then show ?thesis using 2
        by (intro node_okI_before [where f = "\<lambda>it. (EFI_SUCCESS, it)"])
          (simp_all add: node_simps DevPathSerialAcpi_floppy appends_Default)
    qed
  next
    case 3
    then show ?thesis using assms(2)
      by (intro node_okI_before [where f = "AppendCSDNum (fld 0 4 nd)"])
        (simp_all add: node_simps DevPathSerialHardDrive_def set_mtd_def appends_num)
  next
    case 4
    then show ?thesis using assms(2)
      by (intro node_okI_before [where f = "AppendCSDNum (fld 0 4 nd)"])
        (simp_all add: node_simps DevPathSerialCdRom_def set_mtd_def appends_num)
  next
    case 5
    then show ?thesis by (rule node_ok_other)
  qed
qed

section \<open>Names\<close>

definition path_nums :: "dev_path \<Rightarrow> nat list" where
  "path_nums dp = concat (map node_nums dp)"

definition path_mtd :: "sfs_env \<Rightarrow> dev_path \<Rightarrow> MTD_TYPE" where
  "path_mtd env dp = fold (node_mtd env dp) dp MTDTypeUnknown"

text \<open>A path all of whose nodes are plain and for which there is memory and room for its name.\<close>

definition nameable :: "sfs_env \<Rightarrow> nat \<Rightarrow> dev_path \<Rightarrow> bool" where
  "nameable env budget dp \<longleftrightarrow>
     (\<forall>nd\<in>set dp. plain env dp nd \<and> (\<forall>n\<in>set (node_nums nd). n < 2 ^ 63))
     \<and> length (csd_text False (path_nums dp)) \<le> 2047 \<and> length (csd_text False (path_nums dp)) + 4 \<le> budget"

definition mtd_name :: "MTD_TYPE \<Rightarrow> w16 list" where
  "mtd_name t = (case map_of mMTDName t of None \<Rightarrow> [] | Some n \<Rightarrow> n)"

definition drive_name :: "sfs_env \<Rightarrow> nat \<Rightarrow> dev_path \<Rightarrow> w16 list" where
  "drive_name env i dp = mtd_name (path_mtd env dp) @ csd_text True (i # path_nums dp) @ [58]"

lemma info_loop_plain:
  assumes "\<forall>nd\<in>set dp. node_ok env orig nd" and "length (csd_text (Digital m) (path_nums dp)) \<le> b"
  shows "\<exists>b'. b - length (csd_text (Digital m) (path_nums dp)) \<le> b' \<and>
     info_loop env orig dp (b, m)
       = (EFI_SUCCESS, b', (appended (path_nums dp) m)\<lparr>Mtd := fold (node_mtd env orig) dp (Mtd m)\<rparr>)"
  using assms
proof (induction dp arbitrary: b m)
  case Nil
  then show ?case
    using appended_same_mtd [of _ "[]"] by (auto simp: path_nums_def)
next
  case (Cons nd dp)
  let ?ns = "node_nums nd" and ?ms = "path_nums dp" and ?t = "node_mtd env orig nd (Mtd m)"
  let ?m = "(appended ?ns m)\<lparr>Mtd := ?t\<rparr>"
  have len: "length (csd_text (Digital m) (path_nums (nd # dp))) =
      length (csd_text (Digital m) ?ns) + length (csd_text (Digital ?m) ?ms)"
    by (simp add: path_nums_def csd_text_append Digital_appended)
  obtain b1 where b1: "b - length (csd_text (Digital m) ?ns) \<le> b1" "serial nd env nd orig (b, m) = (EFI_SUCCESS, b1, ?m)"
    using Cons.prems len unfolding node_ok_def by (metis add_leE list.set_intros(1))
  moreover have "length (csd_text (Digital ?m) ?ms) \<le> b1" using Cons.prems(2) b1(1) unfolding len by linarith
  ultimately obtain b2 where "b1 - length (csd_text (Digital ?m) ?ms) \<le> b2"
    "info_loop env orig dp (b1, ?m) = (EFI_SUCCESS, b2, (appended ?ms ?m)\<lparr>Mtd := fold (node_mtd env orig) dp ?t\<rparr>)"
    using Cons.IH [of ?m b1] Cons.prems(1) by auto
  moreover have "appended (path_nums (nd # dp)) m = appended ?ms (appended ?ns m)"
    by (simp add: path_nums_def appended_append)
  ultimately show ?case using b1 by (intro exI [of _ b2]) (simp add: len)
qed

lemma int32_small: "i < 2 ^ 31 \<Longrightarrow> dec_int (int32 (int i)) = dec_nat i"
  by (simp add: int32_id dec_int_def)

lemma path_mtd_not_end: "path_mtd env dp \<noteq> MTDTypeEnd"
proof -
  have "t \<noteq> MTDTypeEnd \<Longrightarrow> node_mtd env orig nd t \<noteq> MTDTypeEnd" for orig nd t
    by (simp add: node_mtd_def Let_def)
  then have "t \<noteq> MTDTypeEnd \<Longrightarrow> fold (node_mtd env orig) xs t \<noteq> MTDTypeEnd" for orig xs t
    by (induction xs arbitrary: t) auto
  then show ?thesis by (simp add: path_mtd_def)
qed

lemma mtd_name_of: "t \<noteq> MTDTypeEnd \<Longrightarrow> map_of mMTDName t = Some (mtd_name t) \<and> length (mtd_name t) \<le> 2 \<and> mtd_name t \<noteq> []"
  by (cases t) (simp_all add: mMTDName_def mtd_name_def)

lemma print_name_text:
  assumes "Mtd m \<noteq> MTDTypeEnd" and "Hi m < 2 ^ 31" and "length (csd m) \<le> 2047" and "4 \<le> b"
  shows "\<exists>b'. print_name m (b, None) = (EFI_SUCCESS, b', Some (mtd_name (Mtd m) @ dec_nat (Hi m) @ csd m @ [58]))"
proof -
  have d: "length (dec_nat (Hi m)) \<le> 2047" using length_dec [of "Hi m" 20] assms(2) by simp
  have c: "cat_str s (Suc k, str) = (EFI_SUCCESS, k, Some ((case str of None \<Rightarrow> [] | Some t \<Rightarrow> t) @ s))"
    if "length s \<le> 2047" for s k str using that by (simp add: cat_str_def CatPrint_def)
  obtain k where b: "b = Suc (Suc (Suc (Suc k)))" using assms(4) by (intro that [of "b - 4"]) simp
  show ?thesis using mtd_name_of [OF assms(1)] assms(3)
    by (auto simp: print_name_def b c d int32_small [OF assms(2)] csd_def split: option.splits)
qed

text \<open>The name that is made, in full.\<close>

lemma name_text:
  assumes ok: "nameable env budget dp" and i: "index_of cmp (GetHIDevicePath dp) tab = Some i" "i < 2 ^ 31"
  shows "GetConsistMappingName cmp env budget tab dp = Some (drive_name env i dp)"
proof -
  let ?m = "\<lparr>Hi = i, Mtd = MTDTypeUnknown, Csd = None, Digital = False\<rparr>" and ?ns = "path_nums dp"
  let ?m' = "(appended ?ns ?m)\<lparr>Mtd := path_mtd env dp\<rparr>"
  have nodes: "\<forall>nd\<in>set dp. node_ok env dp nd" using ok plain_node_ok unfolding nameable_def by blast
  have len: "length (csd_text False ?ns) \<le> 2047" "length (csd_text False ?ns) + 4 \<le> budget"
    using ok by (simp_all add: nameable_def)
  obtain b where b: "budget - length (csd_text False ?ns) \<le> b" "info_loop env dp dp (budget, ?m) = (EFI_SUCCESS, b, ?m')"
    using info_loop_plain [OF nodes, of ?m budget] len(2) by (auto simp: path_mtd_def)
  have csd: "csd (appended ?ns ?m) = csd_text False ?ns" by (simp add: csd_appended csd_def [of ?m])
  have "4 \<le> b" using b(1) len(2) by linarith
  then obtain b' where "print_name ?m' (b, None) = (EFI_SUCCESS, b', Some (drive_name env i dp))"
    using print_name_text [of ?m' b] path_mtd_not_end i(2) len(1) by (auto simp: csd drive_name_def)
  then show ?thesis using i(1) b(2) by (simp add: GetConsistMappingName_def GetDeviceConsistMappingInfo_def)
qed

text \<open>Names can be read back.\<close>

lemma mtd_name_no_digits: "\<forall>c\<in>set (mtd_name t). \<not> is_dig c"
  by (cases t) (simp_all add: mtd_name_def mMTDName_def is_dig_def)

lemma mtd_name_inj: "t \<noteq> MTDTypeEnd \<Longrightarrow> u \<noteq> MTDTypeEnd \<Longrightarrow> mtd_name t = mtd_name u \<Longrightarrow> t = u"
  by (cases t; cases u) (simp_all add: mtd_name_def mMTDName_def)

lemma drive_name_inj:
  assumes "drive_name env i dp = drive_name env j dq"
  shows "path_mtd env dp = path_mtd env dq \<and> i = j \<and> path_nums dp = path_nums dq"
proof -
  let ?f = "\<lambda>i dp. csd_text True (i # path_nums dp) @ [58]"
  have split: "takeWhile (\<lambda>c. \<not> is_dig c) (drive_name env i dp) = mtd_name (path_mtd env dp)
      \<and> dropWhile (\<lambda>c. \<not> is_dig c) (drive_name env i dp) = ?f i dp" for i dp
  proof -
    have "hd (?f i dp) \<in> set (dec_nat i)" using blocks_nonempty(2) [of i] by (simp add: hd_append)
    then have "is_dig (hd (?f i dp))" using dec_digits by blast
    then show ?thesis unfolding drive_name_def by (intro takeWhile_block mtd_name_no_digits) simp
  qed
  have "mtd_name (path_mtd env dp) = mtd_name (path_mtd env dq)" "?f i dp = ?f j dq"
    using split [of i dp] split [of j dq] assms by simp_all
  then show ?thesis using mtd_name_inj path_mtd_not_end csd_text_inj [of True "i # path_nums dp" "[]" "j # path_nums dq" "[]"]
    by simp
qed

section \<open>Properties of names\<close>

text \<open>What the code relies on of \<open>PerformQuickSort\<close>: it sorts the table in place.\<close>

definition sorts :: "((dev_path \<Rightarrow> dev_path \<Rightarrow> int) \<Rightarrow> dev_path list \<Rightarrow> dev_path list) \<Rightarrow> (dev_path \<Rightarrow> dev_path \<Rightarrow> int) \<Rightarrow> bool" where
  "sorts qsort cmp \<longleftrightarrow> (\<forall>xs. mset (qsort cmp xs) = mset xs \<and> sorted_wrt (\<lambda>x y. cmp x y \<le> 0) (qsort cmp xs))"

lemma Init_table:
  "ConsistMappingTableInit cmp qsort grant (st, hs) = Inr (st', Some tab) \<Longrightarrow> sorts qsort cmp \<Longrightarrow>
   mset tab = mset (add_controllers cmp hs []) \<and> sorted_wrt (\<lambda>x y. cmp x y \<le> 0) tab"
  by (auto simp: ConsistMappingTableInit_def sorts_def rbind_eq_Inr split: if_splits)

lemma add_controllers_length: "length (add_controllers cmp hs tab) \<le> length tab + length hs"
proof (induction hs arbitrary: tab)
  case (Cons h hs)
  obtain dp s where h: "h = (dp, s)" by force
  show ?case using Cons.IH [of tab] Cons.IH [of "tab @ [GetHIDevicePath (the dp)]"]
    by (auto simp: h Let_def split: option.splits)
qed simp

text \<open>A comparison of device paths by their bytes, and insertion sort.\<close>

definition path_cmp :: "dev_path \<Rightarrow> dev_path \<Rightarrow> int" where
  "path_cmp p q = bytes_cmp (concat (map node_bytes p)) (concat (map node_bytes q))"

interpretation path_bytes: dev_path_order path_cmp
  by unfold_locales (auto simp: path_cmp_def bytes.cmp_refl bytes.cmp_anti intro: bytes.cmp_trans)

fun insert_by :: "('a \<Rightarrow> 'a \<Rightarrow> int) \<Rightarrow> 'a \<Rightarrow> 'a list \<Rightarrow> 'a list" where
  "insert_by cmp x [] = [x]"
| "insert_by cmp x (y # ys) = (if cmp x y \<le> 0 then x # y # ys else y # insert_by cmp x ys)"

definition isort :: "('a \<Rightarrow> 'a \<Rightarrow> int) \<Rightarrow> 'a list \<Rightarrow> 'a list" where
  "isort cmp xs = foldr (insert_by cmp) xs []"

context three_way
begin

lemma mset_insert_by [simp]: "mset (insert_by cmp x ys) = add_mset x (mset ys)"
  by (induction ys) auto

lemma set_insert_by: "set (insert_by cmp x ys) = insert x (set ys)"
  by (induction ys) auto

lemma sorted_insert_by:
  "sorted_wrt (\<lambda>x y. cmp x y \<le> 0) ys \<Longrightarrow> sorted_wrt (\<lambda>x y. cmp x y \<le> 0) (insert_by cmp x ys)"
proof (induction ys)
  case (Cons y ys)
  then show ?case using cmp_linear [of x y] cmp_trans [of x y] by (auto simp: set_insert_by)
qed simp

lemma isort_sorts: "mset (isort cmp xs) = mset xs \<and> sorted_wrt (\<lambda>x y. cmp x y \<le> 0) (isort cmp xs)"
  by (induction xs) (simp_all add: isort_def sorted_insert_by)

end

lemma isort_path: "sorts isort path_cmp"
  by (simp add: sorts_def path_bytes.isort_sorts)

lemma name_cases:
  assumes "dev_path_order cmp" and "nameable env budget dp" and "length tab < 2 ^ 31"
    and "GetConsistMappingName cmp env budget tab dp = Some s"
  obtains i where "index_of cmp (GetHIDevicePath dp) tab = Some i" and "s = drive_name env i dp"
proof (cases "index_of cmp (GetHIDevicePath dp) tab")
  case None
  then show ?thesis using assms(4) by (simp add: GetConsistMappingName_def)
next
  case (Some i)
  then have "i < 2 ^ 31" using dev_path_order.index_of_less [OF assms(1) Some] assms(3) by simp
  then show ?thesis using that name_text [OF assms(2) Some] assms(4) by (simp add: Some)
qed

lemma same_name:
  assumes "dev_path_order cmp" and "nameable env budget dp" and "nameable env budget dq" and "length tab < 2 ^ 31"
    and "GetConsistMappingName cmp env budget tab dp = Some s" and "GetConsistMappingName cmp env budget tab dq = Some s"
  shows "cmp (GetHIDevicePath dp) (GetHIDevicePath dq) = 0 \<and> path_mtd env dp = path_mtd env dq \<and> path_nums dp = path_nums dq"
proof -
  obtain i where i: "index_of cmp (GetHIDevicePath dp) tab = Some i" "s = drive_name env i dp"
    by (rule name_cases [OF assms(1,2,4,5)])
  obtain j where j: "index_of cmp (GetHIDevicePath dq) tab = Some j" "s = drive_name env j dq"
    by (rule name_cases [OF assms(1,3,4,6)])
  show ?thesis using drive_name_inj [of env i dp j dq] i j dev_path_order.index_of_same [OF assms(1), of "GetHIDevicePath dp" tab i] by auto
qed

text \<open>A disk behind a PCI controller: a SATA port and a partition with a signature.\<close>

definition sata_disk :: "byte \<Rightarrow> byte \<Rightarrow> dev_path" where
  "sata_disk part sig =
     [\<lparr>NodeType = 2, NodeSubType = 1, NodeData = [0xD0, 0x41, 0x03, 0x0A, 0, 0, 0, 0]\<rparr>,
      \<lparr>NodeType = 1, NodeSubType = 1, NodeData = [2, 0x1F]\<rparr>,
      \<lparr>NodeType = 3, NodeSubType = 18, NodeData = [1, 0, 255, 255, 0, 0]\<rparr>,
      \<lparr>NodeType = 4, NodeSubType = 1, NodeData = [part, 0, 0, 0, sig]\<rparr>]"

definition env0 :: sfs_env where
  "env0 = \<lparr>PcdUsbExtendedDecode = False, UsbInterface = (\<lambda>_. (EFI_SUCCESS, 0, 0)), PcdShellVendorExtendedDecode = 0,
     PcdShellDecodeIScsiMapNames = False, SasDevicePathGuid = [], Stack = (\<lambda>_. [])\<rparr>"

lemma sata_disk_nums: "path_nums (sata_disk 2 sig) = [1, 65535, 0, 2]" "path_nums (sata_disk 3 sig) = [1, 65535, 0, 3]"
  by (simp_all add: path_nums_def sata_disk_def node_nums_def is_floppy_def fld_def Let_def)

lemma sata_disk_text: "csd_text False (path_nums (sata_disk 2 sig)) = [98, 54, 53, 53, 51, 53, 97, 50]"
    "csd_text False (path_nums (sata_disk 3 sig)) = [98, 54, 53, 53, 51, 53, 97, 51]"
  by (simp_all add: sata_disk_nums b25.simps dec_nat.simps)

lemma sata_disk_nameable: "nameable env0 100 (sata_disk 2 sig)" "nameable env0 100 (sata_disk 3 sig)"
  unfolding nameable_def sata_disk_text
  by (simp_all add: sata_disk_def plain_def node_nums_def is_floppy_def fld_def Let_def env0_def)

lemma sata_disk_hi: "GetHIDevicePath (sata_disk part sig) = take 2 (sata_disk part sig)"
  by (simp add: sata_disk_def GetHIDevicePath_def IsHIDevicePathNode_def dp_consts fld_def)

lemma sata_disk_same_hi: "path_cmp (take 2 (sata_disk p x)) (take 2 (sata_disk q y)) = 0"
  by (simp add: sata_disk_def path_cmp_def bytes_cmp_eq)

lemma sata_disk_mtd: "path_mtd env0 (sata_disk part sig) = MTDTypeHardDisk"
  by (simp add: path_mtd_def sata_disk_def node_mtd_def is_floppy_def fld_def Let_def env0_def)

lemma sata_disk_index: "index_of path_cmp (GetHIDevicePath (sata_disk part sig)) [take 2 (sata_disk 2 0)] = Some 0"
  unfolding sata_disk_hi by (simp add: path_cmp_def bytes_cmp_eq sata_disk_def)

text \<open>
  \<open>GetConsistMappingName\<close> spells out a name of the form medium, index of the controller, numbers of
  the device path and a colon, where the numbers are written in letters and in digits in turn
  (so that they can be told apart): a partition of a SATA disk is \<open>HD0b65535a2:\<close>. This holds for
  every path of plain nodes with numbers below 2 to the 63, if there is memory for the name.
\<close>

theorem drive_name_text:
  assumes "nameable env budget dp" and "index_of cmp (GetHIDevicePath dp) tab = Some i" and "i < 2 ^ 31"
  shows "GetConsistMappingName cmp env budget tab dp = Some (drive_name env i dp)"
  by (rule name_text [OF assms])

theorem drive_name_text_witness:
  "GetConsistMappingName path_cmp env0 100 [take 2 (sata_disk 2 0)] (sata_disk 2 7)
     = Some [72, 68, 48, 98, 54, 53, 53, 51, 53, 97, 50, 58]"
  using drive_name_text [of env0 100 "sata_disk 2 7" path_cmp "[take 2 (sata_disk 2 0)]" 0, OF sata_disk_nameable(1) sata_disk_index]
  by (simp add: drive_name_def sata_disk_mtd mtd_name_def mMTDName_def sata_disk_text dec_nat.simps)

lemma name_eq_iff:
  assumes "dev_path_order cmp" and "nameable env budget dp" and "nameable env budget dq" and "length tab < 2 ^ 31"
    and "GetConsistMappingName cmp env budget tab dp = Some s"
  shows "GetConsistMappingName cmp env budget tab dq = Some s \<longleftrightarrow>
     cmp (GetHIDevicePath dp) (GetHIDevicePath dq) = 0 \<and> path_mtd env dp = path_mtd env dq \<and> path_nums dp = path_nums dq"
    (is "?l \<longleftrightarrow> ?r")
proof
  assume ?l
  then show ?r by (rule same_name [OF assms])
next
  assume r: ?r
  obtain i where i: "index_of cmp (GetHIDevicePath dp) tab = Some i" "s = drive_name env i dp"
    by (rule name_cases [OF assms(1,2,4,5)])
  have "i < 2 ^ 31" using dev_path_order.index_of_less [OF assms(1) i(1)] assms(4) by simp
  moreover have "index_of cmp (GetHIDevicePath dq) tab = Some i"
    using i(1) r dev_path_order.index_of_equiv [OF assms(1), of "GetHIDevicePath dp" "GetHIDevicePath dq" tab] by simp
  ultimately show ?l using name_text [OF assms(3)] i(2) r by (simp add: drive_name_def)
qed

text \<open>
  C20. Names tell drives apart: two drives whose device paths have plain nodes and for whose names there is memory (\<open>nameable\<close>) get the
  same name exactly if they sit on the same controller, are of the same class of medium, and have the same
  numbers in their device paths.
\<close>

theorem drive_names_unique:
  assumes "dev_path_order cmp" and "nameable env budget dp" and "nameable env budget dq" and "length tab < 2 ^ 31"
    and "GetConsistMappingName cmp env budget tab dp = Some s"
  shows "GetConsistMappingName cmp env budget tab dq = Some s \<longleftrightarrow>
     cmp (GetHIDevicePath dp) (GetHIDevicePath dq) = 0 \<and> path_mtd env dp = path_mtd env dq \<and> path_nums dp = path_nums dq"
  by (rule name_eq_iff [OF assms])

theorem drive_names_unique_witness:
  "GetConsistMappingName path_cmp env0 100 [take 2 (sata_disk 2 0)] (sata_disk 2 7)
     = GetConsistMappingName path_cmp env0 100 [take 2 (sata_disk 2 0)] (sata_disk 2 8)
   \<and> GetConsistMappingName path_cmp env0 100 [take 2 (sata_disk 2 0)] (sata_disk 2 7)
     \<noteq> GetConsistMappingName path_cmp env0 100 [take 2 (sata_disk 2 0)] (sata_disk 3 7)"
proof -
  have n: "GetConsistMappingName path_cmp env0 100 [take 2 (sata_disk 2 0)] (sata_disk 2 7) = Some (drive_name env0 0 (sata_disk 2 7))"
    by (rule name_text [OF sata_disk_nameable(1) sata_disk_index]) simp
  note u = drive_names_unique [OF path_bytes.dev_path_order_axioms sata_disk_nameable(1) _ _ n]
  show ?thesis using u [OF sata_disk_nameable(1) [of 8]] u [OF sata_disk_nameable(2) [of 7]] n
    by (simp add: sata_disk_nums sata_disk_mtd sata_disk_hi path_bytes.cmp_refl) (simp add: sata_disk_def path_cmp_def bytes_cmp_eq)
qed

text \<open>
  C22. Every drive with a plain device path has a name: after \<open>ConsistMappingTableInit\<close> has built the table from the handles
  of the firmware, \<open>GetConsistMappingName\<close> finds a name, which ends with a colon, for each handle
  that carries a block device or a file system and whose path can be named (\<open>nameable\<close>): it has no vendor, MAC, IP, InfiniBand or 1394 node, names of iSCSI targets are not decoded, the USB
  stack answers for its USB nodes, its numbers are below \<open>2 ^ 63\<close>, and there is memory for the name.
\<close>

theorem every_drive_named:
  assumes "dev_path_order cmp" and "sorts qsort cmp"
    and "ConsistMappingTableInit cmp qsort grant (st, hs) = Inr (st', Some tab)"
    and "(Some dp, True) \<in> set hs" and "length hs < 2 ^ 31" and "nameable env budget dp"
  shows "\<exists>name. GetConsistMappingName cmp env budget tab dp = Some (name @ [58])"
proof -
  note t = Init_table [OF assms(3,2)]
  have "GetHIDevicePath dp \<in> controllers hs" using assms(4) by (auto simp: controllers_def)
  then have "index_of cmp (GetHIDevicePath dp) tab \<noteq> None"
    using dev_path_order.table_props(3) [OF assms(1), of tab hs] t dev_path_order.index_of_None [OF assms(1)] by blast
  then obtain i where i: "index_of cmp (GetHIDevicePath dp) tab = Some i" by blast
  have "length tab = length (add_controllers cmp hs [])" using t by (metis size_mset)
  then have "length tab < 2 ^ 31" using add_controllers_length [of cmp hs "[]"] assms(5) by simp
  then have "i < 2 ^ 31" using dev_path_order.index_of_less [OF assms(1) i] by simp
  then show ?thesis using name_text [OF assms(6) i] by (simp add: drive_name_def)
qed

definition two_handles :: "(dev_path option \<times> bool) list" where
  "two_handles = [(Some (sata_disk 2 7), True), (None, False), (Some (sata_disk 3 7), True)]"

lemma two_handles_table:
  "ConsistMappingTableInit path_cmp isort True (EFI_SUCCESS, two_handles) = Inr (EFI_SUCCESS, Some [take 2 (sata_disk 2 7)])"
proof -
  have "path_cmp (take 2 (sata_disk 2 7)) (take 2 (sata_disk 3 7)) = 0"
    by (simp add: sata_disk_def path_cmp_def bytes_cmp_eq)
  then have "add_controllers path_cmp two_handles [] = [take 2 (sata_disk 2 7)]"
    unfolding two_handles_def by (simp add: Let_def sata_disk_hi)
  then show ?thesis by (simp add: ConsistMappingTableInit_def rassert_def isort_def)
qed

theorem every_drive_named_witness:
  "\<exists>name. GetConsistMappingName path_cmp env0 100 [take 2 (sata_disk 2 7)] (sata_disk 3 7) = Some (name @ [58])"
  by (rule every_drive_named [OF path_bytes.dev_path_order_axioms isort_path two_handles_table])
    (simp_all add: two_handles_def sata_disk_nameable)

text \<open>
  C23. Names are consistent: they do not depend on the order in which the firmware lists the handles.
  Tables built from the same handles in two orders give every device path the same name (or none),
  even if the sorting function is not stable, as long as the answers of the USB stack and what uninitialised buffers hold are the same.
\<close>

theorem drive_names_consistent:
  assumes "dev_path_order cmp" and "sorts qsort cmp" and "mset hs = mset hs'"
    and "ConsistMappingTableInit cmp qsort grant (st, hs) = Inr (st1, Some tab)"
    and "ConsistMappingTableInit cmp qsort grant (st, hs') = Inr (st2, Some tab')"
  shows "GetConsistMappingName cmp env budget tab dp = GetConsistMappingName cmp env budget tab' dp"
proof -
  have "index_of cmp (GetHIDevicePath dp) tab = index_of cmp (GetHIDevicePath dp) tab'"
    using Init_table [OF assms(4,2)] Init_table [OF assms(5,2)] controllers_mset [OF assms(3)]
      dev_path_order.tables_agree [OF assms(1), of tab hs tab' hs' "GetHIDevicePath dp"] by blast
  then show ?thesis by (simp add: GetConsistMappingName_def)
qed

lemma two_handles_rev:
  "ConsistMappingTableInit path_cmp isort True (EFI_SUCCESS, rev two_handles) = Inr (EFI_SUCCESS, Some [take 2 (sata_disk 3 7)])"
proof -
  have "path_cmp (take 2 (sata_disk 3 7)) (take 2 (sata_disk 2 7)) = 0"
    by (simp add: sata_disk_def path_cmp_def bytes_cmp_eq)
  then have "add_controllers path_cmp (rev two_handles) [] = [take 2 (sata_disk 3 7)]"
    unfolding two_handles_def by (simp add: Let_def sata_disk_hi)
  then show ?thesis by (simp add: ConsistMappingTableInit_def rassert_def isort_def)
qed

theorem drive_names_consistent_witness:
  "GetConsistMappingName path_cmp env0 100 [take 2 (sata_disk 2 7)] (sata_disk 3 7)
     = GetConsistMappingName path_cmp env0 100 [take 2 (sata_disk 3 7)] (sata_disk 3 7)"
  by (rule drive_names_consistent [OF path_bytes.dev_path_order_axioms isort_path _ two_handles_table two_handles_rev]) simp

text \<open>Only the function for USB looks at the whole path, and only if it is asked to.\<close>

lemma find_serial_all: "\<forall>(k, f)\<in>set tab. P f \<Longrightarrow> P DevPathSerialDefault \<Longrightarrow> P (find_serial k tab)"
  by (induction k tab rule: find_serial.induct) auto

lemma serial_path_ignored:
  assumes "\<not> PcdUsbExtendedDecode env"
  shows "serial nd env nd p = serial nd env nd q"
  by (rule find_serial_all [where P = "\<lambda>f. f env nd p = f env nd q"])
    (simp_all add: assms DevPathConsistMappingTable_def DevPathSerialDefault_def [abs_def] DevPathSerialAcpi_def [abs_def]
      DevPathSerialAtapi_def DevPathSerialScsi_def DevPathSerialFibre_def DevPathSerial1394_def DevPathSerialUsb_def
      DevPathSerialI2O_def DevPathSerialMacAddr_def DevPathSerialIPv4_def DevPathSerialIPv6_def DevPathSerialInfiniBand_def
      DevPathSerialUart_def DevPathSerialVendor_def DevPathSerialLun_def DevPathSerialSata_def DevPathSerialIScsi_def
      DevPathSerialHardDrive_def [abs_def] DevPathSerialCdRom_def [abs_def])

lemma info_loop_node_ignored:
  assumes "\<not> PcdUsbExtendedDecode env" and "\<And>it. serial a env a p it = serial b env b q it"
  shows "info_loop env p (xs @ a # ys) it = info_loop env q (xs @ b # ys) it"
proof -
  have ys: "info_loop env p zs it = info_loop env q zs it" for zs it
    by (induction zs arbitrary: it) (simp_all add: serial_path_ignored [OF assms(1), of _ p q] split: prod.split)
  show ?thesis
  proof (induction xs arbitrary: it)
    case Nil
    show ?case by (simp add: assms(2) ys split: prod.split)
  next
    case (Cons nd xs)
    then show ?case by (simp add: serial_path_ignored [OF assms(1), of nd p q] split: prod.split)
  qed
qed

lemma hi_loop_node_ignored:
  "\<not> IsHIDevicePathNode a \<Longrightarrow> \<not> IsHIDevicePathNode b \<Longrightarrow> hi_loop n hi (xs @ a # ys) = hi_loop n hi (xs @ b # ys)"
  by (induction xs arbitrary: n hi) auto

lemma name_node_ignored:
  assumes "\<not> PcdUsbExtendedDecode env" and "\<And>p q it. serial a env a p it = serial b env b q it"
    and "\<not> IsHIDevicePathNode a" and "\<not> IsHIDevicePathNode b"
  shows "GetConsistMappingName cmp env budget tab (xs @ a # ys) = GetConsistMappingName cmp env budget tab (xs @ b # ys)"
proof -
  have info: "GetDeviceConsistMappingInfo env (xs @ a # ys) = GetDeviceConsistMappingInfo env (xs @ b # ys)"
    unfolding GetDeviceConsistMappingInfo_def by (intro ext info_loop_node_ignored [OF assms(1,2)])
  have hi: "GetHIDevicePath (xs @ a # ys) = GetHIDevicePath (xs @ b # ys)"
    unfolding GetHIDevicePath_def by (rule hi_loop_node_ignored [OF assms(3,4)])
  show ?thesis unfolding GetConsistMappingName_def info hi ..
qed

text \<open>
  Drives behind a network card: the hardware address that should be part of the name is not. Two
  device paths that differ only in the data of a MAC address node get the same name, whatever
  happens to be on the stack.
\<close>

theorem mac_address_not_in_name:
  assumes "NodeType a = 3" "NodeSubType a = 11" "NodeType b = 3" "NodeSubType b = 11" and "\<not> PcdUsbExtendedDecode env"
  shows "GetConsistMappingName cmp env budget tab (xs @ a # ys) = GetConsistMappingName cmp env budget tab (xs @ b # ys)"
proof (rule name_node_ignored [OF assms(5)])
  show "serial a env a p it = serial b env b q it" for p q it
    using assms by (simp add: DevPathConsistMappingTable_def dp_consts DevPathSerialMacAddr_def)
qed (use assms in \<open>simp_all add: IsHIDevicePathNode_def dp_consts\<close>)

theorem mac_address_not_in_name_witness:
  "GetConsistMappingName path_cmp env0 100 [[]] [\<lparr>NodeType = 3, NodeSubType = 11, NodeData = replicate 33 1\<rparr>]
     = GetConsistMappingName path_cmp env0 100 [[]] [\<lparr>NodeType = 3, NodeSubType = 11, NodeData = replicate 33 2\<rparr>]"
  using mac_address_not_in_name [of "\<lparr>NodeType = 3, NodeSubType = 11, NodeData = replicate 33 1\<rparr>"
      "\<lparr>NodeType = 3, NodeSubType = 11, NodeData = replicate 33 2\<rparr>" env0 path_cmp 100 "[[]]" "[]" "[]"]
  by (simp add: env0_def)

end
