(* ===== verification/Mem_Object.thy ===== *)
theory Mem_Object
  imports Misc_Strings
begin

text \<open>
  \<open>MicroPythonDxe/Uefi/objuefi.c\<close>: typed views on raw memory. A \<open>mem\<close> object is an address with a
  type description; subscripting and dereferencing read and write integers, strings, pointers,
  bit fields and structures there. Modelled are the type descriptions (\<open>efi_mem_typecast\<close> and
  what it calls), the making and freeing of objects, access to values and elements by a single
  index (\<open>get_value\<close>, \<open>set_value\<close>) and to bit fields, for the 64-bit build.

  Memory is a function from addresses to bytes. Objects come from a heap that is cleared, so
  fields that are not written are zero. \<open>ns\<close> is the interpreter's name space: what
  \<open>resolve_type_by_name\<close> finds for \<open>#name\<close>. \<open>GuidToString\<close>, \<open>StringToGuid\<close> and the allocator are
  arguments. A type description may refer to itself, and the code then recurses without end: the
  depth of the recursion is bounded by fuel, and running out of it is the exception
  \<open>StackLimit\<close>.
\<close>

section \<open>Memory\<close>

type_synonym memory = "nat \<Rightarrow> byte"

fun le_val :: "byte list \<Rightarrow> int" where
  "le_val [] = 0"
| "le_val (b # bs) = uint b + 256 * le_val bs"

fun le_bytes :: "nat \<Rightarrow> int \<Rightarrow> byte list" where
  "le_bytes 0 v = []"
| "le_bytes (Suc n) v = word_of_int v # le_bytes n (v div 256)"

definition load :: "memory \<Rightarrow> nat \<Rightarrow> nat \<Rightarrow> int" where
  "load m a n = le_val (map m [a..<a + n])"

definition store_bytes :: "memory \<Rightarrow> nat \<Rightarrow> byte list \<Rightarrow> memory" where
  "store_bytes m a bs = (\<lambda>x. if a \<le> x \<and> x < a + length bs then bs ! (x - a) else m x)"

definition store :: "memory \<Rightarrow> nat \<Rightarrow> nat \<Rightarrow> int \<Rightarrow> memory" where
  "store m a n v = store_bytes m a (le_bytes n v)"

definition signed :: "nat \<Rightarrow> int \<Rightarrow> int" where
  "signed n v = (if v < 2 ^ (8 * n - 1) then v else v - 2 ^ (8 * n))"

definition mod64 :: "nat \<Rightarrow> nat" where "mod64 n = n mod 2 ^ 64"

section \<open>Objects\<close>

datatype mem_type = mp_type_mem | mp_type_guid | mp_type_fptr

record mem_attrs =
  mtype :: mem_type
  addr :: nat
  bitoff :: nat
  bitnum :: nat
  readonly :: bool
  hasvarg :: bool
  overrw :: bool
  page :: bool
  typespec :: "string option"
  typesize :: nat
  msize :: nat

text \<open>The fields of a structure and the arguments of a function share one pointer.\<close>

datatype mp_obj_mem_t = Mem (attrs: mem_attrs) (union: mem_union)
  and mem_union = NoUnion | Fields "(string \<times> mp_obj_mem_t) list" | Args "string option list"

datatype mem_exc =
    RaiseValueError | RaiseTypeError | RaiseIndexError | RaiseOverflowError | RaiseAttributeError | StackLimit | TypeConfusion | MemFault fault

type_synonym 'a mres = "mem_exc + 'a"

definition mbind :: "'a mres \<Rightarrow> ('a \<Rightarrow> 'b mres) \<Rightarrow> 'b mres" where
  "mbind m f = (case m of Inl e \<Rightarrow> Inl e | Inr x \<Rightarrow> f x)"

lemma mbind_simps [simp]: "mbind (Inr x) f = f x" "mbind (Inl e) f = Inl e"
  by (simp_all add: mbind_def)

definition upd :: "(mem_attrs \<Rightarrow> mem_attrs) \<Rightarrow> mp_obj_mem_t \<Rightarrow> mp_obj_mem_t" where
  "upd f o' = Mem (f (attrs o')) (union o')"

lemma upd_sel [simp]: "attrs (upd f o') = f (attrs o')" "union (upd f o') = union o'"
  by (simp_all add: upd_def)

section \<open>Type descriptions\<close>

definition type_size :: "char \<Rightarrow> nat" where
  "type_size c = (if c \<in> set ''Bab'' then 1
     else if c \<in> set ''Hhu'' then 2
     else if c \<in> set ''ILil'' then 4
     else if c \<in> set ''EFNPQTnq'' then 8
     else if c = CHR ''G'' then 16
     else 0)"

definition is_digit :: "char \<Rightarrow> bool" where
  "is_digit c \<longleftrightarrow> c \<in> set ''0123456789''"

definition is_alpha :: "char \<Rightarrow> bool" where
  "is_alpha c \<longleftrightarrow> c \<in> set ''ABCDEFGHIJKLMNOPQRSTUVWXYZabcdefghijklmnopqrstuvwxyz''"

definition digit_val :: "char \<Rightarrow> nat" where
  "digit_val c = of_char c - 48"

text \<open>The number in front of a type description and the rest behind it.\<close>

definition digits :: "string \<Rightarrow> nat \<times> string" where
  "digits s = (fold (\<lambda>c n. mod64 (n * 10 + digit_val c)) (takeWhile is_digit s) 0, dropWhile is_digit s)"

definition get_type_size :: "string \<Rightarrow> nat" where
  "get_type_size s = (case digits s of (n, rest) \<Rightarrow>
     (case rest of [] \<Rightarrow> 0
      | c # _ \<Rightarrow> if (of_char c :: nat) > 127 then 0 else mod64 (n * type_size c)))"

definition efi_mem_get_size :: "mp_obj_mem_t \<Rightarrow> nat mres" where
  "efi_mem_get_size o' =
     (let a = attrs o' in
      if bitnum a = 0 then Inr (if msize a > 0 then msize a else typesize a)
      else if typesize a * 8 = 0 then Inl (MemFault DivideError)
      else Inr ((bitoff a + bitnum a) div (typesize a * 8) * typesize a))"

datatype typedesc = TNone | TDict "(string \<times> string) list" | TStr string | TOther

text \<open>
  The prototype behind \<open>F\<close>: \<open>s\<close> is the text from the loop position on, \<open>cur\<close> the piece that was
  collected since \<open>arg_start\<close>. The result is the list of arguments, whether one of them is
  variadic, and the text behind the position where the loop stops.
\<close>

fun fptr_args :: "string \<Rightarrow> string \<Rightarrow> string option list \<Rightarrow> bool \<Rightarrow> string option list \<times> bool \<times> string" where
  "fptr_args [] cur args va = (args, va, [])"
| "fptr_args (c # s) cur args va =
     (if length args \<ge> 11 then (args, va, s)
      else if c = CHR ''('' then fptr_args s [] (args @ [if cur \<noteq> [] then Some cur else None]) va
      else if c = CHR '','' \<or> c = CHR '')''
      then let args' = (if cur \<noteq> [] then args @ [Some cur] else args);
               va' = (va \<or> (cur \<noteq> [] \<and> hd cur = CHR ''V''))
           in if c = CHR '')'' then (args', va', s) else fptr_args s [] args' va'
      else fptr_args s (cur @ [c]) args va)"

lemma fptr_args_shrinks: "(x, y, z) = fptr_args s cur args va \<Longrightarrow> length z \<le> length s"
  by (induction s arbitrary: cur args va) (auto simp: Let_def le_SucI split: if_splits)

text \<open>
  The loop of \<open>efi_mem_typecast_by_str\<close>. \<open>cast\<close> is \<open>efi_mem_typecast\<close>, called for a structure. The
  result is the object, the number read last and whether a colon was seen.
\<close>

function cast_loop ::
  "(typedesc \<Rightarrow> mp_obj_mem_t \<Rightarrow> mp_obj_mem_t mres) \<Rightarrow> (string \<Rightarrow> typedesc) \<Rightarrow> string \<Rightarrow> nat \<Rightarrow> bool
    \<Rightarrow> mp_obj_mem_t \<Rightarrow> (mp_obj_mem_t \<times> nat \<times> bool) mres" where
  "cast_loop cast ns [] num bf self = Inr (self, num, bf)"
| "cast_loop cast ns (c # s) num bf self =
     (if is_digit c then cast_loop cast ns s (mod64 (num * 10 + digit_val c)) bf self
      else if is_alpha c then
        let self1 = upd (\<lambda>a. a\<lparr>typesize := type_size c\<rparr>) self in
        if c = CHR ''O'' then
          if s = [] \<or> hd s \<noteq> CHR ''#'' then Inl RaiseValueError
          else mbind (cast (ns s) self1) (\<lambda>self2. Inr (self2, 0, bf))
        else if c = CHR ''F'' then
          let self2 = upd (\<lambda>a. a\<lparr>mtype := mp_type_fptr\<rparr>) self1 in
          if s = [] then Inr (self2, 0, bf)
          else (case fptr_args s [] [] (hasvarg (attrs self2)) of (args, va, rest) \<Rightarrow>
                  cast_loop cast ns rest 0 bf (Mem ((attrs self2)\<lparr>hasvarg := va\<rparr>) (Args args)))
        else if c = CHR ''T'' \<or> c = CHR ''P'' then Inr (self1, 0, bf)
        else if c = CHR ''G'' then Inr (upd (\<lambda>a. a\<lparr>mtype := mp_type_guid\<rparr>) self1, 0, bf)
        else cast_loop cast ns s 0 bf self1
      else if c = CHR '':'' then
        if typesize (attrs self) > 8 then Inl RaiseValueError
        else cast_loop cast ns s 0 True (upd (\<lambda>a. a\<lparr>bitoff := num mod 256\<rparr>) self)
      else Inl RaiseValueError)"
  by pat_completeness auto
termination
proof (relation "measure (\<lambda>(_, _, s, _). length s)", goal_cases)
  case (3 cast ns c s num bf self)
  then show ?case by (auto dest!: fptr_args_shrinks)
qed auto

declare cast_loop.simps(2) [simp del]

type_synonym cast_fun = "typedesc \<Rightarrow> mp_obj_mem_t \<Rightarrow> mp_obj_mem_t mres"
type_synonym name_space = "string \<Rightarrow> typedesc"

definition efi_mem_typecast_by_str :: "cast_fun \<Rightarrow> name_space \<Rightarrow> string \<Rightarrow> mp_obj_mem_t \<Rightarrow> mp_obj_mem_t mres" where
  "efi_mem_typecast_by_str cast ns spec self =
     mbind (cast_loop cast ns spec 0 False (upd (\<lambda>a. a\<lparr>typespec := Some spec\<rparr>) self)) (\<lambda>(self1, num, bf).
       Inr (if bf then upd (\<lambda>a. a\<lparr>bitnum := (if num > 0 then num else 1) mod 256\<rparr>) self1 else self1))"

definition efi_mem_new_n ::
  "cast_fun \<Rightarrow> name_space \<Rightarrow> nat \<Rightarrow> nat \<Rightarrow> string option \<Rightarrow> bool \<Rightarrow> bool \<Rightarrow> mp_obj_mem_t mres" where
  "efi_mem_new_n cast ns buf len spec ro pmem =
     (let self = Mem \<lparr>mtype = mp_type_mem, addr = buf, bitoff = 0, bitnum = 0, readonly = ro, hasvarg = False,
                   overrw = False, page = False, typespec = None, typesize = 0, msize = 0\<rparr> NoUnion in
      mbind (case spec of Some s \<Rightarrow> efi_mem_typecast_by_str cast ns s self
             | None \<Rightarrow> Inr (upd (\<lambda>a. a\<lparr>typesize := 1\<rparr>) self)) (\<lambda>self1.
        let sz = mod64 (typesize (attrs self1) * len) in
        Inr (upd (\<lambda>a. a\<lparr>msize := sz, overrw := \<not> sz > 0, page := pmem\<rparr>) self1)))"

text \<open>The length in front of a type description is 1 if it is missing or zero.\<close>

definition efi_mem_new :: "cast_fun \<Rightarrow> name_space \<Rightarrow> nat \<Rightarrow> string \<Rightarrow> bool \<Rightarrow> bool \<Rightarrow> mp_obj_mem_t mres" where
  "efi_mem_new cast ns buf spec ro pmem =
     (case digits spec of (n, rest) \<Rightarrow> efi_mem_new_n cast ns buf (if n > 0 then n else 1) (Some rest) ro pmem)"

text \<open>The loop over the fields of a structure: \<open>a\<close> is the running address, \<open>prev\<close> the field before.\<close>

fun dict_loop ::
  "cast_fun \<Rightarrow> name_space \<Rightarrow> bool \<Rightarrow> bool \<Rightarrow> (string \<times> string) list \<Rightarrow> nat \<Rightarrow> mp_obj_mem_t option
    \<Rightarrow> (nat \<times> (string \<times> mp_obj_mem_t) list) mres" where
  "dict_loop cast ns ro pmem [] a prev = Inr (a, [])"
| "dict_loop cast ns ro pmem ((name, spec) # fs) a prev =
     mbind (efi_mem_new cast ns a spec ro pmem) (\<lambda>new.
     let field = (case prev of None \<Rightarrow> new
                  | Some l \<Rightarrow>
                      if bitnum (attrs l) > 0 \<and> bitnum (attrs new) > 0
                      then upd (\<lambda>x. x\<lparr>bitoff := (bitoff (attrs l) + bitnum (attrs l)) mod 256\<rparr>) new
                      else new) in
     mbind (efi_mem_get_size field) (\<lambda>sz.
     mbind (dict_loop cast ns ro pmem fs (a + sz) (Some field)) (\<lambda>(end, rest).
       Inr (end, (name, field) # rest))))"

definition efi_mem_typecast_by_dict ::
  "cast_fun \<Rightarrow> name_space \<Rightarrow> (string \<times> string) list \<Rightarrow> mp_obj_mem_t \<Rightarrow> mp_obj_mem_t mres" where
  "efi_mem_typecast_by_dict cast ns fs self =
     (let a = attrs self in
      mbind (dict_loop cast ns (readonly a) (page a) fs (addr a) None) (\<lambda>(end, fields).
        Inr (Mem (a\<lparr>typesize := end - addr a\<rparr>) (Fields fields))))"

fun efi_mem_typecast :: "nat \<Rightarrow> name_space \<Rightarrow> cast_fun" where
  "efi_mem_typecast 0 ns desc self = Inl StackLimit"
| "efi_mem_typecast (Suc fuel) ns desc self =
     (case desc of
        TNone \<Rightarrow> Inr (upd (\<lambda>a. a\<lparr>typespec := None, typesize := 1\<rparr>) self)
      | TDict fs \<Rightarrow> efi_mem_typecast_by_dict (efi_mem_typecast fuel ns) ns fs self
      | TStr s \<Rightarrow>
          (case digits s of (n, rest) \<Rightarrow>
             mbind (efi_mem_typecast_by_str (efi_mem_typecast fuel ns) ns rest self) (\<lambda>self1.
               if msize (attrs self1) = 0
               then mbind (efi_mem_get_size self1) (\<lambda>sz.
                      Inr (upd (\<lambda>a. a\<lparr>msize := mod64 ((if n > 0 then n else 1) * sz)\<rparr>) self1))
               else Inr self1))
      | TOther \<Rightarrow> Inl RaiseValueError)"

definition efi_buffer_new :: "cast_fun \<Rightarrow> name_space \<Rightarrow> nat \<Rightarrow> nat \<Rightarrow> bool \<Rightarrow> mp_obj_mem_t mres" where
  "efi_buffer_new cast ns buf len ro = efi_mem_new_n cast ns buf len (Some ''B'') ro False"

text \<open>\<open>None\<close>: no GUID is given and one is allocated.\<close>

definition efi_guid_new :: "(nat \<Rightarrow> nat) \<Rightarrow> nat option \<Rightarrow> mp_obj_mem_t mres" where
  "efi_guid_new alloc guid =
     (let a = (case guid of Some g \<Rightarrow> g | None \<Rightarrow> alloc 16) in
      if guid = None \<and> a = 0 then Inl (MemFault AssertFailed)
      else Inr (Mem \<lparr>mtype = mp_type_guid, addr = a, bitoff = 0, bitnum = 0, readonly = True, hasvarg = False,
             overrw = False, page = False, typespec = Some ''G'', typesize = 16, msize = 16\<rparr> NoUnion))"

lemma field_smaller: "(n, f) \<in> set fs \<Longrightarrow> size f < Suc (Suc (size_list (size_prod (\<lambda>x. 0) size) fs))"
  by (induction fs) auto

function efi_mem_update_addr :: "nat \<Rightarrow> mp_obj_mem_t \<Rightarrow> mp_obj_mem_t" where
  "efi_mem_update_addr a (Mem at un) =
     (let at' = at\<lparr>addr := mod64 (a + addr at)\<rparr> in
      case un of
        Fields fs \<Rightarrow>
          (case typespec at of
             None \<Rightarrow> Mem at' un
           | Some s \<Rightarrow> if take 1 s = ''F'' then Mem at' un
                       else Mem at' (Fields (map (\<lambda>(n, f). (n, efi_mem_update_addr a f)) fs)))
      | _ \<Rightarrow> Mem at' un)"
  by pat_completeness auto
termination
  by (relation "measure (\<lambda>(_, o'). size o')")
     (auto dest: field_smaller)

text \<open>
  The constructor: \<open>what\<close> is a type description or a length, \<open>alloc\<close> and \<open>pages\<close> answer requests
  for memory.
\<close>

datatype size_or_spec = ByLength nat | BySpec string

definition efi_mem_make_new ::
  "cast_fun \<Rightarrow> name_space \<Rightarrow> (nat \<Rightarrow> nat) \<Rightarrow> (nat \<Rightarrow> nat) \<Rightarrow> size_or_spec \<Rightarrow> nat \<Rightarrow> bool \<Rightarrow> bool \<Rightarrow> mp_obj_mem_t mres" where
  "efi_mem_make_new cast ns alloc pages what a pmem ro =
     mbind (case what of
        BySpec s \<Rightarrow> if s = [] then mbind (efi_mem_new_n cast ns a 0 (Some ''B'') ro pmem) (\<lambda>m. Inr (m, 0))
                    else mbind (efi_mem_new cast ns a s ro pmem) (\<lambda>m.
                           Inr (m, if msize (attrs m) > 0 then msize (attrs m) else typesize (attrs m)))
      | ByLength n \<Rightarrow> mbind (efi_mem_new_n cast ns a n (Some ''B'') ro pmem) (\<lambda>m.
                        Inr (m, if pmem then mod64 (n * 4096) else n))) (\<lambda>(m, len).
     Inr (if a = 0 \<and> len > 0
          then efi_mem_update_addr (if page (attrs m) then pages ((len + 4095) div 4096) else alloc len) m
          else m))"

section \<open>Values\<close>

text \<open>Python values, as far as the code tells them apart. Strings and byte strings are bytes.\<close>

datatype mp_val = VNone | VBool bool | VInt int | VStr "byte list" | VObj mp_obj_mem_t | VList "mp_val list" | VOther

text \<open>\<open>get_uint64\<close>, and \<open>mp_obj_get_int_truncated\<close> as an unsigned number.\<close>

definition get_uint64 :: "mp_val \<Rightarrow> int mres" where
  "get_uint64 v = (case v of VInt i \<Rightarrow> Inr (i mod 2 ^ 64) | VBool b \<Rightarrow> Inr (of_bool b) | _ \<Rightarrow> Inl RaiseTypeError)"

text \<open>
  \<open>mp_get_index\<close> for a single index; the length is at most \<open>2 ^ 64 - 1\<close>. An index with a magnitude of 64 bits or more raises
  \<open>OverflowError\<close> (\<open>mp_obj_int_get_checked\<close>).
\<close>

definition mp_get_index :: "nat \<Rightarrow> int \<Rightarrow> nat mres" where
  "mp_get_index len i =
     (let j = (if i < 0 then signed 8 ((i + int len) mod 2 ^ 64) else i) in
      if \<bar>i\<bar> \<ge> 2 ^ 63 then Inl RaiseOverflowError
      else if j < 0 \<or> j \<ge> int len then Inl RaiseIndexError else Inr (nat j))"

text \<open>\<open>len()\<close> of an object.\<close>

definition mem_len :: "mem_attrs \<Rightarrow> nat" where
  "mem_len a = (if typesize a > 0 then msize a div typesize a else 0)"

section \<open>Bit fields\<close>

text \<open>The bit field functions of \<open>BaseLib\<close> on a number of \<open>w\<close> bits.\<close>

definition BitFieldRead :: "nat \<Rightarrow> int \<Rightarrow> nat \<Rightarrow> nat \<Rightarrow> int mres" where
  "BitFieldRead w v start end =
     (if end < w \<and> start \<le> end then Inr (v mod 2 ^ Suc end div 2 ^ start) else Inl (MemFault AssertFailed))"

definition BitFieldWrite :: "nat \<Rightarrow> int \<Rightarrow> nat \<Rightarrow> nat \<Rightarrow> int \<Rightarrow> int mres" where
  "BitFieldWrite w v start end x =
     (if end < w \<and> start \<le> end
      then Inr (v - v mod 2 ^ Suc end div 2 ^ start * 2 ^ start + x mod 2 ^ (Suc end - start) * 2 ^ start)
      else Inl (MemFault AssertFailed))"

definition get_bits :: "memory \<Rightarrow> mem_attrs \<Rightarrow> int mres" where
  "get_bits m a =
     (let bitend = bitoff a + bitnum a - 1;
          n = (if bitend < 8 then 1 else if bitend < 16 then 2 else if bitend < 32 then 4 else 8) in
      BitFieldRead (8 * n) (load m (addr a) n) (bitoff a) bitend)"

text \<open>The width of the base type a bit field is written with, by the first character of the type.\<close>

definition bits_width :: "string option \<Rightarrow> nat mres" where
  "bits_width spec =
     (case spec of None \<Rightarrow> Inl (MemFault NullDeref)
      | Some s \<Rightarrow> if take 1 s = ''B'' then Inr 1 else if take 1 s = ''H'' then Inr 2
                  else if take 1 s \<in> {''I'', ''L''} then Inr 4
                  else if take 1 s \<in> {''N'', ''Q''} then Inr 8 else Inl RaiseValueError)"

definition set_bits :: "mem_attrs \<Rightarrow> mp_val \<Rightarrow> memory \<Rightarrow> memory mres" where
  "set_bits a v m =
     (if bitnum a \<ge> 64 then Inl (MemFault AssertFailed)
      else mbind (bits_width (typespec a)) (\<lambda>n.
        mbind (get_uint64 v) (\<lambda>x.
        mbind (BitFieldWrite (8 * n) (load m (addr a) n) (bitoff a) (bitoff a + bitnum a - 1)
                 (x mod 2 ^ (8 * n) mod 2 ^ bitnum a)) (\<lambda>y.
        Inr (store m (addr a) n y)))))"

section \<open>Reading\<close>

definition char_of_spec :: "string option \<Rightarrow> char option" where
  "char_of_spec spec = (case spec of None \<Rightarrow> Some CHR ''B'' | Some [] \<Rightarrow> None | Some (c # _) \<Rightarrow> Some c)"

definition chars16 :: "memory \<Rightarrow> nat \<Rightarrow> nat \<Rightarrow> w16 list" where
  "chars16 m a n = map (\<lambda>i. word_of_int (load m (a + 2 * i) 2)) [0..<n]"

text \<open>The integer types: width and sign.\<close>

definition int_type :: "char \<Rightarrow> (nat \<times> bool) option" where
  "int_type c =
     (if c \<in> set ''bhilnq'' then Some (type_size c, True)
      else if c \<in> set ''BHILENQ'' then Some (type_size c, False) else None)"

definition fetch_int :: "memory \<Rightarrow> nat \<Rightarrow> nat \<Rightarrow> bool \<Rightarrow> nat \<Rightarrow> int" where
  "fetch_int m a n sg i = (let v = load m (a + i * n) n in if sg then signed n v else v)"

text \<open>
  \<open>get_value\<close> for an object and an index (\<open>None\<close> is Python's \<open>None\<close>). \<open>gs\<close> is \<open>GuidToString\<close>: the text, if
  it has the proper length. A string ends at its first zero or at the end of the object.
\<close>

definition get_value ::
  "cast_fun \<Rightarrow> name_space \<Rightarrow> (byte list \<Rightarrow> byte list option) \<Rightarrow> memory \<Rightarrow> mp_obj_mem_t \<Rightarrow> int option \<Rightarrow> mp_val mres" where
  "get_value cast ns gs m self index_in =
     (let a = attrs self in
      if addr a = 0 then Inr (VBool False)
      else if bitnum a > 0 then mbind (get_bits m a) (\<lambda>x. Inr (VInt x))
      else
        let len = (if mem_len a = 0 then 2 ^ 64 - 1 else mem_len a) in
        mbind (case index_in of None \<Rightarrow> Inr 0 | Some i \<Rightarrow> mp_get_index len i) (\<lambda>i.
        if i > len \<or> (len > 0 \<and> i = len) then Inl RaiseIndexError
        else (case char_of_spec (typespec a) of
          None \<Rightarrow> Inl RaiseValueError
        | Some c \<Rightarrow>
            (case int_type c of
               Some (n, sg) \<Rightarrow> Inr (VInt (fetch_int m (addr a) n sg i))
             | None \<Rightarrow>
                 if c \<in> set ''TFP'' then
                   let p = load m (addr a + i * 8) 8; rest = tl (case typespec a of None \<Rightarrow> [] | Some s \<Rightarrow> s) in
                   if rest = [] then Inr (VInt p)
                   else mbind (efi_mem_new cast ns (nat p) rest (readonly a) (page a)) (\<lambda>x. Inr (VObj x))
                 else if c = CHR ''G'' then
                   Inr (case gs (map m [addr a + i * 16..<addr a + i * 16 + 16]) of None \<Rightarrow> VNone | Some s \<Rightarrow> VStr s)
                 else if c = CHR ''a'' then
                   if index_in = None
                   then Inr (VStr (takeWhile (\<lambda>b. b \<noteq> 0) (map m [addr a..<addr a + msize a])))
                   else Inr (VInt (signed 1 (load m (addr a + i) 1)))
                 else if c = CHR ''u'' then
                   if index_in = None
                   then let us = takeWhile (\<lambda>x. x \<noteq> 0) (chars16 m (addr a) (msize a div 2)) in
                        (case UnicodeToUtf8 True us None (length us) of
                           Inl f \<Rightarrow> Inl (MemFault f) | Inr (bs, n) \<Rightarrow> Inr (VStr (take n bs)))
                   else Inr (VInt (load m (addr a + i * 2) 2))
                 else if c = CHR ''O'' then
                   mbind (efi_mem_new_n cast ns (addr a + i * typesize a) 1 None (readonly a) (page a)) (\<lambda>x.
                     Inr (VObj (Mem (a\<lparr>mtype := mp_type_mem, addr := addr (attrs x), msize := typesize a\<rparr>) (union self))))
                 else Inl RaiseValueError))))"

section \<open>Writing\<close>

text \<open>The buffer protocol (\<open>mem_get_buffer\<close> for reading) and the iterator protocol (\<open>mem_iterator_new\<close>).\<close>

definition mem_get_buffer :: "memory \<Rightarrow> bool \<Rightarrow> mem_attrs \<Rightarrow> byte list option" where
  "mem_get_buffer m write a =
     (if addr a = 0 \<or> msize a = 0 then None
      else if readonly a \<and> write then None
      else Some (map m [addr a..<addr a + msize a]))"

definition get_buffer :: "memory \<Rightarrow> mp_val \<Rightarrow> byte list option" where
  "get_buffer m v = (case v of VStr bs \<Rightarrow> Some bs | VObj x \<Rightarrow> mem_get_buffer m False (attrs x) | _ \<Rightarrow> None)"

text \<open>
  What an iterator yields of a value that has no buffer: a list its elements, a structure its field
  names, another object (whose address is zero or which is empty) as many \<open>False\<close> as it has elements.
\<close>

definition iter_items :: "mp_val \<Rightarrow> mp_val list option" where
  "iter_items v =
     (case v of
        VList vs \<Rightarrow> Some vs
      | VObj x \<Rightarrow>
          if mtype (attrs x) = mp_type_fptr then None
          else (case union x of
                  Fields fs \<Rightarrow> Some (map (\<lambda>(n, _). VStr (map (\<lambda>c. of_nat (of_char c)) n)) fs)
                | _ \<Rightarrow> Some (replicate (mem_len (attrs x)) (VBool False)))
      | _ \<Rightarrow> None)"

fun vsize :: "mp_val \<Rightarrow> nat" where
  "vsize (VList vs) = Suc (sum_list (map vsize vs))"
| "vsize (VObj x) = 1"
| "vsize v = 0"

lemma vsize_items: "iter_items v = Some vs \<Longrightarrow> get_buffer m v = None \<Longrightarrow> sum_list (map vsize vs) < vsize v"
  by (cases v) (auto simp: iter_items_def get_buffer_def comp_def case_prod_unfold sum_list_replicate
      split: if_splits mem_union.splits)

definition is_mem :: "mp_val \<Rightarrow> bool" where
  "is_mem v = (case v of VObj x \<Rightarrow> mtype (attrs x) \<noteq> mp_type_fptr | _ \<Rightarrow> False)"

text \<open>The copying branch of \<open>set_mem_from_obj\<close>.\<close>

definition copy_buffer :: "mem_attrs \<Rightarrow> byte list \<Rightarrow> nat \<Rightarrow> nat \<Rightarrow> memory \<Rightarrow> memory mres" where
  "copy_buffer a bs i len m =
     (let sz = min (length bs) (len * typesize a) in
      if i * typesize a + sz > msize a then Inl RaiseIndexError
      else Inr (store_bytes m (addr a + i * typesize a) (take sz bs)))"

text \<open>A string stored as the whole contents of an object: the object is cleared first.\<close>

definition store_all :: "mem_attrs \<Rightarrow> byte list \<Rightarrow> memory \<Rightarrow> memory mres" where
  "store_all a bs m =
     (if length bs > msize a then Inl RaiseValueError
      else Inr (store_bytes (store_bytes m (addr a) (replicate (msize a) 0)) (addr a) bs))"

definition utf16_bytes :: "byte list \<Rightarrow> byte list mres" where
  "utf16_bytes bs =
     (case Utf8ToUnicode True (bs @ [0]) None (length bs) False of
        Inl f \<Rightarrow> Inl (MemFault f)
      | Inr (us, n) \<Rightarrow> Inr (concat (map (\<lambda>u. le_bytes 2 (uint u)) (take (n + 1) us))))"

text \<open>
  What \<open>set_value\<close> does when the value is not taken apart: \<open>Inl\<close> the result, \<open>Inr\<close> the number of
  elements \<open>set_mem_from_obj\<close> is called with. \<open>sg\<close> is \<open>StringToGuid\<close>.
\<close>

definition set_plain ::
  "(byte list \<Rightarrow> byte list option) \<Rightarrow> mem_attrs \<Rightarrow> string \<Rightarrow> bool \<Rightarrow> nat \<Rightarrow> mp_val \<Rightarrow> memory \<Rightarrow> memory mres + nat" where
  "set_plain sg a spec whole i v m =
     (let len = mem_len a; c = (case spec of [] \<Rightarrow> CHR 0x00 | x # _ \<Rightarrow> x) in
      case int_type c of
        Some (n, _) \<Rightarrow> Inl (mbind (get_uint64 v) (\<lambda>x. Inr (store m (addr a + i * n) n x)))
      | None \<Rightarrow>
          if c \<in> set ''TFP'' then
            if is_mem v then Inr len
            else Inl (mbind (get_uint64 v) (\<lambda>x. Inr (store m (addr a + i * 8) 8 x)))
          else if c = CHR ''G'' then
            (case v of
               VStr bs \<Rightarrow> Inl (if length bs \<noteq> 36 then Inl RaiseValueError
                              else (case sg bs of None \<Rightarrow> Inl RaiseValueError
                                    | Some g \<Rightarrow> Inr (store_bytes m (addr a + i * typesize a) g)))
             | _ \<Rightarrow> Inr 1)
          else if c = CHR ''a'' \<and> whole then
            (case v of VStr bs \<Rightarrow> Inl (store_all a bs m) | _ \<Rightarrow> Inr (len - i))
          else if c = CHR ''u'' \<and> whole then
            (case v of VStr bs \<Rightarrow> Inl (mbind (utf16_bytes bs) (\<lambda>u. store_all a u m)) | _ \<Rightarrow> Inr (len - i))
          else Inr (len - i))"

function (sequential)
  set_value :: "(byte list \<Rightarrow> byte list option) \<Rightarrow> mem_attrs \<Rightarrow> int option \<Rightarrow> mp_val \<Rightarrow> memory \<Rightarrow> memory mres"
  and set_items :: "(byte list \<Rightarrow> byte list option) \<Rightarrow> mem_attrs \<Rightarrow> nat \<Rightarrow> nat \<Rightarrow> mp_val list \<Rightarrow> memory \<Rightarrow> memory mres" where
  "set_value sg a index_in v m =
     (if readonly a then Inl RaiseValueError
      else if bitnum a > 0 then set_bits a v m
      else
        let len = mem_len a in
        mbind (case index_in of None \<Rightarrow> Inr 0 | Some i \<Rightarrow> mp_get_index len i) (\<lambda>i.
        if i > len \<or> (len > 0 \<and> i = len) then Inl RaiseIndexError
        else (case typespec a of
          None \<Rightarrow> Inl (MemFault NullDeref)
        | Some spec \<Rightarrow>
            (case set_plain sg a spec (index_in = None) i v m of
               Inl r \<Rightarrow> r
             | Inr n \<Rightarrow>
                 (case get_buffer m v of
                    Some bs \<Rightarrow> copy_buffer a bs i n m
                  | None \<Rightarrow>
                      (case iter_items v of
                         None \<Rightarrow> Inl RaiseValueError
                       | Some vs \<Rightarrow> set_items sg a i n vs m))))))"
| "set_items sg a i n [] m = Inr m"
| "set_items sg a i 0 vs m = Inr m"
| "set_items sg a i (Suc n) (v # vs) m =
     mbind (set_value sg a (Some (int i)) v m) (\<lambda>m'. set_items sg a (Suc i) n vs m')"
  by pat_completeness auto
termination
  by (relation "measures [\<lambda>x. case x of Inl (_, _, _, v, _) \<Rightarrow> 2 * vsize v | Inr (_, _, _, _, vs, _) \<Rightarrow> 2 * sum_list (map vsize vs) + 1,
        \<lambda>x. case x of Inl _ \<Rightarrow> 0 | Inr (_, _, _, _, vs, _) \<Rightarrow> length vs]")
     (auto dest: vsize_items)

declare set_value.simps [simp del]

section \<open>Other operations\<close>

definition efi_mem_deref ::
  "cast_fun \<Rightarrow> name_space \<Rightarrow> (byte list \<Rightarrow> byte list option) \<Rightarrow> memory \<Rightarrow> mp_obj_mem_t \<Rightarrow> typedesc option
    \<Rightarrow> (mp_val \<times> mp_obj_mem_t) mres" where
  "efi_mem_deref cast ns gs m self desc =
     mbind (case desc of None \<Rightarrow> Inr self | Some d \<Rightarrow> cast d self) (\<lambda>self1.
       if typespec (attrs self1) = None \<or> typespec (attrs self1) = Some [] then Inl RaiseValueError
       else mbind (get_value cast ns gs m self1 None) (\<lambda>v. Inr (v, self1)))"

text \<open>
  Attributes. The fields of a structure and the argument list of a function share a pointer, and
  \<open>mem_attr\<close> takes one for the other (\<open>TypeConfusion\<close>). A value stored to \<open>TYPE\<close> is a type description
  (\<open>desc\<close>).
\<close>

datatype mem_attr_name = QSTR_ADDR | QSTR_SIZE | QSTR_VALUE | QSTR_TYPE | Named string

definition mem_methods :: "string list" where
  "mem_methods = [''DREF'', ''REF'', ''CAST'', ''FREE'']"

definition find_field :: "string \<Rightarrow> mp_obj_mem_t \<Rightarrow> mp_obj_mem_t mres" where
  "find_field n self =
     (case union self of
        NoUnion \<Rightarrow> Inl RaiseAttributeError
      | Args _ \<Rightarrow> Inl TypeConfusion
      | Fields fs \<Rightarrow> (case map_of fs n of None \<Rightarrow> Inl RaiseAttributeError | Some f \<Rightarrow> Inr f))"

definition mem_attr_load ::
  "cast_fun \<Rightarrow> name_space \<Rightarrow> (byte list \<Rightarrow> byte list option) \<Rightarrow> memory \<Rightarrow> mp_obj_mem_t \<Rightarrow> mem_attr_name \<Rightarrow> mp_val mres" where
  "mem_attr_load cast ns gs m self at =
     (let a = attrs self in
      case at of
        QSTR_ADDR \<Rightarrow> Inr (VInt (int (addr a)))
      | QSTR_SIZE \<Rightarrow> mbind (efi_mem_get_size self) (\<lambda>n. Inr (VInt (int n)))
      | QSTR_VALUE \<Rightarrow> get_value cast ns gs m self None
      | QSTR_TYPE \<Rightarrow> Inr (case typespec a of None \<Rightarrow> VNone | Some s \<Rightarrow> VStr (map (\<lambda>c. of_nat (of_char c)) s))
      | Named n \<Rightarrow>
          if n \<in> set mem_methods then Inr VOther
          else mbind (find_field n self) (\<lambda>p.
            let b = attrs p in
            if union p \<noteq> NoUnion \<or> msize b > typesize b then Inr (VObj p)
            else if typesize b = 0 then Inl (MemFault DivideError)
            else if 8 mod typesize b \<noteq> 0 then Inr (VObj p)
            else get_value cast ns gs m p None))"

definition mem_attr_store ::
  "cast_fun \<Rightarrow> (byte list \<Rightarrow> byte list option) \<Rightarrow> mem_attr_name \<Rightarrow> mp_val \<Rightarrow> typedesc \<Rightarrow> mp_obj_mem_t \<times> memory
    \<Rightarrow> (mp_obj_mem_t \<times> memory) mres" where
  "mem_attr_store cast sg at v desc sm =
     (case sm of (self, m) \<Rightarrow>
      case at of
        QSTR_ADDR \<Rightarrow> if addr (attrs self) \<noteq> 0 then Inl RaiseAttributeError
                else mbind (get_uint64 v) (\<lambda>x. Inr (upd (\<lambda>a. a\<lparr>addr := nat x\<rparr>) self, m))
      | QSTR_SIZE \<Rightarrow> mbind (get_uint64 v) (\<lambda>x. Inr (upd (\<lambda>a. a\<lparr>msize := nat x\<rparr>) self, m))
      | QSTR_VALUE \<Rightarrow> mbind (set_value sg (attrs self) None v m) (\<lambda>m'. Inr (self, m'))
      | QSTR_TYPE \<Rightarrow> mbind (cast desc self) (\<lambda>self'. Inr (self', m))
      | Named n \<Rightarrow> mbind (find_field n self) (\<lambda>p. mbind (set_value sg (attrs p) None v m) (\<lambda>m'. Inr (self, m'))))"

text \<open>Freeing: the block that is given back (pages with their number, or a pool block).\<close>

datatype freed = FreePages nat nat | FreePool nat

definition efi_mem_free :: "mp_obj_mem_t \<Rightarrow> mp_obj_mem_t \<times> freed list" where
  "efi_mem_free self =
     (let a = attrs self in
      if addr a \<noteq> 0
      then (upd (\<lambda>x. x\<lparr>addr := 0\<rparr>) self,
            [if page a then FreePages (addr a) ((msize a + 4095) div 4096) else FreePool (addr a)])
      else (self, []))"

text \<open>The messages for status codes; \<open>None\<close> is the entry the array has no initialiser for.\<close>

definition efi_status_msg :: "string option list" where
  "efi_status_msg = map Some
     [''SUCCESS'', ''LOAD_ERROR'', ''INVALID_PARAMETER'', ''UNSUPPORTED'', ''BAD_BUFFER_SIZE'', ''BUFFER_TOO_SMALL'',
      ''NOT_READY'', ''DEVICE_ERROR'', ''WRITE_PROTECTED'', ''OUT_OF_RESOURCES'', ''VOLUME_CORRUPTED'', ''VOLUME_FULL'',
      ''NO_MEDIA'', ''MEDIA_CHANGED'', ''NOT_FOUND'', ''ACCESS_DENIED'', ''NO_RESPONSE'', ''NO_MAPPING'', ''TIMEOUT'',
      ''NOT_STARTED'', ''ALREADY_STARTED'', ''ABORTED'', ''ICMP_ERROR'', ''TFTP_ERROR'', ''PROTOCOL_ERROR'',
      ''INCOMPATIBLE_VERSION'', ''SECURITY_VIOLATION'', ''CRC_ERROR'', ''END_OF_MEDIA'', ''END_OF_FILE'',
      ''INVALID_LANGUAGE'', ''COMPROMISED_DATA'', [], ''HTTP_ERROR''] @ [None]"

text \<open>\<open>RAISE_UEFI_EXCEPTION_ON_ERROR\<close>: \<open>None\<close> is no exception.\<close>

datatype status_exc = StatusName "string option" nat | StatusNumber nat | OSErrorCode int

definition RAISE_UEFI_EXCEPTION_ON_ERROR :: "64 word \<Rightarrow> status_exc option" where
  "RAISE_UEFI_EXCEPTION_ON_ERROR st =
     (let n = unat (st AND 0xFFFF) in
      if sint st < 0
      then if n < length efi_status_msg then Some (StatusName (efi_status_msg ! n) n) else Some (StatusNumber n)
      else if st \<noteq> 0 then Some (OSErrorCode (int32 (sint st))) else None)"

end
