(* ===== verification/Mem_Object_Thms.thy ===== *)
theory Mem_Object_Thms
  imports Mem_Object "HOL-Library.Sublist"
begin

text \<open>
  Theorems about typed memory objects: integers and bit fields are read back as they were written and
  nothing else changes, the fields of a structure do not overlap, and what goes wrong with bit
  fields that fill their unit, types that contain themselves and objects without a type.
\<close>

section \<open>Raw memory\<close>

text \<open>
  The contract of a byte-addressed memory: a number that is stored can be loaded, and what does not
  overlap is left alone.
\<close>

locale raw_memory =
  fixes ld :: "'m \<Rightarrow> nat \<Rightarrow> nat \<Rightarrow> int" and st :: "'m \<Rightarrow> nat \<Rightarrow> nat \<Rightarrow> int \<Rightarrow> 'm"
  assumes ld_st: "ld (st m a n v) a n = v mod 2 ^ (8 * n)"
    and ld_st_apart: "a + n \<le> b \<or> b + k \<le> a \<Longrightarrow> ld (st m a n v) b k = ld m b k"
    and ld_range: "0 \<le> ld m a n \<and> ld m a n < 2 ^ (8 * n)"
    and ld_short: "k \<le> n \<Longrightarrow> ld m a k = ld m a n mod 2 ^ (8 * k)"
begin

text \<open>Elements of an array.\<close>

lemma array_same: "ld (st m (a + i * n) n v) (a + i * n) n = v mod 2 ^ (8 * n)"
  by (rule ld_st)

lemma array_other: "i \<noteq> j \<Longrightarrow> ld (st m (a + i * n) n v) (a + j * n) n = ld m (a + j * n) n"
proof (rule ld_st_apart)
  assume "i \<noteq> j"
  then have "Suc i \<le> j \<or> Suc j \<le> i" by auto
  then have "Suc i * n \<le> j * n \<or> Suc j * n \<le> i * n" using mult_le_mono1 by blast
  then show "a + i * n + n \<le> a + j * n \<or> a + j * n + n \<le> a + i * n" by auto
qed

end

lemma length_le_bytes [simp]: "length (le_bytes n v) = n"
  by (induction n arbitrary: v) auto

lemma le_val_le_bytes [simp]: "le_val (le_bytes n v) = v mod 256 ^ n"
proof (induction n arbitrary: v)
  case (Suc n)
  have "uint (word_of_int v :: byte) = v mod 256" by (simp add: uint_word_of_int)
  then show ?case using Suc by (simp add: mod_mult2_eq' [symmetric] zmod_zmult2_eq)
qed simp

lemma le_val_range: "0 \<le> le_val bs \<and> le_val bs < 256 ^ length bs"
proof (induction bs)
  case (Cons b bs)
  have "0 \<le> uint b" "uint b < 256" using uint_lt2p [of b] by auto
  then show ?case using Cons by auto
qed simp

lemma le_val_take: "le_val (take k bs) = le_val bs mod 256 ^ k"
proof (induction bs arbitrary: k)
  case (Cons b bs)
  show ?case
  proof (cases k)
    case (Suc j)
    have "uint b mod 256 = uint b" "uint b div 256 = 0" using uint_lt2p [of b] by (simp_all add: zmod_trivial_iff zdiv_eq_0_iff)
    then show ?thesis using Cons.IH [of j] Suc by (simp add: zmod_zmult2_eq)
  qed simp
qed simp

lemma pow256: "(256 :: int) ^ n = 2 ^ (8 * n)"
  by (simp add: power_mult)

lemma store_bytes_other: "x < a \<or> a + length bs \<le> x \<Longrightarrow> store_bytes m a bs x = m x"
  by (auto simp: store_bytes_def)

lemma store_bytes_at: "map (store_bytes m a bs) [a..<a + length bs] = bs"
  by (rule nth_equalityI) (simp_all add: store_bytes_def)

lemma load_store_apart: "a + n \<le> b \<or> b + k \<le> a \<Longrightarrow> load (store m a n v) b k = load m b k"
  unfolding load_def store_def by (rule arg_cong [of _ _ le_val], rule map_cong) (auto intro: store_bytes_other)

interpretation byte_memory: raw_memory load store
proof
  fix m :: memory and a n b k v
  show "load (store m a n v) a n = v mod 2 ^ (8 * n)"
    using store_bytes_at [of m a "le_bytes n v"] by (simp add: load_def store_def pow256)
  show "a + n \<le> b \<or> b + k \<le> a \<Longrightarrow> load (store m a n v) b k = load m b k" by (rule load_store_apart)
  show "0 \<le> load m a n \<and> load m a n < 2 ^ (8 * n)"
    using le_val_range [of "map m [a..<a + n]"] by (simp add: load_def pow256)
  show "k \<le> n \<Longrightarrow> load m a k = load m a n mod 2 ^ (8 * k)"
    using le_val_take [of k "map m [a..<a + n]"] by (simp add: load_def pow256 take_map min_def)
qed

section \<open>Integers\<close>

definition int_codes :: string where
  "int_codes = ''bhilnqBHILENQ''"

lemma int_type_codes: "int_type c = Some (n, sg) \<Longrightarrow> c \<in> set int_codes"
  by (auto simp: int_type_def int_codes_def split: if_splits)

lemma int_codes_facts:
  "\<forall>c\<in>set int_codes. \<not> is_digit c \<and> is_alpha c \<and> c \<notin> set ''OFTPG'' \<and> type_size c \<in> {1, 2, 4, 8} \<and>
     fst (the (int_type c)) = type_size c"
  by (simp add: int_codes_def is_digit_def is_alpha_def type_size_def int_type_def)

lemma int_type_facts:
  assumes "int_type c = Some (n, sg)"
  shows "\<not> is_digit c" "is_alpha c" "c \<noteq> CHR ''O''" "c \<noteq> CHR ''F''" "c \<noteq> CHR ''T''" "c \<noteq> CHR ''P''" "c \<noteq> CHR ''G''"
    and "type_size c = n" "n \<in> {1, 2, 4, 8}"
  using bspec [OF int_codes_facts int_type_codes [OF assms]] assms by auto

text \<open>The object \<open>efi_mem_new_n\<close> makes for \<open>k\<close> integers.\<close>

definition int_array :: "char \<Rightarrow> nat \<Rightarrow> nat \<Rightarrow> nat \<Rightarrow> bool \<Rightarrow> bool \<Rightarrow> mem_attrs" where
  "int_array c n base k ro p =
     \<lparr>mtype = mp_type_mem, addr = base, bitoff = 0, bitnum = 0, readonly = ro, hasvarg = False, overrw = \<not> k * n > 0,
       page = p, typespec = Some [c], typesize = n, msize = k * n\<rparr>"

lemma new_int:
  assumes "int_type c = Some (n, sg)" and "k * n < 2 ^ 64"
  shows "efi_mem_new_n cast ns base k (Some [c]) ro p = Inr (Mem (int_array c n base k ro p) NoUnion)"
  using assms(2) int_type_facts [OF assms(1)]
  by (simp add: efi_mem_new_n_def efi_mem_typecast_by_str_def cast_loop.simps upd_def int_array_def mod64_def Let_def mult.commute)

text \<open>Python's indices: negative ones count from the end.\<close>

definition py_index :: "nat \<Rightarrow> int \<Rightarrow> nat" where
  "py_index k i = nat (if i < 0 then i + int k else i)"

definition in_range :: "nat \<Rightarrow> int \<Rightarrow> bool" where
  "in_range k i \<longleftrightarrow> - int k \<le> i \<and> i < int k"

lemma signed_small: "- (2 ^ 63) \<le> x \<Longrightarrow> x < 2 ^ 63 \<Longrightarrow> signed 8 (x mod 2 ^ 64) = x"
proof (cases "x < 0")
  case True
  assume "- (2 ^ 63) \<le> x"
  then have "x mod 2 ^ 64 = x + 2 ^ 64" using True mod_pos_pos_trivial [of "x + 2 ^ 64" "2 ^ 64"] by simp
  then show ?thesis using True \<open>- (2 ^ 63) \<le> x\<close> by (simp add: signed_def)
qed (simp add: signed_def zmod_trivial_iff)

lemma mp_get_index_ok: "k < 2 ^ 63 \<Longrightarrow> in_range k i \<Longrightarrow> mp_get_index k i = Inr (py_index k i) \<and> py_index k i < k"
  using signed_small [of "i + int k"] by (auto simp: mp_get_index_def in_range_def py_index_def Let_def)

lemma mp_get_index_bad: "k < 2 ^ 63 \<Longrightarrow> \<not> in_range k i \<Longrightarrow> mp_get_index k i = Inl (if \<bar>i\<bar> < 2 ^ 63 then RaiseIndexError else RaiseOverflowError)"
  using signed_small [of "i + int k"] by (cases "- (2 ^ 63) \<le> i + int k") (auto simp: mp_get_index_def in_range_def py_index_def Let_def)

lemma pow_half: "0 < n \<Longrightarrow> (2 :: int) ^ (8 * n) = 2 * 2 ^ (8 * n - 1)"
  using power_Suc [of "2 :: int" "8 * n - 1"] by simp

lemma signed_fits: "0 < n \<Longrightarrow> - (2 ^ (8 * n - 1)) \<le> v \<Longrightarrow> v < 2 ^ (8 * n - 1) \<Longrightarrow> signed n (v mod 2 ^ (8 * n)) = v"
proof (cases "v < 0")
  case True
  assume a: "0 < n" "- (2 ^ (8 * n - 1)) \<le> v"
  have p: "(2 :: int) ^ (8 * n) = 2 * 2 ^ (8 * n - 1)" using a(1) by (rule pow_half)
  have "v mod 2 ^ (8 * n) = v + 2 ^ (8 * n)"
    using True a(2) p mod_pos_pos_trivial [of "v + 2 ^ (8 * n)" "2 ^ (8 * n)"] by simp
  then show ?thesis using True a(2) p by (simp add: signed_def)
next
  case False
  assume a: "0 < n" "v < 2 ^ (8 * n - 1)"
  have "(2 :: int) ^ (8 * n) = 2 * 2 ^ (8 * n - 1)" using a(1) by (rule pow_half)
  then have "v mod 2 ^ (8 * n) = v" using False a(2) by (intro mod_pos_pos_trivial) linarith+
  then show ?thesis using a(2) by (simp add: signed_def)
qed

text \<open>The values of an integer type.\<close>

definition fits :: "nat \<Rightarrow> bool \<Rightarrow> int \<Rightarrow> bool" where
  "fits n sg v \<longleftrightarrow> (if sg then - (2 ^ (8 * n - 1)) \<le> v \<and> v < 2 ^ (8 * n - 1) else 0 \<le> v \<and> v < 2 ^ (8 * n))"

lemma fetch_same: "0 < n \<Longrightarrow> fits n sg v \<Longrightarrow> fetch_int (store m (a + i * n) n (v mod 2 ^ 64)) a n sg i = v" if "n \<in> {1, 2, 4, 8}"
proof -
  assume "0 < n" and f: "fits n sg v"
  have "(2 :: int) ^ (8 * n) dvd 2 ^ 64" using that by (intro le_imp_power_dvd) auto
  then have "v mod 2 ^ 64 mod 2 ^ (8 * n) = v mod 2 ^ (8 * n)" by (rule mod_mod_cancel)
  then show ?thesis using f \<open>0 < n\<close> signed_fits
    by (auto simp: fetch_int_def byte_memory.ld_st fits_def Let_def)
qed

lemma get_int:
  assumes "int_type c = Some (n, sg)" and "0 < k" and "base \<noteq> 0"
  shows "get_value cast ns gs m (Mem (int_array c n base k ro p) u) (Some i)
     = mbind (mp_get_index k i) (\<lambda>j. if j \<ge> k then Inl RaiseIndexError else Inr (VInt (fetch_int m base n sg j)))"
proof -
  have "mem_len (int_array c n base k ro p) = k" using int_type_facts(9) [OF assms(1)] by (auto simp: mem_len_def int_array_def)
  then show ?thesis using assms
    by (cases "mp_get_index k i") (auto simp: get_value_def Let_def int_array_def char_of_spec_def)
qed

lemma set_int:
  assumes "int_type c = Some (n, sg)" and "0 < k"
  shows "set_value sgd (int_array c n base k False p) (Some i) (VInt v) m
     = mbind (mp_get_index k i) (\<lambda>j. if j \<ge> k then Inl RaiseIndexError else Inr (store m (base + j * n) n (v mod 2 ^ 64)))"
proof -
  have "mem_len (int_array c n base k False p) = k" using int_type_facts(9) [OF assms(1)] by (auto simp: mem_len_def int_array_def)
  then show ?thesis using assms
    by (cases "mp_get_index k i") (auto simp: set_value.simps set_plain_def Let_def int_array_def get_uint64_def)
qed

text \<open>
  C24. Integers in memory: what is stored in an element of an array of any integer type (of any width,
  signed or not) is what is loaded from it, if the value fits the type; the other elements and
  all bytes outside the array keep their values. Indices count from the end when negative, and
  one that is out of range is refused when reading and when writing (with \<open>IndexError\<close>, or \<open>OverflowError\<close> if it is no 64-bit number).
\<close>

theorem mem_int_round_trip:
  assumes "int_type c = Some (n, sg)" and "efi_mem_new_n cast ns base k (Some [c]) False p = Inr x"
    and "base \<noteq> 0" and "0 < k" and "k < 2 ^ 63" and "k * n < 2 ^ 64"
  shows "(in_range k i \<and> fits n sg v \<longrightarrow> (\<exists>m'. set_value sgd (attrs x) (Some i) (VInt v) m = Inr m'
      \<and> get_value cast ns gs m' x (Some i) = Inr (VInt v)
      \<and> (\<forall>j. in_range k j \<and> py_index k j \<noteq> py_index k i \<longrightarrow> get_value cast ns gs m' x (Some j) = get_value cast ns gs m x (Some j))
      \<and> (\<forall>y. y < base \<or> base + k * n \<le> y \<longrightarrow> m' y = m y)))
    \<and> (\<not> in_range k i \<longrightarrow> set_value sgd (attrs x) (Some i) (VInt v) m = Inl (if \<bar>i\<bar> < 2 ^ 63 then RaiseIndexError else RaiseOverflowError)
      \<and> get_value cast ns gs m x (Some i) = Inl (if \<bar>i\<bar> < 2 ^ 63 then RaiseIndexError else RaiseOverflowError))"
proof -
  have x: "x = Mem (int_array c n base k False p) NoUnion" using new_int [OF assms(1,6)] assms(2) by simp
  have n: "n \<in> {1, 2, 4, 8}" "0 < n" using int_type_facts(9) [OF assms(1)] by auto
  note get = get_int [OF assms(1,4,3), where p = p] and set = set_int [OF assms(1,4), where p = p]
  let ?m = "store m (base + py_index k i * n) n (v mod 2 ^ 64)"
  have "get_value cast ns gs ?m x (Some i) = Inr (VInt v)" if "in_range k i" "fits n sg v"
    using mp_get_index_ok [OF assms(5) that(1)] fetch_same [OF n that(2)] by (simp add: x get)
  moreover have "get_value cast ns gs ?m x (Some j) = get_value cast ns gs m x (Some j)"
    if "in_range k j" "py_index k j \<noteq> py_index k i" for j
    using mp_get_index_ok [OF assms(5) that(1)] that(2) by (simp add: x get fetch_int_def byte_memory.array_other)
  moreover have "?m y = m y" if r: "in_range k i" and y: "y < base \<or> base + k * n \<le> y" for y
  proof -
    have "Suc (py_index k i) * n \<le> k * n" using mp_get_index_ok [OF assms(5) r] by (intro mult_le_mono1) simp
    then show ?thesis using y unfolding store_def by (intro store_bytes_other) auto
  qed
  moreover have "set_value sgd (attrs x) (Some i) (VInt v) m = Inr ?m" if "in_range k i"
    using mp_get_index_ok [OF assms(5) that] by (simp add: x set)
  ultimately show ?thesis using mp_get_index_bad [OF assms(5)] by (auto simp: x get set)
qed

definition zero_mem :: memory where "zero_mem = (\<lambda>_. 0)"

theorem mem_int_round_trip_witness:
  "\<exists>m'. set_value (\<lambda>_. None) (int_array CHR ''h'' 2 100 5 False False) (Some (- 1)) (VInt (- 7)) zero_mem = Inr m'
     \<and> get_value (\<lambda>_ x. Inr x) (\<lambda>_. TNone) (\<lambda>_. None) m' (Mem (int_array CHR ''h'' 2 100 5 False False) NoUnion) (Some (- 1))
         = Inr (VInt (- 7))"
proof -
  have t: "int_type CHR ''h'' = Some (2, True)" by (simp add: int_type_def type_size_def)
  have n: "efi_mem_new_n (\<lambda>_ x. Inr x) (\<lambda>_. TNone) 100 5 (Some ''h'') False False
      = Inr (Mem (int_array CHR ''h'' 2 100 5 False False) NoUnion)" by (rule new_int [OF t]) simp
  have "in_range 5 (- 1)" "fits 2 True (- 7)" by (simp_all add: in_range_def fits_def)
  then show ?thesis
    using mem_int_round_trip [OF t n, where i = "- 1" and v = "- 7" and m = zero_mem and sgd = "\<lambda>_. None" and gs = "\<lambda>_. None"]
    by auto
qed

section \<open>Bit fields\<close>

text \<open>The bits from \<open>s\<close> on, \<open>b\<close> of them, and what is written there.\<close>

definition bits :: "nat \<Rightarrow> nat \<Rightarrow> int \<Rightarrow> int" where
  "bits s b v = v div 2 ^ s mod 2 ^ b"

lemma bits_alt: "v mod 2 ^ (s + b) div 2 ^ s = bits s b v"
  by (simp add: bits_def power_add zmod_zmult2_eq)

lemma bits_mod: "s + b \<le> w \<Longrightarrow> bits s b (v mod 2 ^ w) = bits s b v"
proof -
  assume "s + b \<le> w"
  then have "v mod 2 ^ w mod 2 ^ (s + b) = v mod 2 ^ (s + b)" by (intro mod_mod_cancel le_imp_power_dvd)
  then show ?thesis by (simp flip: bits_alt)
qed

definition put_bits :: "nat \<Rightarrow> nat \<Rightarrow> int \<Rightarrow> int \<Rightarrow> int" where
  "put_bits s b x v = v - bits s b v * 2 ^ s + x mod 2 ^ b * 2 ^ s"

lemma put_bits_alt: "put_bits s b x v = (v div 2 ^ (s + b) * 2 ^ b + x mod 2 ^ b) * 2 ^ s + v mod 2 ^ s"
proof -
  define f where "f = bits s b v"
  have "v div 2 ^ s = v div 2 ^ (s + b) * 2 ^ b + f"
    using div_mult_mod_eq [of "v div 2 ^ s" "2 ^ b"] by (simp add: f_def bits_def power_add zdiv_zmult2_eq)
  then have "v = (v div 2 ^ (s + b) * 2 ^ b + f) * 2 ^ s + v mod 2 ^ s"
    using div_mult_mod_eq [of v "2 ^ s"] by simp
  then have "v - f * 2 ^ s = v div 2 ^ (s + b) * 2 ^ b * 2 ^ s + v mod 2 ^ s" by (simp add: distrib_right)
  then show ?thesis unfolding put_bits_def f_def [symmetric] by (simp add: distrib_right)
qed

lemma put_bits_div: "put_bits s b x v div 2 ^ s = v div 2 ^ (s + b) * 2 ^ b + x mod 2 ^ b"
  and put_bits_mod: "put_bits s b x v mod 2 ^ s = v mod 2 ^ s"
  by (simp_all add: put_bits_alt)

lemma bits_put: "bits s b (put_bits s b x v) = x mod 2 ^ b"
  by (simp add: bits_def put_bits_div)

lemma bits_put_apart:
  assumes "s + b \<le> s' \<or> s' + b' \<le> s"
  shows "bits s' b' (put_bits s b x v) = bits s' b' v"
  using assms
proof
  assume "s' + b' \<le> s"
  then show ?thesis using bits_mod [of s' b' s] put_bits_mod by metis
next
  assume "s + b \<le> s'"
  then obtain d where d: "s' = s + b + d" using le_Suc_ex by blast
  have "put_bits s b x v div 2 ^ (s + b) = v div 2 ^ (s + b)"
    using put_bits_div [of s b x v] zdiv_zmult2_eq [of "2 ^ b" "put_bits s b x v" "2 ^ s"]
    by (simp add: power_add)
  moreover have "y div 2 ^ s' = y div 2 ^ (s + b) div 2 ^ d" for y :: int by (simp add: d power_add zdiv_zmult2_eq)
  ultimately show ?thesis by (simp add: bits_def)
qed

lemma BitFieldRead_bits: "0 < b \<Longrightarrow> s + b \<le> w \<Longrightarrow> BitFieldRead w v s (s + b - 1) = Inr (bits s b v)"
  using bits_alt [of v s b] by (auto simp: BitFieldRead_def)

lemma BitFieldWrite_bits: "0 < b \<Longrightarrow> s + b \<le> w \<Longrightarrow> BitFieldWrite w v s (s + b - 1) x = Inr (put_bits s b x v)"
  using bits_alt [of v s b] by (auto simp: BitFieldWrite_def put_bits_def)

text \<open>A bit field that lies within its base type.\<close>

definition bit_field :: "nat \<Rightarrow> mem_attrs \<Rightarrow> bool" where
  "bit_field n a \<longleftrightarrow> bits_width (typespec a) = Inr n \<and> 0 < bitnum a \<and> bitnum a < 64 \<and> bitoff a + bitnum a \<le> 8 * n
     \<and> \<not> readonly a \<and> addr a \<noteq> 0"

lemma bits_width_cases: "bits_width sp = Inr n \<Longrightarrow> n \<in> {1, 2, 4, 8}"
  by (auto simp: bits_width_def split: option.splits if_splits)

lemma get_bit_field:
  assumes "bit_field n a"
  shows "get_value cast ns gs m (Mem a u) idx = Inr (VInt (bits (bitoff a) (bitnum a) (load m (addr a) n)))"
proof -
  let ?e = "bitoff a + bitnum a - 1"
  define k :: nat where "k = (if ?e < 8 then 1 else if ?e < 16 then 2 else if ?e < 32 then 4 else 8)"
  have n: "n \<in> {1, 2, 4, 8}" using assms bits_width_cases by (auto simp: bit_field_def)
  have f: "0 < bitnum a" "bitoff a + bitnum a \<le> 8 * n" using assms by (simp_all add: bit_field_def)
  have k: "k \<le> n" "bitoff a + bitnum a \<le> 8 * k" using n f by (auto simp: k_def split: if_splits)
  have "get_bits m a = Inr (bits (bitoff a) (bitnum a) (load m (addr a) k))"
    using BitFieldRead_bits [OF f(1) k(2)] unfolding get_bits_def Let_def k_def by simp
  also have "bits (bitoff a) (bitnum a) (load m (addr a) k) = bits (bitoff a) (bitnum a) (load m (addr a) n)"
    using byte_memory.ld_short [OF k(1)] bits_mod [OF k(2)] by metis
  finally show ?thesis using assms by (simp add: get_value_def bit_field_def Let_def)
qed

lemma set_bit_field:
  assumes "bit_field n a"
  shows "set_value sgd a idx (VInt v) m
     = Inr (store m (addr a) n (put_bits (bitoff a) (bitnum a) v (load m (addr a) n)))"
proof -
  have f: "0 < bitnum a" "bitoff a + bitnum a \<le> 8 * n" using assms by (simp_all add: bit_field_def)
  have n: "n \<in> {1, 2, 4, 8}" using assms bits_width_cases by (auto simp: bit_field_def)
  have "v mod 2 ^ 64 mod 2 ^ (8 * n) mod 2 ^ bitnum a = v mod 2 ^ bitnum a"
  proof -
    have "(2 :: int) ^ (8 * n) dvd 2 ^ 64" using n by (intro le_imp_power_dvd) auto
    then have "v mod 2 ^ 64 mod 2 ^ (8 * n) = v mod 2 ^ (8 * n)" by (rule mod_mod_cancel)
    moreover have "v mod 2 ^ (8 * n) mod 2 ^ bitnum a = v mod 2 ^ bitnum a"
      using f(2) by (intro mod_mod_cancel le_imp_power_dvd) simp
    ultimately show ?thesis by simp
  qed
  then show ?thesis using assms BitFieldWrite_bits [OF f]
    by (simp add: set_value.simps set_bits_def bit_field_def get_uint64_def put_bits_def)
qed

text \<open>
  C25. Bit fields: the bits of a number stored in a bit field that lies within its base type are what is
  loaded from it (although reading and writing use words of different width), every other
  field of the same unit keeps its bits, and so does all memory outside the unit.
\<close>

theorem bit_field_round_trip:
  assumes "bit_field n a"
  shows "\<exists>m'. set_value sgd a idx (VInt v) m = Inr m'
    \<and> get_value cast ns gs m' (Mem a u) idx = Inr (VInt (v mod 2 ^ bitnum a))
    \<and> (\<forall>b w. bit_field n b \<and> addr b = addr a \<and> (bitoff a + bitnum a \<le> bitoff b \<or> bitoff b + bitnum b \<le> bitoff a) \<longrightarrow>
         get_value cast ns gs m' (Mem b w) idx = get_value cast ns gs m (Mem b w) idx)
    \<and> (\<forall>y. y < addr a \<or> addr a + n \<le> y \<longrightarrow> m' y = m y)"
proof -
  let ?x = "put_bits (bitoff a) (bitnum a) v (load m (addr a) n)"
  let ?m = "store m (addr a) n ?x"
  have load: "bits s b (load ?m (addr a) n) = bits s b ?x" if "s + b \<le> 8 * n" for s b
    using bits_mod [OF that] by (simp add: byte_memory.ld_st)
  have "get_value cast ns gs ?m (Mem a u) idx = Inr (VInt (v mod 2 ^ bitnum a))"
    using assms get_bit_field [OF assms] load by (simp add: bit_field_def bits_put)
  moreover have "get_value cast ns gs ?m (Mem b w) idx = get_value cast ns gs m (Mem b w) idx"
    if "bit_field n b" "addr b = addr a" "bitoff a + bitnum a \<le> bitoff b \<or> bitoff b + bitnum b \<le> bitoff a" for b w
    using get_bit_field [OF that(1)] load that bits_put_apart [OF that(3)] by (simp add: bit_field_def)
  moreover have "?m y = m y" if "y < addr a \<or> addr a + n \<le> y" for y
    using that unfolding store_def by (intro store_bytes_other) simp
  ultimately show ?thesis using set_bit_field [OF assms, of sgd idx v m] by blast
qed

text \<open>Two fields of four bits in one byte.\<close>

definition nibble :: "nat \<Rightarrow> mem_attrs" where
  "nibble off = \<lparr>mtype = mp_type_mem, addr = 100, bitoff = off, bitnum = 4, readonly = False, hasvarg = False, overrw = False,
     page = False, typespec = Some ''B:4'', typesize = 1, msize = 1\<rparr>"

theorem bit_field_round_trip_witness:
  "\<exists>m'. set_value (\<lambda>_. None) (nibble 4) None (VInt 0x1A) zero_mem = Inr m'
     \<and> get_value (\<lambda>_ x. Inr x) (\<lambda>_. TNone) (\<lambda>_. None) m' (Mem (nibble 4) NoUnion) None = Inr (VInt 0xA)
     \<and> get_value (\<lambda>_ x. Inr x) (\<lambda>_. TNone) (\<lambda>_. None) m' (Mem (nibble 0) NoUnion) None
         = get_value (\<lambda>_ x. Inr x) (\<lambda>_. TNone) (\<lambda>_. None) zero_mem (Mem (nibble 0) NoUnion) None"
proof -
  have f: "bit_field 1 (nibble 4)" "bit_field 1 (nibble 0)" by (simp_all add: bit_field_def nibble_def bits_width_def)
  show ?thesis
    using bit_field_round_trip [OF f(1), of "\<lambda>_. None" None "0x1A" zero_mem "\<lambda>_ x. Inr x" "\<lambda>_. TNone" "\<lambda>_. None" NoUnion] f(2)
    by (auto simp: nibble_def)
qed

section \<open>Structures\<close>

text \<open>Fields that are arrays of integers: a count, which may be missing, and a type code.\<close>

definition spec_count :: "string \<Rightarrow> nat" where
  "spec_count sp = (if fst (digits sp) > 0 then fst (digits sp) else 1)"

definition spec_code :: "string \<Rightarrow> char" where
  "spec_code sp = hd (snd (digits sp))"

definition spec_size :: "string \<Rightarrow> nat" where
  "spec_size sp = spec_count sp * type_size (spec_code sp)"

definition spec_ok :: "string \<Rightarrow> bool" where
  "spec_ok sp \<longleftrightarrow> length (snd (digits sp)) = 1 \<and> int_type (spec_code sp) \<noteq> None \<and> spec_size sp < 2 ^ 64"

definition field_of :: "bool \<Rightarrow> bool \<Rightarrow> nat \<Rightarrow> string \<Rightarrow> mem_attrs" where
  "field_of ro p a sp = int_array (spec_code sp) (type_size (spec_code sp)) a (spec_count sp) ro p"

text \<open>The reference layout: every field behind the one before.\<close>

fun layout :: "bool \<Rightarrow> bool \<Rightarrow> nat \<Rightarrow> (string \<times> string) list \<Rightarrow> (string \<times> mp_obj_mem_t) list" where
  "layout ro p a [] = []"
| "layout ro p a ((name, sp) # fs) = (name, Mem (field_of ro p a sp) NoUnion) # layout ro p (a + spec_size sp) fs"

lemma spec_ok_type: "spec_ok sp \<Longrightarrow> \<exists>sg. int_type (spec_code sp) = Some (type_size (spec_code sp), sg)"
  using int_type_facts(8) by (auto simp: spec_ok_def)

lemma spec_size_pos: "spec_ok sp \<Longrightarrow> 0 < spec_size sp"
  using spec_ok_type int_type_facts(9) by (fastforce simp: spec_size_def spec_count_def)

lemma new_field:
  assumes "spec_ok sp"
  shows "efi_mem_new cast ns a sp ro p = Inr (Mem (field_of ro p a sp) NoUnion)"
proof -
  obtain sg where sg: "int_type (spec_code sp) = Some (type_size (spec_code sp), sg)" using spec_ok_type [OF assms] by blast
  have "snd (digits sp) = [spec_code sp]" using assms by (cases "snd (digits sp)") (auto simp: spec_ok_def spec_code_def)
  then have d: "digits sp = (fst (digits sp), [spec_code sp])" by (metis prod.collapse)
  have "spec_count sp * type_size (spec_code sp) < 2 ^ 64" using assms by (simp add: spec_ok_def spec_size_def)
  then show ?thesis using new_int [OF sg, of "spec_count sp" cast ns a ro p]
    unfolding efi_mem_new_def by (subst d) (simp add: spec_count_def field_of_def)
qed

lemma dict_layout:
  "\<forall>(name, sp)\<in>set fs. spec_ok sp \<Longrightarrow>
   dict_loop cast ns ro p fs a prev = Inr (a + sum_list (map (spec_size \<circ> snd) fs), layout ro p a fs)"
proof (induction fs arbitrary: a prev)
  case (Cons f fs)
  obtain name sp where f: "f = (name, sp)" by force
  have ok: "spec_ok sp" using Cons.prems f by simp
  have "efi_mem_get_size (Mem (field_of ro p a sp) NoUnion) = Inr (spec_size sp)"
    using spec_size_pos [OF ok] by (simp add: efi_mem_get_size_def field_of_def int_array_def spec_size_def)
  moreover have "bitnum (field_of ro p a sp) = 0" by (simp add: field_of_def int_array_def)
  ultimately show ?case using Cons.IH [of "a + spec_size sp"] Cons.prems
    by (auto simp: f new_field [OF ok] split: option.split)
qed simp

lemma layout_within:
  "(f, x) \<in> set (layout ro p a fs) \<Longrightarrow> a \<le> addr (attrs x) \<and> addr (attrs x) + msize (attrs x) \<le> a + sum_list (map (spec_size \<circ> snd) fs)"
proof (induction fs arbitrary: a)
  case (Cons g fs)
  obtain name sp where g: "g = (name, sp)" by force
  show ?case using Cons.prems Cons.IH [of "a + spec_size sp"] by (auto simp: g field_of_def int_array_def spec_size_def)
qed simp

lemma layout_names: "map fst (layout ro p a fs) = map fst fs"
  by (induction ro p a fs rule: layout.induct) auto

lemma layout_disjoint:
  "distinct (map fst fs) \<Longrightarrow> (f, x) \<in> set (layout ro p a fs) \<Longrightarrow> (g, y) \<in> set (layout ro p a fs) \<Longrightarrow> f \<noteq> g \<Longrightarrow>
   addr (attrs x) + msize (attrs x) \<le> addr (attrs y) \<or> addr (attrs y) + msize (attrs y) \<le> addr (attrs x)"
proof (induction fs arbitrary: a)
  case (Cons h fs)
  obtain name sp where h: "h = (name, sp)" by force
  have head: "addr (field_of ro p a sp) + msize (field_of ro p a sp) = a + spec_size sp"
    by (simp add: field_of_def int_array_def spec_size_def)
  show ?case using Cons.prems Cons.IH [of "a + spec_size sp"] head
      layout_within [of f x ro p "a + spec_size sp" fs] layout_within [of g y ro p "a + spec_size sp" fs]
    by (auto simp: h)
qed simp

lemma layout_field: "(f, sp) \<in> set fs \<Longrightarrow> \<exists>b. (f, Mem (field_of ro p b sp) NoUnion) \<in> set (layout ro p a fs)"
  by (induction ro p a fs rule: layout.induct) auto

lemma layout_is_field: "(f, x) \<in> set (layout ro p a fs) \<Longrightarrow> \<exists>b sp. x = Mem (field_of ro p b sp) NoUnion \<and> (f, sp) \<in> set fs"
  by (induction ro p a fs rule: layout.induct) auto

lemma cast_layout:
  assumes "\<forall>(name, sp)\<in>set fs. spec_ok sp"
  shows "efi_mem_typecast (Suc fuel) ns (TDict fs) self =
     Inr (Mem ((attrs self)\<lparr>typesize := sum_list (map (spec_size \<circ> snd) fs)\<rparr>)
       (Fields (layout (readonly (attrs self)) (page (attrs self)) (addr (attrs self)) fs)))"
  using dict_layout [OF assms] by (simp add: efi_mem_typecast_by_dict_def Let_def)

lemma get_scalar:
  assumes "int_type c = Some (n, sg)" and "base \<noteq> 0" and "0 < k"
  shows "get_value cast ns gs m (Mem (int_array c n base k ro p) u) None = Inr (VInt (fetch_int m base n sg 0))"
  using assms int_type_facts(9) [OF assms(1)]
  by (auto simp: get_value_def int_array_def char_of_spec_def Let_def mem_len_def)

lemma set_scalar:
  assumes "int_type c = Some (n, sg)" and "0 < k"
  shows "set_value sgd (int_array c n base k False p) None (VInt v) m = Inr (store m base n (v mod 2 ^ 64))"
  using assms int_type_facts(9) [OF assms(1)]
  by (auto simp: set_value.simps set_plain_def int_array_def get_uint64_def mem_len_def)

lemma load_field:
  assumes "spec_ok sp" and "b \<noteq> 0" and "int_type (spec_code sp) = Some (n, sg)"
  shows "(let x = Mem (field_of ro p b sp) NoUnion; at = attrs x in
       if union x \<noteq> NoUnion \<or> msize at > typesize at then Inr (VObj x)
       else if typesize at = 0 then Inl (MemFault DivideError)
       else if 8 mod typesize at \<noteq> 0 then Inr (VObj x)
       else get_value cast ns gs m x None)
     = (if spec_count sp = 1 then Inr (VInt (fetch_int m b n sg 0)) else Inr (VObj (Mem (field_of ro p b sp) NoUnion)))"
proof -
  have n: "type_size (spec_code sp) = n" "n \<in> {1, 2, 4, 8}" using int_type_facts(8,9) [OF assms(3)] by auto
  have "0 < spec_count sp" by (simp add: spec_count_def)
  then show ?thesis using n get_scalar [OF assms(3,2), where k = 1]
    by (auto simp: field_of_def int_array_def Let_def)
qed

lemma find_field_layout:
  assumes "distinct (map fst fs)" and "(f, x) \<in> set (layout ro p a fs)"
  shows "find_field f (Mem at (Fields (layout ro p a fs))) = Inr x"
  using assms layout_names [of ro p a fs] by (simp add: find_field_def)

text \<open>
  C26. Structures of integers and integer arrays: casting an object to a structure lays the fields out one
  behind the other, and the fields are independent. Storing a number in a field that is no array
  succeeds, the field then has this value, and every other attribute reads as it did before; no
  byte outside the structure changes.
\<close>

theorem struct_fields_independent:
  assumes "\<forall>(name, sp)\<in>set fs. spec_ok sp" and "distinct (map fst fs)"
    and "(f, sp) \<in> set fs" and "spec_count sp = 1" and "f \<notin> set mem_methods"
    and "int_type (spec_code sp) = Some (n, sg)" and "fits n sg v"
    and "\<not> readonly (attrs self)" and "addr (attrs self) \<noteq> 0"
    and "efi_mem_typecast (Suc fuel) ns (TDict fs) self = Inr x"
  shows "\<exists>m'. mem_attr_store cast sgd (Named f) (VInt v) desc (x, m) = Inr (x, m')
    \<and> mem_attr_load cast ns gs m' x (Named f) = Inr (VInt v)
    \<and> (\<forall>g. g \<noteq> f \<longrightarrow> mem_attr_load cast ns gs m' x (Named g) = mem_attr_load cast ns gs m x (Named g))
    \<and> (\<forall>y. y < addr (attrs self) \<or> addr (attrs self) + typesize (attrs x) \<le> y \<longrightarrow> m' y = m y)"
proof -
  let ?a = "addr (attrs self)" and ?p = "page (attrs self)"
  let ?at = "(attrs self)\<lparr>typesize := sum_list (map (spec_size \<circ> snd) fs)\<rparr>"
  have x: "x = Mem ?at (Fields (layout False ?p ?a fs))" using cast_layout [OF assms(1), of fuel ns self] assms(8,10) by simp
  obtain b where b: "(f, Mem (field_of False ?p b sp) NoUnion) \<in> set (layout False ?p ?a fs)"
    using layout_field [OF assms(3)] by blast
  have n: "type_size (spec_code sp) = n" "n \<in> {1, 2, 4, 8}" "0 < n" using int_type_facts(8,9) [OF assms(6)] by auto
  have fo: "field_of False ?p b sp = int_array (spec_code sp) n b 1 False ?p" by (simp add: field_of_def n assms(4))
  have ok: "spec_ok sp" using assms(1,3) by auto
  have within: "?a \<le> b \<and> b + n \<le> ?a + typesize ?at" using layout_within [OF b] by (simp add: fo int_array_def)
  let ?m = "store m b n (v mod 2 ^ 64)"
  have store: "mem_attr_store cast sgd (Named f) (VInt v) desc (x, m) = Inr (x, ?m)"
    using set_scalar [OF assms(6), of 1] by (simp add: mem_attr_store_def x find_field_layout [OF assms(2) b] fo)
  have "mem_attr_load cast ns gs ?m x (Named f) = Inr (VInt (fetch_int ?m b n sg 0))"
    using load_field [OF ok _ assms(6)] within assms(4,5,9) by (simp add: mem_attr_load_def x find_field_layout [OF assms(2) b])
  then have same: "mem_attr_load cast ns gs ?m x (Named f) = Inr (VInt v)"
    using fetch_same [OF n(2,3) assms(7), of m b 0] by simp
  have other: "mem_attr_load cast ns gs ?m x (Named g) = mem_attr_load cast ns gs m x (Named g)" if "g \<noteq> f" for g
  proof (cases "map_of (layout False ?p ?a fs) g")
    case None
    then show ?thesis by (simp add: mem_attr_load_def x find_field_def)
  next
    case (Some y)
    then have y: "(g, y) \<in> set (layout False ?p ?a fs)" by (rule map_of_SomeD)
    then obtain c sp' where c: "y = Mem (field_of False ?p c sp') NoUnion" "(g, sp') \<in> set fs" using layout_is_field by blast
    then obtain n' sg' where t: "int_type (spec_code sp') = Some (n', sg')" using assms(1) by (fastforce simp: spec_ok_def)
    have ok': "spec_ok sp'" using assms(1) c(2) by auto
    have n': "type_size (spec_code sp') = n'" using int_type_facts(8) [OF t] .
    have c0: "c \<noteq> 0" using layout_within [OF y] assms(9) by (simp add: c field_of_def int_array_def)
    have "b + n \<le> c \<or> c + n' \<le> b" if "spec_count sp' = 1"
      using layout_disjoint [OF assms(2) b y] \<open>g \<noteq> f\<close> that by (simp add: c field_of_def int_array_def n' n assms(4))
    then have "spec_count sp' = 1 \<Longrightarrow> fetch_int ?m c n' sg' 0 = fetch_int m c n' sg' 0"
      using load_store_apart [of b n c n' m "v mod 2 ^ 64"] by (auto simp: fetch_int_def)
    then show ?thesis using load_field [OF ok' c0 t] by (simp add: mem_attr_load_def x find_field_layout [OF assms(2) y] c(1))
  qed
  have "?m y = m y" if "y < ?a \<or> ?a + typesize (attrs x) \<le> y" for y
    using that within unfolding store_def by (intro store_bytes_other) (auto simp: x)
  then show ?thesis using store same other by blast
qed

text \<open>A structure with a byte, an array and a signed word, at address 100.\<close>

definition demo_fields :: "(string \<times> string) list" where
  "demo_fields = [(''a'', ''B''), (''b'', ''3I''), (''c'', ''h'')]"

definition at_100 :: mp_obj_mem_t where
  "at_100 = Mem (int_array CHR ''B'' 1 100 0 False False) NoUnion"

lemma demo_digits: "digits ''B'' = (0, ''B'')" "digits ''3I'' = (3, ''I'')" "digits ''h'' = (0, ''h'')"
  by (simp_all add: digits_def is_digit_def digit_val_def mod64_def)

lemma demo_ok: "\<forall>(name, sp)\<in>set demo_fields. spec_ok sp"
  by (auto simp: demo_fields_def spec_ok_def demo_digits spec_code_def spec_size_def spec_count_def int_type_def type_size_def)

theorem struct_fields_independent_witness:
  "\<exists>x m'. efi_mem_typecast 1 (\<lambda>_. TNone) (TDict demo_fields) at_100 = Inr x
     \<and> mem_attr_store (\<lambda>_ x. Inr x) (\<lambda>_. None) (Named ''c'') (VInt (- 5)) TNone (x, zero_mem) = Inr (x, m')
     \<and> mem_attr_load (\<lambda>_ x. Inr x) (\<lambda>_. TNone) (\<lambda>_. None) m' x (Named ''c'') = Inr (VInt (- 5))"
proof -
  let ?x = "Mem ((attrs at_100)\<lparr>typesize := sum_list (map (spec_size \<circ> snd) demo_fields)\<rparr>)
       (Fields (layout (readonly (attrs at_100)) (page (attrs at_100)) (addr (attrs at_100)) demo_fields))"
  have x: "efi_mem_typecast (Suc 0) (\<lambda>_. TNone) (TDict demo_fields) at_100 = Inr ?x" by (rule cast_layout [OF demo_ok])
  have "\<exists>m'. mem_attr_store (\<lambda>_ x. Inr x) (\<lambda>_. None) (Named ''c'') (VInt (- 5)) TNone (?x, zero_mem) = Inr (?x, m')
     \<and> mem_attr_load (\<lambda>_ x. Inr x) (\<lambda>_. TNone) (\<lambda>_. None) m' ?x (Named ''c'') = Inr (VInt (- 5))
     \<and> (\<forall>g. g \<noteq> ''c'' \<longrightarrow> mem_attr_load (\<lambda>_ x. Inr x) (\<lambda>_. TNone) (\<lambda>_. None) m' ?x (Named g)
          = mem_attr_load (\<lambda>_ x. Inr x) (\<lambda>_. TNone) (\<lambda>_. None) zero_mem ?x (Named g))
     \<and> (\<forall>y. y < addr (attrs at_100) \<or> addr (attrs at_100) + typesize (attrs ?x) \<le> y \<longrightarrow> m' y = zero_mem y)"
    by (rule struct_fields_independent [OF demo_ok _ _ _ _ _ _ _ _ x, where sp = "''h''" and n = 2 and sg = True])
      (simp_all add: demo_fields_def mem_methods_def spec_count_def spec_code_def demo_digits int_type_def type_size_def fits_def
        at_100_def int_array_def)
  then show ?thesis using x by auto
qed

section \<open>Defects\<close>

text \<open>
  Bit fields that fill their unit: the field behind them is placed in the next unit, but keeps
  counting its offset from the unit before. Of three fields of four bits, the third has offset 8 at
  the second byte; reading it yields bits of the third byte, and writing it fails an assertion.
\<close>

theorem bit_fields_after_full_unit:
  assumes "addr (attrs self) = a" and "a \<noteq> 0" and "\<not> readonly (attrs self)"
  shows "\<exists>x z. efi_mem_typecast (Suc fuel) ns (TDict [(''x'', ''B:4''), (''y'', ''B:4''), (''z'', ''B:4'')]) self = Inr x
    \<and> find_field ''z'' x = Inr z \<and> addr (attrs z) = a + 1 \<and> bitoff (attrs z) = 8
    \<and> get_value cast ns gs m z None = Inr (VInt (uint (m (a + 2)) mod 16))
    \<and> set_value sgd (attrs z) None (VInt v) m = Inl (MemFault AssertFailed)"
proof -
  let ?f = "\<lambda>b off. Mem \<lparr>mtype = mp_type_mem, addr = b, bitoff = off, bitnum = 4, readonly = False, hasvarg = False, overrw = False,
     page = page (attrs self), typespec = Some ''B:4'', typesize = 1, msize = 1\<rparr> NoUnion"
  have d: "digits ''B:4'' = (0, ''B:4'')" by (simp add: digits_def is_digit_def)
  have new: "efi_mem_new c ns b ''B:4'' False p = Inr (Mem ((attrs (?f b 0))\<lparr>page := p\<rparr>) NoUnion)" for c b p
    by (simp add: efi_mem_new_def d efi_mem_new_n_def efi_mem_typecast_by_str_def cast_loop.simps upd_def is_digit_def is_alpha_def
        type_size_def digit_val_def mod64_def Let_def)
  have "load m (a + 1) 2 mod 2 ^ 12 div 2 ^ 8 = uint (m (a + 2)) mod 16"
  proof -
    have "load m (a + 1) 2 = uint (m (a + 1)) + 256 * uint (m (a + 2))" by (simp add: load_def upt_rec)
    moreover have "0 \<le> uint (m (a + 1))" "uint (m (a + 1)) < 256" using uint_lt2p [of "m (a + 1)"] by auto
    ultimately show ?thesis by (simp add: bits_alt [of _ 8 4, simplified] bits_def)
  qed
  then show ?thesis using assms
    by (simp add: efi_mem_typecast_by_dict_def new efi_mem_get_size_def upd_def find_field_def get_value_def get_bits_def
        BitFieldRead_def set_value.simps set_bits_def bits_width_def get_uint64_def BitFieldWrite_def Let_def)
qed

theorem bit_fields_after_full_unit_witness:
  "\<exists>x z. efi_mem_typecast 1 (\<lambda>_. TNone) (TDict [(''x'', ''B:4''), (''y'', ''B:4''), (''z'', ''B:4'')]) at_100 = Inr x
    \<and> find_field ''z'' x = Inr z \<and> addr (attrs z) = 101 \<and> bitoff (attrs z) = 8
    \<and> set_value (\<lambda>_. None) (attrs z) None (VInt 3) zero_mem = Inl (MemFault AssertFailed)"
  using bit_fields_after_full_unit [of at_100 100 0 "\<lambda>_. TNone" "\<lambda>_ x. Inr x" "\<lambda>_. None" zero_mem "\<lambda>_. None" 3]
  by (auto simp: at_100_def int_array_def)

section \<open>Types that refer to types\<close>

lemma mbind_no_limit: "r \<noteq> Inl StackLimit \<Longrightarrow> (\<And>x. f x \<noteq> Inl StackLimit) \<Longrightarrow> mbind r f \<noteq> Inl StackLimit"
  by (cases r) auto

lemma fptr_args_suffix: "fptr_args s cur args va = (x, y, z) \<Longrightarrow> suffix z s"
  by (induction s arbitrary: cur args va) (auto simp: Let_def suffix_ConsI split: if_splits)

text \<open>The structures a type description refers to.\<close>

definition refs :: "string \<Rightarrow> string set" where
  "refs sp = {s. suffix (CHR ''O'' # s) sp}"

lemma refs_suffix: "suffix t sp \<Longrightarrow> refs t \<subseteq> refs sp"
  by (auto simp: refs_def intro: suffix_order.trans)

lemma cast_loop_limit:
  "\<forall>s\<in>refs sp. \<forall>x. cast (ns s) x \<noteq> Inl StackLimit \<Longrightarrow> cast_loop cast ns sp num bf self \<noteq> Inl StackLimit"
proof (induction sp arbitrary: num bf self rule: length_induct)
  case (1 sp)
  show ?case
  proof (cases sp)
    case (Cons c s)
    have IH: "cast_loop cast ns z num bf self \<noteq> Inl StackLimit" if "suffix z s" for z num bf self
    proof -
      have "refs z \<subseteq> refs sp" unfolding Cons using that by (intro refs_suffix) (simp add: suffix_ConsI)
      moreover have "length z < length sp" using suffix_length_le [OF that] Cons by simp
      ultimately show ?thesis using 1 by blast
    qed
    note step = cast_loop.simps(2) [of cast ns c s num bf self]
    consider "is_digit c" | "\<not> is_digit c" "c = CHR ''O''" | "\<not> is_digit c" "c = CHR ''F''"
      | "\<not> is_digit c" "c \<noteq> CHR ''O''" "c \<noteq> CHR ''F''" by blast
    then show ?thesis
    proof cases
      case 1
      then show ?thesis using IH by (simp add: Cons step)
    next
      case 2
      have "cast (ns s) x \<noteq> Inl StackLimit" for x using 2 \<open>\<forall>s\<in>refs sp. \<forall>x. cast (ns s) x \<noteq> Inl StackLimit\<close>
        by (simp add: Cons refs_def)
      then show ?thesis unfolding Cons step using 2 by (auto simp: Let_def is_alpha_def mbind_def split: sum.splits)
    next
      case 3
      then show ?thesis unfolding Cons step using IH fptr_args_suffix by (auto simp: Let_def is_alpha_def split: prod.splits)
    next
      case 4
      then show ?thesis using IH by (auto simp: Cons step Let_def)
    qed
  qed simp
qed

lemma new_limit:
  assumes "\<forall>s\<in>refs sp. \<forall>x. cast (ns s) x \<noteq> Inl StackLimit"
  shows "efi_mem_new cast ns a sp ro p \<noteq> Inl StackLimit"
proof -
  have "refs (snd (digits sp)) \<subseteq> refs sp" by (intro refs_suffix) (simp add: digits_def suffix_dropWhile)
  then have "cast_loop cast ns (snd (digits sp)) num bf self \<noteq> Inl StackLimit" for num bf self
    using assms by (intro cast_loop_limit) blast
  then show ?thesis
    by (auto simp: efi_mem_new_def efi_mem_new_n_def efi_mem_typecast_by_str_def mbind_def Let_def split: sum.splits prod.splits)
qed

lemma dict_limit:
  "\<forall>(n, sp)\<in>set fs. \<forall>s\<in>refs sp. \<forall>x. cast (ns s) x \<noteq> Inl StackLimit \<Longrightarrow> dict_loop cast ns ro p fs a prev \<noteq> Inl StackLimit"
proof (induction fs arbitrary: a prev)
  case (Cons f fs)
  obtain n sp where f: "f = (n, sp)" by force
  have new: "efi_mem_new cast ns a sp ro p \<noteq> Inl StackLimit" using new_limit Cons.prems f by fastforce
  have rest: "dict_loop cast ns ro p fs b q \<noteq> Inl StackLimit" for b q using Cons by simp
  have size: "efi_mem_get_size x \<noteq> Inl StackLimit" for x by (simp add: efi_mem_get_size_def Let_def)
  show ?case unfolding f dict_loop.simps Let_def
    by (intro mbind_no_limit new rest size) (simp split: prod.splits)
qed simp

text \<open>The structures a type description refers to directly.\<close>

definition desc_refs :: "typedesc \<Rightarrow> string set" where
  "desc_refs d = (case d of TDict fs \<Rightarrow> (\<Union>f\<in>set fs. refs (snd f)) | TStr sp \<Rightarrow> refs sp | _ \<Rightarrow> {})"

text \<open>
  C34. Casting returns for every type description without cycles: if a rank decreases from a description
  to the ones it refers to, a depth above the rank is enough for \<open>efi_mem_typecast\<close> to come back
  (with an object, or with an error other than the exhausted stack).
\<close>

theorem acyclic_types_return:
  fixes rank :: "typedesc \<Rightarrow> nat"
  assumes "\<forall>d. \<forall>s\<in>desc_refs d. rank (ns s) < rank d" and "rank desc < fuel"
  shows "efi_mem_typecast fuel ns desc self \<noteq> Inl StackLimit"
  using assms(2)
proof (induction fuel arbitrary: desc self)
  case (Suc fuel)
  have IH: "\<forall>s\<in>desc_refs desc. \<forall>x. efi_mem_typecast fuel ns (ns s) x \<noteq> Inl StackLimit"
    using Suc assms(1) by (meson less_Suc_eq_le less_le_trans)
  have size: "efi_mem_get_size x \<noteq> Inl StackLimit" for x by (simp add: efi_mem_get_size_def Let_def)
  show ?case
  proof (cases desc)
    case (TDict fs)
    then have "dict_loop (efi_mem_typecast fuel ns) ns ro p fs a prev \<noteq> Inl StackLimit" for ro p a prev
      using IH by (intro dict_limit) (auto simp: desc_refs_def)
    then show ?thesis by (auto simp: TDict efi_mem_typecast_by_dict_def mbind_def Let_def split: sum.splits)
  next
    case (TStr sp)
    have "refs (snd (digits sp)) \<subseteq> refs sp" by (intro refs_suffix) (simp add: digits_def suffix_dropWhile)
    then have "cast_loop (efi_mem_typecast fuel ns) ns (snd (digits sp)) num bf x \<noteq> Inl StackLimit" for num bf x
      using IH TStr by (intro cast_loop_limit) (auto simp: desc_refs_def)
    then show ?thesis using size
      by (auto simp: TStr efi_mem_typecast_by_str_def mbind_def Let_def split: sum.splits prod.splits if_splits)
  qed simp_all
qed simp

text \<open>A type that contains a structure of integers.\<close>

definition demo_ns :: name_space where
  "demo_ns s = (if s = ''#P'' then TDict [(''x'', ''i''), (''y'', ''i'')] else TNone)"

definition demo_rank :: "typedesc \<Rightarrow> nat" where
  "demo_rank d = (if desc_refs d = {} then 0 else if desc_refs d \<inter> {''#P''} = {} then 1 else 2)"

lemma demo_refs: "desc_refs (demo_ns s) = {}"
  by (auto simp: desc_refs_def demo_ns_def refs_def suffix_Cons)

theorem acyclic_types_return_witness:
  "efi_mem_typecast 3 demo_ns (TDict [(''p'', ''O#P''), (''q'', ''O#P'')]) at_100 \<noteq> Inl StackLimit"
  by (rule acyclic_types_return [where rank = demo_rank])
    (auto simp: demo_rank_def demo_refs)

text \<open>
  Casting to a structure whose first field is the structure itself never returns: however deep the
  stack is, it is exhausted.
\<close>

theorem self_reference_recurses:
  assumes "ns (CHR ''#'' # name) = TDict ((f, ''O#'' @ name) # fs)"
  shows "efi_mem_typecast fuel ns (ns (CHR ''#'' # name)) self = Inl StackLimit"
proof (induction fuel arbitrary: self)
  case (Suc fuel)
  have d: "digits (''O#'' @ name) = (0, ''O#'' @ name)" by (simp add: digits_def is_digit_def)
  have "cast_loop (efi_mem_typecast fuel ns) ns (''O#'' @ name) 0 False x = Inl StackLimit" for x
    using Suc by (simp add: cast_loop.simps is_digit_def is_alpha_def Let_def)
  then have "efi_mem_new (efi_mem_typecast fuel ns) ns a (''O#'' @ name) ro p = Inl StackLimit" for a ro p
    unfolding efi_mem_new_def d by (simp add: efi_mem_new_n_def efi_mem_typecast_by_str_def Let_def)
  then show ?case by (simp add: assms efi_mem_typecast_by_dict_def Let_def)
qed simp

theorem self_reference_recurses_witness:
  "efi_mem_typecast 1000 (\<lambda>_. TDict [(''next'', ''O#L'')]) (TDict [(''next'', ''O#L'')]) at_100 = Inl StackLimit"
  using self_reference_recurses [of "\<lambda>_. TDict [(''next'', ''O#L'')]" "''L''" "''next''" "[]" 1000 at_100] by simp

section \<open>Freeing\<close>

lemma free_once: "snd (efi_mem_free (fst (efi_mem_free x))) = []"
  by (simp add: efi_mem_free_def Let_def)

text \<open>
  An object without a type can be read, as bytes, but a write dereferences the missing type.
\<close>

lemma untyped_write_faults:
  assumes "efi_mem_typecast (Suc fuel) ns TNone self = Inr x" and "addr (attrs self) \<noteq> 0" and "bitnum (attrs self) = 0"
    and "\<not> readonly (attrs self)" and "0 < msize (attrs self)" and "msize (attrs self) < 2 ^ 63"
  shows "get_value cast ns gs m x (Some 0) = Inr (VInt (uint (m (addr (attrs self)))))
    \<and> set_value sgd (attrs x) (Some 0) v m = Inl (MemFault NullDeref)"
proof -
  have x: "x = upd (\<lambda>a. a\<lparr>typespec := None, typesize := 1\<rparr>) self" using assms(1) by simp
  have "mp_get_index (msize (attrs self)) 0 = Inr 0" using assms(5) by (simp add: mp_get_index_def)
  then show ?thesis using assms(2-6)
    by (simp add: x get_value_def set_value.simps mem_len_def char_of_spec_def int_type_def type_size_def fetch_int_def load_def)
qed

end
