(* ===== verification/Repl.thy ===== *)
theory Repl
  imports Misc_Strings
begin

text \<open>
  \<open>MicroPythonDxe/Uefi/repl.c\<close>: the line editor of the interactive prompt, with the cursor functions of
  \<open>uefi_mphal.c\<close> it calls.

  The line is the list of the bytes of the \<open>vstr_t\<close> (\<open>len\<close> of them); reading behind its end is the fault
  \<open>OutOfBounds\<close>, even where the allocated buffer still holds old bytes. What is sent to the console is a
  list of operations. The interpreter's \<open>mp_repl_continue_with_input\<close> and \<open>mp_repl_autocomplete\<close> are
  arguments (what completion itself prints is left out), as is whether there is memory for a history entry.
\<close>

section \<open>State\<close>

datatype REPL_MODE = REPL_MODE_NORMAL | REPL_MODE_CONTINUE | REPL_MODE_PASTE

record REPL_DATA =
  Line :: "byte list"
  OrigLineLength :: nat
  CursorPos :: nat
  History :: "byte list option list"
  HistoryIndex :: nat

definition REPL_HIST_SIZE :: nat where "REPL_HIST_SIZE = 64"

definition Prompt :: "REPL_MODE \<Rightarrow> byte list" where
  "Prompt m = (case m of REPL_MODE_NORMAL \<Rightarrow> [62, 62, 62, 32] | REPL_MODE_CONTINUE \<Rightarrow> [46, 46, 46, 32]
     | REPL_MODE_PASTE \<Rightarrow> [61, 61, 61, 32])"

text \<open>
  Console operations: text, moving the cursor back, erasing behind the cursor, and what \<open>ReplClear\<close> does:
  going to a column some rows up, a blank and a new line.
\<close>

datatype term_op = Tx "byte list" | MoveBack "32 word" | EraseFrom "32 word" | GoUp nat nat | OutBlank | OutNewLine

definition newline :: term_op where "newline = Tx [13, 10]"

datatype completion = NoMatch | ManyMatches | OneMatch "byte list"

record repl_env =
  continue_with_input :: "byte list \<Rightarrow> bool"
  autocomplete :: "byte list \<Rightarrow> completion"
  history_memory :: bool

section \<open>Strings\<close>

definition cstr :: "byte list \<Rightarrow> byte list" where
  "cstr s = takeWhile (\<lambda>c. c \<noteq> 0) s"

text \<open>\<open>vstr_null_terminated_str (Line) + off\<close>, as a C string.\<close>

definition line_from :: "byte list \<Rightarrow> nat \<Rightarrow> byte list result" where
  "line_from line off = (if off \<le> length line then Inr (cstr (drop off line)) else Inl OutOfBounds)"

definition vstr_ins_char :: "byte list \<Rightarrow> nat \<Rightarrow> byte \<Rightarrow> byte list" where
  "vstr_ins_char line pos c = take pos line @ c # drop pos line"

definition vstr_cut_out :: "byte list \<Rightarrow> nat \<Rightarrow> nat \<Rightarrow> byte list" where
  "vstr_cut_out line pos n = take pos line @ drop (pos + n) line"

definition ReplLineStrip :: "byte list \<Rightarrow> byte list" where
  "ReplLineStrip line = rev (dropWhile (\<lambda>c. c \<in> {10, 32, 13, 9}) (rev line))"

text \<open>\<open>ReplPrint\<close>: \<open>cur\<close> is what was collected since the last line feed.\<close>

fun print_loop :: "byte list \<Rightarrow> byte list \<Rightarrow> term_op list" where
  "print_loop cur [] = (if cur \<noteq> [] then [Tx cur] else [])"
| "print_loop cur (c # s) =
     (if c = 10 then Tx cur # newline # Tx (Prompt REPL_MODE_CONTINUE) # print_loop [] s
      else print_loop (cur @ [c]) s)"

definition ReplPrint :: "byte list \<Rightarrow> term_op list" where
  "ReplPrint s = print_loop [] s"

section \<open>Operations\<close>

text \<open>
  \<open>uefi_mphal.c\<close>: the column after moving back from column \<open>x\<close>, which reads its argument as a \<open>short\<close>, and the
  number of blanks that \<open>mp_hal_erase_line_from_cursor\<close> writes, which counts in an \<open>int\<close>.
\<close>

definition mp_hal_move_cursor_back :: "32 word \<Rightarrow> nat \<Rightarrow> nat" where
  "mp_hal_move_cursor_back pos x = (if pos > 0 then nat (int x - sint (ucast pos :: w16)) else x)"

definition erased :: "32 word \<Rightarrow> nat" where
  "erased n = nat (sint n)"

fun clear_loop :: "nat \<Rightarrow> byte list \<Rightarrow> term_op list" where
  "clear_loop plen [] = []"
| "clear_loop plen (c # s) =
     OutBlank # (if c = 10 then OutNewLine # replicate plen OutBlank else []) @ clear_loop plen s"

definition ReplClear :: "REPL_DATA \<Rightarrow> REPL_DATA \<times> term_op list" where
  "ReplClear r =
     (let lines = length (filter (\<lambda>c. c = 10) (Line r)); plen = length (Prompt REPL_MODE_NORMAL) in
      (r\<lparr>Line := [], OrigLineLength := 0, CursorPos := 0\<rparr>,
       GoUp plen lines # clear_loop plen (Line r) @ [GoUp plen lines]))"

definition ReplPushHistory :: "bool \<Rightarrow> byte list \<Rightarrow> REPL_DATA \<Rightarrow> REPL_DATA" where
  "ReplPushHistory grant s r =
     (let lst = (REPL_HIST_SIZE + HistoryIndex r - 1) mod REPL_HIST_SIZE;
          nxt = (HistoryIndex r + 1) mod REPL_HIST_SIZE in
      if s \<noteq> [] \<and> History r ! lst \<noteq> Some s
      then r\<lparr>History := (if grant then (History r)[HistoryIndex r := Some s] else History r)[nxt := None],
             HistoryIndex := nxt\<rparr>
      else r)"

definition ReplReset :: "REPL_DATA \<Rightarrow> REPL_DATA \<times> term_op list" where
  "ReplReset r = (r\<lparr>OrigLineLength := length (Line r), CursorPos := length (Line r)\<rparr>, [Tx (Prompt REPL_MODE_NORMAL)])"

text \<open>The banner is made of generated version strings, an argument here.\<close>

definition ReplInit :: "byte list \<Rightarrow> byte list \<Rightarrow> REPL_DATA \<Rightarrow> REPL_DATA \<times> term_op list" where
  "ReplInit banner line r = (r\<lparr>Line := line, History := replicate REPL_HIST_SIZE None, HistoryIndex := 0\<rparr>, [Tx banner])"

section \<open>The loop\<close>

record repl_loop_state =
  repl :: REPL_DATA
  ReplMode :: REPL_MODE
  HistoryCursor :: nat

text \<open>What a key asks for: a return with a kind of input, or the redraw parameters.\<close>

datatype repl_exit = ExitRepl | ParseSingle | ParseFile

datatype key_effect = Return repl_exit | Redraw int bool int

type_synonym effect = "(repl_loop_state \<times> key_effect \<times> term_op list) result"

definition no_redraw :: key_effect where "no_redraw = Redraw 0 False 0"

definition SCAN_UP :: w16 where "SCAN_UP = 1"
definition SCAN_DOWN :: w16 where "SCAN_DOWN = 2"
definition SCAN_RIGHT :: w16 where "SCAN_RIGHT = 3"
definition SCAN_LEFT :: w16 where "SCAN_LEFT = 4"
definition SCAN_HOME :: w16 where "SCAN_HOME = 5"
definition SCAN_END :: w16 where "SCAN_END = 6"
definition SCAN_DEL :: w16 where "SCAN_DEL = 8"
definition SCAN_ESC :: w16 where "SCAN_ESC = 23"

lemmas scan_defs = SCAN_UP_def SCAN_DOWN_def SCAN_RIGHT_def SCAN_LEFT_def SCAN_HOME_def SCAN_END_def SCAN_DEL_def SCAN_ESC_def

abbreviation with_repl :: "REPL_DATA \<Rightarrow> repl_loop_state \<Rightarrow> repl_loop_state" where
  "with_repl r l \<equiv> l\<lparr>repl := r\<rparr>"

text \<open>The end of a block: the line is stripped and pushed from the start of its last line on.\<close>

definition finish_block :: "repl_env \<Rightarrow> repl_loop_state \<Rightarrow> term_op list \<Rightarrow> effect" where
  "finish_block env l ops =
     (let r = repl l; line = ReplLineStrip (Line r) in
      rbind (line_from line (OrigLineLength r)) (\<lambda>s.
        Inr (with_repl (ReplPushHistory (history_memory env) s (r\<lparr>Line := line\<rparr>)) l, Return ParseSingle, ops)))"

text \<open>A line feed at the cursor, for the modes with several lines.\<close>

definition add_newline :: "repl_loop_state \<Rightarrow> term_op list \<Rightarrow> effect" where
  "add_newline l ops =
     (let r = repl l; line = vstr_ins_char (Line r) (CursorPos r) 10 in
      Inr (with_repl (r\<lparr>Line := line, CursorPos := CursorPos r + 1, OrigLineLength := length line\<rparr>) l, no_redraw,
           ops @ [Tx (Prompt (ReplMode l))]))"

definition key_enter :: "repl_env \<Rightarrow> repl_loop_state \<Rightarrow> effect" where
  "key_enter env l =
     (let r = repl l in
      if ReplMode l = REPL_MODE_NORMAL \<and> \<not> continue_with_input env (cstr (Line r)) then
        rbind (line_from (Line r) (OrigLineLength r)) (\<lambda>s.
          Inr (with_repl (ReplPushHistory (history_memory env) s r) l, Return ParseSingle, [newline]))
      else
        let l1 = (if ReplMode l = REPL_MODE_NORMAL then l\<lparr>ReplMode := REPL_MODE_CONTINUE\<rparr> else l) in
        if ReplMode l1 = REPL_MODE_CONTINUE \<and> length (Line r) \<ge> 2 \<and> drop (length (Line r) - 2) (Line r) = [10, 10]
        then finish_block env l1 [newline]
        else add_newline l1 [newline])"

definition key_ctrl_d :: "repl_env \<Rightarrow> repl_loop_state \<Rightarrow> effect" where
  "key_ctrl_d env l =
     (case ReplMode l of
        REPL_MODE_NORMAL \<Rightarrow> Inr (l, Return ExitRepl, [])
      | REPL_MODE_CONTINUE \<Rightarrow> finish_block env l [newline]
      | REPL_MODE_PASTE \<Rightarrow> Inr (l, Return ParseFile, [newline]))"

text \<open>The text Ctrl-E announces paste mode with.\<close>

definition paste_banner :: "byte list" where
  "paste_banner = map (\<lambda>c. of_nat (of_char c)) (CHR 0x0D # CHR 0x0A # ''Paste mode; Ctrl-C to cancel, Ctrl-D to finish'' @ [CHR 0x0D, CHR 0x0A])"

definition key_ctrl_e :: "repl_loop_state \<Rightarrow> effect" where
  "key_ctrl_e l =
     Inr (l\<lparr>repl := (repl l)\<lparr>Line := []\<rparr>, ReplMode := REPL_MODE_PASTE\<rparr>, no_redraw, [Tx paste_banner, Tx (Prompt REPL_MODE_PASTE)])"

definition key_backspace :: "repl_loop_state \<Rightarrow> effect" where
  "key_backspace l =
     (let r = repl l in
      if CursorPos r > OrigLineLength r then
        if CursorPos r - 1 < length (Line r) then
          if Line r ! (CursorPos r - 1) \<noteq> 10
          then Inr (with_repl (r\<lparr>Line := vstr_cut_out (Line r) (CursorPos r - 1) 1\<rparr>) l, Redraw 1 True 0, [])
          else Inr (l, no_redraw, [])
        else Inl OutOfBounds
      else Inr (l, no_redraw, []))"

definition key_tab :: "repl_env \<Rightarrow> repl_loop_state \<Rightarrow> effect" where
  "key_tab env l =
     (let r = repl l in
      if ReplMode l = REPL_MODE_PASTE then Inr (l, no_redraw, [])
      else if \<not> (OrigLineLength r \<le> CursorPos r \<and> CursorPos r \<le> length (Line r)) then Inl OutOfBounds
      else
        let part = take (CursorPos r - OrigLineLength r) (drop (OrigLineLength r) (Line r)) in
        case autocomplete env part of
          NoMatch \<Rightarrow> Inr (l, no_redraw, [])
        | ManyMatches \<Rightarrow> Inr (l, Redraw 0 True 0, Tx (Prompt REPL_MODE_NORMAL) # ReplPrint part)
        | OneMatch s \<Rightarrow>
            Inr (with_repl (r\<lparr>Line := take (CursorPos r) (Line r) @ s @ drop (CursorPos r) (Line r)\<rparr>) l,
                 Redraw 0 True (int (length s)), []))"

definition key_char :: "w16 \<Rightarrow> repl_loop_state \<Rightarrow> effect" where
  "key_char c l =
     (let r = repl l in
      Inr (with_repl (r\<lparr>Line := vstr_ins_char (Line r) (CursorPos r) (ucast c)\<rparr>) l, Redraw 0 True 1, []))"

text \<open>
  Up and down: \<open>i\<close> is the entry of the history to go to. Up sets the length of the line to \<open>OrigLineLength\<close>,
  down cuts the bytes behind it (\<open>vstr_cut_tail_bytes\<close>, which empties a line that is shorter).
\<close>

definition vstr_cut_tail :: "byte list \<Rightarrow> nat \<Rightarrow> byte list" where
  "vstr_cut_tail line off = (if off \<le> length line then take off line else [])"

definition key_history :: "bool \<Rightarrow> nat \<Rightarrow> repl_loop_state \<Rightarrow> effect" where
  "key_history up i l =
     (if ReplMode l = REPL_MODE_NORMAL then
        (case History (repl l) ! i of
           None \<Rightarrow> Inr (l, no_redraw, [])
         | Some s \<Rightarrow>
             let (r, ops) = (if length (Line (repl l)) > 0 then ReplClear (repl l) else (repl l, [])) in
             if up \<and> OrigLineLength r > length (Line r) then Inl OutOfBounds
             else let line = vstr_cut_tail (Line r) (OrigLineLength r) @ s in
                  Inr (l\<lparr>repl := r\<lparr>Line := line\<rparr>, HistoryCursor := i\<rparr>,
                       Redraw (int (CursorPos r) - int (OrigLineLength r)) True (int (length line) - int (OrigLineLength r)), ops))
      else Inr (l, no_redraw, []))"

definition key_delete :: "repl_loop_state \<Rightarrow> effect" where
  "key_delete l =
     (let r = repl l in
      if CursorPos r < length (Line r)
      then Inr (with_repl (r\<lparr>Line := vstr_cut_out (Line r) (CursorPos r) 1\<rparr>) l, Redraw 0 True 0, [])
      else Inr (l, no_redraw, []))"

definition key_escape :: "repl_loop_state \<Rightarrow> effect" where
  "key_escape l =
     (if ReplMode l = REPL_MODE_PASTE
      then Inr (with_repl ((repl l)\<lparr>Line := []\<rparr>) l, Return ParseSingle, [newline])
      else case ReplClear (repl l) of (r, ops) \<Rightarrow>
        Inr (l\<lparr>repl := r, ReplMode := REPL_MODE_NORMAL\<rparr>, no_redraw, ops))"

definition key_effect :: "repl_env \<Rightarrow> w16 \<Rightarrow> w16 \<Rightarrow> repl_loop_state \<Rightarrow> effect" where
  "key_effect env scan uni l =
     (let r = repl l in
      if scan = 0 then
        if uni = 5 then key_ctrl_e l
        else if uni = 4 then key_ctrl_d env l
        else if uni = 13 \<or> uni = 10 then key_enter env l
        else if uni = 8 then key_backspace l
        else if uni = 9 then key_tab env l
        else key_char uni l
      else if scan = SCAN_UP then key_history True ((REPL_HIST_SIZE + HistoryCursor l - 1) mod REPL_HIST_SIZE) l
      else if scan = SCAN_DOWN then key_history False ((HistoryCursor l + 1) mod REPL_HIST_SIZE) l
      else if scan = SCAN_RIGHT then Inr (l, Redraw 0 False (if CursorPos r < length (Line r) then 1 else 0), [])
      else if scan = SCAN_LEFT then Inr (l, Redraw (if CursorPos r > OrigLineLength r then 1 else 0) False 0, [])
      else if scan = SCAN_END then Inr (l, Redraw 0 False (int (length (Line r)) - int (CursorPos r)), [])
      else if scan = SCAN_HOME then Inr (l, Redraw (int (CursorPos r) - int (OrigLineLength r)) False 0, [])
      else if scan = SCAN_DEL then key_delete l
      else if scan = SCAN_ESC then key_escape l
      else Inr (l, no_redraw, []))"

text \<open>The redrawing at the end of the loop. \<open>old\<close> is the length of the line before the key.\<close>

definition redraw :: "nat \<Rightarrow> int \<Rightarrow> bool \<Rightarrow> int \<Rightarrow> REPL_DATA \<Rightarrow> (REPL_DATA \<times> term_op list) result" where
  "redraw old back from fwd r =
     (let cur = (if back > 0 then CursorPos r - nat back else CursorPos r);
          ops = (if back > 0 then [MoveBack (word_of_int back)] else []); len = length (Line r) in
      if from then
        if cur > len then Inl OutOfBounds
        else Inr (r\<lparr>CursorPos := nat (int cur + fwd)\<rparr>,
               ops @ (if len < old then [EraseFrom (word_of_nat (old - cur))] else []) @ ReplPrint (drop cur (Line r))
               @ [MoveBack (word_of_int (int len - (int cur + fwd)))])
      else if fwd > 0 then
        if nat (int cur + fwd) > len then Inl OutOfBounds
        else Inr (r\<lparr>CursorPos := nat (int cur + fwd)\<rparr>, ops @ [Tx (take (nat fwd) (drop cur (Line r)))])
      else Inr (r\<lparr>CursorPos := cur\<rparr>, ops))"

datatype loop_result = Waiting repl_loop_state | Returned REPL_DATA repl_exit

text \<open>One round of the loop for a key, and the loop for the keys that arrive (\<open>None\<close>: a read that fails).\<close>

definition repl_key :: "repl_env \<Rightarrow> w16 \<Rightarrow> w16 \<Rightarrow> repl_loop_state \<Rightarrow> (loop_result \<times> term_op list) result" where
  "repl_key env scan uni l =
     rbind (key_effect env scan uni l) (\<lambda>(l', eff, ops).
       case eff of
         Return e \<Rightarrow> Inr (Returned (repl l') e, ops)
       | Redraw back from fwd \<Rightarrow>
           rbind (redraw (length (Line (repl l))) back from fwd (repl l')) (\<lambda>(r, ops').
             Inr (Waiting (with_repl r l'), ops @ ops')))"

fun repl_keys :: "repl_env \<Rightarrow> (w16 \<times> w16) option list \<Rightarrow> repl_loop_state \<Rightarrow> (loop_result \<times> term_op list) result" where
  "repl_keys env [] l = Inr (Waiting l, [])"
| "repl_keys env (None # ks) l = repl_keys env ks l"
| "repl_keys env (Some (scan, uni) # ks) l =
     rbind (repl_key env scan uni l) (\<lambda>(res, ops).
       case res of
         Returned r e \<Rightarrow> Inr (Returned r e, ops)
       | Waiting l' \<Rightarrow> rbind (repl_keys env ks l') (\<lambda>(res', ops'). Inr (res', ops @ ops')))"

definition ReplLoop :: "repl_env \<Rightarrow> (w16 \<times> w16) option list \<Rightarrow> REPL_DATA \<Rightarrow> (loop_result \<times> term_op list) result" where
  "ReplLoop env ks r =
     (case ReplReset r of (r', ops) \<Rightarrow>
        rbind (repl_keys env ks \<lparr>repl = r', ReplMode = REPL_MODE_NORMAL, HistoryCursor = HistoryIndex r'\<rparr>) (\<lambda>(res, ops').
          Inr (res, ops @ ops')))"

end
