(* ===== verification/Repl_Thms.thy ===== *)
theory Repl_Thms
  imports Repl
begin

text \<open>
  Theorems about the line editor: it refines a reference editor that keeps the text before and behind the
  cursor apart, and draws the line on a row of the screen; the invariant of the loop; the history; and the keys
  that break the invariant.
\<close>

section \<open>A reference editor\<close>

type_synonym zipper = "byte list \<times> byte list"

definition printable :: "byte \<Rightarrow> bool" where
  "printable c \<longleftrightarrow> 32 \<le> c \<and> c < 127"

text \<open>The keys of the reference editor: text, backspace, delete, and moving the cursor.\<close>

datatype edit = Insert byte | Backspace | Delete | GoLeft | GoRight | GoHome | GoEnd

fun ed_step :: "edit \<Rightarrow> zipper \<Rightarrow> zipper" where
  "ed_step (Insert c) (pre, post) = (pre @ [c], post)"
| "ed_step Backspace (pre, post) = (butlast pre, post)"
| "ed_step Delete (pre, post) = (pre, tl post)"
| "ed_step GoLeft (pre, post) = (if pre = [] then (pre, post) else (butlast pre, last pre # post))"
| "ed_step GoRight (pre, post) = (pre @ take 1 post, tl post)"
| "ed_step GoHome (pre, post) = ([], pre @ post)"
| "ed_step GoEnd (pre, post) = (pre @ post, [])"

text \<open>The keys on the keyboard they belong to.\<close>

fun edit_key :: "edit \<Rightarrow> w16 \<times> w16" where
  "edit_key (Insert c) = (0, ucast c)"
| "edit_key Backspace = (0, 8)"
| "edit_key Delete = (SCAN_DEL, 0)"
| "edit_key GoLeft = (SCAN_LEFT, 0)"
| "edit_key GoRight = (SCAN_RIGHT, 0)"
| "edit_key GoHome = (SCAN_HOME, 0)"
| "edit_key GoEnd = (SCAN_END, 0)"

fun edit_ok :: "edit \<Rightarrow> bool" where
  "edit_ok (Insert c) = printable c"
| "edit_ok _ = True"

section \<open>A row of the screen\<close>

text \<open>
  The row of the screen the prompt is on, \<open>W\<close> columns wide: its cells and the column of the cursor. The operations are
  defined while the cursor stays on the row: text that reaches the last column would wrap to the
  next one. \<open>Repl_Console\<close> relates this row to the virtual console.
\<close>

type_synonym screen_row = "(nat \<Rightarrow> byte) \<times> nat"

fun put_text :: "byte list \<Rightarrow> screen_row \<Rightarrow> screen_row" where
  "put_text [] s = s"
| "put_text (c # cs) (f, x) = put_text cs (f(x := c), Suc x)"

definition move_to :: "nat \<Rightarrow> (nat \<Rightarrow> byte) \<Rightarrow> nat \<Rightarrow> screen_row option" where
  "move_to W f x = (if x < W then Some (f, x) else None)"

fun screen_op :: "nat \<Rightarrow> term_op \<Rightarrow> screen_row \<Rightarrow> screen_row option" where
  "screen_op W (Tx t) s = (if (\<forall>c\<in>set t. printable c) \<and> snd s + length t < W then Some (put_text t s) else None)"
| "screen_op W (MoveBack n) (f, x) = move_to W f (mp_hal_move_cursor_back n x)"
| "screen_op W (EraseFrom n) (f, x) =
     (if x + erased n < W
      then (case put_text (replicate (erased n) 32) (f, x) of (g, y) \<Rightarrow> if erased n > 0 then move_to W g (mp_hal_move_cursor_back n y) else Some (g, y))
      else None)"
| "screen_op W (GoUp c n) (f, x) = (if n = 0 then move_to W f c else None)"
| "screen_op W OutBlank s = (if snd s + 1 < W then Some (put_text [32] s) else None)"
| "screen_op W OutNewLine s = None"

fun screen_ops :: "nat \<Rightarrow> term_op list \<Rightarrow> screen_row \<Rightarrow> screen_row option" where
  "screen_ops W [] s = Some s"
| "screen_ops W (p # ps) s = (case screen_op W p s of None \<Rightarrow> None | Some s' \<Rightarrow> screen_ops W ps s')"

lemma screen_ops_append:
  "screen_ops W (ps @ qs) s = (case screen_ops W ps s of None \<Rightarrow> None | Some s' \<Rightarrow> screen_ops W qs s')"
  by (induction ps arbitrary: s) (auto split: option.splits)

lemma put_text_eq: "put_text t (f, x) = (\<lambda>y. if x \<le> y \<and> y < x + length t then t ! (y - x) else f y, x + length t)"
proof (induction t arbitrary: f x)
  case (Cons c t)
  show ?case unfolding put_text.simps Cons by (auto simp: fun_eq_iff nth_Cons')
qed (auto simp: fun_eq_iff)

text \<open>
  The prompt \<open>p\<close> and the line behind it are shown, with blank cells behind them (a space, or a cell that was never
  written), and the cursor is in its place.
\<close>

definition blank :: "byte \<Rightarrow> bool" where
  "blank c \<longleftrightarrow> c = 32 \<or> c = 0"

definition displays :: "nat \<Rightarrow> byte list \<Rightarrow> byte list \<Rightarrow> nat \<Rightarrow> screen_row \<Rightarrow> bool" where
  "displays W p line cur s \<longleftrightarrow> snd s = length p + cur \<and> length (p @ line) < W
     \<and> (\<forall>i<length (p @ line). fst s i = (p @ line) ! i) \<and> (\<forall>i<W. length (p @ line) \<le> i \<longrightarrow> blank (fst s i))"

text \<open>Lines the cursor can move over in one call: \<open>mp_hal_move_cursor_back\<close> reads its argument as a \<open>short\<close>.\<close>

definition LINE_MAX :: nat where "LINE_MAX = 2 ^ 15"

lemma word_small: "n < LINE_MAX \<Longrightarrow> (0 :: 32 word) < word_of_nat n \<longleftrightarrow> 0 < n"
  by (simp add: word_less_nat_alt unat_of_nat LINE_MAX_def take_bit_nat_eq_self)

lemma move_back_eq: "n < LINE_MAX \<Longrightarrow> mp_hal_move_cursor_back (word_of_nat n) x = x - n"
  by (auto simp: mp_hal_move_cursor_back_def word_small LINE_MAX_def unsigned_of_nat signed_of_nat signed_take_bit_int_eq_self
      take_bit_int_eq_self take_bit_nat_eq_self nat_minus_as_int)

lemma erased_eq: "n < LINE_MAX \<Longrightarrow> erased (word_of_nat n) = n"
  by (simp add: erased_def LINE_MAX_def signed_of_nat signed_take_bit_int_eq_self)

lemmas short_line = move_back_eq erased_eq

section \<open>The invariant\<close>

definition line_inv :: "repl_loop_state \<Rightarrow> bool" where
  "line_inv l \<longleftrightarrow> ReplMode l = REPL_MODE_NORMAL \<and> OrigLineLength (repl l) = 0 \<and> CursorPos (repl l) \<le> length (Line (repl l))
     \<and> (\<forall>c\<in>set (Line (repl l)). printable c)"

definition zip_of :: "repl_loop_state \<Rightarrow> zipper" where
  "zip_of l = (take (CursorPos (repl l)) (Line (repl l)), drop (CursorPos (repl l)) (Line (repl l)))"

lemma not_printable_10: "\<not> printable 10"
  by (simp add: printable_def)

lemma ReplPrint_printable: "\<forall>c\<in>set s. printable c \<Longrightarrow> ReplPrint s = (if s \<noteq> [] then [Tx s] else [])"
proof -
  have "\<forall>c\<in>set s. printable c \<Longrightarrow> print_loop cur s = (if cur @ s \<noteq> [] then [Tx (cur @ s)] else [])" for cur
    by (induction s arbitrary: cur) (auto simp: printable_def)
  then show "\<forall>c\<in>set s. printable c \<Longrightarrow> ?thesis" by (simp add: ReplPrint_def)
qed

text \<open>Redrawing from the cursor after the line has changed behind it.\<close>

lemma print_line: "\<forall>c\<in>set t. printable c \<Longrightarrow> snd s + length t < W \<Longrightarrow> screen_ops W (ReplPrint t) s = Some (put_text t s)"
  by (auto simp: ReplPrint_printable)

lemma redraw_displays:
  assumes ok: "\<forall>c\<in>set line. printable c" and len: "cur + fwd \<le> length line"
    and same: "take cur line = take cur old" and s: "displays W p old (cur + back) s"
    and max: "length (p @ line) < W" "back < W" "W \<le> LINE_MAX"
  shows "\<exists>s'. screen_ops W ((if back > 0 then [MoveBack (word_of_nat back)] else []) @ (if length line < length old then [EraseFrom (word_of_nat (length old - cur))] else [])
      @ ReplPrint (drop cur line) @ [MoveBack (word_of_nat (length line - (cur + fwd)))]) s = Some s' \<and> displays W p line (cur + fwd) s'"
proof -
  let ?p = "length p"
  obtain f where f: "s = (f, ?p + (cur + back))" "\<And>i. i < ?p + length old \<Longrightarrow> f i = (p @ old) ! i"
      "?p + length old < W" "\<And>i. i < W \<Longrightarrow> ?p + length old \<le> i \<Longrightarrow> blank (f i)"
    using s by (cases s) (auto simp: displays_def)
  define g where "g = (if length line < length old then fst (put_text (replicate (length old - cur) 32) (f, ?p + cur)) else f)"
  have lo: "cur \<le> length old"
    using same len by (metis add_leD1 length_take min.absorb2 min.cobounded1)
  have small: "back < LINE_MAX" "length old - cur < LINE_MAX" "length line - (cur + fwd) < LINE_MAX" "?p + length line < W" using max f(3) by auto
  have before: "g i = (p @ line) ! i" if "i < ?p + cur" for i
  proof -
    have "(p @ old) ! i = (p @ line) ! i" "i < ?p + length old"
      using same lo that by (auto simp: nth_append) (metis add.commute less_diff_conv2 linorder_not_less nth_take)
    then show ?thesis using that f(2) [of i] by (auto simp: g_def put_text_eq)
  qed
  have behind: "blank (g i)" if "?p + length line \<le> i" "i < W" for i
    using that len lo f(4) [of i] by (auto simp: g_def put_text_eq blank_def)
  let ?h = "put_text (drop cur line) (g, ?p + cur)"
  have h: "fst ?h i = (p @ line) ! i" if "i < ?p + length line" for i using before [of i] that len by (auto simp: put_text_eq nth_append)
  have h': "blank (fst ?h i)" if "?p + length line \<le> i" "i < W" for i using behind [OF that] that len by (simp add: put_text_eq)
  have "screen_ops W (if back > 0 then [MoveBack (word_of_nat back)] else []) s = Some (f, ?p + cur)"
    using small f(3) lo by (simp add: f(1) short_line move_to_def)
  moreover have "screen_ops W (if length line < length old then [EraseFrom (word_of_nat (length old - cur))] else []) (f, ?p + cur) = Some (g, ?p + cur)"
    using small f(3) lo len by (auto simp: g_def short_line put_text_eq move_to_def simp del: of_nat_diff)
  moreover have "screen_ops W (ReplPrint (drop cur line)) (g, ?p + cur) = Some ?h"
    using ok set_drop_subset [of cur line] small(4) len by (intro print_line) auto
  moreover have "screen_ops W [MoveBack (word_of_nat (length line - (cur + fwd)))] ?h = Some (fst ?h, ?p + (cur + fwd))"
    using len small by (simp add: put_text_eq short_line move_to_def del: of_nat_diff)
  ultimately show ?thesis unfolding screen_ops_append using h h' small(4) by (auto simp: displays_def)
qed

text \<open>What a key does to the line, the cursor and the screen.\<close>

definition moved :: "byte list \<Rightarrow> nat \<Rightarrow> repl_loop_state \<Rightarrow> repl_loop_state" where
  "moved line cur l = l\<lparr>repl := (repl l)\<lparr>Line := line, CursorPos := cur\<rparr>\<rparr>"

definition draws :: "repl_loop_state \<Rightarrow> term_op list \<Rightarrow> byte list \<Rightarrow> nat \<Rightarrow> bool" where
  "draws l ops line cur \<longleftrightarrow> (\<forall>W p s. displays W p (Line (repl l)) (CursorPos (repl l)) s \<and> W \<le> LINE_MAX
     \<and> length (p @ line) < W \<and> CursorPos (repl l) \<le> length (Line (repl l)) \<longrightarrow>
     (\<exists>s'. screen_ops W ops s = Some s' \<and> displays W p line cur s'))"

lemma moved_same: "moved (Line (repl l)) (CursorPos (repl l)) l = l"
  by (simp add: moved_def)

lemma draws_nothing: "draws l [] (Line (repl l)) (CursorPos (repl l))"
  by (simp add: draws_def)

lemma draws_change:
  assumes "\<forall>c\<in>set line. printable c" and "cur + fwd \<le> length line" and "take cur line = take cur (Line (repl l))"
    and "CursorPos (repl l) = cur + back"
  shows "redraw (length (Line (repl l))) (int back) True (int fwd) ((repl l)\<lparr>Line := line\<rparr>)
      = Inr ((repl l)\<lparr>Line := line, CursorPos := cur + fwd\<rparr>,
          (if back > 0 then [MoveBack (word_of_nat back)] else []) @ (if length line < length (Line (repl l)) then [EraseFrom (word_of_nat (length (Line (repl l)) - cur))] else [])
          @ ReplPrint (drop cur line) @ [MoveBack (word_of_nat (length line - (cur + fwd)))])"
    and "draws l ((if back > 0 then [MoveBack (word_of_nat back)] else [])
          @ (if length line < length (Line (repl l)) then [EraseFrom (word_of_nat (length (Line (repl l)) - cur))] else [])
          @ ReplPrint (drop cur line) @ [MoveBack (word_of_nat (length line - (cur + fwd)))]) line (cur + fwd)"
proof -
  have n: "nat (int cur + int fwd) = cur + fwd" "int (length line) - (int cur + int fwd) = int (length line - (cur + fwd))"
    using assms(2) by auto
  show "redraw (length (Line (repl l))) (int back) True (int fwd) ((repl l)\<lparr>Line := line\<rparr>)
      = Inr ((repl l)\<lparr>Line := line, CursorPos := cur + fwd\<rparr>,
          (if back > 0 then [MoveBack (word_of_nat back)] else []) @ (if length line < length (Line (repl l)) then [EraseFrom (word_of_nat (length (Line (repl l)) - cur))] else [])
          @ ReplPrint (drop cur line) @ [MoveBack (word_of_nat (length line - (cur + fwd)))])"
    using assms(2,4) n by (simp add: redraw_def Let_def)
  show "draws l ((if back > 0 then [MoveBack (word_of_nat back)] else [])
          @ (if length line < length (Line (repl l)) then [EraseFrom (word_of_nat (length (Line (repl l)) - cur))] else [])
          @ ReplPrint (drop cur line) @ [MoveBack (word_of_nat (length line - (cur + fwd)))]) line (cur + fwd)"
    unfolding draws_def
  proof (intro allI impI, elim conjE)
    fix W p s assume d: "displays W p (Line (repl l)) (CursorPos (repl l)) s" "W \<le> LINE_MAX" "length (p @ line) < W" "CursorPos (repl l) \<le> length (Line (repl l))"
    then have h: "displays W p (Line (repl l)) (cur + back) s" "back < W" using assms(4) by (auto simp: displays_def)
    show "\<exists>s'. screen_ops W ((if back > 0 then [MoveBack (word_of_nat back)] else [])
          @ (if length line < length (Line (repl l)) then [EraseFrom (word_of_nat (length (Line (repl l)) - cur))] else [])
          @ ReplPrint (drop cur line) @ [MoveBack (word_of_nat (length line - (cur + fwd)))]) s = Some s' \<and> displays W p line (cur + fwd) s'"
      by (rule redraw_displays [OF assms(1-3) h(1) d(3) h(2) d(2)])
  qed
qed

lemma draws_back:
  assumes "n \<le> CursorPos (repl l)"
  shows "draws l (if n > 0 then [MoveBack (word_of_nat n)] else []) (Line (repl l)) (CursorPos (repl l) - n)"
  unfolding draws_def
proof (intro allI impI, elim conjE)
  fix W p s assume d: "displays W p (Line (repl l)) (CursorPos (repl l)) s" "W \<le> LINE_MAX" "CursorPos (repl l) \<le> length (Line (repl l))"
  obtain f where f: "s = (f, length p + CursorPos (repl l))" using d(1) by (cases s) (simp add: displays_def)
  have n: "n < LINE_MAX" "length p + (CursorPos (repl l) - n) < W"
    using d(2,3) assms conjunct1 [OF conjunct2 [OF d(1) [unfolded displays_def]]] by auto
  then have "screen_ops W (if n > 0 then [MoveBack (word_of_nat n)] else []) s = Some (f, length p + (CursorPos (repl l) - n))"
    using assms by (simp add: f short_line move_to_def)
  moreover have "displays W p (Line (repl l)) (CursorPos (repl l) - n) (f, length p + (CursorPos (repl l) - n))"
    using d(1) by (simp add: displays_def f)
  ultimately show "\<exists>s'. screen_ops W (if n > 0 then [MoveBack (word_of_nat n)] else []) s = Some s'
      \<and> displays W p (Line (repl l)) (CursorPos (repl l) - n) s'" by blast
qed

lemma draws_over:
  assumes "\<forall>c\<in>set (Line (repl l)). printable c" and "CursorPos (repl l) + n \<le> length (Line (repl l))"
  shows "draws l [Tx (take n (drop (CursorPos (repl l)) (Line (repl l))))] (Line (repl l)) (CursorPos (repl l) + n)"
  using assms by (auto simp: draws_def displays_def put_text_eq nth_append dest!: in_set_takeD in_set_dropD)

text \<open>A key of the reference editor.\<close>

definition edits :: "repl_env \<Rightarrow> edit \<Rightarrow> repl_loop_state \<Rightarrow> byte list \<Rightarrow> nat \<Rightarrow> bool" where
  "edits env e l line cur \<longleftrightarrow> (\<exists>ops. repl_key env (fst (edit_key e)) (snd (edit_key e)) l = Inr (Waiting (moved line cur l), ops)
     \<and> draws l ops line cur)"

lemma edits_change:
  assumes "line_inv l"
    and "key_effect env (fst (edit_key e)) (snd (edit_key e)) l = Inr (l\<lparr>repl := (repl l)\<lparr>Line := line\<rparr>\<rparr>, Redraw (int back) True (int fwd), [])"
    and "\<forall>c\<in>set line. printable c" and "cur + fwd \<le> length line" and "take cur line = take cur (Line (repl l))"
    and "CursorPos (repl l) = cur + back"
  shows "edits env e l line (cur + fwd)"
  using draws_change [OF assms(3-6)] assms(2) by (simp add: edits_def repl_key_def moved_def)

lemma edits_move:
  assumes "line_inv l" and "key_effect env (fst (edit_key e)) (snd (edit_key e)) l = Inr (l, Redraw (int back) False (int fwd), [])"
    and "back \<le> CursorPos (repl l)" and "back = 0 \<or> fwd = 0" and "CursorPos (repl l) + fwd \<le> length (Line (repl l))"
  shows "edits env e l (Line (repl l)) (CursorPos (repl l) - back + fwd)"
proof (cases "fwd = 0")
  case True
  then show ?thesis using assms(2,3) draws_back [OF assms(3)]
    by (cases "back = 0") (simp_all add: edits_def repl_key_def redraw_def moved_def Let_def)
next
  case False
  have n: "nat (int (CursorPos (repl l)) + int fwd) = CursorPos (repl l) + fwd" by simp
  have "\<forall>c\<in>set (Line (repl l)). printable c" using assms(1) by (simp add: line_inv_def)
  then show ?thesis using assms(2,4,5) draws_over [OF _ assms(5)] False n
    by (simp add: edits_def repl_key_def redraw_def moved_def Let_def)
qed

lemma ucast_back: "ucast (ucast c :: w16) = (c :: byte)"
  by (rule ucast_up_ucast_id) (simp add: is_up)

lemma key_printable: "printable c \<Longrightarrow> (ucast c :: w16) = k \<Longrightarrow> printable (ucast k)"
  using ucast_back [of c] by auto

text \<open>The line and the cursor a key leads to, and that they are those of the reference editor.\<close>

definition refines :: "repl_env \<Rightarrow> edit \<Rightarrow> repl_loop_state \<Rightarrow> bool" where
  "refines env e l \<longleftrightarrow> (\<exists>line cur. edits env e l line cur \<and> line_inv (moved line cur l) \<and> zip_of (moved line cur l) = ed_step e (zip_of l))"

lemma refinesI:
  assumes "line_inv l" and "edits env e l line cur" and "cur \<le> length line" and "\<forall>c\<in>set line. printable c"
    and "ed_step e (take (CursorPos (repl l)) (Line (repl l)), drop (CursorPos (repl l)) (Line (repl l))) = (take cur line, drop cur line)"
  shows "refines env e l"
  unfolding refines_def using assms
  by (intro exI [of _ line] exI [of _ cur]) (simp add: line_inv_def moved_def zip_of_def)

lemma line_inv_facts:
  assumes "line_inv l"
  shows "OrigLineLength (repl l) = 0" "CursorPos (repl l) \<le> length (Line (repl l))" "\<forall>c\<in>set (Line (repl l)). printable c"
    "ReplMode l = REPL_MODE_NORMAL"
  using assms by (simp_all add: line_inv_def)

lemma refines_insert:
  assumes inv: "line_inv l" and c: "printable c"
  shows "refines env (Insert c) l"
proof -
  let ?line = "Line (repl l)" and ?cur = "CursorPos (repl l)"
  let ?new = "vstr_ins_char ?line ?cur c"
  note i = line_inv_facts [OF inv]
  have "(ucast c :: w16) \<noteq> 5" "(ucast c :: w16) \<noteq> 4" "(ucast c :: w16) \<noteq> 13" "(ucast c :: w16) \<noteq> 10"
    "(ucast c :: w16) \<noteq> 8" "(ucast c :: w16) \<noteq> 9" using key_printable [OF c] by (auto simp: printable_def)
  then have key: "key_effect env (fst (edit_key (Insert c))) (snd (edit_key (Insert c))) l
      = Inr (l\<lparr>repl := (repl l)\<lparr>Line := ?new\<rparr>\<rparr>, Redraw (int 0) True (int 1), [])"
    by (simp add: key_effect_def key_char_def Let_def ucast_back)
  have new: "\<forall>c\<in>set ?new. printable c" "?cur + 1 \<le> length ?new" "take ?cur ?new = take ?cur ?line"
    using i c by (auto simp: vstr_ins_char_def dest: in_set_takeD in_set_dropD)
  have ed: "edits env (Insert c) l ?new (?cur + 1)" using new by (intro edits_change [OF inv key]) auto
  show ?thesis using i new by (intro refinesI [OF inv ed]) (auto simp: vstr_ins_char_def)
qed

lemma refines_backspace:
  assumes inv: "line_inv l"
  shows "refines env Backspace l"
proof (cases "CursorPos (repl l) = 0")
  case True
  note i = line_inv_facts [OF inv]
  have ed: "edits env Backspace l (Line (repl l)) (CursorPos (repl l) - 0 + 0)"
    using i True by (intro edits_move [OF inv]) (simp_all add: key_effect_def key_backspace_def no_redraw_def Let_def)
  show ?thesis using i True by (intro refinesI [OF inv ed]) auto
next
  case False
  let ?line = "Line (repl l)" and ?cur = "CursorPos (repl l)"
  let ?new = "vstr_cut_out ?line (?cur - 1) 1"
  note i = line_inv_facts [OF inv]
  have "?line ! (?cur - 1) \<noteq> 10" using i(2,3) False nth_mem [of "?cur - 1" ?line] not_printable_10 by fastforce
  then have key: "key_effect env (fst (edit_key Backspace)) (snd (edit_key Backspace)) l
      = Inr (l\<lparr>repl := (repl l)\<lparr>Line := ?new\<rparr>\<rparr>, Redraw (int 1) True (int 0), [])"
    using i False by (simp add: key_effect_def key_backspace_def Let_def)
  have new: "\<forall>c\<in>set ?new. printable c" "?cur - 1 + 0 \<le> length ?new" "take (?cur - 1) ?new = take (?cur - 1) ?line"
    using i False by (auto simp: vstr_cut_out_def dest: in_set_takeD in_set_dropD)
  have ed: "edits env Backspace l ?new (?cur - 1 + 0)" using new False by (intro edits_change [OF inv key]) auto
  show ?thesis using i new False by (intro refinesI [OF inv ed]) (auto simp: vstr_cut_out_def butlast_take)
qed

lemma refines_delete:
  assumes inv: "line_inv l"
  shows "refines env Delete l"
proof (cases "CursorPos (repl l) < length (Line (repl l))")
  case False
  note i = line_inv_facts [OF inv]
  have ed: "edits env Delete l (Line (repl l)) (CursorPos (repl l) - 0 + 0)"
    using i False by (intro edits_move [OF inv]) (simp_all add: key_effect_def key_delete_def no_redraw_def Let_def scan_defs)
  show ?thesis using i False by (intro refinesI [OF inv ed]) auto
next
  case True
  let ?line = "Line (repl l)" and ?cur = "CursorPos (repl l)"
  let ?new = "vstr_cut_out ?line ?cur 1"
  note i = line_inv_facts [OF inv]
  have key: "key_effect env (fst (edit_key Delete)) (snd (edit_key Delete)) l
      = Inr (l\<lparr>repl := (repl l)\<lparr>Line := ?new\<rparr>\<rparr>, Redraw (int 0) True (int 0), [])"
    using True by (simp add: key_effect_def key_delete_def Let_def scan_defs)
  have new: "\<forall>c\<in>set ?new. printable c" "?cur + 0 \<le> length ?new" "take ?cur ?new = take ?cur ?line"
    using i True by (auto simp: vstr_cut_out_def dest: in_set_takeD in_set_dropD)
  have ed: "edits env Delete l ?new (?cur + 0)" using new by (intro edits_change [OF inv key]) auto
  show ?thesis using i new by (intro refinesI [OF inv ed]) (auto simp: vstr_cut_out_def drop_Suc tl_drop)
qed

lemma last_take_nth: "0 < n \<Longrightarrow> n \<le> length xs \<Longrightarrow> last (take n xs) = xs ! (n - 1)"
  by (subst last_conv_nth) (auto simp: min_def)

lemma refines_move:
  assumes inv: "line_inv l" and e: "e \<in> {GoLeft, GoRight, GoHome, GoEnd}"
  shows "refines env e l"
proof -
  let ?line = "Line (repl l)" and ?cur = "CursorPos (repl l)"
  note i = line_inv_facts [OF inv]
  have left: "0 < ?cur \<Longrightarrow> drop (?cur - Suc 0) ?line = ?line ! (?cur - Suc 0) # drop ?cur ?line"
    using i(2) Cons_nth_drop_Suc [of "?cur - 1" ?line] by simp
  define bk where "bk = (if e = GoLeft then min 1 ?cur else if e = GoHome then ?cur else 0)"
  define fwd where "fwd = (if e = GoRight then min 1 (length ?line - ?cur) else if e = GoEnd then length ?line - ?cur else 0)"
  have ed: "edits env e l ?line (?cur - bk + fwd)"
    using i e by (intro edits_move [OF inv])
      (auto simp: bk_def fwd_def key_effect_def Let_def scan_defs of_nat_diff min_def Suc_le_eq)
  show ?thesis
  proof (rule refinesI [OF inv ed])
    show "?cur - bk + fwd \<le> length ?line" using i by (auto simp: bk_def fwd_def)
    show "ed_step e (take ?cur ?line, drop ?cur ?line) = (take (?cur - bk + fwd) ?line, drop (?cur - bk + fwd) ?line)"
      using i e by (auto simp: bk_def fwd_def min_def butlast_take last_take_nth left take_Suc_conv_app_nth
          take_hd_drop drop_Suc tl_drop not_less_eq_eq)
  qed (rule i(3))
qed

lemma edit_step: "line_inv l \<Longrightarrow> edit_ok e \<Longrightarrow> refines env e l"
  by (cases e) (auto intro: refines_insert refines_backspace refines_delete refines_move)

section \<open>Lines\<close>

definition ed_run :: "edit list \<Rightarrow> zipper \<Rightarrow> zipper" where
  "ed_run es z = fold ed_step es z"

definition edit_keys :: "edit list \<Rightarrow> (w16 \<times> w16) option list" where
  "edit_keys es = map (\<lambda>e. Some (edit_key e)) es"

definition keeps :: "repl_loop_state \<Rightarrow> repl_loop_state \<Rightarrow> bool" where
  "keeps l l' \<longleftrightarrow> (\<exists>line cur. l' = moved line cur l)"

lemma moved_moved: "moved line cur (moved line' cur' l) = moved line cur l"
  by (simp add: moved_def)

lemma keeps_refl: "keeps l l"
  unfolding keeps_def using moved_same by metis

lemma keeps_trans: "keeps l (l' :: repl_loop_state) \<Longrightarrow> keeps l' l'' \<Longrightarrow> keeps l l''"
  unfolding keeps_def using moved_moved by metis

lemma ed_step_length: "length (fst (ed_step e z)) + length (snd (ed_step e z)) \<le> Suc (length (fst z) + length (snd z))"
  by (cases e; cases z) (auto simp: min_def)

lemma zip_length: "line_inv l \<Longrightarrow> length (fst (zip_of l)) + length (snd (zip_of l)) = length (Line (repl l))"
  by (simp add: zip_of_def line_inv_def)

text \<open>The lines on the way have fewer than \<open>n\<close> characters.\<close>

fun fits_row :: "nat \<Rightarrow> edit list \<Rightarrow> zipper \<Rightarrow> bool" where
  "fits_row n [] z = (length (fst z) + length (snd z) < n)"
| "fits_row n (e # es) z = (length (fst z) + length (snd z) < n \<and> fits_row n es (ed_step e z))"

lemma fits_row_now: "fits_row n es z \<Longrightarrow> length (fst z) + length (snd z) < n"
  by (cases es) simp_all

definition draws_all :: "edit list \<Rightarrow> repl_loop_state \<Rightarrow> term_op list \<Rightarrow> repl_loop_state \<Rightarrow> bool" where
  "draws_all es l ops l' \<longleftrightarrow> (\<forall>W p s. displays W p (Line (repl l)) (CursorPos (repl l)) s \<and> W \<le> LINE_MAX \<and> fits_row (W - length p) es (zip_of l)
     \<longrightarrow> (\<exists>s'. screen_ops W ops s = Some s' \<and> displays W p (Line (repl l')) (CursorPos (repl l')) s'))"

lemma draws_all_Cons:
  assumes inv: "line_inv l" "line_inv l1" and l1: "l1 = moved line cur l" "zip_of l1 = ed_step e (zip_of l)"
    and d: "draws l ops line cur" "draws_all es l1 ops' l'"
  shows "draws_all (e # es) l (ops @ ops') l'"
  unfolding draws_all_def
proof (intro allI impI, elim conjE)
  fix W p s assume s: "displays W p (Line (repl l)) (CursorPos (repl l)) s" "W \<le> LINE_MAX" "fits_row (W - length p) (e # es) (zip_of l)"
  have "length line < W - length p"
    using s(3) fits_row_now [of "W - length p" es "ed_step e (zip_of l)"] zip_length [OF inv(2)] l1 by (simp add: moved_def)
  then obtain s1 where s1: "screen_ops W ops s = Some s1" "displays W p line cur s1"
    using d(1) s line_inv_facts(2) [OF inv(1)] unfolding draws_def by fastforce
  have "displays W p (Line (repl l1)) (CursorPos (repl l1)) s1" using s1(2) l1(1) by (simp add: moved_def)
  then show "\<exists>s'. screen_ops W (ops @ ops') s = Some s' \<and> displays W p (Line (repl l')) (CursorPos (repl l')) s'"
    using d(2) s s1(1) l1(2) unfolding draws_all_def screen_ops_append by fastforce
qed

lemma edit_sequence:
  assumes "line_inv l" and "\<forall>e\<in>set es. edit_ok e"
  shows "\<exists>l' ops. repl_keys env (edit_keys es) l = Inr (Waiting l', ops) \<and> line_inv l' \<and> keeps l l'
    \<and> zip_of l' = ed_run es (zip_of l) \<and> draws_all es l ops l'"
  using assms
proof (induction es arbitrary: l)
  case Nil
  then show ?case by (simp add: edit_keys_def ed_run_def keeps_refl draws_all_def)
next
  case (Cons e es)
  obtain line cur ops where e: "repl_key env (fst (edit_key e)) (snd (edit_key e)) l = Inr (Waiting (moved line cur l), ops)"
      "draws l ops line cur" "line_inv (moved line cur l)" "zip_of (moved line cur l) = ed_step e (zip_of l)"
    using edit_step [OF Cons.prems(1), of e env] Cons.prems(2) by (auto simp: refines_def edits_def)
  let ?l = "moved line cur l"
  obtain l' ops' where r: "repl_keys env (edit_keys es) ?l = Inr (Waiting l', ops')" "line_inv l'" "keeps ?l l'"
      "zip_of l' = ed_run es (zip_of ?l)" "draws_all es ?l ops' l'"
    using Cons.IH [OF e(3)] Cons.prems(2) by auto
  have "keeps l ?l" unfolding keeps_def by blast
  then have "keeps l l'" using r(3) by (rule keeps_trans)
  moreover have "repl_keys env (edit_keys (e # es)) l = Inr (Waiting l', ops @ ops')"
    using e(1) r(1) by (cases "edit_key e") (simp add: edit_keys_def)
  moreover have "draws_all (e # es) l (ops @ ops') l'" by (rule draws_all_Cons [OF Cons.prems(1) e(3) refl e(4) e(2) r(5)])
  ultimately show ?case using e(4) r(2,4) by (intro exI [of _ l'] exI [of _ "ops @ ops'"]) (simp add: ed_run_def)
qed

lemma repl_keys_append:
  "repl_keys env ks l = Inr (Waiting l', ops) \<Longrightarrow>
   repl_keys env (ks @ ks') l = rbind (repl_keys env ks' l') (\<lambda>(res, ops'). Inr (res, ops @ ops'))"
proof (induction ks arbitrary: l ops)
  case Nil
  then show ?case by (auto simp: rbind_def split: sum.splits)
next
  case (Cons k ks)
  show ?case
  proof (cases k)
    case None
    then show ?thesis using Cons by simp
  next
    case (Some sk)
    obtain scan uni where k: "k = Some (scan, uni)" using Some by (cases sk) simp
    obtain l1 ops1 ops2 where 1: "repl_key env scan uni l = Inr (Waiting l1, ops1)" "repl_keys env ks l1 = Inr (Waiting l', ops2)"
        "ops = ops1 @ ops2"
      using Cons.prems by (cases "repl_key env scan uni l") (auto simp: k rbind_eq_Inr split: loop_result.splits)
    then show ?thesis using Cons.IH [OF 1(2)] by (auto simp: k rbind_def split: sum.splits)
  qed
qed

lemma cstr_printable: "\<forall>c\<in>set s. printable c \<Longrightarrow> cstr s = s"
  unfolding cstr_def by (rule takeWhile_eq_all_conv [THEN iffD2]) (auto simp: printable_def)

lemma typed_line:
  assumes "\<forall>e\<in>set es. edit_ok e" and "Line r = []" and "ed_run es ([], []) = (pre, post)"
  shows "\<exists>l ops. ReplLoop env (edit_keys es) r = Inr (Waiting l, ops) \<and> line_inv l
    \<and> Line (repl l) = pre @ post \<and> CursorPos (repl l) = length pre
    \<and> (\<forall>W f. W \<le> LINE_MAX \<and> fits_row (W - length (Prompt REPL_MODE_NORMAL)) es ([], []) \<and> (\<forall>i<W. blank (f i))
        \<longrightarrow> (\<exists>s. screen_ops W ops (f, 0) = Some s \<and> displays W (Prompt REPL_MODE_NORMAL) (pre @ post) (length pre) s))
    \<and> (\<forall>ks. ReplLoop env (edit_keys es @ ks) r = rbind (repl_keys env ks l) (\<lambda>(res, ops'). Inr (res, ops @ ops')))"
proof -
  let ?l = "\<lparr>repl = fst (ReplReset r), ReplMode = REPL_MODE_NORMAL, HistoryCursor = HistoryIndex r\<rparr>"
  let ?p = "Prompt REPL_MODE_NORMAL"
  have l: "line_inv ?l" "zip_of ?l = ([], [])" by (simp_all add: line_inv_def zip_of_def ReplReset_def assms(2))
  obtain l' ops where r: "repl_keys env (edit_keys es) ?l = Inr (Waiting l', ops)" "line_inv l'" "keeps ?l l'"
      "zip_of l' = (pre, post)" "draws_all es ?l ops l'"
    using edit_sequence [OF l(1) assms(1), of env] l(2) assms(3) by auto
  have line: "Line (repl l') = pre @ post" "CursorPos (repl l') = length pre"
    using r(4) line_inv_facts(2) [OF r(2)] by (auto simp: zip_of_def)
  have loop: "ReplLoop env (edit_keys es) r = Inr (Waiting l', [Tx ?p] @ ops)"
    using r(1) by (simp add: ReplLoop_def ReplReset_def)
  have append: "ReplLoop env (edit_keys es @ ks) r = rbind (repl_keys env ks l') (\<lambda>(res, ops'). Inr (res, ([Tx ?p] @ ops) @ ops'))" for ks
    using repl_keys_append [OF r(1), of ks] by (auto simp: ReplLoop_def ReplReset_def rbind_def split: sum.split)
  have "\<exists>s. screen_ops W ([Tx ?p] @ ops) (f, 0) = Some s \<and> displays W ?p (pre @ post) (length pre) s"
    if W: "W \<le> LINE_MAX" "fits_row (W - length ?p) es ([], [])" and f: "\<forall>i<W. blank (f i)" for W f
  proof -
    have "length ?p < W" using fits_row_now [OF W(2)] by simp
    then have s: "screen_ops W [Tx ?p] (f, 0) = Some (put_text ?p (f, 0))" "displays W ?p (Line (repl ?l)) (CursorPos (repl ?l)) (put_text ?p (f, 0))"
      using f by (simp_all add: Prompt_def printable_def displays_def ReplReset_def assms(2) nth_Cons')
    then show ?thesis using r(5) W l(2) line unfolding draws_all_def screen_ops_append by fastforce
  qed
  then show ?thesis using loop line r(2) append by (intro exI [of _ l'] exI [of _ "[Tx ?p] @ ops"]) simp
qed

lemma enter_returns:
  assumes "line_inv l" and "\<not> continue_with_input env (Line (repl l))"
  shows "repl_key env 0 13 l = Inr (Returned (ReplPushHistory (history_memory env) (Line (repl l)) (repl l)) ParseSingle, [newline])"
  using assms(2) line_inv_facts [OF assms(1)]
  by (simp add: repl_key_def key_effect_def key_enter_def line_from_def cstr_printable Let_def)

definition plain_env :: "(byte list \<Rightarrow> bool) \<Rightarrow> repl_env" where
  "plain_env c = \<lparr>continue_with_input = c, autocomplete = \<lambda>_. NoMatch, history_memory = True\<rparr>"

definition fresh_repl :: REPL_DATA where
  "fresh_repl = \<lparr>Line = [], OrigLineLength = 0, CursorPos = 0, History = [], HistoryIndex = 0\<rparr>"

section \<open>The history\<close>

text \<open>
  The reference history is the list of the lines, the latest first: at most 63 of them, none empty, and
  none equal to its predecessor.
\<close>

definition remember :: "byte list \<Rightarrow> byte list list \<Rightarrow> byte list list" where
  "remember s hs = (if s \<noteq> [] \<and> (hs = [] \<or> hd hs \<noteq> s) then take 63 (s # hs) else hs)"

fun back_from :: "byte list option list \<Rightarrow> nat \<Rightarrow> nat \<Rightarrow> byte list list" where
  "back_from h i 0 = []"
| "back_from h i (Suc n) =
     (case h ! ((REPL_HIST_SIZE + i - 1) mod REPL_HIST_SIZE) of
        None \<Rightarrow> []
      | Some s \<Rightarrow> s # back_from h ((REPL_HIST_SIZE + i - 1) mod REPL_HIST_SIZE) n)"

definition hist_list :: "REPL_DATA \<Rightarrow> byte list list" where
  "hist_list r = back_from (History r) (HistoryIndex r) REPL_HIST_SIZE"

definition hist_inv :: "REPL_DATA \<Rightarrow> bool" where
  "hist_inv r \<longleftrightarrow> length (History r) = REPL_HIST_SIZE \<and> HistoryIndex r < REPL_HIST_SIZE \<and> History r ! HistoryIndex r = None"

text \<open>The entry \<open>d\<close> steps back.\<close>

definition prev :: "nat \<Rightarrow> nat \<Rightarrow> nat" where
  "prev i d = (i + 63 * d) mod REPL_HIST_SIZE"

lemma prev_step: "(REPL_HIST_SIZE + i - Suc 0) mod REPL_HIST_SIZE = prev i (Suc 0)" "prev (prev i c) d = prev i (c + d)"
  "(REPL_HIST_SIZE + prev i d - Suc 0) mod REPL_HIST_SIZE = prev i (Suc d)"
  by (simp_all add: prev_def REPL_HIST_SIZE_def mod_simps algebra_simps)

lemma prev_other:
  assumes "i < REPL_HIST_SIZE" and "0 < d" and "d \<le> 62"
  shows "prev i d \<noteq> i" "prev i d \<noteq> (i + 1) mod REPL_HIST_SIZE"
proof -
  have "i + 63 * d = (i + 64 - d) + 64 * (d - 1)" using assms by simp
  then have "prev i d = (i + 64 - d) mod 64" unfolding prev_def REPL_HIST_SIZE_def by (simp only: mod_mult_self2)
  then have p: "prev i d = (if d \<le> i then i - d else i + 64 - d)" using assms by (auto simp: REPL_HIST_SIZE_def mod_if)
  show "prev i d \<noteq> i" "prev i d \<noteq> (i + 1) mod REPL_HIST_SIZE" using assms by (auto simp: p REPL_HIST_SIZE_def mod_if)
qed

lemma back_from_nth:
  "n < length (back_from h i m) \<Longrightarrow> h ! prev i (Suc n) = Some (back_from h i m ! n)"
proof (induction m arbitrary: i n)
  case (Suc m)
  then show ?case using Suc.IH [of _ "prev i (Suc 0)"] by (cases n) (auto simp: prev_step split: option.splits)
qed simp

lemma back_from_cong:
  "(\<And>d. 0 < d \<Longrightarrow> d \<le> n \<Longrightarrow> h ! prev i d = h' ! prev i d) \<Longrightarrow> back_from h i n = back_from h' i n"
proof (induction n arbitrary: i)
  case (Suc n)
  have "back_from h (prev i 1) n = back_from h' (prev i 1) n"
    using Suc.prems [of "Suc _"] by (intro Suc.IH) (auto simp: prev_step)
  moreover have "h ! prev i 1 = h' ! prev i 1" by (rule Suc.prems) simp_all
  ultimately show ?case by (simp add: prev_step split: option.split)
qed simp

lemma back_from_take: "take n (back_from h i m) = back_from h i (min n m)"
proof (induction m arbitrary: i n)
  case (Suc m)
  then show ?case by (cases n) (auto split: option.splits)
qed simp

lemma back_from_stop: "h ! prev i (Suc n) = None \<Longrightarrow> back_from h i (Suc n) = back_from h i n"
proof (induction n arbitrary: i)
  case (Suc n)
  have "back_from h (prev i 1) (Suc n) = back_from h (prev i 1) n" using Suc.prems by (intro Suc.IH) (simp add: prev_step)
  then show ?case by (subst back_from.simps(2), subst back_from.simps(2)) (simp add: prev_step split: option.splits)
qed (simp add: prev_step)

lemma hist_inv_push: "hist_inv r \<Longrightarrow> hist_inv (ReplPushHistory g s r)"
  by (auto simp: hist_inv_def ReplPushHistory_def Let_def REPL_HIST_SIZE_def)

lemma hist_inv_init: "hist_inv (fst (ReplInit b line r))"
  by (simp add: hist_inv_def ReplInit_def REPL_HIST_SIZE_def)

lemma hist_list_Suc:
  "hist_list r = (case History r ! prev (HistoryIndex r) (Suc 0) of
     None \<Rightarrow> [] | Some s \<Rightarrow> s # back_from (History r) (prev (HistoryIndex r) (Suc 0)) 63)"
proof -
  have "hist_list r = back_from (History r) (HistoryIndex r) (Suc 63)" unfolding hist_list_def REPL_HIST_SIZE_def by simp
  then show ?thesis by (simp only: back_from.simps prev_step One_nat_def)
qed

lemma hist_list_init: "hist_list (fst (ReplInit b line r)) = []"
  unfolding hist_list_Suc by (simp add: ReplInit_def REPL_HIST_SIZE_def prev_def)

lemma hist_list_last: "History r ! prev (HistoryIndex r) (Suc 0) = (case hist_list r of [] \<Rightarrow> None | s # _ \<Rightarrow> Some s)"
  unfolding hist_list_Suc by (simp add: prev_step split: option.split)

text \<open>Pushing a line, when there is memory for it.\<close>

lemma hist_list_push:
  assumes inv: "hist_inv r"
  shows "hist_list (ReplPushHistory True s r) = remember s (hist_list r)"
proof (cases "s \<noteq> [] \<and> History r ! prev (HistoryIndex r) (Suc 0) \<noteq> Some s")
  case False
  then show ?thesis
    by (auto simp: ReplPushHistory_def Let_def remember_def prev_step hist_list_last split: list.splits)
next
  case True
  let ?i = "HistoryIndex r" and ?n = "(HistoryIndex r + 1) mod REPL_HIST_SIZE"
  let ?h = "(History r)[?i := Some s, ?n := None]"
  have i: "?i < REPL_HIST_SIZE" "length (History r) = REPL_HIST_SIZE" "History r ! ?i = None" using inv by (simp_all add: hist_inv_def)
  have bk: "prev ?n (Suc 0) = ?i" "prev ?i (Suc 62) = ?n" "?n \<noteq> ?i" "?n < REPL_HIST_SIZE"
    using i(1) by (auto simp: prev_def REPL_HIST_SIZE_def mod_if)
  have new: "History (ReplPushHistory True s r) = ?h" "HistoryIndex (ReplPushHistory True s r) = ?n"
    using True by (simp_all add: ReplPushHistory_def Let_def prev_step)
  have "?h ! ?i = Some s" "?h ! ?n = None" using bk(3,4) i by simp_all
  then have "hist_list (ReplPushHistory True s r) = s # back_from ?h ?i (Suc 62)"
    unfolding hist_list_Suc new bk(1) by simp
  also have "back_from ?h ?i (Suc 62) = back_from ?h ?i 62"
    by (rule back_from_stop) (use bk(2) \<open>?h ! ?n = None\<close> in simp)
  also have "\<dots> = back_from (History r) ?i 62"
    using prev_other [OF i(1)] by (intro back_from_cong) (metis Suc_eq_plus1 nth_list_update_neq)
  also have "\<dots> = take 62 (hist_list r)" by (simp add: hist_list_def back_from_take REPL_HIST_SIZE_def)
  finally show ?thesis using True by (auto simp: remember_def hist_list_last split: list.splits)
qed

lemma hist_list_pushes:
  "hist_inv r \<Longrightarrow> hist_inv (fold (ReplPushHistory True) ss r) \<and> hist_list (fold (ReplPushHistory True) ss r) = fold remember ss (hist_list r)"
  by (induction ss arbitrary: r) (simp_all add: hist_list_push hist_inv_push)

text \<open>Going back: the state of a prompt, and what one press of the up key does to it.\<close>

definition at_prompt :: "repl_loop_state \<Rightarrow> bool" where
  "at_prompt l \<longleftrightarrow> ReplMode l = REPL_MODE_NORMAL \<and> OrigLineLength (repl l) = 0 \<and> CursorPos (repl l) \<le> length (Line (repl l))"

definition recalled :: "nat \<Rightarrow> byte list \<Rightarrow> repl_loop_state \<Rightarrow> repl_loop_state" where
  "recalled i s l = l\<lparr>repl := (repl l)\<lparr>Line := s, CursorPos := length s\<rparr>, HistoryCursor := i\<rparr>"

lemma up_key:
  assumes l: "at_prompt l" and s: "History (repl l) ! prev (HistoryCursor l) 1 = Some s"
  shows "\<exists>ops. repl_key env SCAN_UP 0 l = Inr (Waiting (recalled (prev (HistoryCursor l) 1) s l), ops)"
proof -
  have "length (Line (repl l)) = 0 \<Longrightarrow> CursorPos (repl l) = 0" using l by (simp add: at_prompt_def)
  then show ?thesis using l s
    by (cases "length (Line (repl l)) = 0")
      (simp_all add: repl_key_def key_effect_def key_history_def prev_step ReplClear_def redraw_def vstr_cut_tail_def
        at_prompt_def recalled_def scan_defs Let_def)
qed

lemma up_keys:
  assumes l: "at_prompt l" and c: "HistoryCursor l = prev (HistoryIndex (repl l)) j"
    and n: "j + n \<le> length (hist_list (repl l))" "0 < n"
  shows "\<exists>l' ops. repl_keys env (replicate n (Some (SCAN_UP, 0))) l = Inr (Waiting l', ops)
    \<and> Line (repl l') = hist_list (repl l) ! (j + n - 1) \<and> CursorPos (repl l') = length (Line (repl l'))"
  using assms
proof (induction n arbitrary: l j)
  case (Suc n)
  let ?s = "hist_list (repl l) ! j"
  let ?l = "recalled (prev (HistoryCursor l) 1) ?s l"
  have "History (repl l) ! prev (HistoryCursor l) 1 = Some ?s"
    using back_from_nth [of j "History (repl l)" "HistoryIndex (repl l)" REPL_HIST_SIZE] Suc.prems
    by (simp add: hist_list_def prev_step)
  then obtain ops where ops: "repl_key env SCAN_UP 0 l = Inr (Waiting ?l, ops)"
    using up_key [OF Suc.prems(1)] by blast
  have l': "at_prompt ?l" "HistoryCursor ?l = prev (HistoryIndex (repl ?l)) (Suc j)" "hist_list (repl ?l) = hist_list (repl l)"
    using Suc.prems(1,2) by (simp_all add: at_prompt_def recalled_def prev_step hist_list_def)
  show ?case
  proof (cases "n = 0")
    case True
    then show ?thesis using ops by (simp add: recalled_def)
  next
    case False
    then show ?thesis using ops Suc.IH [OF l'(1,2)] Suc.prems(3) l'(3) by auto
  qed
qed simp

lemma ReplLoop_up:
  assumes "Line r = []" and "0 < k" and "k \<le> length (hist_list r)" and "HistoryIndex r < REPL_HIST_SIZE"
  shows "\<exists>l ops. ReplLoop env (replicate k (Some (SCAN_UP, 0))) r = Inr (Waiting l, ops) \<and> Line (repl l) = hist_list r ! (k - 1)
    \<and> CursorPos (repl l) = length (Line (repl l))"
proof -
  let ?r = "r\<lparr>OrigLineLength := length (Line r), CursorPos := length (Line r)\<rparr>"
  let ?l = "\<lparr>repl = ?r, ReplMode = REPL_MODE_NORMAL, HistoryCursor = HistoryIndex ?r\<rparr>"
  have l: "at_prompt ?l" "HistoryCursor ?l = prev (HistoryIndex (repl ?l)) 0" "hist_list (repl ?l) = hist_list r"
    using assms(1,4) by (simp_all add: at_prompt_def prev_def hist_list_def)
  show ?thesis using up_keys [OF l(1,2), of k env] l(3) assms(2,3) by (auto simp: ReplLoop_def ReplReset_def)
qed

text \<open>
  C29. The history is that of the reference: after any sequence of lines has been entered, pressing up \<open>k\<close>
  times at the prompt shows the \<open>k\<close>-th last of the lines that are remembered, with the cursor at
  its end. The ring of 64 entries keeps the last 63 lines, leaves empty lines out, and a line
  that repeats the one before it.
\<close>

theorem history_recall:
  assumes "remembered = fold remember lines []" and "0 < k" and "k \<le> length remembered"
    and "r = (fold (ReplPushHistory True) lines (fst (ReplInit b [] r0)))\<lparr>Line := []\<rparr>"
  shows "\<exists>l ops. ReplLoop env (replicate k (Some (SCAN_UP, 0))) r = Inr (Waiting l, ops)
    \<and> Line (repl l) = remembered ! (k - 1) \<and> CursorPos (repl l) = length (Line (repl l))"
proof -
  have h: "hist_inv (fold (ReplPushHistory True) lines (fst (ReplInit b [] r0)))"
    "hist_list (fold (ReplPushHistory True) lines (fst (ReplInit b [] r0))) = remembered"
    using hist_list_pushes [OF hist_inv_init, of lines b "[]" r0] assms(1) by (simp_all add: hist_list_init)
  have "hist_list r = remembered" "HistoryIndex r < REPL_HIST_SIZE"
    using h assms(4) by (simp_all add: hist_list_def hist_inv_def)
  then show ?thesis using ReplLoop_up [of r k env] assms(2-4) by simp
qed

theorem history_recall_witness:
  "\<exists>l ops. ReplLoop (plain_env (\<lambda>_. False)) (replicate 2 (Some (SCAN_UP, 0)))
      ((fold (ReplPushHistory True) [[97], [98], [98], [], [99]] (fst (ReplInit [] [] fresh_repl)))\<lparr>Line := []\<rparr>) = Inr (Waiting l, ops)
    \<and> Line (repl l) = [98] \<and> CursorPos (repl l) = 1"
proof -
  have h: "fold remember [[97], [98], [98], [], [99]] [] = [[99], [98], [97]]" by (simp add: remember_def)
  show ?thesis using history_recall [OF h [symmetric] _ _ refl, of 2 "plain_env (\<lambda>_. False)" "[]" fresh_repl] by auto
qed

section \<open>Keys that lead out of the line\<close>

lemma strip_newlines: "length (ReplLineStrip (line @ [10, 10])) \<le> length line"
  using length_dropWhile_le [of "\<lambda>c. c \<in> {10, 32, 13, 9}" "rev line"] by (simp add: ReplLineStrip_def)

lemma two_newlines:
  assumes "10 \<notin> set line"
  shows "drop n line \<noteq> [10 :: byte, 10]" "drop n (line @ [10]) \<noteq> [10, 10]"
proof -
  have "10 \<notin> set (drop n line)" using assms by (auto dest: in_set_dropD)
  then show "drop n line \<noteq> [10, 10]" "drop n (line @ [10]) \<noteq> [10, 10]"
    by (auto simp: append_eq_Cons_conv drop_Cons' split: if_splits)
qed

lemma enter_continues:
  assumes "ReplMode l \<noteq> REPL_MODE_PASTE" and "ReplMode l = REPL_MODE_NORMAL \<Longrightarrow> continue_with_input env (cstr (Line (repl l)))"
    and "CursorPos (repl l) = length (Line (repl l))" and "drop (length (Line (repl l)) - 2) (Line (repl l)) \<noteq> [10, 10]"
  shows "repl_key env 0 13 l = Inr (Waiting (l\<lparr>repl := (repl l)\<lparr>Line := Line (repl l) @ [10],
      CursorPos := length (Line (repl l)) + 1, OrigLineLength := length (Line (repl l)) + 1\<rparr>, ReplMode := REPL_MODE_CONTINUE\<rparr>),
      [newline, Tx (Prompt REPL_MODE_CONTINUE)])"
proof -
  have n: "\<not> (length (Line (repl l)) \<ge> 2 \<and> drop (length (Line (repl l)) - 2) (Line (repl l)) = [10, 10])" using assms(4) by blast
  have same: "ReplMode l = REPL_MODE_CONTINUE \<Longrightarrow> l\<lparr>ReplMode := REPL_MODE_CONTINUE\<rparr> = l" by simp
  have "key_enter env l = add_newline (l\<lparr>ReplMode := REPL_MODE_CONTINUE\<rparr>) [newline]"
    using assms(1,2) n by (cases "ReplMode l") (auto simp: key_enter_def Let_def same)
  then show ?thesis using assms(3)
    by (simp add: repl_key_def key_effect_def add_newline_def no_redraw_def redraw_def vstr_ins_char_def Let_def)
qed

text \<open>
  A block that is ended with two blank lines is pushed to the history from behind its end: the line is
  stripped of the line feeds, while \<open>OrigLineLength\<close> still counts them, so that the history reads old
  bytes of the buffer instead of the block. This happens for every block whose first line is any
  line that asks for more input.
\<close>

theorem block_end_reads_behind:
  assumes "\<forall>e\<in>set es. edit_ok e" and "length es < LINE_MAX" and "Line r = []" and "ed_run es ([], []) = (line, [])"
    and "continue_with_input env line"
  shows "ReplLoop env (edit_keys es @ replicate 3 (Some (0, 13))) r = Inl OutOfBounds"
proof -
  obtain l ops where l: "line_inv l" "Line (repl l) = line" "CursorPos (repl l) = length line"
      "\<And>ks. ReplLoop env (edit_keys es @ ks) r = rbind (repl_keys env ks l) (\<lambda>(res, ops'). Inr (res, ops @ ops'))"
    using typed_line [OF assms(1,3,4), of env] by auto
  note i = line_inv_facts [OF l(1), unfolded l(2)]
  have "10 \<notin> set line" using i(3) not_printable_10 by blast
  then have no: "drop (length line - 2) line \<noteq> [10, 10]" "drop (length (line @ [10]) - 2) (line @ [10]) \<noteq> [10, 10]"
    by (rule two_newlines)+
  let ?n = "length line"
  define m1 where "m1 = l\<lparr>repl := (repl l)\<lparr>Line := line @ [10], CursorPos := ?n + 1, OrigLineLength := ?n + 1\<rparr>,
      ReplMode := REPL_MODE_CONTINUE\<rparr>"
  define m2 where "m2 = m1\<lparr>repl := (repl m1)\<lparr>Line := line @ [10, 10], CursorPos := ?n + 2, OrigLineLength := ?n + 2\<rparr>,
      ReplMode := REPL_MODE_CONTINUE\<rparr>"
  obtain ops1 where k1: "repl_key env 0 13 l = Inr (Waiting m1, ops1)"
    using enter_continues [of l env] i l(2,3) no(1) assms(5) by (simp add: m1_def cstr_printable)
  obtain ops2 where k2: "repl_key env 0 13 m1 = Inr (Waiting m2, ops2)"
    using enter_continues [of m1 env] no(2) by (simp add: m2_def) (simp add: m1_def)
  have k3: "repl_key env 0 13 m2 = Inl OutOfBounds"
    using strip_newlines [of line] by (simp add: repl_key_def key_effect_def key_enter_def finish_block_def line_from_def m2_def Let_def)
  show ?thesis unfolding l(4) using k1 k2 k3 by (simp add: eval_nat_numeral)
qed

theorem block_end_reads_behind_witness:
  "ReplLoop (plain_env (\<lambda>s. s = [58])) (edit_keys [Insert 58] @ replicate 3 (Some (0, 13))) (fst (ReplInit [] [] fresh_repl)) = Inl OutOfBounds"
  using block_end_reads_behind [of "[Insert 58]" "fst (ReplInit [] [] fresh_repl)" "[58]" "plain_env (\<lambda>s. s = [58])"]
  by (simp add: printable_def LINE_MAX_def ReplInit_def ed_run_def plain_env_def)

text \<open>Ctrl-E empties the line and leaves the cursor where it was: the next character is drawn from behind the line.\<close>

lemma paste_mode_leaves_cursor:
  assumes "line_inv l" and "2 \<le> CursorPos (repl l)" and "printable c"
  shows "repl_keys env [Some (0, 5), Some (0, ucast c)] l = Inl OutOfBounds"
proof -
  have "(ucast c :: w16) \<noteq> 5" "(ucast c :: w16) \<noteq> 4" "(ucast c :: w16) \<noteq> 13" "(ucast c :: w16) \<noteq> 10"
    "(ucast c :: w16) \<noteq> 8" "(ucast c :: w16) \<noteq> 9" using key_printable [OF assms(3)] by (auto simp: printable_def)
  then show ?thesis using assms(2)
    by (simp add: repl_key_def key_effect_def key_ctrl_e_def key_char_def no_redraw_def redraw_def vstr_ins_char_def Let_def)
qed

text \<open>A line that there is no memory for cuts the history off: up finds an empty entry first.\<close>

lemma no_memory_hides_history:
  assumes "hist_inv r" and "s \<noteq> []" and "History r ! prev (HistoryIndex r) 1 \<noteq> Some s"
  shows "hist_list (ReplPushHistory False s r) = []"
proof -
  let ?n = "(HistoryIndex r + 1) mod REPL_HIST_SIZE"
  have "prev ?n 1 = HistoryIndex r" using assms(1) by (auto simp: hist_inv_def prev_def REPL_HIST_SIZE_def mod_if)
  moreover have "(History r)[?n := None] ! HistoryIndex r = None"
    using assms(1) by (auto simp: hist_inv_def nth_list_update REPL_HIST_SIZE_def)
  ultimately show ?thesis using assms(2,3) unfolding hist_list_Suc by (simp add: ReplPushHistory_def Let_def prev_step)
qed

end
