(* ===== verification/Repl_Console.thy ===== *)
theory Repl_Console
  imports Repl_Thms Usf_Files_Thms
begin

text \<open>
  The prompt on the virtual console: what the calls of \<open>uefi_mphal.c\<close> and \<open>repl.c\<close> do to the device when \<open>gST->ConOut\<close> is
  the console of \<open>VirtualConsoleDxe\<close>, and that the row the prompt is on shows the line that is edited, as long as the
  line fits in the row. A line that is longer wraps, and \<open>mp_hal_move_cursor_back\<close> never leaves the row the cursor is on.

  The result of a call is \<open>None\<close> if \<open>OutputString\<close> does not return. The conversion of the text is
  granted its memory.
\<close>

section \<open>Calls on the device\<close>

type_synonym on_console = "VIRTUAL_CONSOLE_DEV \<Rightarrow> VIRTUAL_CONSOLE_DEV result option"

definition con_out :: "w16 list \<Rightarrow> on_console" where
  "con_out ws d = map_option (\<lambda>r. rbind r (\<lambda>(_, d'). Inr d')) (OutputString ws d)"

definition con_then :: "VIRTUAL_CONSOLE_DEV result option \<Rightarrow> on_console \<Rightarrow> VIRTUAL_CONSOLE_DEV result option" where
  "con_then r f = (case r of None \<Rightarrow> None | Some (Inl e) \<Rightarrow> Some (Inl e) | Some (Inr d) \<Rightarrow> f d)"

definition mp_hal_stdout_tx_strn :: "byte list \<Rightarrow> on_console" where
  "mp_hal_stdout_tx_strn t d =
     (case ToUefiString True (t @ [0]) None (length t) of Inl e \<Rightarrow> Some (Inl e) | Inr (ws, _) \<Rightarrow> con_out ws d)"

definition set_cursor :: "int \<Rightarrow> int \<Rightarrow> on_console" where
  "set_cursor c r d = Some (rbind (SetCursorPosition c r d) (\<lambda>(_, d'). Inr d'))"

definition hal_move_cursor_back :: "32 word \<Rightarrow> on_console" where
  "hal_move_cursor_back n d =
     (if n > 0 then set_cursor (int (mp_hal_move_cursor_back n (nat (CursorColumn d)))) (CursorRow d) d else Some (Inr d))"

fun hal_blanks :: "nat \<Rightarrow> on_console" where
  "hal_blanks 0 d = Some (Inr d)"
| "hal_blanks (Suc k) d = con_then (con_out [32, 0] d) (hal_blanks k)"

definition mp_hal_erase_line_from_cursor :: "32 word \<Rightarrow> on_console" where
  "mp_hal_erase_line_from_cursor n d =
     con_then (hal_blanks (erased n) d) (\<lambda>d'. if erased n > 0 then hal_move_cursor_back n d' else Some (Inr d'))"

fun hal_op :: "term_op \<Rightarrow> on_console" where
  "hal_op (Tx t) d = mp_hal_stdout_tx_strn t d"
| "hal_op (MoveBack n) d = hal_move_cursor_back n d"
| "hal_op (EraseFrom n) d = mp_hal_erase_line_from_cursor n d"
| "hal_op (GoUp c n) d = set_cursor (int c) (uintn (CursorRow d - int n)) d"
| "hal_op OutBlank d = con_out [32, 0] d"
| "hal_op OutNewLine d = con_out [13, 10, 0] d"

fun hal_ops :: "term_op list \<Rightarrow> on_console" where
  "hal_ops [] d = Some (Inr d)"
| "hal_ops (p # ps) d = con_then (hal_op p d) (hal_ops ps)"

section \<open>Text within a row\<close>

text \<open>The reference terminal, for text that does not reach the last column.\<close>

definition wide_byte :: "byte \<Rightarrow> wchar" where
  "wide_byte c = ucast c"

lemma printable_plain:
  assumes "printable c"
  shows "wide_byte c \<noteq> CHAR_NULL" "wide_byte c \<noteq> CHAR_BACKSPACE" "wide_byte c \<noteq> CHAR_LINEFEED" "wide_byte c \<noteq> CHAR_CARRIAGE_RETURN"
    "wide_byte c \<noteq> WIDE_CHAR" "wide_byte c \<noteq> NARROW_CHAR"
proof -
  have "wide_byte c = k \<Longrightarrow> printable (ucast k)" for k using assms ucast_back [of c] by (auto simp: wide_byte_def)
  then show "wide_byte c \<noteq> CHAR_NULL" "wide_byte c \<noteq> CHAR_BACKSPACE" "wide_byte c \<noteq> CHAR_LINEFEED" "wide_byte c \<noteq> CHAR_CARRIAGE_RETURN"
    "wide_byte c \<noteq> WIDE_CHAR" "wide_byte c \<noteq> NARROW_CHAR"
    by (fastforce simp: printable_def CHAR_NULL_def CHAR_BACKSPACE_def CHAR_LINEFEED_def CHAR_CARRIAGE_RETURN_def WIDE_CHAR_def NARROW_CHAR_def)+
qed

lemma t_char_row:
  assumes "printable c" and "\<not> t_wide t" and "Suc (t_col t) < W"
  shows "t_char W (wide_byte c) t = t\<lparr>t_grid := (t_grid t)[t_row t := (t_grid t ! t_row t)[t_col t := \<lparr>ch_Char = wide_byte c, ch_Attribute = scast (t_attr t)\<rparr>]],
    t_col := Suc (t_col t)\<rparr>"
  using assms by (simp add: t_char_def printable_plain t_put_def t_store_def Let_def)

lemma t_write_row:
  assumes "\<forall>c\<in>set cs. printable c" and "\<not> t_wide t" and "t_row t < length (t_grid t)" and "length (t_grid t ! t_row t) = W"
    and "t_col t + length cs < W"
  shows "\<exists>row. t_write W (map wide_byte cs) t = t\<lparr>t_grid := (t_grid t)[t_row t := row], t_col := t_col t + length cs\<rparr> \<and> length row = W
    \<and> (\<forall>i<W. ch_Char (row ! i) = (if t_col t \<le> i \<and> i < t_col t + length cs then wide_byte (cs ! (i - t_col t)) else ch_Char (t_grid t ! t_row t ! i)))"
  using assms
proof (induction cs arbitrary: t)
  case Nil
  then show ?case by (intro exI [of _ "t_grid t ! t_row t"]) auto
next
  case (Cons c cs)
  let ?x = "\<lparr>ch_Char = wide_byte c, ch_Attribute = scast (t_attr t)\<rparr>"
  let ?r = "(t_grid t ! t_row t)[t_col t := ?x]"
  let ?t = "t\<lparr>t_grid := (t_grid t)[t_row t := ?r], t_col := Suc (t_col t)\<rparr>"
  have c: "t_char W (wide_byte c) t = ?t" using Cons.prems by (intro t_char_row) simp_all
  have pre: "\<forall>c\<in>set cs. printable c" "\<not> t_wide ?t" "t_row ?t < length (t_grid ?t)" "length (t_grid ?t ! t_row ?t) = W" "t_col ?t + length cs < W"
    using Cons.prems by (simp_all add: t_wide_def)
  obtain row where row: "t_write W (map wide_byte cs) ?t = ?t\<lparr>t_grid := (t_grid ?t)[t_row ?t := row], t_col := t_col ?t + length cs\<rparr>" "length row = W"
      "\<And>i. i < W \<Longrightarrow> ch_Char (row ! i) = (if t_col ?t \<le> i \<and> i < t_col ?t + length cs then wide_byte (cs ! (i - t_col ?t)) else ch_Char (t_grid ?t ! t_row ?t ! i))"
    using Cons.IH [OF pre] by blast
  have "ch_Char (row ! i) = (if t_col t \<le> i \<and> i < t_col t + length (c # cs) then wide_byte ((c # cs) ! (i - t_col t)) else ch_Char (t_grid t ! t_row t ! i))"
    if "i < W" for i
    using row(3) [OF that] Cons.prems(3,4,5) that by (auto simp: nth_Cons' nth_list_update)
  moreover have "t_write W (map wide_byte (c # cs)) t = t\<lparr>t_grid := (t_grid t)[t_row t := row], t_col := t_col t + length (c # cs)\<rparr>"
    using row(1) c Cons.prems(1) by (simp add: printable_plain)
  ultimately show ?case using row(2) by blast
qed

section \<open>The row of the prompt\<close>

text \<open>
  The device \<open>d\<close> differs from \<open>d0\<close> in the row of the cursor and the column, and these are those of the row \<open>s\<close>.
\<close>

definition on_row :: "nat \<Rightarrow> nat \<Rightarrow> addr list \<Rightarrow> VIRTUAL_CONSOLE_DEV \<Rightarrow> screen_row \<Rightarrow> VIRTUAL_CONSOLE_DEV \<Rightarrow> bool" where
  "on_row W H rs d0 s d \<longleftrightarrow> con_ready W H rs d \<and> \<not> wide_on d \<and> CursorRow d = CursorRow d0 \<and> CursorColumn d = int (snd s)
     \<and> (\<exists>row. t_grid (term_of d) = (t_grid (term_of d0))[nat (CursorRow d0) := row] \<and> length row = W
          \<and> (\<forall>i<W. ch_Char (row ! i) = wide_byte (fst s i)))"

lemma ready_row:
  assumes "con_ready W H rs d"
  shows "nat (CursorRow d) < H" "length (t_grid (term_of d)) = H" "\<And>i. i < H \<Longrightarrow> length (t_grid (term_of d) ! i) = W"
proof -
  note s = screen_atD [OF con_readyD(1) [OF assms]]
  show "nat (CursorRow d) < H" using s(4,5) by simp
  show len: "length (t_grid (term_of d)) = H" using s(1,2) by simp
  show "\<And>i. i < H \<Longrightarrow> length (t_grid (term_of d) ! i) = W" using s(1-3)
    by (fastforce simp: term_of_def rows_of_def valid_rows_def list_all_iff dest: nth_mem)
qed

text \<open>Text that does not reach the last column.\<close>

lemma con_out_row:
  assumes on: "on_row W H rs d0 (f, x) d" and cs: "\<forall>c\<in>set cs. printable c" "x + length cs < W" and W: "2 \<le> W"
  shows "\<exists>d'. con_out (map wide_byte cs @ [0]) d = Some (Inr d') \<and> on_row W H rs d0 (put_text cs (f, x)) d'"
proof -
  obtain row0 where r: "con_ready W H rs d" "\<not> wide_on d" "CursorRow d = CursorRow d0" "CursorColumn d = int x"
      "t_grid (term_of d) = (t_grid (term_of d0))[nat (CursorRow d0) := row0]" "length row0 = W" "\<And>i. i < W \<Longrightarrow> ch_Char (row0 ! i) = wide_byte (f i)"
    using on by (auto simp: on_row_def)
  let ?t = "term_of d" and ?y = "nat (CursorRow d0)"
  have t: "t_row ?t = ?y" "t_col ?t = x" "\<not> t_wide ?t" "?y < length (t_grid ?t)" "length (t_grid ?t ! ?y) = W"
    using r(2-4) ready_row [OF r(1)] by (simp_all add: term_of_def t_wide_def wide_on_def)
  have row0: "t_grid ?t ! ?y = row0" using t(4) r(5) by simp
  obtain d' where d': "OutputString (map wide_byte cs @ [0]) d = Some (Inr (EFI_SUCCESS, d'))" "con_ready W H rs d'"
      "term_of d' = (t_write W (map wide_byte cs @ [0]) ?t)\<lparr>t_attr := Attribute d\<rparr>"
    using OutputString_sim [OF r(1) W] by blast
  obtain row where row: "t_write W (map wide_byte cs) ?t = ?t\<lparr>t_grid := (t_grid ?t)[?y := row], t_col := x + length cs\<rparr>" "length row = W"
      "\<And>i. i < W \<Longrightarrow> ch_Char (row ! i) = (if x \<le> i \<and> i < x + length cs then wide_byte (cs ! (i - x)) else ch_Char (row0 ! i))"
    using t_write_row [OF cs(1) t(3), of W] t cs(2) row0 by auto
  have trm: "term_of d' = ?t\<lparr>t_grid := (t_grid ?t)[?y := row], t_col := x + length cs, t_attr := Attribute d\<rparr>"
    using d'(3) row(1) by (simp add: t_write_nul)
  have "nat (CursorColumn d') = x + length cs" "nat (CursorRow d') = ?y" "Attribute d' = Attribute d"
    using arg_cong [OF trm, of t_col] arg_cong [OF trm, of t_row] arg_cong [OF trm, of t_attr] t(1) by (simp_all add: term_of_def)
  moreover have "0 \<le> CursorColumn d'" "0 \<le> CursorRow d'" "0 \<le> CursorRow d"
    using d'(2) r(1) screen_atD(4) [OF con_readyD(1)] by (auto simp: con_ready_def)
  ultimately have cur: "CursorColumn d' = int (x + length cs)" "CursorRow d' = CursorRow d0" "\<not> wide_on d'"
    using r(2,3) by (simp_all add: wide_on_def)
  have grid: "t_grid (term_of d') = (t_grid (term_of d0))[?y := row]" using arg_cong [OF trm, of t_grid] r(5) by simp
  have cells: "ch_Char (row ! i) = wide_byte (fst (put_text cs (f, x)) i)" if "i < W" for i
    using row(3) [OF that] r(7) [OF that] by (simp add: put_text_eq)
  show ?thesis using d'(1,2) cur grid cells row(2) by (auto simp: con_out_def on_row_def put_text_eq intro!: exI [of _ row])
qed

lemma ascii_text:
  assumes "\<forall>c\<in>set t. printable c"
  shows "utf8_of (map wide_byte t) = t" "unix2dos before (map wide_byte t) = map wide_byte t" "0 \<notin> set (map wide_byte t)"
proof -
  have "utf8_bytes (wide_byte c) = [c]" if c: "printable c" for c
  proof -
    have "unat c < 127" using c by (simp add: printable_def word_less_nat_alt)
    then have "wide_byte c < 0x80" by (simp add: wide_byte_def word_less_nat_alt unsigned_ucast_eq take_bit_nat_eq_self)
    then show ?thesis by (simp add: utf8_bytes_def wide_byte_def ucast_back)
  qed
  with assms show "utf8_of (map wide_byte t) = t" by (induction t) simp_all
  show "unix2dos before (map wide_byte t) = map wide_byte t" using assms
    by (induction t arbitrary: before) (auto simp: bare_lf_def dest!: printable_plain(3) simp: CHAR_LINEFEED_def)
  show "0 \<notin> set (map wide_byte t)" using assms printable_plain(1) by (fastforce simp: CHAR_NULL_def)
qed

lemma tx_row:
  assumes "on_row W H rs d0 (f, x) d" and "\<forall>c\<in>set t. printable c" and "x + length t < W" and "2 \<le> W"
  shows "\<exists>d'. mp_hal_stdout_tx_strn t d = Some (Inr d') \<and> on_row W H rs d0 (put_text t (f, x)) d'"
proof -
  have "ToUefiString True (t @ [0]) None (length t) = Inr (map wide_byte t @ [0], length t)"
    using ToUefiString_adds_cr [OF ascii_text(3) [OF assms(2)], of "[0]"] by (simp add: ascii_text [OF assms(2)])
  then show ?thesis using con_out_row [OF assms] by (simp add: mp_hal_stdout_tx_strn_def)
qed

lemma blanks_row:
  assumes "on_row W H rs d0 (f, x) d" and "x + k < W" and "2 \<le> W"
  shows "\<exists>d'. hal_blanks k d = Some (Inr d') \<and> on_row W H rs d0 (put_text (replicate k 32) (f, x)) d'"
  using assms
proof (induction k arbitrary: f x d)
  case (Suc k)
  obtain d1 where d1: "con_out [32, 0] d = Some (Inr d1)" "on_row W H rs d0 (f(x := 32), Suc x) d1"
    using con_out_row [OF Suc.prems(1), of "[32]"] Suc.prems by (auto simp: printable_def wide_byte_def)
  then show ?case using Suc.IH [OF d1(2)] Suc.prems by (simp add: con_then_def fun_upd_def)
qed simp

lemma cursor_row:
  assumes "on_row W H rs d0 (f, x) d" and "y < W"
  shows "\<exists>d'. set_cursor (int y) (CursorRow d) d = Some (Inr d') \<and> on_row W H rs d0 (f, y) d'"
proof -
  have r: "con_ready W H rs d" using assms(1) by (simp add: on_row_def)
  note s = screen_atD [OF con_readyD(1) [OF r]]
  have "SetCursorPosition (int y) (CursorRow d) d = Inr (EFI_SUCCESS, d\<lparr>CursorColumn := int y\<rparr>)"
    using SetCursorPosition_cases [OF r, of "int y" "CursorRow d"] s(4,5) assms(2) by simp
  then show ?thesis using assms by (auto simp: set_cursor_def on_row_def con_ready_def wide_on_def term_of_def)
qed

lemma move_row:
  assumes "on_row W H rs d0 (f, x) d" and "move_to W f (mp_hal_move_cursor_back n x) = Some s"
  shows "\<exists>d'. hal_move_cursor_back n d = Some (Inr d') \<and> on_row W H rs d0 s d'"
proof -
  have s: "s = (f, mp_hal_move_cursor_back n x)" "mp_hal_move_cursor_back n x < W" using assms(2) by (auto simp: move_to_def split: if_splits)
  have x: "nat (CursorColumn d) = x" using assms(1) by (simp add: on_row_def)
  show ?thesis
  proof (cases "n > 0")
    case True
    then show ?thesis using cursor_row [OF assms(1) s(2)] x s(1) by (simp add: hal_move_cursor_back_def)
  next
    case False
    then show ?thesis using assms(1) s(1) by (simp add: hal_move_cursor_back_def mp_hal_move_cursor_back_def)
  qed
qed

lemma hal_op_row:
  assumes on: "on_row W H rs d0 (f, x) d" and W: "2 \<le> W" and op: "screen_op W p (f, x) = Some s"
  shows "\<exists>d'. hal_op p d = Some (Inr d') \<and> on_row W H rs d0 s d'"
proof (cases p)
  case (Tx t)
  then show ?thesis using op tx_row [OF on, of t] W by (auto split: if_splits)
next
  case (MoveBack n)
  then show ?thesis using op move_row [OF on, of n s] by simp
next
  case (EraseFrom n)
  obtain g y where g: "put_text (replicate (erased n) 32) (f, x) = (g, y)" by fastforce
  have fit: "x + erased n < W" and s: "(if erased n > 0 then move_to W g (mp_hal_move_cursor_back n y) else Some (g, y)) = Some s"
    using op EraseFrom g by (auto split: if_splits)
  obtain d1 where d1: "hal_blanks (erased n) d = Some (Inr d1)" "on_row W H rs d0 (g, y) d1" using blanks_row [OF on fit W] g by auto
  show ?thesis using d1 s move_row [OF d1(2), of n s] EraseFrom
    by (cases "erased n > 0") (simp_all add: mp_hal_erase_line_from_cursor_def con_then_def)
next
  case (GoUp c n)
  have r: "con_ready W H rs d" using on by (simp add: on_row_def)
  have "0 \<le> CursorRow d" "CursorRow d < 2 ^ 31" using screen_atD(4,5,7) [OF con_readyD(1) [OF r]] by simp_all
  then have "uintn (CursorRow d) = CursorRow d" by (simp add: casts)
  then show ?thesis using op GoUp cursor_row [OF on, of c] by (auto simp: move_to_def split: if_splits)
next
  case OutBlank
  then show ?thesis using op con_out_row [OF on, of "[32]"] W by (auto simp: printable_def wide_byte_def split: if_splits)
qed (use op in simp)

lemma hal_ops_row:
  assumes "on_row W H rs d0 s d" and "2 \<le> W" and "screen_ops W ps s = Some s'"
  shows "\<exists>d'. hal_ops ps d = Some (Inr d') \<and> on_row W H rs d0 s' d'"
  using assms
proof (induction ps arbitrary: s d)
  case (Cons p ps)
  obtain s1 where s1: "screen_op W p s = Some s1" "screen_ops W ps s1 = Some s'" using Cons.prems(3) by (auto split: option.splits)
  obtain d1 where d1: "hal_op p d = Some (Inr d1)" "on_row W H rs d0 s1 d1"
    using hal_op_row [of W H rs d0 "fst s" "snd s" d p s1] Cons.prems(1,2) s1(1) by auto
  then show ?case using Cons.IH [OF d1(2) Cons.prems(2) s1(2)] by (simp add: con_then_def)
qed simp

section \<open>Editing a line\<close>

text \<open>What a cell of a blank row holds, as a byte.\<close>

definition blank_cell :: "wchar \<Rightarrow> byte" where
  "blank_cell c = (if c = 32 then 32 else 0)"

lemma blank_row:
  assumes "con_ready W H rs d" and "\<not> wide_on d" and "CursorColumn d = 0"
    and "\<forall>x\<in>set (t_grid (term_of d) ! nat (CursorRow d)). ch_Char x \<in> {CHAR_NULL, 32}"
  shows "on_row W H rs d (\<lambda>i. blank_cell (ch_Char (t_grid (term_of d) ! nat (CursorRow d) ! i)), 0) d"
proof -
  note r = ready_row [OF assms(1)]
  have "\<forall>i<W. ch_Char (t_grid (term_of d) ! nat (CursorRow d) ! i) = wide_byte (blank_cell (ch_Char (t_grid (term_of d) ! nat (CursorRow d) ! i)))"
    using assms(4) r(3) [OF r(1)] nth_mem [of _ "t_grid (term_of d) ! nat (CursorRow d)"]
    by (fastforce simp: wide_byte_def blank_cell_def CHAR_NULL_def)
  then show ?thesis unfolding on_row_def using assms(1-3) r(1,2) r(3) [OF r(1)]
    by (intro conjI exI [of _ "t_grid (term_of d) ! nat (CursorRow d)"]) simp_all
qed

lemma row_text:
  assumes "on_row W H rs d0 s d" and "displays W p line cur s"
  shows "\<exists>row blanks. t_grid (term_of d) = (t_grid (term_of d0))[nat (CursorRow d0) := row]
    \<and> map ch_Char row = map ucast (p @ line) @ blanks \<and> set blanks \<subseteq> {CHAR_NULL, 32}"
proof -
  obtain row where row: "t_grid (term_of d) = (t_grid (term_of d0))[nat (CursorRow d0) := row]" "length row = W"
      "\<And>i. i < W \<Longrightarrow> ch_Char (row ! i) = wide_byte (fst s i)" using assms(1) by (auto simp: on_row_def)
  let ?n = "length (p @ line)"
  have n: "?n < W" and cells: "\<And>i. i < ?n \<Longrightarrow> fst s i = (p @ line) ! i" "\<And>i. i < W \<Longrightarrow> ?n \<le> i \<Longrightarrow> blank (fst s i)"
    using assms(2) unfolding displays_def by auto
  have "take ?n (map ch_Char row) = map ucast (p @ line)"
  proof (rule nth_equalityI)
    fix i assume "i < length (take ?n (map ch_Char row))"
    then have "i < ?n" "i < W" using row(2) n by simp_all
    then show "take ?n (map ch_Char row) ! i = map ucast (p @ line) ! i"
      using row(2,3) cells(1) [of i] by (simp add: wide_byte_def del: map_append length_append)
  qed (use row(2) n in simp)
  moreover have "set (drop ?n (map ch_Char row)) \<subseteq> {CHAR_NULL, 32}"
  proof
    fix c assume "c \<in> set (drop ?n (map ch_Char row))"
    then obtain i where i: "?n + i < W" "c = ch_Char (row ! (?n + i))" using row(2) n
      by (auto simp: in_set_conv_nth simp del: length_append) (metis add.commute less_diff_conv)
    then show "c \<in> {CHAR_NULL, 32}" using row(3) [OF i(1)] cells(2) [OF i(1)] by (auto simp: blank_def wide_byte_def CHAR_NULL_def)
  qed
  ultimately show ?thesis using row(1) append_take_drop_id [of ?n "map ch_Char row"] by metis
qed

text \<open>
  C28. The prompt is a line editor. On a virtual console of \<open>W\<close> columns whose cursor is at the start of a blank row, for every sequence of printable
  characters, backspace, delete and cursor keys typed at an empty prompt, on whose way the prompt and the line always fit in the row, the
  loop reads all keys without a fault; the line and the cursor are those of the reference editor; and what was sent to the
  console leaves the prompt and the line in the row, with blanks behind them, the cursor at its place, and every
  other row as it was. If the interpreter asks for no continuation, Enter then returns exactly this line and
  appends it to the history.
\<close>

theorem repl_line_editing:
  assumes "con_ready W H rs d" and "\<not> wide_on d" and "CursorColumn d = 0"
    and "\<forall>x\<in>set (t_grid (term_of d) ! nat (CursorRow d)). ch_Char x \<in> {CHAR_NULL, 32}" and "W \<le> LINE_MAX"
    and "\<forall>e\<in>set es. edit_ok e" and "fits_row (W - 4) es ([], [])" and "Line r = []" and "ed_run es ([], []) = (pre, post)"
  shows "\<exists>l ops d' row blanks. ReplLoop env (edit_keys es) r = Inr (Waiting l, ops)
    \<and> Line (repl l) = pre @ post \<and> CursorPos (repl l) = length pre
    \<and> hal_ops ops d = Some (Inr d') \<and> con_ready W H rs d'
    \<and> CursorRow d' = CursorRow d \<and> CursorColumn d' = int (4 + length pre)
    \<and> t_grid (term_of d') = (t_grid (term_of d))[nat (CursorRow d) := row]
    \<and> map ch_Char row = [62, 62, 62, 32] @ map ucast (pre @ post) @ blanks \<and> set blanks \<subseteq> {CHAR_NULL, 32}
    \<and> (\<not> continue_with_input env (pre @ post) \<longrightarrow> ReplLoop env (edit_keys es @ [Some (0, 13)]) r
        = Inr (Returned (ReplPushHistory (history_memory env) (pre @ post) (repl l)) ParseSingle, ops @ [newline]))"
proof -
  have p: "length (Prompt REPL_MODE_NORMAL) = 4" by (simp add: Prompt_def)
  obtain l ops where l: "ReplLoop env (edit_keys es) r = Inr (Waiting l, ops)" "line_inv l" "Line (repl l) = pre @ post"
      "CursorPos (repl l) = length pre"
      "\<And>W f. W \<le> LINE_MAX \<and> fits_row (W - 4) es ([], []) \<and> (\<forall>i<W. blank (f i))
        \<Longrightarrow> \<exists>s. screen_ops W ops (f, 0) = Some s \<and> displays W (Prompt REPL_MODE_NORMAL) (pre @ post) (length pre) s"
      "\<And>ks. ReplLoop env (edit_keys es @ ks) r = rbind (repl_keys env ks l) (\<lambda>(res, ops'). Inr (res, ops @ ops'))"
    using typed_line [OF assms(6,8,9), of env, unfolded p] by blast
  let ?f = "\<lambda>i. blank_cell (ch_Char (t_grid (term_of d) ! nat (CursorRow d) ! i))"
  have f: "\<forall>i<W. blank (?f i)" by (simp add: blank_def blank_cell_def)
  obtain s where s: "screen_ops W ops (?f, 0) = Some s" "displays W (Prompt REPL_MODE_NORMAL) (pre @ post) (length pre) s"
    using l(5) [of W ?f] assms(5,7) f by blast
  have W: "2 \<le> W" using fits_row_now [OF assms(7)] by simp
  obtain d' where d': "hal_ops ops d = Some (Inr d')" "on_row W H rs d s d'"
    using hal_ops_row [OF blank_row [OF assms(1-4)] W s(1)] by blast
  obtain row blanks where row: "t_grid (term_of d') = (t_grid (term_of d))[nat (CursorRow d) := row]"
      "map ch_Char row = [62, 62, 62, 32] @ map ucast (pre @ post) @ blanks" "set blanks \<subseteq> {CHAR_NULL, 32}"
    using row_text [OF d'(2) s(2)] by (auto simp: Prompt_def)
  have dev: "con_ready W H rs d'" "CursorRow d' = CursorRow d" "CursorColumn d' = int (4 + length pre)"
    using d'(2) s(2) by (simp_all add: on_row_def displays_def p)
  have "repl_key env 0 13 l = Inr (Returned (ReplPushHistory (history_memory env) (pre @ post) (repl l)) ParseSingle, [newline])"
    if "\<not> continue_with_input env (pre @ post)" using enter_returns [OF l(2)] that l(3) by simp
  then have "\<not> continue_with_input env (pre @ post) \<longrightarrow> ReplLoop env (edit_keys es @ [Some (0, 13)]) r
      = Inr (Returned (ReplPushHistory (history_memory env) (pre @ post) (repl l)) ParseSingle, ops @ [newline])"
    using l(6) [of "[Some (0, 13)]"] by simp
  then show ?thesis using l(1,3,4) d'(1) dev row by blast
qed

definition prompt_dev :: VIRTUAL_CONSOLE_DEV where
  "prompt_dev = sample_dev\<lparr>SimpleTextOutputModeData := Some [\<lparr>Columns = 8, Rows = 2\<rparr>],
     Pool := sample_pool\<lparr>heap := [0 \<mapsto> replicate 8 blank_char, 1 \<mapsto> replicate 8 blank_char]\<rparr>\<rparr>"

lemma prompt_ready: "con_ready 8 2 [0, 1] prompt_dev"
  by (simp add: con_ready_def screen_at_def mem_ok_def mode_is_def mode_data_def pool_ok_def
      valid_rows_def prompt_dev_def sample_dev_def sample_pool_def)

text \<open>\<open>xy\<close>, left, \<open>z\<close>, right, backspace, on a console of eight columns: the line is \<open>xz\<close>, with the cursor at its end.\<close>

theorem repl_line_editing_witness:
  "\<exists>l ops d' row. ReplLoop (plain_env (\<lambda>_. False)) (edit_keys [Insert 120, Insert 121, GoLeft, Insert 122, GoRight, Backspace]) (fst (ReplInit [] [] fresh_repl))
      = Inr (Waiting l, ops)
    \<and> Line (repl l) = [120, 122] \<and> CursorPos (repl l) = 2
    \<and> hal_ops ops prompt_dev = Some (Inr d') \<and> CursorRow d' = 1 \<and> CursorColumn d' = 6
    \<and> t_grid (term_of d') = [replicate 8 blank_char, row] \<and> take 6 (map ch_Char row) = [62, 62, 62, 32, 120, 122]
    \<and> ReplLoop (plain_env (\<lambda>_. False)) (edit_keys [Insert 120, Insert 121, GoLeft, Insert 122, GoRight, Backspace] @ [Some (0, 13)])
          (fst (ReplInit [] [] fresh_repl))
        = Inr (Returned (ReplPushHistory True [120, 122] (repl l)) ParseSingle, ops @ [newline])"
proof -
  let ?es = "[Insert 120, Insert 121, GoLeft, Insert 122, GoRight, Backspace]" and ?env = "plain_env (\<lambda>_. False)"
  have dev: "CursorRow prompt_dev = 1" "CursorColumn prompt_dev = 0" "\<not> wide_on prompt_dev"
      "t_grid (term_of prompt_dev) = [replicate 8 blank_char, replicate 8 blank_char]" "ch_Char blank_char = CHAR_NULL"
    by (simp_all add: prompt_dev_def sample_dev_def sample_pool_def wide_on_def EFI_WIDE_ATTRIBUTE_def term_of_def rows_of_def blank_char_def CHAR_NULL_def)
  have row: "\<forall>x\<in>set (t_grid (term_of prompt_dev) ! nat (CursorRow prompt_dev)). ch_Char x \<in> {CHAR_NULL, 32}" by (simp add: dev)
  have es: "\<forall>e\<in>set ?es. edit_ok e" "fits_row (8 - 4) ?es ([], [])" "ed_run ?es ([], []) = ([120, 122], [])"
    by (simp_all add: printable_def ed_run_def)
  have r: "(8 :: nat) \<le> LINE_MAX" "Line (fst (ReplInit [] [] fresh_repl)) = []" "\<not> continue_with_input ?env ([120, 122] @ [])" "history_memory ?env = True"
    by (simp_all add: LINE_MAX_def ReplInit_def plain_env_def)
  obtain l ops d' row blanks where t: "ReplLoop ?env (edit_keys ?es) (fst (ReplInit [] [] fresh_repl)) = Inr (Waiting l, ops)"
      "Line (repl l) = [120, 122] @ []" "CursorPos (repl l) = length [120 :: byte, 122]" "hal_ops ops prompt_dev = Some (Inr d')" "con_ready 8 2 [0, 1] d'"
      "CursorRow d' = CursorRow prompt_dev" "CursorColumn d' = int (4 + length [120 :: byte, 122])"
      "t_grid (term_of d') = (t_grid (term_of prompt_dev))[nat (CursorRow prompt_dev) := row]"
      "map ch_Char row = [62, 62, 62, 32] @ map ucast ([120 :: byte, 122] @ []) @ blanks"
      "\<not> continue_with_input ?env ([120, 122] @ []) \<longrightarrow> ReplLoop ?env (edit_keys ?es @ [Some (0, 13)]) (fst (ReplInit [] [] fresh_repl))
        = Inr (Returned (ReplPushHistory (history_memory ?env) ([120, 122] @ []) (repl l)) ParseSingle, ops @ [newline])"
    using repl_line_editing [OF prompt_ready dev(3,2) row r(1) es(1,2) r(2) es(3), of ?env] by blast
  have "Line (repl l) = [120, 122]" "CursorPos (repl l) = 2" "CursorRow d' = 1" "CursorColumn d' = 6" "t_grid (term_of d') = [replicate 8 blank_char, row]"
      "take 6 (map ch_Char row) = [62, 62, 62, 32, 120, 122]"
    using t(2,3,6-9) by (simp_all add: dev)
  moreover have "ReplLoop ?env (edit_keys ?es @ [Some (0, 13)]) (fst (ReplInit [] [] fresh_repl))
      = Inr (Returned (ReplPushHistory True [120, 122] (repl l)) ParseSingle, ops @ [newline])"
    using t(10) r(3,4) by simp
  ultimately show ?thesis using t(1,4) by blast
qed

text \<open>
  A line that does not fit: the cursor is on a row behind the prompt's, and moving it back by more than its column stops at the start of
  that row. The row above, where the line starts, is never reached.
\<close>

lemma move_back_stays_in_row:
  assumes "con_ready W H rs d" and "CursorColumn d < int n" and "n < LINE_MAX"
  shows "hal_move_cursor_back (word_of_nat n) d = Some (Inr (d\<lparr>CursorColumn := 0\<rparr>))"
proof -
  have n: "mp_hal_move_cursor_back (word_of_nat n) (nat (CursorColumn d)) = 0" "(0 :: 32 word) < word_of_nat n"
    using assms(2) move_back_eq [OF assms(3), of "nat (CursorColumn d)"] word_small [OF assms(3)] con_readyD [OF assms(1)] by auto
  note s = screen_atD [OF con_readyD(1) [OF assms(1)]]
  show ?thesis unfolding hal_move_cursor_back_def n(1) using n(2) SetCursorPosition_cases [OF assms(1), of 0 "CursorRow d"] s(4,5,8)
    by (simp add: set_cursor_def)
qed

end
