(* ===== verification/Time_Module.thy ===== *)
theory Time_Module
  imports Efi_Prelude "HOL-Library.Signed_Division"
begin

text \<open>
  \<open>MicroPythonDxe/Uefi/modtime.c\<close>, the \<open>time\<close> module of Python, with the calendar of
  \<open>MicroPython/lib/timeutils/timeutils.c\<close> it calls.

  \<open>mp_int_t\<close> and \<open>mp_uint_t\<close> are 64 bits wide: values are integers, the casts are written out
  (\<open>intn\<close>, \<open>uintn\<close>), a signed operation that overflows wraps. \<open>sdiv\<close> and \<open>smod\<close> are the division and
  remainder of C. A table that is read behind its end is the fault \<open>OutOfBounds\<close>. The answer of \<open>GetTime\<close>
  is an argument, \<open>None\<close> for an error; \<open>MicroSecondDelay\<close> is the list of the delays that are asked for.
\<close>

definition intn :: "int \<Rightarrow> int" where
  "intn x = signed_take_bit 63 x"

lemma intn_id [casts]: "- (2 ^ 63) \<le> x \<Longrightarrow> x < 2 ^ 63 \<Longrightarrow> intn x = x"
  by (simp add: intn_def signed_take_bit_int_eq_self_iff)

definition uint16 :: "int \<Rightarrow> int" where "uint16 x = take_bit 16 x"
definition uint8 :: "int \<Rightarrow> int" where "uint8 x = take_bit 8 x"

lemma uint16_id [casts]: "0 \<le> x \<Longrightarrow> x < 2 ^ 16 \<Longrightarrow> uint16 x = x"
  by (simp add: uint16_def take_bit_int_eq_self_iff)

lemma uint8_id [casts]: "0 \<le> x \<Longrightarrow> x < 2 ^ 8 \<Longrightarrow> uint8 x = x"
  by (simp add: uint8_def take_bit_int_eq_self_iff)

definition table :: "int list \<Rightarrow> int \<Rightarrow> int result" where
  "table xs i = (if 0 \<le> i \<and> i < int (length xs) then Inr (xs ! nat i) else Inl OutOfBounds)"

section \<open>The calendar\<close>

definition LEAPOCH :: int where "LEAPOCH = (31 + 29) * 86400"
definition DAYS_PER_400Y :: int where "DAYS_PER_400Y = 365 * 400 + 97"
definition DAYS_PER_100Y :: int where "DAYS_PER_100Y = 365 * 100 + 24"
definition DAYS_PER_4Y :: int where "DAYS_PER_4Y = 365 * 4 + 1"

lemmas calendar_consts = LEAPOCH_def DAYS_PER_400Y_def DAYS_PER_100Y_def DAYS_PER_4Y_def

definition days_since_jan1 :: "int list" where
  "days_since_jan1 = [0, 31, 59, 90, 120, 151, 181, 212, 243, 273, 304, 334, 365]"

definition timeutils_is_leap_year :: "int \<Rightarrow> bool" where
  "timeutils_is_leap_year year \<longleftrightarrow> (year mod 4 = 0 \<and> year mod 100 \<noteq> 0) \<or> year mod 400 = 0"

definition timeutils_days_in_month :: "int \<Rightarrow> int \<Rightarrow> int result" where
  "timeutils_days_in_month year month =
     rbind (table days_since_jan1 month) (\<lambda>a. rbind (table days_since_jan1 (month - 1)) (\<lambda>b.
       Inr (if month = 2 \<and> timeutils_is_leap_year year then a - b + 1 else a - b)))"

definition timeutils_year_day :: "int \<Rightarrow> int \<Rightarrow> int \<Rightarrow> int result" where
  "timeutils_year_day year month date =
     rbind (table days_since_jan1 (month - 1)) (\<lambda>a.
       Inr (uintn (if month \<ge> 3 \<and> timeutils_is_leap_year year then a + date + 1 else a + date)))"

record timeutils_struct_time_t =
  tm_year :: int
  tm_mon :: int
  tm_mday :: int
  tm_hour :: int
  tm_min :: int
  tm_sec :: int
  tm_wday :: int
  tm_yday :: int

text \<open>The lengths of the months, from March on, and the search for the month of a day.\<close>

definition days_in_month :: "int list" where
  "days_in_month = [31, 30, 31, 30, 31, 31, 30, 31, 30, 31, 31, 29]"

fun month_loop :: "int list \<Rightarrow> int \<Rightarrow> int \<Rightarrow> (int \<times> int) result" where
  "month_loop [] month days = Inl OutOfBounds"
| "month_loop (d # ds) month days = (if d \<le> days then month_loop ds (month + 1) (days - d) else Inr (month, days))"

text \<open>
  The steps of \<open>timeutils_seconds_since_2000_to_struct_time\<close>: days and seconds of the day since 1 March
  2000; the cycles of 400, 100, 4 and one years, with the days that are left; month and day.
\<close>

definition split_seconds :: "int \<Rightarrow> int \<times> int" where
  "split_seconds t =
     (let seconds = intn (t - LEAPOCH); days = seconds sdiv 86400; seconds = seconds smod 86400 in
      if seconds < 0 then (days - 1, seconds + 86400) else (days, seconds))"

definition split_days :: "int \<Rightarrow> int \<times> int \<times> int \<times> int \<times> int" where
  "split_days days =
     (let qc_cycles = days sdiv DAYS_PER_400Y; days = days smod DAYS_PER_400Y;
          (qc_cycles, days) = (if days < 0 then (qc_cycles - 1, days + DAYS_PER_400Y) else (qc_cycles, days));
          c_cycles = days sdiv DAYS_PER_100Y; c_cycles = (if c_cycles = 4 then c_cycles - 1 else c_cycles);
          days = days - c_cycles * DAYS_PER_100Y;
          q_cycles = days sdiv DAYS_PER_4Y; q_cycles = (if q_cycles = 25 then q_cycles - 1 else q_cycles);
          days = days - q_cycles * DAYS_PER_4Y;
          years = days sdiv 365; years = (if years = 4 then years - 1 else years);
          days = days - years * 365 in
      (qc_cycles, c_cycles, q_cycles, years, days))"

definition month_and_day :: "int \<Rightarrow> int \<Rightarrow> (int \<times> int \<times> int) result" where
  "month_and_day year days =
     rbind (month_loop days_in_month 0 days) (\<lambda>(month, days).
       let mon = uint8 (month + 2);
           (mon, year) = (if mon \<ge> 12 then (mon - 12, uint16 (year + 1)) else (mon, year)) in
       Inr (year, uint8 (mon + 1), uint8 (days + 1)))"

definition timeutils_seconds_since_2000_to_struct_time :: "int \<Rightarrow> timeutils_struct_time_t result" where
  "timeutils_seconds_since_2000_to_struct_time t =
     (let (days, seconds) = split_seconds t;
          wday = (days + 2) smod 7; wday = (if wday < 0 then wday + 7 else wday);
          (qc_cycles, c_cycles, q_cycles, years, days) = split_days days;
          year = uint16 (2000 + years + 4 * q_cycles + 100 * c_cycles + 400 * qc_cycles) in
      rbind (month_and_day year days) (\<lambda>(year, mon, mday).
        rbind (timeutils_year_day year mon mday) (\<lambda>yday.
          Inr \<lparr>tm_year = year, tm_mon = mon, tm_mday = mday, tm_hour = uint8 (seconds sdiv 3600),
               tm_min = uint8 (seconds sdiv 60 smod 60), tm_sec = uint8 (seconds smod 60),
               tm_wday = uint8 wday, tm_yday = uint16 yday\<rparr>)))"

definition timeutils_seconds_since_2000 :: "int \<Rightarrow> int \<Rightarrow> int \<Rightarrow> int \<Rightarrow> int \<Rightarrow> int \<Rightarrow> int result" where
  "timeutils_seconds_since_2000 year month date hour minute second =
     rbind (timeutils_year_day year month date) (\<lambda>yday.
       Inr (uintn (second + minute * 60 + hour * 3600
         + (yday - 1 + uintn (year - 2000 + 3) div 4 - uintn (year - 2000 + 99) div 100 + uintn (year - 2000 + 399) div 400) * 86400
         + (year - 2000) * 31536000)))"

text \<open>
  The four carries of \<open>timeutils_mktime\<close> (seconds to minutes, minutes to hours, hours to days,
  months to years), and its two loops over the months.
\<close>

definition carry :: "(int \<Rightarrow> int) \<Rightarrow> int \<Rightarrow> int \<Rightarrow> int \<Rightarrow> int \<times> int" where
  "carry cast n lo hi =
     (let hi = cast (hi + lo sdiv n); lo = lo smod n in if lo < 0 then (lo + n, cast (hi - 1)) else (lo, hi))"

lemma month_cases: "month \<in> {1..12 :: int} \<Longrightarrow> month \<in> {1, 2, 3, 4, 5, 6, 7, 8, 9, 10, 11, 12}"
  unfolding atLeastAtMost_iff insert_iff empty_iff by presburger

lemma days_in_month_pos: "timeutils_days_in_month year month = Inr n \<Longrightarrow> 28 \<le> n"
proof -
  assume *: "timeutils_days_in_month year month = Inr n"
  then have "month \<in> {1..12}"
    by (auto simp: timeutils_days_in_month_def table_def rbind_eq_Inr days_since_jan1_def split: if_splits)
  then have "month \<in> {1, 2, 3, 4, 5, 6, 7, 8, 9, 10, 11, 12}" by (rule month_cases)
  then show "28 \<le> n" using * by (auto simp: timeutils_days_in_month_def table_def days_since_jan1_def split: if_splits)
qed

function borrow_loop :: "int \<Rightarrow> int \<Rightarrow> int \<Rightarrow> (int \<times> int \<times> int) result" where
  "borrow_loop year month mday =
     (if mday < 1 then
        let (year, month) = (if month - 1 = 0 then (uintn (year - 1), 12) else (year, month - 1)) in
        case timeutils_days_in_month year month of
          Inl e \<Rightarrow> Inl e
        | Inr n \<Rightarrow> borrow_loop year month (mday + n)
      else Inr (year, month, mday))"
  by pat_completeness auto
termination
  by (relation "measure (\<lambda>(year, month, mday). nat (1 - mday))") (auto dest!: days_in_month_pos split: if_splits)

function month_carry_loop :: "int \<Rightarrow> int \<Rightarrow> int \<Rightarrow> (int \<times> int \<times> int) result" where
  "month_carry_loop year month mday =
     (case timeutils_days_in_month year month of
        Inl e \<Rightarrow> Inl e
      | Inr n \<Rightarrow>
          if mday > n then
            let (year', month') = (if month + 1 = 13 then (uintn (year + 1), 1) else (year, month + 1)) in
            month_carry_loop year' month' (mday - n)
          else Inr (year, month, mday))"
  by pat_completeness auto
termination
  by (relation "measure (\<lambda>(year, month, mday). nat mday)") (auto dest!: days_in_month_pos split: if_splits)

declare borrow_loop.simps [simp del] month_carry_loop.simps [simp del]

definition timeutils_mktime :: "int \<Rightarrow> int \<Rightarrow> int \<Rightarrow> int \<Rightarrow> int \<Rightarrow> int \<Rightarrow> int result" where
  "timeutils_mktime year month mday hours minutes seconds =
     (let (seconds, minutes) = carry intn 60 seconds minutes;
          (minutes, hours) = carry intn 60 minutes hours;
          (hours, mday) = carry intn 24 hours mday;
          (month, year) = carry uintn 12 (intn (month - 1)) year;
          month = month + 1 in
      rbind (borrow_loop year month mday) (\<lambda>(year, month, mday).
      rbind (month_carry_loop year month mday) (\<lambda>(year, month, mday).
        timeutils_seconds_since_2000 year month mday hours minutes seconds)))"

section \<open>The module\<close>

record EFI_TIME =
  Year :: int
  Month :: int
  Day :: int
  Hour :: int
  Minute :: int
  Second :: int
  Nanosecond :: int

definition seconds_of :: "EFI_TIME \<Rightarrow> int result" where
  "seconds_of t = timeutils_seconds_since_2000 (Year t) (Month t) (Day t) (Hour t) (Minute t) (Second t)"

definition mod_time_time :: "EFI_TIME option \<Rightarrow> int option result" where
  "mod_time_time now = (case now of None \<Rightarrow> Inr None | Some t \<Rightarrow> rbind (seconds_of t) (\<lambda>s. Inr (Some s)))"

record clock_state =
  mClockSeconds :: int
  mClockNanoSeconds :: int

definition mod_time_clock :: "EFI_TIME option \<Rightarrow> clock_state \<Rightarrow> (int option \<times> clock_state) result" where
  "mod_time_clock now c =
     (case now of
        None \<Rightarrow> Inr (None, c)
      | Some t \<Rightarrow> rbind (seconds_of t) (\<lambda>s.
          let ns = Nanosecond t;
              c = (if mClockSeconds c = 0 \<and> mClockNanoSeconds c = 0 then \<lparr>mClockSeconds = s, mClockNanoSeconds = ns\<rparr> else c);
              s = uintn (s - mClockSeconds c);
              s = (if ns < mClockNanoSeconds c then uintn (s - 1) else s) in
          Inr (Some s, c)))"

definition time_sleep_ms :: "int \<Rightarrow> int list" where
  "time_sleep_ms ms = (if ms > 0 then [uintn (ms * 1000)] else [])"

definition time_sleep_us :: "int \<Rightarrow> int list" where
  "time_sleep_us us = (if us > 0 then [uintn us] else [])"

definition mod_time_sleep :: "int \<Rightarrow> int list" where
  "mod_time_sleep seconds = (if seconds > 0 then [uintn (seconds * 1000 * 1000)] else [])"

definition time_ticks_ms :: "EFI_TIME option \<Rightarrow> int option" where
  "time_ticks_ms now = (case now of None \<Rightarrow> None | Some t \<Rightarrow> Some (Second t * 1000 + Nanosecond t div 1000000))"

definition time_ticks_us :: "EFI_TIME option \<Rightarrow> int option" where
  "time_ticks_us now = (case now of None \<Rightarrow> None | Some t \<Rightarrow> Some (Second t * 1000000 + Nanosecond t div 1000))"

definition MICROPY_PY_UTIME_TICKS_PERIOD :: int where "MICROPY_PY_UTIME_TICKS_PERIOD = 2 ^ 62"

definition time_ticks_diff :: "int \<Rightarrow> int \<Rightarrow> int" where
  "time_ticks_diff e s =
     intn ((uintn (e - s + MICROPY_PY_UTIME_TICKS_PERIOD div 2) AND (MICROPY_PY_UTIME_TICKS_PERIOD - 1))
       - MICROPY_PY_UTIME_TICKS_PERIOD div 2)"

definition time_ticks_add :: "int \<Rightarrow> int \<Rightarrow> int" where
  "time_ticks_add ticks delta = uintn (ticks + delta) AND (MICROPY_PY_UTIME_TICKS_PERIOD - 1)"

text \<open>Zeller's congruence, in the integers of C.\<close>

definition dayofweek :: "int \<Rightarrow> int \<Rightarrow> int \<Rightarrow> int" where
  "dayofweek year month day =
     (let (month, year) = (if month = 1 \<or> month = 2 then (month + 12, year - 1) else (month, year));
          c = year sdiv 100; y = year smod 100; m = month; d = day;
          W = c sdiv 4 - 2 * c + y + y sdiv 4 + 26 * (m + 1) sdiv 10 + d - 1 in
      if W < 0 then (W + ((- W) sdiv 7 + 1) * 7) smod 7 else W smod 7)"

text \<open>The tuple \<open>(year, month, mday, hour, minute, second, weekday, yearday)\<close>.\<close>

definition local_now :: "EFI_TIME \<Rightarrow> int list result" where
  "local_now t =
     (let wday = dayofweek (Year t) (Month t) (Day t) in
      rbind (timeutils_year_day (Year t) (Month t) (Day t)) (\<lambda>yday.
        Inr [Year t, Month t, Day t, Hour t, Minute t, Second t, if wday - 1 < 0 then 6 else wday - 1, yday]))"

definition tuple_of :: "timeutils_struct_time_t \<Rightarrow> int list" where
  "tuple_of tm = [tm_year tm, tm_mon tm, tm_mday tm, tm_hour tm, tm_min tm, tm_sec tm, tm_wday tm, tm_yday tm]"

definition mod_time_localtime :: "EFI_TIME option \<Rightarrow> int option \<Rightarrow> int list option result" where
  "mod_time_localtime now arg =
     (case arg of
        None \<Rightarrow> (case now of None \<Rightarrow> Inr None | Some t \<Rightarrow> rbind (local_now t) (\<lambda>l. Inr (Some l)))
      | Some seconds \<Rightarrow> rbind (timeutils_seconds_since_2000_to_struct_time (uintn seconds)) (\<lambda>tm. Inr (Some (tuple_of tm))))"

text \<open>\<open>None\<close>: the length of the tuple raises \<open>TypeError\<close>.\<close>

definition time_mktime :: "int list \<Rightarrow> int option result" where
  "time_mktime elem =
     (if length elem < 8 \<or> length elem > 9 then Inr None
      else rbind (timeutils_mktime (uintn (elem ! 0)) (elem ! 1) (elem ! 2) (elem ! 3) (elem ! 4) (elem ! 5)) (\<lambda>s. Inr (Some s)))"

end
