(* ===== verification/Time_Thms.thy ===== *)
theory Time_Thms
  imports Time_Module
begin

text \<open>
  Theorems about the \<open>time\<close> module. The reference calendar is the date that follows another one,
  iterated from 1 January 2000; its days are counted by a closed form, which the code is compared with.
\<close>

section \<open>The reference calendar\<close>

definition ref_leap :: "int \<Rightarrow> bool" where
  "ref_leap y \<longleftrightarrow> 4 dvd y \<and> (100 dvd y \<longrightarrow> 400 dvd y)"

definition ref_length :: "int \<Rightarrow> int \<Rightarrow> int" where
  "ref_length y m = (if m = 2 then (if ref_leap y then 29 else 28) else if m \<in> {4, 6, 9, 11} then 30 else 31)"

type_synonym date = "int \<times> int \<times> int"

fun tomorrow :: "date \<Rightarrow> date" where
  "tomorrow (y, m, d) = (if d < ref_length y m then (y, m, d + 1) else if m < 12 then (y, m + 1, 1) else (y + 1, 1, 1))"

definition date_at :: "nat \<Rightarrow> date" where
  "date_at n = (tomorrow ^^ n) (2000, 1, 1)"

fun valid_date :: "date \<Rightarrow> bool" where
  "valid_date (y, m, d) \<longleftrightarrow> 1 \<le> m \<and> m \<le> 12 \<and> 1 \<le> d \<and> d \<le> ref_length y m"

section \<open>Counting days\<close>

definition days_before_year :: "int \<Rightarrow> int" where
  "days_before_year y = 365 * (y - 2000) + (y - 1997) div 4 - (y - 1901) div 100 + (y - 1601) div 400"

definition year_day :: "int \<Rightarrow> int \<Rightarrow> int \<Rightarrow> int" where
  "year_day y m d = days_since_jan1 ! nat (m - 1) + d + (if 3 \<le> m \<and> ref_leap y then 1 else 0)"

fun day_number :: "date \<Rightarrow> int" where
  "day_number (y, m, d) = days_before_year y + year_day y m d - 1"

lemma leap_eq: "timeutils_is_leap_year y = ref_leap y"
  using dvd_trans [of 4 400 y] dvd_trans [of 100 400 y]
  unfolding timeutils_is_leap_year_def ref_leap_def dvd_eq_mod_eq_0 [symmetric] by simp blast

lemma div_plus1:
  assumes "0 < n"
  shows "(z + 1) div n = z div n + (if n dvd z + 1 then 1 else (0 :: int))"
proof -
  have z: "z + 1 = n * (z div n) + (z mod n + 1)" by (simp add: algebra_simps)
  have r: "0 \<le> z mod n" "z mod n < n" using assms by simp_all
  show ?thesis
  proof (cases "z mod n + 1 = n")
    case True
    then have e: "z + 1 = n * (z div n + 1)" using z by (simp add: algebra_simps)
    then show ?thesis using assms by simp
  next
    case False
    then have "0 \<le> z mod n + 1" "z mod n + 1 < n" using r by simp_all
    moreover have "\<not> n dvd z mod n + 1" using calculation r by (intro zdvd_not_zless) simp_all
    then have "\<not> n dvd z + 1" by (metis dvd_eq_mod_eq_0 mod_add_left_eq)
    moreover have "(z + 1) div n = z div n" using \<open>z mod n + 1 < n\<close> r z by (intro int_div_pos_eq) simp_all
    ultimately show ?thesis by simp
  qed
qed

lemma count_step:
  "a' = a + x \<Longrightarrow> b' = b + w \<Longrightarrow> c' = c + v \<Longrightarrow> x - w + v = l \<Longrightarrow> e' = e + 365
    \<Longrightarrow> e' + a' - b' + c' = e + a - b + c + 365 + (l :: int)"
  by simp

lemma leap_count:
  assumes "b \<Longrightarrow> a" and "c \<Longrightarrow> b"
  shows "(if a then 1 else 0) - (if b then 1 else 0) + (if c then 1 else 0) = (if a \<and> (b \<longrightarrow> c) then 1 else (0 :: int))"
  using assms by (cases a; cases b; cases c) simp_all

lemma year_step: "days_before_year (y + 1) = days_before_year y + 365 + (if ref_leap y then 1 else 0)"
  unfolding days_before_year_def
proof (rule count_step)
  show "(y + 1 - 1997) div 4 = (y - 1997) div 4 + (if 4 dvd y then 1 else 0)"
    using div_plus1 [of 4 "y - 1997"] by (simp add: dvd_diff_left_iff)
  show "(y + 1 - 1901) div 100 = (y - 1901) div 100 + (if 100 dvd y then 1 else 0)"
    using div_plus1 [of 100 "y - 1901"] by (simp add: dvd_diff_left_iff)
  show "(y + 1 - 1601) div 400 = (y - 1601) div 400 + (if 400 dvd y then 1 else 0)"
    using div_plus1 [of 400 "y - 1601"] by (simp add: dvd_diff_left_iff)
  show "(if 4 dvd y then 1 else 0) - (if 100 dvd y then 1 else 0) + (if 400 dvd y then 1 else 0)
      = (if ref_leap y then 1 else (0 :: int))"
    unfolding ref_leap_def
  proof (rule leap_count)
    show "100 dvd y \<Longrightarrow> 4 dvd y" by (rule dvd_trans [of 4 100]) simp_all
    show "400 dvd y \<Longrightarrow> 100 dvd y" by (rule dvd_trans [of 100 400]) simp_all
  qed
qed simp

lemma year_day_add: "year_day y m (d + k) = year_day y m d + k"
  by (simp add: year_day_def)

lemma ref_length_pos: "28 \<le> ref_length y m" "ref_length y m \<le> 31"
  by (simp_all add: ref_length_def)

lemma length_table:
  assumes "1 \<le> m" and "m \<le> 12"
  shows "timeutils_days_in_month y m = Inr (ref_length y m)"
    and "m < 12 \<Longrightarrow> year_day y (m + 1) d = year_day y m (ref_length y m + d)"
    and "year_day y 12 (ref_length y 12) = 365 + (if ref_leap y then 1 else 0)"
  using month_cases [of m] assms
  by (auto simp: timeutils_days_in_month_def table_def leap_eq days_since_jan1_def ref_length_def year_day_def)

lemma valid_tomorrow: "valid_date x \<Longrightarrow> valid_date (tomorrow x)"
  by (cases x) (auto simp: ref_length_def)

lemma day_number_tomorrow:
  assumes "valid_date x"
  shows "day_number (tomorrow x) = day_number x + 1"
proof -
  obtain y m d where x: "x = (y, m, d)" by (cases x) auto
  have m: "1 \<le> m" "m \<le> 12" using assms x by simp_all
  consider "d < ref_length y m" | "d = ref_length y m" "m < 12" | "d = ref_length y m" "m = 12" using assms m x by fastforce
  then show ?thesis
  proof cases
    case 1
    then show ?thesis using year_day_add [of y m d 1] by (simp add: x)
  next
    case 2
    then show ?thesis using length_table(2) [OF m 2(2), of y 1] year_day_add [of y m d 1] by (simp add: x)
  next
    case 3
    moreover have "year_day (y + 1) 1 1 = 1" by (simp add: year_day_def days_since_jan1_def)
    ultimately show ?thesis using year_step [of y] length_table(3) [of m y] m by (simp add: x)
  qed
qed

lemma date_at: "valid_date (date_at n)" "day_number (date_at n) = int n"
proof -
  have "valid_date (date_at n) \<and> day_number (date_at n) = int n"
  proof (induction n)
    case 0
    show ?case by (simp add: date_at_def ref_length_def days_before_year_def year_day_def days_since_jan1_def)
  next
    case (Suc n)
    then show ?case using valid_tomorrow day_number_tomorrow by (simp add: date_at_def)
  qed
  then show "valid_date (date_at n)" "day_number (date_at n) = int n" by simp_all
qed

lemma year_day_range:
  assumes "valid_date (y, m, d)"
  shows "1 \<le> year_day y m d" "year_day y m d \<le> 365 + (if ref_leap y then 1 else 0)"
  using assms month_cases [of m] by (auto simp: year_day_def days_since_jan1_def ref_length_def)

lemma days_before_year_mono: "y < y' \<Longrightarrow> days_before_year y + 365 + (if ref_leap y then 1 else 0) \<le> days_before_year y'"
proof (induction "nat (y' - y)" arbitrary: y')
  case (Suc n)
  show ?case
  proof (cases "y' = y + 1")
    case True
    then show ?thesis using year_step [of y] by simp
  next
    case False
    then have "days_before_year y + 365 + (if ref_leap y then 1 else 0) \<le> days_before_year (y' - 1)"
      using Suc.hyps(1) [of "y' - 1"] Suc.hyps(2) Suc.prems by simp
    then show ?thesis using year_step [of "y' - 1"] by (simp split: if_splits)
  qed
qed simp

lemma year_day_mono:
  assumes "1 \<le> m" and "m < m'" and "m' \<le> 12"
  shows "year_day y m (ref_length y m) < year_day y m' 1"
  using assms
proof (induction "nat (m' - m)" arbitrary: m')
  case (Suc n)
  have step: "year_day y m' 1 = year_day y (m' - 1) (ref_length y (m' - 1) + 1)"
    using length_table(2) [of "m' - 1" y 1] Suc.prems by simp
  show ?case
  proof (cases "m' = m + 1")
    case True
    then show ?thesis using step by (simp add: year_day_def)
  next
    case False
    then have "year_day y m (ref_length y m) < year_day y (m' - 1) 1"
      using Suc.hyps(1) [of "m' - 1"] Suc.hyps(2) Suc.prems by simp
    then show ?thesis using step year_day_add [of y "m' - 1" 1 "ref_length y (m' - 1)"] ref_length_pos(1) [of y "m' - 1"]
      by (simp add: add.commute)
  qed
qed simp

lemma year_day_inj:
  assumes "valid_date (y, m, d)" and "valid_date (y, m', d')" and "year_day y m d = year_day y m' d'"
  shows "m = m' \<and> d = d'"
proof -
  have "\<not> m < m'" if "valid_date (y, m, d)" "valid_date (y, m', d')" "year_day y m d = year_day y m' d'" for m m' d d'
  proof
    assume "m < m'"
    then have "year_day y m (ref_length y m) < year_day y m' 1"
      using that(1,2) by (intro year_day_mono) simp_all
    then show False using that by (simp add: year_day_def)
  qed
  then have "m = m'" using assms by (metis linorder_neqE)
  then show ?thesis using assms(3) by (simp add: year_day_def)
qed

lemma day_number_inj:
  assumes "valid_date x" and "valid_date x'" and "day_number x = day_number x'"
  shows "x = x'"
proof -
  obtain y m d y' m' d' where x: "x = (y, m, d)" "x' = (y', m', d')" by (cases x, cases x') auto
  note r = year_day_range [OF assms(1) [unfolded x]] year_day_range [OF assms(2) [unfolded x]]
  have "y = y'" using days_before_year_mono [of y y'] days_before_year_mono [of y' y] r assms(3) x
    by (cases y y' rule: linorder_cases) auto
  then show ?thesis using year_day_inj [of y m d m' d'] assms x by simp
qed

section \<open>From a date to seconds\<close>

lemma sdiv_nonneg: "0 \<le> a \<Longrightarrow> 0 < n \<Longrightarrow> a sdiv n = a div (n :: int)" "0 \<le> a \<Longrightarrow> 0 < n \<Longrightarrow> a smod n = a mod (n :: int)"
  by (auto simp: signed_divide_int_def signed_modulo_int_def sgn_if)

text \<open>The correction the code makes behind a division is the division that rounds down.\<close>

lemma floor_division:
  assumes "0 < (n :: int)"
  shows "(if a smod n < 0 then (a sdiv n - 1, a smod n + n) else (a sdiv n, a smod n)) = (a div n, a mod n)"
proof (cases "0 \<le> a")
  case True
  then show ?thesis using assms pos_mod_sign [of n a] by (simp add: sdiv_nonneg not_less)
next
  case False
  have a: "a = n * (a sdiv n) + a smod n" using mult_sdiv_smod_eq [of n a] by simp
  have r: "a smod n \<le> 0" "- n < a smod n"
    using False assms pos_mod_bound [of n "\<bar>a\<bar>"] by (auto simp: signed_modulo_int_def sgn_if)
  have "a = n * (a sdiv n - 1) + (a smod n + n)" using a by (simp add: algebra_simps)
  then have "a smod n < 0 \<Longrightarrow> a div n = a sdiv n - 1 \<and> a mod n = a smod n + n"
    using r int_div_pos_eq [of a n "a sdiv n - 1" "a smod n + n"] int_mod_pos_eq [of a n "a sdiv n - 1" "a smod n + n"] by simp
  moreover have "a smod n = 0 \<Longrightarrow> a div n = a sdiv n \<and> a mod n = a smod n"
    using a assms int_div_pos_eq [of a n "a sdiv n" 0] int_mod_pos_eq [of a n "a sdiv n" 0] by simp
  ultimately show ?thesis using r(1) by auto
qed

lemma year_day_eq:
  assumes "valid_date (y, m, d)"
  shows "timeutils_year_day y m d = Inr (year_day y m d)"
proof -
  have "table days_since_jan1 (m - 1) = Inr (days_since_jan1 ! nat (m - 1))" using assms by (simp add: table_def days_since_jan1_def)
  moreover have "uintn (year_day y m d) = year_day y m d"
    using year_day_range [OF assms] by (intro uintn_id) (auto split: if_splits)
  ultimately show ?thesis by (auto simp: timeutils_year_day_def leap_eq year_day_def split: if_splits)
qed

lemma seconds_eq:
  assumes "valid_date (y, m, d)" and "1997 \<le> y" and "y < 2 ^ 63"
  shows "timeutils_seconds_since_2000 y m d h mi s = Inr (uintn (86400 * day_number (y, m, d) + 3600 * h + 60 * mi + s))"
proof -
  have u: "uintn (y - 2000 + 3) = y - 1997" "uintn (y - 2000 + 99) = y - 1901" "uintn (y - 2000 + 399) = y - 1601"
    using assms(2,3) uintn_id [of "y - 1997"] uintn_id [of "y - 1901"] uintn_id [of "y - 1601"] by simp_all
  show ?thesis unfolding timeutils_seconds_since_2000_def year_day_eq [OF assms(1)] u
    by (simp add: days_before_year_def algebra_simps)
qed

section \<open>From seconds to a date\<close>

text \<open>The cycles: what \<open>split_days\<close> returns is the position in the cycles, with 29 February at the end of a leap year.\<close>

lemma split_days_eq:
  obtains qc c q y d where "split_days days = (qc, c, q, y, d)" "days = 146097 * qc + 36524 * c + 1461 * q + 365 * y + d"
    "0 \<le> c" "c \<le> 3" "0 \<le> q" "q \<le> 24" "0 \<le> y" "y \<le> 3" "0 \<le> d" "d \<le> 365" "d = 365 \<Longrightarrow> y = 3 \<and> (q = 24 \<longrightarrow> c = 3)"
proof -
  define d1 where "d1 = days mod 146097"
  define c where "c = (if d1 div 36524 = 4 then 3 else d1 div 36524)"
  define d2 where "d2 = d1 - c * 36524"
  define q where "q = d2 div 1461"
  define d3 where "d3 = d2 - q * 1461"
  define y where "y = (if d3 div 365 = 4 then 3 else d3 div 365)"
  have 1: "0 \<le> d1" "d1 \<le> 146096" by (simp_all add: d1_def)
  have c: "0 \<le> c" "c \<le> 3" "0 \<le> d2" "d2 \<le> 36524" "d2 = 36524 \<Longrightarrow> c = 3"
    using 1 by (auto simp: c_def d2_def)
  have q: "0 \<le> q" "q \<le> 24" "0 \<le> d3" "d3 \<le> 1460" "q = 24 \<Longrightarrow> d3 = 1460 \<Longrightarrow> c = 3"
    using c by (auto simp: q_def d3_def)
  have y: "0 \<le> y" "y \<le> 3" "0 \<le> d3 - y * 365" "d3 - y * 365 \<le> 365" "d3 - y * 365 = 365 \<Longrightarrow> y = 3 \<and> d3 = 1460"
    using q by (auto simp: y_def)
  have n25: "q \<noteq> 25" using q(2) by simp
  have "split_days days = (days div 146097, c, q, y, d3 - y * 365)"
  proof -
    have dpy: "DAYS_PER_400Y = 146097" "DAYS_PER_100Y = 36524" "DAYS_PER_4Y = 1461" by (simp_all add: calendar_consts)
    have fl: "(if days smod 146097 < 0 then (days sdiv 146097 - 1, days smod 146097 + 146097) else (days sdiv 146097, days smod 146097))
        = (days div 146097, d1)" unfolding d1_def by (rule floor_division) simp
    have e: "d1 sdiv 36524 = d1 div 36524" "d2 sdiv 1461 = q" "d3 sdiv 365 = d3 div 365"
      using 1 c q by (simp_all add: sdiv_nonneg q_def)
    have c': "(if d1 div 36524 = 4 then d1 div 36524 - 1 else d1 div 36524) = c" by (simp add: c_def)
    have y': "(if d3 div 365 = 4 then d3 div 365 - 1 else d3 div 365) = y" by (simp add: y_def)
    show ?thesis
      unfolding split_days_def dpy Let_def fl prod.case e(1) c' d2_def [symmetric] e(2) if_not_P [OF n25] d3_def [symmetric] e(3) y' ..
  qed
  moreover have "days = 146097 * (days div 146097) + 36524 * c + 1461 * q + 365 * y + (d3 - y * 365)"
    using div_mult_mod_eq [of days 146097] by (simp add: d3_def d2_def d1_def algebra_simps)
  ultimately show thesis using that c q y by blast
qed

lemma march_first:
  assumes "0 \<le> c" "c \<le> 3" "0 \<le> q" "q \<le> 24" "0 \<le> y" "y \<le> 3" and Y: "Y = y + 4 * q + 100 * c + 400 * qc"
  shows "days_before_year (2000 + Y) + (if ref_leap (2000 + Y) then 1 else 0) + 59 = 146097 * qc + 36524 * c + 1461 * q + 365 * y + 60"
proof -
  have "(2000 + Y + 1 - 1997) div 4 = q + 25 * c + 100 * qc + 1" using assms by (intro int_div_pos_eq [where r = y]) auto
  moreover have "(2000 + Y + 1 - 1901) div 100 = c + 4 * qc + 1" using assms by (intro int_div_pos_eq [where r = "y + 4 * q"]) auto
  moreover have "(2000 + Y + 1 - 1601) div 400 = qc + 1" using assms by (intro int_div_pos_eq [where r = "y + 4 * q + 100 * c"]) auto
  ultimately have "days_before_year (2000 + Y + 1) = 365 * (Y + 1) + (q + 25 * c + 100 * qc + 1) - (c + 4 * qc + 1) + (qc + 1)"
    unfolding days_before_year_def by simp
  then show ?thesis using year_step [of "2000 + Y"] by (simp add: Y)
qed

lemma leap_day:
  assumes "0 \<le> c" "c \<le> 3" "0 \<le> q" "q \<le> 24" "y = 3" "q = 24 \<longrightarrow> c = 3" and Y: "Y = y + 4 * q + 100 * c + 400 * qc"
  shows "ref_leap (2000 + Y + 1)"
proof -
  have "2000 + Y + 1 = 4 * (501 + q + 25 * c + 100 * qc)" using assms by simp
  then have "4 dvd 2000 + Y + 1" by (metis dvd_triv_left)
  moreover have "400 dvd 2000 + Y + 1" if "100 dvd 2000 + Y + 1"
  proof -
    have "100 dvd 4 * (q + 1) + 100 * (20 + c + 4 * qc)" using that assms(5) Y by (simp add: algebra_simps)
    then have "100 dvd 4 * (q + 1)" using dvd_add_left_iff [of 100 "100 * (20 + c + 4 * qc)" "4 * (q + 1)"] by simp
    then have "q = 24" using assms(3,4) zdvd_not_zless [of "4 * (q + 1)" 100] by fastforce
    then have "2000 + Y + 1 = 400 * (qc + 6)" using assms by simp
    then show ?thesis by (metis dvd_triv_left)
  qed
  ultimately show ?thesis by (simp add: ref_leap_def)
qed

lemma month_and_day_eq:
  assumes "0 \<le> d" "d \<le> 365" and "0 \<le> year" "year + 1 < 2 ^ 16" and "d = 365 \<Longrightarrow> ref_leap (year + 1)"
  shows "\<exists>y m mday. month_and_day year d = Inr (y, m, mday) \<and> valid_date (y, m, mday)
    \<and> day_number (y, m, mday) = days_before_year year + (if ref_leap year then 1 else 0) + 59 + d"
proof -
  have "d \<in> {0..30} \<or> d \<in> {31..60} \<or> d \<in> {61..91} \<or> d \<in> {92..121} \<or> d \<in> {122..152} \<or> d \<in> {153..183} \<or> d \<in> {184..213}
    \<or> d \<in> {214..244} \<or> d \<in> {245..274} \<or> d \<in> {275..305} \<or> d \<in> {306..336} \<or> d \<in> {337..365}"
    using assms(1,2) unfolding atLeastAtMost_iff by linarith
  moreover have "d \<le> 364 \<or> ref_leap (year + 1)" using assms(2,5) by force
  ultimately show ?thesis using assms(1-4) year_step [of year]
    by (elim disjE) (auto simp: month_and_day_def days_in_month_def uint8_id uint16_id ref_length_def year_day_def days_since_jan1_def)
qed

definition LAST_DAY :: nat where "LAST_DAY = 23205741"

lemma split_seconds_eq:
  assumes "n < LAST_DAY" and "0 \<le> sod" and "sod < 86400"
  shows "split_seconds (86400 * int n + sod) = (int n - 60, sod)"
proof -
  let ?s = "86400 * (int n - 60) + sod"
  have s: "intn (86400 * int n + sod - LEAPOCH) = ?s"
    using assms intn_id [of ?s] by (simp add: LEAPOCH_def LAST_DAY_def algebra_simps)
  have "(if ?s smod 86400 < 0 then (?s sdiv 86400 - 1, ?s smod 86400 + 86400) else (?s sdiv 86400, ?s smod 86400)) = (?s div 86400, ?s mod 86400)"
    by (rule floor_division) simp
  moreover have "?s div 86400 = int n - 60" "?s mod 86400 = sod"
    using assms int_div_pos_eq [of ?s 86400 "int n - 60" sod] int_mod_pos_eq [of ?s 86400 "int n - 60" sod] by simp_all
  ultimately show ?thesis unfolding split_seconds_def s Let_def by simp
qed

lemma weekday_eq: "(if (a :: int) smod 7 < 0 then a smod 7 + 7 else a smod 7) = a mod 7"
  using floor_division [of 7 a] by (simp split: if_splits)

lemma sod_eq:
  assumes "0 \<le> h" "h < 24" "0 \<le> mi" "mi < 60" "0 \<le> s" "s < 60" and sod: "sod = 3600 * h + 60 * mi + (s :: int)"
  shows "uint8 (sod sdiv 3600) = h" "uint8 (sod sdiv 60 smod 60) = mi" "uint8 (sod smod 60) = s" "0 \<le> sod" "sod < 86400"
proof -
  show sod': "0 \<le> sod" "sod < 86400" using assms by simp_all
  have "sod div 3600 = h" using assms by (intro int_div_pos_eq [where r = "60 * mi + s"]) auto
  moreover have "sod div 60 = 60 * h + mi" using assms by (intro int_div_pos_eq [where r = s]) auto
  moreover have "sod mod 60 = s" using assms by (intro int_mod_pos_eq [where q = "60 * h + mi"]) auto
  moreover have "(60 * h + mi) mod 60 = mi" using assms by (intro int_mod_pos_eq [where q = h]) auto
  ultimately show "uint8 (sod sdiv 3600) = h" "uint8 (sod sdiv 60 smod 60) = mi" "uint8 (sod smod 60) = s"
    using assms sod' by (simp_all add: sdiv_nonneg uint8_id)
qed

text \<open>The date of a day: what the code computes for the day \<open>n\<close> is the reference date.\<close>

lemma date_eq:
  assumes "n < LAST_DAY" and "split_days (int n - 60) = (qc, c, q, y, d)"
  shows "month_and_day (uint16 (2000 + y + 4 * q + 100 * c + 400 * qc)) d = Inr (date_at n)"
proof -
  let ?Y = "y + 4 * q + 100 * c + 400 * qc"
  have s: "int n - 60 = 146097 * qc + 36524 * c + 1461 * q + 365 * y + d" "0 \<le> c" "c \<le> 3" "0 \<le> q" "q \<le> 24" "0 \<le> y" "y \<le> 3"
      "0 \<le> d" "d \<le> 365" "d = 365 \<Longrightarrow> y = 3 \<and> (q = 24 \<longrightarrow> c = 3)"
    using assms(2) by (rule_tac split_days_eq [of "int n - 60"], simp)+
  have "- 1 \<le> qc" "?Y < 63535" using s assms(1) unfolding LAST_DAY_def by linarith+
  then have Y: "0 \<le> 2000 + ?Y" "2000 + ?Y + 1 < 2 ^ 16" using s by simp_all
  have "d = 365 \<Longrightarrow> ref_leap (2000 + ?Y + 1)" using s leap_day [of c q y ?Y qc] by simp
  then obtain y' m mday where *: "month_and_day (2000 + ?Y) d = Inr (y', m, mday)" "valid_date (y', m, mday)"
      "day_number (y', m, mday) = days_before_year (2000 + ?Y) + (if ref_leap (2000 + ?Y) then 1 else 0) + 59 + d"
    using month_and_day_eq [OF s(8,9) Y] by blast
  have "day_number (y', m, mday) = int n" using *(3) march_first [OF s(2-7) refl, of qc] s(1) by simp
  then have "(y', m, mday) = date_at n" using *(2) date_at [of n] by (intro day_number_inj) simp_all
  then show ?thesis using *(1) Y by (simp add: uint16_id add.assoc [symmetric])
qed

lemma day_number_jan1: "day_number (y, 1, 1) = days_before_year y"
  by (simp add: year_day_def days_since_jan1_def)

lemma day_number_year:
  assumes "valid_date (y, m, d)"
  shows "0 \<le> day_number (y, m, d) \<longleftrightarrow> 2000 \<le> y" and "2000 \<le> y \<Longrightarrow> y - 2000 \<le> day_number (y, m, d)"
proof -
  note r = year_day_range [OF assms]
  have z: "days_before_year 2000 = 0" by (simp add: days_before_year_def)
  have "y < 2000 \<Longrightarrow> day_number (y, m, d) < 0" using days_before_year_mono [of y 2000] r z by simp
  moreover have m: "2000 \<le> y \<Longrightarrow> y - 2000 \<le> days_before_year y"
    by (induction y rule: int_ge_induct) (auto simp: z year_step)
  moreover have "2000 \<le> y \<Longrightarrow> y - 2000 \<le> day_number (y, m, d)" using m r(1) by simp
  ultimately show "0 \<le> day_number (y, m, d) \<longleftrightarrow> 2000 \<le> y" and "2000 \<le> y \<Longrightarrow> y - 2000 \<le> day_number (y, m, d)" by force+
qed

lemma struct_time_eq:
  assumes n: "n < LAST_DAY" and hms: "0 \<le> h" "h < 24" "0 \<le> mi" "mi < 60" "0 \<le> s" "s < 60" and ymd: "date_at n = (y, m, d)"
  shows "timeutils_seconds_since_2000_to_struct_time (86400 * int n + 3600 * h + 60 * mi + s)
    = Inr \<lparr>tm_year = y, tm_mon = m, tm_mday = d, tm_hour = h, tm_min = mi, tm_sec = s,
        tm_wday = (int n + 5) mod 7, tm_yday = int n - day_number (y, 1, 1) + 1\<rparr>"
proof -
  note sod = sod_eq [OF hms refl]
  have split: "split_seconds (86400 * int n + 3600 * h + 60 * mi + s) = (int n - 60, 3600 * h + 60 * mi + s)"
    using split_seconds_eq [OF n sod(4,5)] by (simp add: algebra_simps)
  obtain qc c q yy dd where sd: "split_days (int n - 60) = (qc, c, q, yy, dd)" by (cases "split_days (int n - 60)") auto
  have v: "valid_date (y, m, d)" "day_number (y, m, d) = int n" using date_at [of n] ymd by simp_all
  have yd: "timeutils_year_day y m d = Inr (int n - day_number (y, 1, 1) + 1)" "uint16 (int n - day_number (y, 1, 1) + 1) = int n - day_number (y, 1, 1) + 1"
    using year_day_eq [OF v(1)] v(2) day_number_jan1 [of y] year_day_range [OF v(1)] by (auto simp: uint16_id split: if_splits)
  have wd: "uint8 ((int n - 58) mod 7) = (int n + 5) mod 7"
  proof -
    have "int n - 58 = int n + 5 + 7 * (- 9)" by simp
    then have e: "(int n - 58) mod 7 = (int n + 5) mod 7" by (metis mod_mult_self2)
    show ?thesis unfolding e using pos_mod_bound [of 7 "int n + 5"] by (intro uint8_id) simp_all
  qed
  show ?thesis
    unfolding timeutils_seconds_since_2000_to_struct_time_def split Let_def prod.case sd weekday_eq date_eq [OF n sd] ymd
    by (simp add: yd wd sod del: day_number.simps)
qed

text \<open>
  C30. The calendar of the module counts days as the reference does: \<open>timeutils_seconds_since_2000_to_struct_time\<close>
  turns the seconds at \<open>h:mi:s\<close> of day \<open>n\<close> into the \<open>n\<close>-th day after 1 January 2000, stepping from day to day,
  with its weekday and day of the year, and \<open>timeutils_seconds_since_2000\<close> turns this date into the seconds again,
  for all days up to February 65535, where the field of the year ends.
\<close>

theorem calendar_counts_days:
  assumes "n < LAST_DAY" and "0 \<le> h" "h < 24" "0 \<le> mi" "mi < 60" "0 \<le> s" "s < 60"
    and "t = 86400 * int n + 3600 * h + 60 * mi + s" and "date_at n = (y, m, d)"
  shows "timeutils_seconds_since_2000_to_struct_time t
      = Inr \<lparr>tm_year = y, tm_mon = m, tm_mday = d, tm_hour = h, tm_min = mi, tm_sec = s,
          tm_wday = (int n + 5) mod 7, tm_yday = int n - day_number (y, 1, 1) + 1\<rparr>
    \<and> timeutils_seconds_since_2000 y m d h mi s = Inr t"
proof
  show "timeutils_seconds_since_2000_to_struct_time t
      = Inr \<lparr>tm_year = y, tm_mon = m, tm_mday = d, tm_hour = h, tm_min = mi, tm_sec = s,
          tm_wday = (int n + 5) mod 7, tm_yday = int n - day_number (y, 1, 1) + 1\<rparr>"
    unfolding assms(8) using assms(1-7,9) by (rule struct_time_eq)
  have v: "valid_date (y, m, d)" "day_number (y, m, d) = int n" using date_at [of n] assms(9) by simp_all
  have y: "2000 \<le> y" "y - 2000 \<le> int n" using day_number_year [OF v(1)] v(2) by simp_all
  have "0 \<le> t" "t < 2 ^ 64" using assms(1-8) by (auto simp: LAST_DAY_def)
  then show "timeutils_seconds_since_2000 y m d h mi s = Inr t"
    using seconds_eq [OF v(1), of h mi s] y assms(1,8) v(2) by (simp add: uintn_id LAST_DAY_def del: day_number.simps)
qed

text \<open>Day 60 is 1 March 2000, a Wednesday and the 61st day of the year.\<close>

theorem calendar_counts_days_witness:
  "timeutils_seconds_since_2000_to_struct_time (86400 * 60 + 3600 * 23 + 60 * 59 + 58)
      = Inr \<lparr>tm_year = 2000, tm_mon = 3, tm_mday = 1, tm_hour = 23, tm_min = 59, tm_sec = 58, tm_wday = 2, tm_yday = 61\<rparr>
    \<and> timeutils_seconds_since_2000 2000 3 1 23 59 58 = Inr (86400 * 60 + 3600 * 23 + 60 * 59 + 58)"
proof -
  have "date_at 60 = (2000, 3, 1)"
    using date_at [of 60] by (intro day_number_inj) (simp_all add: days_before_year_def year_day_def days_since_jan1_def ref_length_def ref_leap_def)
  then show ?thesis using calendar_counts_days [of 60 23 59 58 _ 2000 3 1]
    by (simp add: LAST_DAY_def days_before_year_def year_day_def days_since_jan1_def)
qed

section \<open>Weekdays\<close>

lemma W_mod: "(if W < 0 then (W + ((- W) sdiv 7 + 1) * 7) smod 7 else W smod 7) = W mod (7 :: int)"
proof (cases "W < 0")
  case True
  have "0 \<le> W + ((- W) div 7 + 1) * 7"
    using div_mult_mod_eq [of "- W" 7] pos_mod_bound [of 7 "- W"] by (simp add: algebra_simps)
  moreover have "(W + ((- W) div 7 + 1) * 7) mod 7 = W mod 7" by (rule mod_mult_self1)
  moreover have "(- W) sdiv 7 = (- W) div 7" using True by (intro sdiv_nonneg) simp_all
  ultimately show ?thesis using True sdiv_nonneg(2) [of "W + ((- W) div 7 + 1) * 7" 7] by (simp only: if_True)
qed (simp add: sdiv_nonneg)

text \<open>The days before 1 March of a year, by centuries.\<close>

lemma century_sum:
  "a = 25 * c + p - 499 \<Longrightarrow> b = c - 19 \<Longrightarrow> f = r - 4 \<Longrightarrow> e = 36500 * c + 365 * y + (365 - 730000)
    \<Longrightarrow> e + a - b + f = 36524 * c + r + 365 * y + p + (365 - 730000 - 499 + 19 - 4 :: int)"
  by simp

lemma march_by_century:
  assumes "Y = 100 * c + y" "0 \<le> y" "y < 100"
  shows "days_before_year (Y + 1) = 36524 * c + c div 4 + 365 * y + y div 4 + (365 - 730000 - 499 + 19 - 4)"
proof -
  have "(Y + 1 - 1997) div 4 = 25 * c + y div 4 - 499"
    using int_div_pos_eq [of "Y + 1 - 1997" 4 "25 * c + y div 4 - 499" "y mod 4"] assms(1) by simp
  moreover have "(Y + 1 - 1901) div 100 = c - 19"
    using int_div_pos_eq [of "Y + 1 - 1901" 100 "c - 19" y] assms by simp
  moreover have "(Y + 1 - 1601) div 400 = c div 4 - 4"
    using int_div_pos_eq [of "Y + 1 - 1601" 400 "c div 4 - 4" "100 * (c mod 4) + y"] assms pos_mod_bound [of 4 c] by simp
  moreover have "365 * (Y + 1 - 2000) = 36500 * c + 365 * y + (365 - 730000)" using assms(1) by simp
  ultimately show ?thesis unfolding days_before_year_def using century_sum by blast
qed

text \<open>The month in Zeller's congruence.\<close>

lemma zeller_month:
  assumes "1 \<le> m" and "m \<le> 12"
  shows "\<exists>j. (if m = 1 \<or> m = 2 then 306 + days_since_jan1 ! nat (m - 1) else days_since_jan1 ! nat (m - 1) - 59) + 10
    = 26 * ((if m = 1 \<or> m = 2 then m + 12 else m) + 1) div 10 + 7 * (j :: int)"
  using month_cases [of m] assms by (intro exI [of _ "4 * (if m = 1 \<or> m = 2 then m + 9 else m - 3)"]) (auto simp: days_since_jan1_def)

lemma zeller:
  assumes "valid_date (y, m, d)" and "1 \<le> y"
  shows "dayofweek y m d = (day_number (y, m, d) + 6) mod 7"
proof -
  define Y where "Y = (if m = 1 \<or> m = 2 then y - 1 else y)"
  define M where "M = (if m = 1 \<or> m = 2 then m + 12 else m)"
  define c where "c = Y div 100"
  define yy where "yy = Y mod 100"
  define W where "W = c div 4 - 2 * c + yy + yy div 4 + 26 * (M + 1) div 10 + d - 1"
  have Y: "0 \<le> Y" "0 \<le> c" "0 \<le> yy" "yy < 100" "Y = 100 * c + yy"
    using assms(2) by (simp_all add: Y_def c_def yy_def pos_imp_zdiv_nonneg_iff)
  have M: "0 \<le> 26 * (M + 1)" using assms(1) by (auto simp: M_def)
  have dow: "dayofweek y m d = W mod 7"
  proof -
    have "(if m = 1 \<or> m = 2 then (m + 12, y - 1) else (m, y)) = (M, Y)" by (simp add: M_def Y_def)
    moreover have "c sdiv 4 - 2 * c + yy + yy sdiv 4 + 26 * (M + 1) sdiv 10 + d - 1 = W" using Y M by (simp add: W_def sdiv_nonneg)
    moreover have "Y sdiv 100 = c" "Y smod 100 = yy" using Y(1) by (simp_all add: sdiv_nonneg c_def yy_def)
    ultimately show ?thesis unfolding dayofweek_def by (simp only: Let_def prod.case W_mod)
  qed
  have march: "day_number (y, m, d) = days_before_year (Y + 1) - 365 + 59
      + (if m = 1 \<or> m = 2 then 306 + days_since_jan1 ! nat (m - 1) else days_since_jan1 ! nat (m - 1) - 59) + d - 1"
    using year_step [of y] assms(1) by (auto simp: Y_def year_day_def)
  obtain j where j: "(if m = 1 \<or> m = 2 then 306 + days_since_jan1 ! nat (m - 1) else days_since_jan1 ! nat (m - 1) - 59) + 10
      = 26 * (M + 1) div 10 + 7 * j"
    using zeller_month [of m] assms(1) unfolding M_def by auto
  have "day_number (y, m, d) + 6 = W + 7 * (5218 * c + 52 * yy + j - 104347)"
    using j unfolding march march_by_century [OF Y(5,3,4)] W_def by (simp add: algebra_simps)
  then show ?thesis unfolding dow by (metis mod_mult_self2)
qed

lemma weekday_before: "(if a mod 7 - 1 < 0 then 6 else a mod 7 - 1) = (a - 1) mod (7 :: int)"
proof (cases "a mod 7 = 0")
  case True
  then show ?thesis by (intro int_mod_pos_eq [of _ _ "a div 7 - 1", symmetric]) auto
next
  case False
  then have "0 < a mod 7" using pos_mod_sign [of 7 a] by linarith
  then show ?thesis using pos_mod_bound [of 7 a] by (intro int_mod_pos_eq [of _ _ "a div 7", symmetric]) (auto simp: algebra_simps)
qed

text \<open>Every valid date from 2000 on is the date of its day.\<close>

lemma date_at_day:
  assumes "valid_date x" and "0 \<le> day_number x"
  shows "date_at (nat (day_number x)) = x"
  using assms date_at [of "nat (day_number x)"] by (intro day_number_inj) simp_all

definition valid_time :: "EFI_TIME \<Rightarrow> bool" where
  "valid_time t \<longleftrightarrow> valid_date (Year t, Month t, Day t) \<and> 0 \<le> Hour t \<and> Hour t < 24 \<and> 0 \<le> Minute t \<and> Minute t < 60
     \<and> 0 \<le> Second t \<and> Second t < 60"

lemma day_before_9999:
  assumes "valid_date (y, m, d)" and "y \<le> 9999"
  shows "nat (day_number (y, m, d)) < LAST_DAY"
proof -
  have "days_before_year 10000 = 2921940" by (simp add: days_before_year_def)
  then have "day_number (y, m, d) < 2921940"
    using days_before_year_mono [of y 10000] year_day_range [OF assms(1)] assms(2) by simp
  then show ?thesis by (simp add: LAST_DAY_def)
qed

text \<open>
  The two ways to the current date agree: for every time of a firmware clock from 2000 to 9999, \<open>localtime()\<close>, which takes the
  fields of the clock and computes the weekday by Zeller's congruence, and \<open>localtime(time())\<close>, which converts
  them to seconds and back by counting days, return the same tuple.
\<close>

theorem localtime_agrees:
  assumes "valid_time t" and "2000 \<le> Year t" and "Year t \<le> 9999"
  shows "\<exists>s l. mod_time_time (Some t) = Inr (Some s) \<and> mod_time_localtime (Some t) None = Inr (Some l)
    \<and> mod_time_localtime now (Some s) = Inr (Some l)"
proof -
  let ?x = "(Year t, Month t, Day t)"
  define n where "n = nat (day_number ?x)"
  have v: "valid_date ?x" and hms: "0 \<le> Hour t" "Hour t < 24" "0 \<le> Minute t" "Minute t < 60" "0 \<le> Second t" "Second t < 60"
    using assms(1) by (simp_all add: valid_time_def)
  have d: "0 \<le> day_number ?x" using day_number_year(1) [OF v] assms(2) by simp
  then have n: "int n = day_number ?x" "date_at n = ?x" "n < LAST_DAY"
    using date_at_day [OF v d] day_before_9999 [OF v assms(3)] by (simp_all add: n_def del: day_number.simps)
  let ?s = "86400 * int n + 3600 * Hour t + 60 * Minute t + Second t"
  have s: "0 \<le> ?s" "?s < 2 ^ 64" using hms n(3) by (simp_all add: LAST_DAY_def)
  have secs: "seconds_of t = Inr ?s"
    using seconds_eq [OF v, of "Hour t" "Minute t" "Second t"] assms(2,3) n(1) s by (simp add: seconds_of_def uintn_id del: day_number.simps)
  have yd: "timeutils_year_day (Year t) (Month t) (Day t) = Inr (int n - day_number (Year t, 1, 1) + 1)"
    using year_day_eq [OF v] n(1) day_number_jan1 [of "Year t"] by simp
  have "dayofweek (Year t) (Month t) (Day t) = (int n + 6) mod 7" using zeller [OF v] assms(2) n(1) by (simp del: day_number.simps)
  moreover have "(if (int n + 6) mod 7 - 1 < 0 then 6 else (int n + 6) mod 7 - 1) = (int n + 5) mod 7"
    using weekday_before [of "int n + 6"] by (simp add: add.commute)
  ultimately have wd: "(if dayofweek (Year t) (Month t) (Day t) - 1 < 0 then 6 else dayofweek (Year t) (Month t) (Day t) - 1) = (int n + 5) mod 7"
    by (simp only:)
  have u: "uintn ?s = ?s" using s by (rule uintn_id)
  show ?thesis
    unfolding mod_time_time_def mod_time_localtime_def local_now_def Let_def option.case wd secs yd rbind_Inr
    by (simp add: tuple_of_def u struct_time_eq [OF n(3) hms n(2)] del: day_number.simps)
qed

definition new_year :: EFI_TIME where
  "new_year = \<lparr>Year = 2018, Month = 1, Day = 1, Hour = 7, Minute = 8, Second = 9, Nanosecond = 0\<rparr>"

theorem localtime_agrees_witness:
  "valid_time new_year \<and> (\<exists>s l. mod_time_time (Some new_year) = Inr (Some s) \<and> mod_time_localtime (Some new_year) None = Inr (Some l)
    \<and> mod_time_localtime None (Some s) = Inr (Some l))"
proof -
  have "valid_time new_year" by (simp add: valid_time_def new_year_def ref_length_def)
  then show ?thesis using localtime_agrees [of new_year None] by (simp add: new_year_def)
qed

section \<open>Normalising a tuple\<close>

lemma uintn_add: "uintn (uintn a + b) = uintn (a + b)" "uintn (uintn a - b) = uintn (a - b)"
  by (simp_all add: uintn_def take_bit_eq_mod mod_simps)

lemma carry_intn:
  assumes "0 < n" and "\<bar>lo\<bar> < 2 ^ 60" and "\<bar>hi\<bar> < 2 ^ 60"
  shows "carry intn n lo hi = (lo mod n, hi + lo div n)"
proof -
  have "x div n \<le> x \<and> 0 \<le> x div n" if "0 \<le> x" for x
    using zdiv_mono2 [of x 1 n] assms(1) that by (simp add: pos_imp_zdiv_nonneg_iff)
  from this [of "\<bar>lo\<bar>"] have q: "\<bar>lo sdiv n\<bar> \<le> \<bar>lo\<bar>" using assms(1) by (auto simp: signed_divide_int_def abs_mult sgn_if)
  have "intn (hi + lo sdiv n) = hi + lo sdiv n" "intn (hi + lo sdiv n - 1) = hi + lo sdiv n - 1"
    using q assms(2,3) by (intro intn_id; simp)+
  then show ?thesis using floor_division [OF assms(1), of lo] by (auto simp: carry_def Let_def split: if_splits)
qed

lemma abs_div_le: "0 < n \<Longrightarrow> \<bar>x div n\<bar> \<le> \<bar>x :: int\<bar>"
  using zdiv_mono2 [of x 1 n] zdiv_mono2_neg [of x 1 n] pos_imp_zdiv_nonneg_iff [of n x] pos_imp_zdiv_neg_iff [of n x]
  by (cases "0 \<le> x") auto

lemma carry_uintn: "0 < n \<Longrightarrow> carry uintn n lo (uintn hi) = (lo mod n, uintn (hi + lo div n))"
  using floor_division [of n lo] by (auto simp: carry_def Let_def uintn_add diff_eq_eq split: if_splits)

text \<open>The day a year, a month and a day that need not exist stand for.\<close>

definition day_of :: "int \<Rightarrow> int \<Rightarrow> int \<Rightarrow> int" where
  "day_of y m d = day_number (y, m, 1) + d - 1"

lemma day_of_valid: "day_number (y, m, d) = day_of y m d"
  by (simp add: day_of_def year_day_def)

lemma valid_first: "1 \<le> m \<Longrightarrow> m \<le> 12 \<Longrightarrow> valid_date (y, m, 1)"
  using ref_length_pos [of y m] by simp

lemma day_of_next_month:
  assumes "1 \<le> m" and "m \<le> 12"
  shows "day_of (if m + 1 = 13 then y + 1 else y) (if m + 1 = 13 then 1 else m + 1) (d - ref_length y m) = day_of y m d"
proof (cases "m = 12")
  case True
  then show ?thesis using year_step [of y] length_table(3) [of 12 y] day_number_jan1 [of "y + 1"] year_day_add [of y 12 1 "ref_length y 12 - 1"]
    by (simp add: day_of_def)
next
  case False
  then show ?thesis using length_table(2) [OF assms, of y 1] year_day_add [of y m 1 "ref_length y m"] assms by (simp add: day_of_def add.commute)
qed

lemma borrow_loop_eq:
  assumes "1 \<le> m" "m \<le> 12" and "0 \<le> day_of y m d" and "0 \<le> y" "y < 2 ^ 62"
  shows "\<exists>y' m' d'. borrow_loop y m d = Inr (y', m', d') \<and> 1 \<le> m' \<and> m' \<le> 12 \<and> 1 \<le> d' \<and> 0 \<le> y' \<and> y' \<le> y
    \<and> day_of y' m' d' = day_of y m d"
  using assms
proof (induction y m d rule: borrow_loop.induct)
  case (1 y m d)
  show ?case
  proof (cases "d < 1")
    case False
    then show ?thesis using 1(2-) by (simp add: borrow_loop.simps [of y m d])
  next
    case True
    let ?y = "if m - 1 = 0 then y - 1 else y" and ?m = "if m - 1 = 0 then 12 else m - 1"
    have "2000 \<le> y" using day_number_year(1) [OF valid_first [OF 1(2,3), of y]] 1(4) True by (simp add: day_of_def del: day_number.simps)
    then have u: "uintn (y - 1) = y - 1" using 1(6) by (intro uintn_id) simp_all
    have y: "(if m - 1 = 0 then (uintn (y - 1), 12) else (y, m - 1)) = (?y, ?m)" using u by simp
    have m: "1 \<le> ?m" "?m \<le> 12" using 1(2,3) by auto
    have n: "timeutils_days_in_month ?y ?m = Inr (ref_length ?y ?m)" by (rule length_table(1) [OF m])
    have same: "day_of ?y ?m (d + ref_length ?y ?m) = day_of y m d"
      using day_of_next_month [OF m, of ?y "d + ref_length ?y ?m"] 1(3) by (cases "m = 1") auto
    have step: "borrow_loop y m d = borrow_loop ?y ?m (d + ref_length ?y ?m)"
      using True by (subst borrow_loop.simps) (simp only: y Let_def prod.case n sum.case if_True)
    have "\<exists>y' m' d'. borrow_loop ?y ?m (d + ref_length ?y ?m) = Inr (y', m', d') \<and> 1 \<le> m' \<and> m' \<le> 12 \<and> 1 \<le> d' \<and> 0 \<le> y' \<and> y' \<le> ?y
        \<and> day_of y' m' d' = day_of ?y ?m (d + ref_length ?y ?m)"
      using \<open>2000 \<le> y\<close> 1(4,6) same by (intro 1(1) [OF True y [symmetric] refl n m]) auto
    then show ?thesis unfolding step same by (auto split: if_splits)
  qed
qed

lemma month_carry_loop_eq:
  assumes "1 \<le> m" "m \<le> 12" "1 \<le> d" and "0 \<le> y" and "day_of y m d < 2 ^ 62"
  shows "\<exists>y' m' d'. month_carry_loop y m d = Inr (y', m', d') \<and> valid_date (y', m', d') \<and> day_of y' m' d' = day_of y m d"
  using assms
proof (induction y m d rule: month_carry_loop.induct)
  case (1 y m d)
  note n = length_table(1) [OF 1(2,3), of y]
  show ?case
  proof (cases "d > ref_length y m")
    case False
    then show ?thesis using 1(2-4) n by (subst month_carry_loop.simps) simp
  next
    case True
    let ?y = "if m + 1 = 13 then y + 1 else y" and ?m = "if m + 1 = 13 then 1 else m + 1" and ?d = "d - ref_length y m"
    have v: "valid_date (y, m, 1)" using 1(2,3) by (rule valid_first)
    have "y < 2000 \<or> y - 2000 < 2 ^ 62" using day_number_year(2) [OF v] 1(4,6) by (auto simp: day_of_def simp del: day_number.simps)
    then have u: "uintn (y + 1) = y + 1" using 1(5) by (intro uintn_id) auto
    have y: "(if m + 1 = 13 then (uintn (y + 1), 1) else (y, m + 1)) = (?y, ?m)" using u by simp
    have m: "1 \<le> ?m" "?m \<le> 12" using 1(2,3) by auto
    have same: "day_of ?y ?m ?d = day_of y m d" by (rule day_of_next_month [OF 1(2,3)])
    have step: "month_carry_loop y m d = month_carry_loop ?y ?m ?d"
      using True by (subst month_carry_loop.simps) (simp only: n sum.case if_True y Let_def prod.case)
    have "\<exists>y' m' d'. month_carry_loop ?y ?m ?d = Inr (y', m', d') \<and> valid_date (y', m', d') \<and> day_of y' m' d' = day_of ?y ?m ?d"
      using True 1(5,6) same by (intro 1(1) [OF n True y [symmetric] refl m]) auto
    then show ?thesis unfolding step same .
  qed
qed

lemma days_before_bound: "0 \<le> y \<Longrightarrow> y < 2 ^ 37 \<Longrightarrow> days_before_year y < 366 * 2 ^ 37"
  unfolding days_before_year_def by simp

text \<open>
  \<open>mktime\<close> normalises: seconds, minutes, hours, days and months may be negative or too large, and the result is the
  seconds of the day that is as many days after the first of the month as asked for, the months counted from
  January, plus the seconds of the hours, minutes and seconds. In particular both loops over the months end.
\<close>

theorem mktime_normalises:
  assumes "length elem \<in> {8, 9}" and "\<forall>x\<in>set elem. \<bar>x\<bar> < 2 ^ 36"
    and "y = elem ! 0 + (elem ! 1 - 1) div 12" and "m = (elem ! 1 - 1) mod 12 + 1" and "0 \<le> y"
    and "t = 86400 * (day_number (y, m, 1) + elem ! 2 - 1) + 3600 * elem ! 3 + 60 * elem ! 4 + elem ! 5" and "0 \<le> t"
  shows "time_mktime elem = Inr (Some t)"
proof -
  define mi where "mi = elem ! 4 + elem ! 5 div 60"
  define h where "h = elem ! 3 + mi div 60"
  define d where "d = elem ! 2 + h div 24"
  have b: "\<bar>elem ! i\<bar> < 2 ^ 36" if "i < 6" for i using assms(1,2) that by (intro bspec [OF assms(2)] nth_mem) auto
  have "\<bar>mi\<bar> < 2 ^ 37" using b [of 4] b [of 5] abs_div_le [of 60 "elem ! 5"] by (simp add: mi_def)
  moreover have "\<bar>h\<bar> < 2 ^ 38" using calculation b [of 3] abs_div_le [of 60 mi] by (simp add: h_def)
  moreover have "\<bar>d\<bar> < 2 ^ 39" using calculation b [of 2] abs_div_le [of 24 h] by (simp add: d_def)
  ultimately have small: "\<bar>mi\<bar> < 2 ^ 37" "\<bar>h\<bar> < 2 ^ 38" "\<bar>d\<bar> < 2 ^ 39" by blast+
  have y: "y < 2 ^ 37" using b [of 0] b [of 1] abs_div_le [of 12 "elem ! 1 - 1"] by (simp add: assms(3))
  have i: "intn (elem ! 1 - 1) = elem ! 1 - 1" using b [of 1] by (intro intn_id) auto
  have c1: "carry intn 60 (elem ! 5) (elem ! 4) = (elem ! 5 mod 60, mi)"
    unfolding mi_def using b [of 4] b [of 5] by (intro carry_intn) simp_all
  have c2: "carry intn 60 mi (elem ! 3) = (mi mod 60, h)" unfolding h_def using b [of 3] small by (intro carry_intn) simp_all
  have c3: "carry intn 24 h (elem ! 2) = (h mod 24, d)" unfolding d_def using b [of 2] small by (intro carry_intn) simp_all
  have c4: "carry uintn 12 (intn (elem ! 1 - 1)) (uintn (elem ! 0)) = ((elem ! 1 - 1) mod 12, y)"
    unfolding i using carry_uintn [of 12 "elem ! 1 - 1" "elem ! 0", folded assms(3)] uintn_id [of y] y assms(5) by simp
  have m: "1 \<le> m" "m \<le> 12" unfolding assms(4) using pos_mod_bound [of 12 "elem ! 1 - 1"] by simp_all
  have t: "t = 86400 * day_of y m d + 3600 * (h mod 24) + 60 * (mi mod 60) + elem ! 5 mod 60"
    unfolding assms(6) day_of_def d_def h_def mi_def by (simp add: minus_div_mult_eq_mod [symmetric] algebra_simps)
  have D: "0 \<le> day_of y m d" using t assms(7) pos_mod_bound [of 24 h] pos_mod_bound [of 60 mi] pos_mod_bound [of 60 "elem ! 5"] by linarith
  have D': "day_of y m d < 371 * 2 ^ 37"
    using small(3) days_before_bound [OF assms(5) y] year_day_range [OF valid_first [OF m, of y]] by (auto simp: day_of_def split: if_splits)
  obtain y1 m1 d1 where 1: "borrow_loop y m d = Inr (y1, m1, d1)" "1 \<le> m1" "m1 \<le> 12" "1 \<le> d1" "0 \<le> y1" "day_of y1 m1 d1 = day_of y m d"
    using borrow_loop_eq [OF m D assms(5)] y by auto
  obtain y2 m2 d2 where 2: "month_carry_loop y1 m1 d1 = Inr (y2, m2, d2)" "valid_date (y2, m2, d2)" "day_number (y2, m2, d2) = day_of y m d"
    using month_carry_loop_eq [OF 1(2-5)] 1(6) D' day_of_valid by auto
  have y2: "1997 \<le> y2" "y2 < 2 ^ 63" using day_number_year [OF 2(2)] 2(3) D D' by auto
  have "uintn t = t" using assms(7) t D' pos_mod_bound [of 24 h] pos_mod_bound [of 60 mi] pos_mod_bound [of 60 "elem ! 5"]
    by (intro uintn_id) auto
  then have "timeutils_seconds_since_2000 y2 m2 d2 (h mod 24) (mi mod 60) (elem ! 5 mod 60) = Inr t"
    using seconds_eq [OF 2(2) y2] 2(3) t by (simp del: day_number.simps)
  moreover have "timeutils_mktime (uintn (elem ! 0)) (elem ! 1) (elem ! 2) (elem ! 3) (elem ! 4) (elem ! 5)
      = timeutils_seconds_since_2000 y2 m2 d2 (h mod 24) (mi mod 60) (elem ! 5 mod 60)"
    unfolding timeutils_mktime_def c1 c2 c3 c4 Let_def prod.case assms(4) [symmetric] 1(1) 2(1) rbind_Inr ..
  ultimately show ?thesis using assms(1) by (auto simp: time_mktime_def)
qed

text \<open>32 March 2000, minus one second.\<close>

theorem mktime_normalises_witness:
  "time_mktime [2000, 3, 32, 0, 0, -1, 0, 0] = Inr (Some (91 * 86400 - 1))"
  using mktime_normalises [of "[2000, 3, 32, 0, 0, -1, 0, 0]" 2000 3 "91 * 86400 - 1"]
  by (simp add: days_before_year_def year_day_def days_since_jan1_def ref_leap_def)

section \<open>Ticks\<close>

lemma mask_eq: "uintn x AND (2 ^ 62 - 1) = x mod 2 ^ 62"
proof -
  have "(2 ^ 62 - 1 :: int) = mask 62" by (simp add: mask_eq_exp_minus_1)
  then have "uintn x AND (2 ^ 62 - 1) = take_bit 62 (take_bit 64 x)" by (simp only: uintn_def take_bit_eq_mask)
  also have "\<dots> = take_bit 62 x" by simp
  finally show ?thesis by (simp only: take_bit_eq_mod)
qed

text \<open>
  Differences of ticks undo additions, across the wrap-around: adding any delta of less than half the period to a tick value gives a
  tick value, and the difference to the old one is the delta.
\<close>

theorem ticks_round_trip:
  assumes "0 \<le> t" and "t < MICROPY_PY_UTIME_TICKS_PERIOD"
    and "- (MICROPY_PY_UTIME_TICKS_PERIOD div 2) \<le> delta" and "delta < MICROPY_PY_UTIME_TICKS_PERIOD div 2"
  shows "0 \<le> time_ticks_add t delta \<and> time_ticks_add t delta < MICROPY_PY_UTIME_TICKS_PERIOD
    \<and> time_ticks_diff (time_ticks_add t delta) t = delta"
proof -
  have a: "time_ticks_add t delta = (t + delta) mod 2 ^ 62"
    unfolding time_ticks_add_def MICROPY_PY_UTIME_TICKS_PERIOD_def by (rule mask_eq)
  have "time_ticks_diff e s = intn ((e - s + 2 ^ 61) mod 2 ^ 62 - 2 ^ 61)" for e s
    unfolding time_ticks_diff_def MICROPY_PY_UTIME_TICKS_PERIOD_def using mask_eq [of "e - s + 2 ^ 61"] by simp
  moreover have "((t + delta) mod 2 ^ 62 - t + 2 ^ 61) mod 2 ^ 62 = (delta + 2 ^ 61) mod 2 ^ 62"
  proof -
    have "((t + delta) mod 2 ^ 62 + (2 ^ 61 - t)) mod 2 ^ 62 = (t + delta + (2 ^ 61 - t)) mod 2 ^ 62" by (rule mod_add_left_eq)
    then show ?thesis by (simp add: algebra_simps)
  qed
  moreover have "(delta + 2 ^ 61) mod 2 ^ 62 = delta + 2 ^ 61"
    using assms(3,4) by (intro mod_pos_pos_trivial) (simp_all add: MICROPY_PY_UTIME_TICKS_PERIOD_def)
  moreover have "intn delta = delta" using assms(3,4) by (intro intn_id) (simp_all add: MICROPY_PY_UTIME_TICKS_PERIOD_def)
  ultimately show ?thesis by (simp add: a MICROPY_PY_UTIME_TICKS_PERIOD_def)
qed

theorem ticks_round_trip_witness:
  "time_ticks_add (2 ^ 62 - 1) 5 = 4 \<and> time_ticks_diff (time_ticks_add (2 ^ 62 - 1) 5) (2 ^ 62 - 1) = 5"
proof -
  have "time_ticks_add (2 ^ 62 - 1) 5 = 4"
    unfolding time_ticks_add_def MICROPY_PY_UTIME_TICKS_PERIOD_def mask_eq by simp
  then show ?thesis using ticks_round_trip [of "2 ^ 62 - 1" 5] by (simp add: MICROPY_PY_UTIME_TICKS_PERIOD_def)
qed

text \<open>The ticks are taken from the seconds of the clock: they start again every minute, not with the period.\<close>

lemma ticks_restart_every_minute:
  assumes "valid_time t" and "0 \<le> Nanosecond t" "Nanosecond t < 10 ^ 9"
  shows "\<exists>k. time_ticks_ms (Some t) = Some k \<and> 0 \<le> k \<and> k < 60000"
  using assms by (auto simp: time_ticks_ms_def valid_time_def)

lemma ticks_diff_across_minute:
  assumes "0 \<le> s" "s < 60000" "0 \<le> e" "e < 60000"
  shows "time_ticks_diff e s = e - s"
proof -
  have "time_ticks_diff e s = intn ((e - s + 2 ^ 61) mod 2 ^ 62 - 2 ^ 61)"
    unfolding time_ticks_diff_def MICROPY_PY_UTIME_TICKS_PERIOD_def using mask_eq [of "e - s + 2 ^ 61"] by simp
  moreover have "(e - s + 2 ^ 61) mod 2 ^ 62 = e - s + 2 ^ 61" using assms by (intro mod_pos_pos_trivial) simp_all
  moreover have "intn (e - s) = e - s" using assms by (intro intn_id) simp_all
  ultimately show ?thesis by simp
qed

section \<open>The clock\<close>

text \<open>\<open>clock()\<close> returns the whole seconds since its first call.\<close>

lemma clock_elapsed:
  assumes s: "seconds_of t0 = Inr s0" "seconds_of t1 = Inr s1" "0 \<le> s0" "s1 < 2 ^ 63" "s0 \<noteq> 0 \<or> Nanosecond t0 \<noteq> 0"
    and ns: "0 \<le> Nanosecond t0" "Nanosecond t0 < 10 ^ 9" "0 \<le> Nanosecond t1" "Nanosecond t1 < 10 ^ 9"
    and later: "s0 * 10 ^ 9 + Nanosecond t0 \<le> s1 * 10 ^ 9 + Nanosecond t1"
    and first: "mod_time_clock (Some t0) \<lparr>mClockSeconds = 0, mClockNanoSeconds = 0\<rparr> = Inr (r0, c)"
  shows "r0 = Some 0 \<and> mod_time_clock (Some t1) c = Inr (Some ((s1 * 10 ^ 9 + Nanosecond t1 - (s0 * 10 ^ 9 + Nanosecond t0)) div 10 ^ 9), c)"
proof -
  have c: "r0 = Some 0" "c = \<lparr>mClockSeconds = s0, mClockNanoSeconds = Nanosecond t0\<rparr>"
    using first s(1) by (simp_all add: mod_time_clock_def Let_def uintn_def)
  let ?b = "if Nanosecond t1 < Nanosecond t0 then 1 else 0 :: int"
  have q: "(s1 * 10 ^ 9 + Nanosecond t1 - (s0 * 10 ^ 9 + Nanosecond t0)) div 10 ^ 9 = s1 - s0 - ?b"
    using ns by (intro int_div_pos_eq [where r = "Nanosecond t1 - Nanosecond t0 + ?b * 10 ^ 9"]) auto
  have pos: "0 \<le> s1 - s0 - ?b" using ns later by (auto split: if_splits)
  then have "uintn (s1 - s0) = s1 - s0" "uintn (s1 - s0 - ?b) = s1 - s0 - ?b"
    using s(3,4) by (intro uintn_id; simp split: if_splits)+
  then show ?thesis unfolding q using c s(2,5) by (auto simp: mod_time_clock_def Let_def split: if_splits)
qed

end
