(* ===== verification/Os_Module.thy ===== *)
theory Os_Module
  imports Fd_File Time_Module
begin

text \<open>
  \<open>MicroPythonDxe/Uefi/modos.c\<close>, the \<open>os\<close> module of Python, on top of the paths and volumes of \<open>usf.c\<close>
  (\<open>UsfOpen\<close>, \<open>UsfChangeCurrentDirectory\<close>, \<open>UsfGetCurrentDirectory\<close>, \<open>UsfGetDevicePathFromFilePath\<close>) and the
  calendar of the time module.

  The file system driver and \<open>FileHandleLib\<close> are the record \<open>os_lib\<close> over an unspecified state \<open>'fs\<close>; \<open>loc\<close> is the
  status of \<open>LocateProtocol\<close>. The world records the handles that are opened, closed and deleted (deleting
  closes a handle, whatever its status). \<open>remove_dir\<close> recurses into directories and loops over their entries;
  both count down fuel, and \<open>None\<close> is running out of it.
\<close>

section \<open>State\<close>

record EFI_FILE_INFO =
  InfoSize :: nat
  FileSize :: w64
  CreateTime :: EFI_TIME
  LastAccessTime :: EFI_TIME
  ModificationTime :: EFI_TIME
  Attribute :: w64
  FileName :: "w16 list"

record 'fs os_lib =
  os_GetInfo :: "EFI_FILE_HANDLE \<Rightarrow> 'fs \<Rightarrow> EFI_FILE_INFO option \<times> 'fs"
  os_SetInfo :: "EFI_FILE_HANDLE \<Rightarrow> EFI_FILE_INFO \<Rightarrow> 'fs \<Rightarrow> efi_status \<times> 'fs"
  os_Close :: "EFI_FILE_HANDLE \<Rightarrow> 'fs \<Rightarrow> 'fs"
  os_Delete :: "EFI_FILE_HANDLE \<Rightarrow> 'fs \<Rightarrow> efi_status \<times> 'fs"
  os_OpenIn :: "EFI_FILE_HANDLE \<Rightarrow> w16 list \<Rightarrow> 'fs \<Rightarrow> efi_status \<times> EFI_FILE_HANDLE \<times> 'fs"
  os_FindFirst :: "EFI_FILE_HANDLE \<Rightarrow> 'fs \<Rightarrow> efi_status \<times> EFI_FILE_INFO option \<times> 'fs"
  os_FindNext :: "EFI_FILE_HANDLE \<Rightarrow> EFI_FILE_INFO \<Rightarrow> 'fs \<Rightarrow> efi_status \<times> EFI_FILE_INFO \<times> bool \<times> 'fs"

datatype file_event = Opened EFI_FILE_HANDLE | Closed EFI_FILE_HANDLE | Deleted EFI_FILE_HANDLE

record ('t, 'fs, 'r) os_world =
  o_usf :: "'t USF_PRIVATE_DATA"
  o_fs :: 'fs
  o_vols :: "'r vol_event list"
  o_log :: "file_event list"

definition log_event :: "file_event \<Rightarrow> ('t, 'fs, 'r) os_world \<Rightarrow> ('t, 'fs, 'r) os_world" where
  "log_event e w = w\<lparr>o_log := o_log w @ [e]\<rparr>"

definition CLOSE_FILE :: "'fs os_lib \<Rightarrow> EFI_FILE_HANDLE option \<Rightarrow> ('t, 'fs, 'r) os_world \<Rightarrow> ('t, 'fs, 'r) os_world" where
  "CLOSE_FILE lib h w =
     (case h of None \<Rightarrow> w | Some f \<Rightarrow> log_event (Closed f) (w\<lparr>o_fs := os_Close lib f (o_fs w)\<rparr>))"

definition delete_file :: "'fs os_lib \<Rightarrow> EFI_FILE_HANDLE \<Rightarrow> ('t, 'fs, 'r) os_world \<Rightarrow> efi_status \<times> ('t, 'fs, 'r) os_world" where
  "delete_file lib h w = (case os_Delete lib h (o_fs w) of (st, fs) \<Rightarrow> (st, log_event (Deleted h) (w\<lparr>o_fs := fs\<rparr>)))"

definition get_info :: "'fs os_lib \<Rightarrow> EFI_FILE_HANDLE \<Rightarrow> ('t, 'fs, 'r) os_world \<Rightarrow> EFI_FILE_INFO option \<times> ('t, 'fs, 'r) os_world" where
  "get_info lib h w = (case os_GetInfo lib h (o_fs w) of (info, fs) \<Rightarrow> (info, w\<lparr>o_fs := fs\<rparr>))"

definition is_dir :: "EFI_FILE_INFO \<Rightarrow> bool" where
  "is_dir info \<longleftrightarrow> Attribute info AND EFI_FILE_DIRECTORY \<noteq> 0"

text \<open>A Python string as a path, and opening it through the script file protocol.\<close>

definition to_path :: "byte list \<Rightarrow> w16 list result" where
  "to_path s = rbind (Utf8ToUnicode True (s @ [0]) None (length s) False) (\<lambda>(u, _). Inr (takeWhile (\<lambda>c. c \<noteq> 0) u))"

definition sfp_Open ::
  "('h, 'dp, 'r) usf_firmware \<Rightarrow> w16 list \<Rightarrow> w64 \<Rightarrow> w64 \<Rightarrow> ('t, 'fs, 'r) os_world
    \<Rightarrow> (efi_status \<times> EFI_FILE_HANDLE option \<times> ('t, 'fs, 'r) os_world) result" where
  "sfp_Open fw path mode attrs w =
     rbind (UsfOpen fw (CurrentDirectory (o_usf w)) (Some path) (unat mode) (unat attrs)) (\<lambda>(st, h, ev).
       let w1 = w\<lparr>o_vols := o_vols w @ ev\<rparr> in
       Inr (st, h, case h of None \<Rightarrow> w1 | Some f \<Rightarrow> log_event (Opened f) w1))"

definition FILE_READ :: w64 where "FILE_READ = EFI_FILE_MODE_READ"
definition FILE_RW :: w64 where "FILE_RW = EFI_FILE_MODE_READ OR EFI_FILE_MODE_WRITE"

text \<open>\<open>RAISE_UEFI_EXCEPTION_ON_ERROR\<close> raises for every status but success.\<close>

definition raise_status :: "efi_status \<Rightarrow> 'a \<Rightarrow> 'a py" where
  "raise_status st v = (if st = EFI_SUCCESS then Inr v else Inl (OSErrorStatus st))"

definition EEXIST :: efi_status where "EEXIST = EFI_WARNING 17"

type_synonym ('a, 't, 'fs, 'r) os_call = "('a py \<times> ('t, 'fs, 'r) os_world) result"

section \<open>Files and directories\<close>

definition mod_os_mkdir ::
  "('h, 'dp, 'r) usf_firmware \<Rightarrow> 'fs os_lib \<Rightarrow> efi_status \<Rightarrow> byte list \<Rightarrow> ('t, 'fs, 'r) os_world \<Rightarrow> (unit, 't, 'fs, 'r) os_call" where
  "mod_os_mkdir fw lib loc path w =
     (if EFI_ERROR loc then Inr (raise_status loc (), w)
      else
        rbind (to_path path) (\<lambda>p.
        rbind (sfp_Open fw p FILE_READ 0 w) (\<lambda>(st, h, w1).
        if st = EFI_SUCCESS then Inr (raise_status EEXIST (), CLOSE_FILE lib h w1)
        else
          rbind (sfp_Open fw p (FILE_RW OR EFI_FILE_MODE_CREATE) EFI_FILE_DIRECTORY w1) (\<lambda>(st2, h2, w2).
            Inr (raise_status st2 (), CLOSE_FILE lib (case h2 of None \<Rightarrow> h | Some f \<Rightarrow> Some f) w2)))))"

record mp_obj_stat_result_t =
  st_mode :: w64
  st_size :: w64
  st_atime :: int
  st_mtime :: int
  st_ctime :: int

definition stat_of :: "EFI_FILE_INFO \<Rightarrow> mp_obj_stat_result_t result" where
  "stat_of info =
     rbind (seconds_of (LastAccessTime info)) (\<lambda>a.
     rbind (seconds_of (ModificationTime info)) (\<lambda>m.
     rbind (seconds_of (CreateTime info)) (\<lambda>c.
       Inr \<lparr>st_mode = Attribute info, st_size = FileSize info, st_atime = a, st_mtime = m, st_ctime = c\<rparr>)))"

text \<open>
  \<open>Inr None\<close> is the Python object \<open>None\<close>: \<open>stat\<close> raises no exception of its own. \<open>grant\<close> is whether the interpreter's heap has
  room for the result; \<open>m_new_obj\<close> raises \<open>MemoryError\<close> otherwise, which leaves the function at once, before \<open>CLOSE_FILE\<close>.
\<close>

definition mod_os_stat ::
  "('h, 'dp, 'r) usf_firmware \<Rightarrow> 'fs os_lib \<Rightarrow> efi_status \<Rightarrow> bool \<Rightarrow> byte list \<Rightarrow> ('t, 'fs, 'r) os_world
    \<Rightarrow> (mp_obj_stat_result_t option, 't, 'fs, 'r) os_call" where
  "mod_os_stat fw lib loc grant path w =
     (if EFI_ERROR loc then Inr (Inr None, w)
      else
        rbind (to_path path) (\<lambda>p.
        rbind (sfp_Open fw p FILE_READ 0 w) (\<lambda>(st, h, w1).
        if st \<noteq> EFI_SUCCESS then Inr (Inr None, CLOSE_FILE lib h w1)
        else (case h of
                None \<Rightarrow> Inl NullDeref
              | Some f \<Rightarrow>
                  (case get_info lib f w1 of (info, w2) \<Rightarrow>
                     (case info of
                        None \<Rightarrow> Inr (Inr None, CLOSE_FILE lib h w2)
                      | Some i \<Rightarrow>
                          if \<not> grant then Inr (Inl MemoryError, w2)
                          else rbind (stat_of i) (\<lambda>s. Inr (Inr (Some s), CLOSE_FILE lib h w2))))))))"

datatype stat_attr = QSTR_st_mode | QSTR_st_ino | QSTR_st_dev | QSTR_st_nlink | QSTR_st_uid | QSTR_st_gid
  | QSTR_st_size | QSTR_st_atime | QSTR_st_mtime | QSTR_st_ctime | OtherAttr

text \<open>Loading an attribute; \<open>None\<close> is \<open>AttributeError\<close>.\<close>

definition stat_result_attr :: "mp_obj_stat_result_t \<Rightarrow> stat_attr \<Rightarrow> int option" where
  "stat_result_attr s a =
     (case a of QSTR_st_mode \<Rightarrow> Some (uint (st_mode s)) | QSTR_st_size \<Rightarrow> Some (uint (st_size s))
      | QSTR_st_atime \<Rightarrow> Some (st_atime s) | QSTR_st_mtime \<Rightarrow> Some (st_mtime s) | QSTR_st_ctime \<Rightarrow> Some (st_ctime s)
      | OtherAttr \<Rightarrow> None | _ \<Rightarrow> Some 0)"

definition mod_os_remove ::
  "('h, 'dp, 'r) usf_firmware \<Rightarrow> 'fs os_lib \<Rightarrow> efi_status \<Rightarrow> byte list \<Rightarrow> ('t, 'fs, 'r) os_world \<Rightarrow> (unit, 't, 'fs, 'r) os_call" where
  "mod_os_remove fw lib loc path w =
     rbind (to_path path) (\<lambda>p.
     if EFI_ERROR loc then Inr (raise_status loc (), w)
     else
       rbind (sfp_Open fw p FILE_RW 0 w) (\<lambda>(st, h, w1).
       if st \<noteq> EFI_SUCCESS then Inr (raise_status st (), CLOSE_FILE lib h w1)
       else (case h of
               None \<Rightarrow> Inl NullDeref
             | Some f \<Rightarrow>
                 (case get_info lib f w1 of (info, w2) \<Rightarrow>
                    if (case info of None \<Rightarrow> False | Some i \<Rightarrow> \<not> is_dir i)
                    then (case delete_file lib f w2 of (st2, w3) \<Rightarrow> Inr (raise_status st2 (), w3))
                    else Inr (raise_status EFI_ACCESS_DENIED (), CLOSE_FILE lib h w2)))))"

text \<open>
  \<open>rename\<close> copies the information of the source, its size included, and replaces the name.
  \<open>FileHandleSetInfo\<close> passes \<open>InfoSize\<close> bytes of it to the driver, from a buffer of
  \<open>sizeof(EFI_FILE_INFO)\<close> bytes (88) and two for each character of the new name.
\<close>

definition rename_buffer :: "w16 list \<Rightarrow> nat" where
  "rename_buffer dst = 88 + 2 * length dst"

definition rename_info :: "EFI_FILE_INFO \<Rightarrow> w16 list \<Rightarrow> EFI_FILE_INFO" where
  "rename_info src dst = src\<lparr>FileName := dst\<rparr>"

definition mod_os_rename ::
  "('h, 'dp, 'r) usf_firmware \<Rightarrow> 'fs os_lib \<Rightarrow> efi_status \<Rightarrow> byte list \<Rightarrow> byte list \<Rightarrow> ('t, 'fs, 'r) os_world
    \<Rightarrow> (unit, 't, 'fs, 'r) os_call" where
  "mod_os_rename fw lib loc src dst w =
     rbind (to_path src) (\<lambda>s. rbind (to_path dst) (\<lambda>d.
     if EFI_ERROR loc then Inr (raise_status loc (), w)
     else
       rbind (sfp_Open fw s FILE_RW 0 w) (\<lambda>(st, h, w1).
       if st \<noteq> EFI_SUCCESS then Inr (raise_status st (), CLOSE_FILE lib h w1)
       else (case h of
               None \<Rightarrow> Inl NullDeref
             | Some f \<Rightarrow>
                 (case get_info lib f w1 of (info, w2) \<Rightarrow>
                    (case info of
                       None \<Rightarrow> Inr (raise_status st (), CLOSE_FILE lib h w2)
                     | Some i \<Rightarrow>
                         if InfoSize i > rename_buffer d then Inl OutOfBounds
                         else (case os_SetInfo lib f (rename_info i d) (o_fs w2) of (st2, fs) \<Rightarrow>
                                 Inr (raise_status st2 (), CLOSE_FILE lib h (w2\<lparr>o_fs := fs\<rparr>)))))))))"

definition mod_os_chdir ::
  "('h, 'dp, 'r) usf_firmware \<Rightarrow> 'fs os_lib \<Rightarrow> efi_status \<Rightarrow> byte list \<Rightarrow> ('t, 'fs, 'r) os_world \<Rightarrow> (unit, 't, 'fs, 'r) os_call" where
  "mod_os_chdir fw lib loc path w =
     rbind (to_path path) (\<lambda>p.
     if EFI_ERROR loc then Inr (raise_status loc (), w)
     else
       rbind (sfp_Open fw p FILE_READ 0 w) (\<lambda>(st, h, w1).
       if st \<noteq> EFI_SUCCESS then Inr (raise_status st (), CLOSE_FILE lib h w1)
       else
         rbind (UsfChangeCurrentDirectory fw (Some p) (o_usf w1)) (\<lambda>(_, _, u, ev).
           Inr (raise_status st (), CLOSE_FILE lib h (w1\<lparr>o_usf := u, o_vols := o_vols w1 @ ev\<rparr>)))))"

definition dot_name :: "w16 list \<Rightarrow> bool" where
  "dot_name s \<longleftrightarrow> s = [46] \<or> s = [46, 46]"

definition find_first ::
  "'fs os_lib \<Rightarrow> EFI_FILE_HANDLE \<Rightarrow> ('t, 'fs, 'r) os_world \<Rightarrow> efi_status \<times> EFI_FILE_INFO option \<times> ('t, 'fs, 'r) os_world" where
  "find_first lib h w = (case os_FindFirst lib h (o_fs w) of (st, info, fs) \<Rightarrow> (st, info, w\<lparr>o_fs := fs\<rparr>))"

definition find_next ::
  "'fs os_lib \<Rightarrow> EFI_FILE_HANDLE \<Rightarrow> EFI_FILE_INFO \<Rightarrow> ('t, 'fs, 'r) os_world
    \<Rightarrow> efi_status \<times> EFI_FILE_INFO \<times> bool \<times> ('t, 'fs, 'r) os_world" where
  "find_next lib h i w = (case os_FindNext lib h i (o_fs w) of (st, info, nofile, fs) \<Rightarrow> (st, info, nofile, w\<lparr>o_fs := fs\<rparr>))"

fun remove_dir ::
    "'fs os_lib \<Rightarrow> nat \<Rightarrow> EFI_FILE_HANDLE \<Rightarrow> ('t, 'fs, 'r) os_world \<Rightarrow> (efi_status \<times> ('t, 'fs, 'r) os_world) option"
and remove_loop ::
    "'fs os_lib \<Rightarrow> nat \<Rightarrow> EFI_FILE_HANDLE \<Rightarrow> efi_status \<Rightarrow> EFI_FILE_INFO option \<Rightarrow> bool \<Rightarrow> ('t, 'fs, 'r) os_world
      \<Rightarrow> (efi_status \<times> ('t, 'fs, 'r) os_world) option" where
  "remove_dir lib 0 dir w = None"
| "remove_dir lib (Suc k) dir w =
     (case get_info lib dir w of
        (None, w1) \<Rightarrow> Some (EFI_OUT_OF_RESOURCES, w1)
      | (Some i, w1) \<Rightarrow>
          if \<not> is_dir i then Some (EFI_ACCESS_DENIED, w1)
          else (case find_first lib dir w1 of (st, info, w2) \<Rightarrow> remove_loop lib k dir st info False w2))"
| "remove_loop lib 0 dir st info nofile w = None"
| "remove_loop lib (Suc k) dir st info nofile w =
     (case info of
        None \<Rightarrow> Some (delete_file lib dir w)
      | Some i \<Rightarrow>
          if st \<noteq> EFI_SUCCESS \<or> nofile then Some (delete_file lib dir w)
          else if dot_name (FileName i)
          then (case find_next lib dir i w of (st1, i1, nofile1, w1) \<Rightarrow> remove_loop lib k dir st1 (Some i1) nofile1 w1)
          else (case os_OpenIn lib dir (FileName i) (o_fs w) of (st1, f, fs) \<Rightarrow>
            if st1 \<noteq> EFI_SUCCESS then Some (st1, w\<lparr>o_fs := fs\<rparr>)
            else
              let w1 = log_event (Opened f) (w\<lparr>o_fs := fs\<rparr>) in
              (case (if is_dir i then remove_dir lib k f w1 else Some (delete_file lib f w1)) of
                 None \<Rightarrow> None
               | Some (st2, w2) \<Rightarrow>
                   if st2 \<noteq> EFI_SUCCESS then Some (st2, CLOSE_FILE lib (Some f) w2)
                   else (case find_next lib dir i w2 of (st3, i3, nofile3, w3) \<Rightarrow>
                     remove_loop lib k dir st3 (Some i3) nofile3 w3))))"

text \<open>\<open>rmdir\<close>; the outer \<open>None\<close> is running out of fuel.\<close>

definition mod_os_rmdir ::
  "('h, 'dp, 'r) usf_firmware \<Rightarrow> 'fs os_lib \<Rightarrow> efi_status \<Rightarrow> nat \<Rightarrow> byte list \<Rightarrow> ('t, 'fs, 'r) os_world
    \<Rightarrow> (unit, 't, 'fs, 'r) os_call option" where
  "mod_os_rmdir fw lib loc fuel path w =
     (case to_path path of
        Inl e \<Rightarrow> Some (Inl e)
      | Inr p \<Rightarrow>
          if EFI_ERROR loc then Some (Inr (raise_status loc (), w))
          else (case sfp_Open fw p FILE_RW 0 w of
                  Inl e \<Rightarrow> Some (Inl e)
                | Inr (st, h, w1) \<Rightarrow>
                    if st \<noteq> EFI_SUCCESS then Some (Inr (raise_status st (), CLOSE_FILE lib h w1))
                    else (case h of
                            None \<Rightarrow> Some (Inl NullDeref)
                          | Some f \<Rightarrow>
                              (case remove_dir lib fuel f w1 of
                                 None \<Rightarrow> None
                               | Some (st2, w2) \<Rightarrow>
                                   Some (Inr (raise_status st2 (), if st2 = EFI_SUCCESS then w2 else CLOSE_FILE lib h w2))))))"

definition mod_os_getcwd ::
  "('h, 'dp, 'r) usf_firmware \<Rightarrow> efi_status \<Rightarrow> ('t, 'fs, 'r) os_world \<Rightarrow> (byte list option \<times> ('t, 'fs, 'r) os_world) result" where
  "mod_os_getcwd fw loc w =
     (if EFI_ERROR loc then Inr (None, w)
      else
        rbind (UsfGetCurrentDirectory fw (o_usf w)) (\<lambda>(cwd, u, ev).
          let w1 = w\<lparr>o_usf := u, o_vols := o_vols w @ ev\<rparr> in
          (case cwd of
             None \<Rightarrow> Inr (None, w1)
           | Some c \<Rightarrow> rbind (UnicodeToUtf8 True c None (length c)) (\<lambda>(s, len). Inr (Some (take len s), w1)))))"

section \<open>Listing\<close>

record mp_obj_listdir_t =
  it_fh :: EFI_FILE_HANDLE
  openlist :: "EFI_FILE_INFO option"

definition FILE_TYPE_DIR :: int where "FILE_TYPE_DIR = 0x4000"
definition FILE_TYPE_FILE :: int where "FILE_TYPE_FILE = 0x8000"

text \<open>The tuple \<open>(name, type, inode, size)\<close> of an entry.\<close>

definition entry_tuple :: "EFI_FILE_INFO \<Rightarrow> (byte list \<times> int \<times> int \<times> int) result" where
  "entry_tuple i =
     rbind (UnicodeToUtf8 True (FileName i) None (length (FileName i))) (\<lambda>(s, len).
       Inr (take len s, if is_dir i then FILE_TYPE_DIR else FILE_TYPE_FILE, 0, uint (FileSize i)))"

text \<open>\<open>None\<close>: the iteration stops, and the directory has been closed.\<close>

definition listdir_next ::
  "'fs os_lib \<Rightarrow> mp_obj_listdir_t \<Rightarrow> ('t, 'fs, 'r) os_world
    \<Rightarrow> ((byte list \<times> int \<times> int \<times> int) option \<times> mp_obj_listdir_t \<times> ('t, 'fs, 'r) os_world) result" where
  "listdir_next lib it w =
     (case (case openlist it of
              None \<Rightarrow> (case find_first lib (it_fh it) w of (st, i, w1) \<Rightarrow> (st, i, False, w1))
            | Some i \<Rightarrow> (case find_next lib (it_fh it) i w of (st, i1, nofile, w1) \<Rightarrow> (st, Some i1, nofile, w1))) of
        (st, i, nofile, w1) \<Rightarrow>
          let it1 = it\<lparr>openlist := i\<rparr> in
          (case i of
             None \<Rightarrow> Inr (None, it1, CLOSE_FILE lib (Some (it_fh it)) w1)
           | Some e \<Rightarrow>
               if EFI_ERROR st \<or> nofile then Inr (None, it1, CLOSE_FILE lib (Some (it_fh it)) w1)
               else rbind (entry_tuple e) (\<lambda>t. Inr (Some t, it1, w1))))"

datatype listing = ListNone | EmptyTuple | Iterator mp_obj_listdir_t

definition mod_os_ilistdir ::
  "('h, 'dp, 'r) usf_firmware \<Rightarrow> 'fs os_lib \<Rightarrow> efi_status \<Rightarrow> byte list option \<Rightarrow> ('t, 'fs, 'r) os_world
    \<Rightarrow> (listing \<times> ('t, 'fs, 'r) os_world) result" where
  "mod_os_ilistdir fw lib loc arg w =
     (if EFI_ERROR loc then Inr (ListNone, w)
      else
        rbind (case arg of
                 Some s \<Rightarrow> rbind (to_path s) (\<lambda>p. Inr (Some p, w))
               | None \<Rightarrow> rbind (UsfGetCurrentDirectory fw (o_usf w)) (\<lambda>(cwd, u, ev).
                           Inr (cwd, w\<lparr>o_usf := u, o_vols := o_vols w @ ev\<rparr>))) (\<lambda>(path, w1).
        (case path of
           None \<Rightarrow> Inr (ListNone, w1)
         | Some p \<Rightarrow>
             rbind (sfp_Open fw p FILE_READ 0 w1) (\<lambda>(st, h, w2).
               if EFI_ERROR st then Inr (EmptyTuple, CLOSE_FILE lib h w2)
               else (case h of
                       None \<Rightarrow> Inl NullDeref
                     | Some f \<Rightarrow> Inr (Iterator \<lparr>it_fh = f, openlist = None\<rparr>, w2))))))"

text \<open>The loop of \<open>listdir\<close>, with fuel for the number of entries.\<close>

fun list_loop ::
  "'fs os_lib \<Rightarrow> nat \<Rightarrow> mp_obj_listdir_t \<Rightarrow> ('t, 'fs, 'r) os_world
    \<Rightarrow> ((byte list \<times> int \<times> int \<times> int) list \<times> ('t, 'fs, 'r) os_world) result option" where
  "list_loop lib 0 it w = None"
| "list_loop lib (Suc k) it w =
     (case listdir_next lib it w of
        Inl e \<Rightarrow> Some (Inl e)
      | Inr (None, it1, w1) \<Rightarrow> Some (Inr ([], w1))
      | Inr (Some t, it1, w1) \<Rightarrow>
          map_option (\<lambda>r. rbind r (\<lambda>(ts, w2). Inr (t # ts, w2))) (list_loop lib k it1 w1))"

text \<open>
  \<open>listdir\<close> tests the object it gets from \<open>ilistdir\<close> for \<open>None\<close> only; the empty tuple is used as an iterator,
  whose handle is behind the end of the tuple.
\<close>

definition mod_os_listdir ::
  "('h, 'dp, 'r) usf_firmware \<Rightarrow> 'fs os_lib \<Rightarrow> efi_status \<Rightarrow> nat \<Rightarrow> byte list option \<Rightarrow> ('t, 'fs, 'r) os_world
    \<Rightarrow> ((byte list \<times> int \<times> int \<times> int) list \<times> ('t, 'fs, 'r) os_world) result option" where
  "mod_os_listdir fw lib loc fuel arg w =
     (case mod_os_ilistdir fw lib loc arg w of
        Inl e \<Rightarrow> Some (Inl e)
      | Inr (ListNone, w1) \<Rightarrow> Some (Inr ([], w1))
      | Inr (EmptyTuple, w1) \<Rightarrow> Some (Inl OutOfBounds)
      | Inr (Iterator it, w1) \<Rightarrow> list_loop lib fuel it w1)"

section \<open>Running an image\<close>

text \<open>The image services of the firmware, and the calls that are made, in order.\<close>

record ('h, 'i) image_services =
  LoadImage :: "'h \<times> w16 list \<Rightarrow> efi_status \<times> 'i"
  LoadedImageProtocol :: "'i \<Rightarrow> efi_status"
  StartImage :: "'i \<Rightarrow> efi_status"

datatype ('h, 'i) image_event = Load "'h \<times> w16 list" | LoadOptions 'i nat "w16 list option" | Start 'i

definition EFI_EXT :: "w16 list" where "EFI_EXT = [46, 101, 102, 105]"

text \<open>The command is cut behind \<open>.efi\<close>; one character there is dropped, the rest are the options.\<close>

definition split_command :: "w16 list \<Rightarrow> (w16 list \<times> w16 list) option" where
  "split_command cmd =
     (case StrStr cmd EFI_EXT of
        None \<Rightarrow> None
      | Some rest \<Rightarrow> Some (take (length cmd - length rest + length EFI_EXT) cmd, tl (drop (length EFI_EXT) rest)))"

definition mod_os_system ::
  "('h, 'dp, 'r) usf_firmware \<Rightarrow> ('h, 'i) image_services \<Rightarrow> efi_status \<Rightarrow> byte list \<Rightarrow> ('t, 'fs, 'r) os_world
    \<Rightarrow> (unit py \<times> ('h, 'i) image_event list \<times> ('t, 'fs, 'r) os_world) result" where
  "mod_os_system fw img loc cmd w =
     (if EFI_ERROR loc then Inr (raise_status loc (), [], w)
      else
        rbind (to_path cmd) (\<lambda>c.
        (case split_command c of
           None \<Rightarrow> Inr (raise_status EFI_UNSUPPORTED (), [], w)
         | Some (file, options) \<Rightarrow>
             rbind (UsfGetDevicePathFromFilePath fw (CurrentDirectory (o_usf w)) (Some file)) (\<lambda>(dp, ev).
             let w1 = w\<lparr>o_vols := o_vols w @ ev\<rparr> in
             (case dp of
                None \<Rightarrow> Inr (raise_status EFI_NOT_FOUND (), [], w1)
              | Some d \<Rightarrow>
                  (case LoadImage img d of (st, i) \<Rightarrow>
                     if EFI_ERROR st then Inr (raise_status st (), [Load d], w1)
                     else if options \<noteq> [] \<and> EFI_ERROR (LoadedImageProtocol img i)
                     then Inr (raise_status (LoadedImageProtocol img i) (), [Load d], w1)
                     else
                       let n = length options + 1;
                           opt = (if options \<noteq> [] then [LoadOptions i n (StrDup True (Some options) n)] else []) in
                       Inr (raise_status (StartImage img i) (), [Load d] @ opt @ [Start i], w1)))))))"

section \<open>System information and random numbers\<close>

text \<open>\<open>mem\<close> are the bytes from the end of the formatted part of an SMBIOS structure on.\<close>

fun smbios_walk :: "nat \<Rightarrow> byte list \<Rightarrow> byte list option result" where
  "smbios_walk 0 mem = Inr (Some mem)"
| "smbios_walk (Suc n) mem =
     (if 0 \<notin> set mem then Inl OutOfBounds
      else let len = length (takeWhile (\<lambda>c. c \<noteq> 0) mem) in
           if len = 0 then Inr None else smbios_walk n (drop (len + 1) mem))"

definition get_smbios_string :: "byte list \<Rightarrow> nat \<Rightarrow> byte list result" where
  "get_smbios_string mem str_index =
     (if str_index < 1 then Inr []
      else rbind (smbios_walk (str_index - 1) mem) (\<lambda>buf.
        (case buf of
           None \<Rightarrow> Inr []
         | Some b \<Rightarrow> if 0 \<in> set b then Inr (takeWhile (\<lambda>c. c \<noteq> 0) b) else Inl OutOfBounds)))"

text \<open>
  The random number instructions, which fill 2, 4 or 8 bytes, and the protocol of the firmware. The
  buffer has as many bytes as are asked for.
\<close>

record random_source =
  RngProtocol :: "efi_status"
  GetRNG :: "nat \<Rightarrow> efi_status \<times> byte list"
  RdRand :: "nat \<Rightarrow> byte list option"

definition rdrand_width :: "nat \<Rightarrow> nat option" where
  "rdrand_width n = (if n \<le> 2 then Some 2 else if n \<le> 4 then Some 4 else if n \<le> 8 then Some 8 else None)"

definition mod_os_urandom :: "random_source \<Rightarrow> bool \<Rightarrow> nat \<Rightarrow> byte list py result" where
  "mod_os_urandom src grant n =
     (if \<not> grant then Inl AssertFailed
      else if EFI_ERROR (RngProtocol src)
      then (case rdrand_width n of
              None \<Rightarrow> Inr (raise_status (RngProtocol src) [])
            | Some k \<Rightarrow>
                (case RdRand src k of
                   None \<Rightarrow> Inr (raise_status (RngProtocol src) [])
                 | Some bs \<Rightarrow> if k > n then Inl OutOfBounds else Inr (Inr bs)))
      else (case GetRNG src n of (st, bs) \<Rightarrow> if EFI_ERROR st then Inr (raise_status st []) else Inr (Inr bs)))"

end
