(* ===== verification/Os_Module_Thms.thy ===== *)
theory Os_Module_Thms
  imports Os_Module Misc_Strings_Thms Usf_Paths_Thms
begin

text \<open>
  Theorems about the os module: which handles its calls release, that \<open>rmdir\<close> returns and empties the directory
  from the inside, what \<open>listdir\<close> returns, and the calls that leave their buffers.
\<close>

section \<open>Handles\<close>

definition openings :: "EFI_FILE_HANDLE \<Rightarrow> file_event list \<Rightarrow> nat" where
  "openings h es = length (filter (\<lambda>e. e = Opened h) es)"

definition releases :: "EFI_FILE_HANDLE \<Rightarrow> file_event list \<Rightarrow> nat" where
  "releases h es = length (filter (\<lambda>e. e = Closed h \<or> e = Deleted h) es)"

text \<open>Every handle is released as often as it is opened.\<close>

definition balanced :: "file_event list \<Rightarrow> bool" where
  "balanced es \<longleftrightarrow> (\<forall>h. openings h es = releases h es)"

lemma balanced_simps [simp]: "balanced []" "balanced [Opened f, Closed f]" "balanced [Opened f, Deleted f]"
  by (auto simp: balanced_def openings_def releases_def)

lemma balanced_append: "balanced xs \<Longrightarrow> balanced ys \<Longrightarrow> balanced (xs @ ys)"
  by (simp add: balanced_def openings_def releases_def)

text \<open>What a call adds to the log.\<close>

definition adds :: "('t, 'fs, 'r) os_world \<Rightarrow> ('t, 'fs, 'r) os_world \<Rightarrow> file_event list \<Rightarrow> bool" where
  "adds w w' es \<longleftrightarrow> o_log w' = o_log w @ es"

lemma adds_refl: "adds w w []"
  by (simp add: adds_def)

lemma adds_trans: "adds w w1 es \<Longrightarrow> adds w1 w2 fs \<Longrightarrow> adds w w2 (es @ fs)"
  by (simp add: adds_def)

lemma adds_close: "adds w (CLOSE_FILE lib h w) (case h of None \<Rightarrow> [] | Some f \<Rightarrow> [Closed f])"
  by (cases h) (simp_all add: adds_def CLOSE_FILE_def log_event_def)

lemma adds_delete: "delete_file lib f w = (st, w') \<Longrightarrow> adds w w' [Deleted f]"
  by (auto simp: adds_def delete_file_def log_event_def split: prod.splits)

lemma adds_info: "get_info lib f w = (i, w') \<Longrightarrow> adds w w' []"
  by (auto simp: adds_def get_info_def split: prod.splits)

lemma adds_open: "sfp_Open fw p m a w = Inr (st, h, w') \<Longrightarrow> adds w w' (case h of None \<Rightarrow> [] | Some f \<Rightarrow> [Opened f])"
  by (cases h) (auto simp: adds_def sfp_Open_def log_event_def rbind_eq_Inr Let_def)

lemma adds_find:
  "find_first lib f w = (st, i, w') \<Longrightarrow> adds w w' []" "find_next lib f j w = (st, k, b, w') \<Longrightarrow> adds w w' []"
  by (auto simp: adds_def find_first_def find_next_def split: prod.splits)

text \<open>Removing a directory: the entries are opened and removed one after the other, then the directory is deleted.\<close>

inductive removed :: "EFI_FILE_HANDLE \<Rightarrow> file_event list \<Rightarrow> bool"
  and emptied :: "file_event list \<Rightarrow> bool" where
  removed: "emptied es \<Longrightarrow> removed d (es @ [Deleted d])"
| emptied_Nil: "emptied []"
| emptied_Cons: "removed f b \<Longrightarrow> emptied es \<Longrightarrow> emptied (Opened f # b @ es)"

lemma removed_file: "removed f [Deleted f]"
  using removed [OF emptied_Nil] by simp

lemma emptied_append: "emptied es \<Longrightarrow> emptied fs \<Longrightarrow> emptied (es @ fs)"
proof -
  have "(removed d b \<longrightarrow> True) \<and> (emptied es \<longrightarrow> emptied fs \<longrightarrow> emptied (es @ fs))" for d b es fs
    by (induction rule: removed_emptied.induct) (auto intro: removed_emptied.intros)
  then show "emptied es \<Longrightarrow> emptied fs \<Longrightarrow> emptied (es @ fs)" by blast
qed

lemma removed_balanced: "removed f b \<Longrightarrow> balanced (Opened f # b)" "emptied es \<Longrightarrow> balanced es"
proof (induction rule: removed_emptied.inducts)
  case (removed es d)
  then show ?case by (simp add: balanced_def openings_def releases_def)
next
  case (emptied_Cons f b es)
  then show ?case using balanced_append [of "Opened f # b" es] by simp
qed simp

text \<open>One round of the loop, by what it meets.\<close>

lemma remove_loop_cases:
  assumes "remove_loop lib (Suc k) d st info nofile w = Some (st', w')"
  obtains (finished) "delete_file lib d w = (st', w')"
  | (dot) i st1 i1 nofile1 w1 where "info = Some i" "st = EFI_SUCCESS" "\<not> nofile" "find_next lib d i w = (st1, i1, nofile1, w1)"
      "remove_loop lib k d st1 (Some i1) nofile1 w1 = Some (st', w')"
  | (unopened) i f fs where "info = Some i" "os_OpenIn lib d (FileName i) (o_fs w) = (st', f, fs)" "st' \<noteq> EFI_SUCCESS" "w' = w\<lparr>o_fs := fs\<rparr>"
  | (failed) i f fs w2 where "info = Some i" "os_OpenIn lib d (FileName i) (o_fs w) = (EFI_SUCCESS, f, fs)" "st' \<noteq> EFI_SUCCESS"
      "(if is_dir i then remove_dir lib k f (log_event (Opened f) (w\<lparr>o_fs := fs\<rparr>))
        else Some (delete_file lib f (log_event (Opened f) (w\<lparr>o_fs := fs\<rparr>)))) = Some (st', w2)" "w' = CLOSE_FILE lib (Some f) w2"
  | (entry) i f fs w2 st3 i3 nofile3 w3 where "info = Some i" "os_OpenIn lib d (FileName i) (o_fs w) = (EFI_SUCCESS, f, fs)"
      "(if is_dir i then remove_dir lib k f (log_event (Opened f) (w\<lparr>o_fs := fs\<rparr>))
        else Some (delete_file lib f (log_event (Opened f) (w\<lparr>o_fs := fs\<rparr>)))) = Some (EFI_SUCCESS, w2)"
      "find_next lib d i w2 = (st3, i3, nofile3, w3)" "remove_loop lib k d st3 (Some i3) nofile3 w3 = Some (st', w')"
proof (cases "\<exists>i. info = Some i \<and> st = EFI_SUCCESS \<and> \<not> nofile")
  case False
  then show thesis using assms by (intro finished) (auto split: option.splits if_splits)
next
  case True
  then obtain i where i: "info = Some i" "st = EFI_SUCCESS" "\<not> nofile" by blast
  show thesis
  proof (cases "dot_name (FileName i)")
    case True
    then show thesis using assms i by (auto intro: dot split: prod.splits)
  next
    case False
    obtain st1 f fs where op: "os_OpenIn lib d (FileName i) (o_fs w) = (st1, f, fs)" by (metis prod_cases3)
    show thesis
    proof (cases "st1 = EFI_SUCCESS")
      case st1: False
      then show thesis using assms i False op by (intro unopened) auto
    next
      case st1: True
      let ?sub = "if is_dir i then remove_dir lib k f (log_event (Opened f) (w\<lparr>o_fs := fs\<rparr>))
        else Some (delete_file lib f (log_event (Opened f) (w\<lparr>o_fs := fs\<rparr>)))"
      obtain st2 w2 where sub: "?sub = Some (st2, w2)" using assms i False op st1 by (cases ?sub) (auto simp: Let_def)
      have step: "remove_loop lib (Suc k) d st info nofile w = (if st2 \<noteq> EFI_SUCCESS then Some (st2, CLOSE_FILE lib (Some f) w2)
          else (case find_next lib d i w2 of (st3, i3, nofile3, w3) \<Rightarrow> remove_loop lib k d st3 (Some i3) nofile3 w3))"
        unfolding remove_loop.simps i(1,2) option.case op prod.case Let_def st1 sub using False i(3) by simp
      obtain st3 i3 nofile3 w3 where n: "find_next lib d i w2 = (st3, i3, nofile3, w3)" by (metis prod_cases4)
      show thesis using assms i op st1 sub n failed [OF i(1), of f fs w2] entry [OF i(1), of f fs w2 st3 i3 nofile3 w3]
        unfolding step by (cases "st2 = EFI_SUCCESS") auto
    qed
  qed
qed

lemma remove_dir_log:
  "(remove_dir lib k d w = Some (EFI_SUCCESS, w') \<longrightarrow> (\<exists>b. adds w w' b \<and> removed d b))
   \<and> (remove_loop lib k d st info nofile w = Some (EFI_SUCCESS, w') \<longrightarrow> (\<exists>b. adds w w' b \<and> removed d b))"
proof (induction k arbitrary: d w w' st info nofile)
  case (Suc k)
  note dir = Suc.IH [THEN conjunct1, rule_format] and loop = Suc.IH [THEN conjunct2, rule_format]
  have "\<exists>b. adds w w' b \<and> removed d b" if r: "remove_dir lib (Suc k) d w = Some (EFI_SUCCESS, w')"
  proof -
    obtain i w1 where i: "get_info lib d w = (Some i, w1)" "is_dir i" using r by (auto split: prod.splits option.splits if_splits)
    obtain st info w2 where f: "find_first lib d w1 = (st, info, w2)" by (metis prod_cases3)
    obtain b where b: "adds w2 w' b" "removed d b" using loop [of d st info False w2 w'] r i f by auto
    then show ?thesis using adds_info [OF i(1)] adds_find(1) [OF f] by (auto simp: adds_def)
  qed
  moreover have "\<exists>b. adds w w' b \<and> removed d b" if "remove_loop lib (Suc k) d st info nofile w = Some (EFI_SUCCESS, w')"
    using that
  proof (cases rule: remove_loop_cases)
    case finished
    then show ?thesis using adds_delete removed_file by blast
  next
    case (dot i st1 i1 nofile1 w1)
    then show ?thesis using loop [OF dot(5)] adds_find(2) [OF dot(4)] by (auto simp: adds_def)
  next
    case (entry i f fs w2 st3 i3 nofile3 w3)
    let ?w = "log_event (Opened f) (w\<lparr>o_fs := fs\<rparr>)"
    have 1: "adds w ?w [Opened f]" by (simp add: adds_def log_event_def)
    obtain b where b: "adds ?w w2 b" "removed f b"
      using entry(3) dir [of f ?w w2] adds_delete [of lib f ?w EFI_SUCCESS w2] removed_file by (auto split: if_splits)
    obtain c where c: "adds w3 w' c" "removed d c" using loop [OF entry(5)] by blast
    obtain es where es: "c = es @ [Deleted d]" "emptied es" using c(2) by (auto elim: removed.cases)
    have "adds w w' (Opened f # b @ c)" using 1 b(1) adds_find(2) [OF entry(4)] c(1) by (simp add: adds_def)
    moreover have "removed d (Opened f # b @ c)" using removed [OF emptied_Cons [OF b(2) es(2)], of d] es(1) by simp
    ultimately show ?thesis by blast
  qed simp_all
  ultimately show ?case by blast
qed simp

section \<open>Removing a directory returns\<close>

text \<open>
  What the file protocol documents about directories, in terms of a view of the driver's state: its own invariant, the handles that are
  open, how many entries the enumeration of a handle has left, and how deep the tree below a handle is.
  Each handle has its own position. \<open>FileHandleFindFirstFile\<close> sets it to the start, as often as it is called, \<open>FileHandleFindNextFile\<close> moves it
  on by an entry; a directory has at most \<open>N\<close> entries. Opening an entry (other than \<open>.\<close> and \<open>..\<close>) gives a handle that was not open, for a node
  further down the tree. A call leaves the other handles open, adds no entries for them to deliver, and does not
  deepen their trees.
\<close>

record 'fs directory_view =
  dv_ok :: "'fs \<Rightarrow> bool"
  dv_open :: "'fs \<Rightarrow> EFI_FILE_HANDLE set"
  dv_left :: "'fs \<Rightarrow> EFI_FILE_HANDLE \<Rightarrow> nat"
  dv_depth :: "'fs \<Rightarrow> EFI_FILE_HANDLE \<Rightarrow> nat"

definition stays :: "('fs, 'z) directory_view_scheme \<Rightarrow> EFI_FILE_HANDLE set \<Rightarrow> 'fs \<Rightarrow> 'fs \<Rightarrow> bool" where
  "stays v H fs fs' \<longleftrightarrow> dv_ok v fs'
     \<and> (\<forall>h\<in>H. h \<in> dv_open v fs' \<and> dv_left v fs' h \<le> dv_left v fs h \<and> dv_depth v fs' h \<le> dv_depth v fs h)"

definition info_law :: "'fs os_lib \<Rightarrow> 'fs directory_view \<Rightarrow> bool" where
  "info_law lib v \<longleftrightarrow> (\<forall>fs h i fs'. dv_ok v fs \<longrightarrow> h \<in> dv_open v fs \<longrightarrow> os_GetInfo lib h fs = (i, fs') \<longrightarrow> stays v (dv_open v fs) fs fs')"

definition first_law :: "'fs os_lib \<Rightarrow> 'fs directory_view \<Rightarrow> nat \<Rightarrow> bool" where
  "first_law lib v N \<longleftrightarrow> (\<forall>fs h st i fs'. dv_ok v fs \<longrightarrow> h \<in> dv_open v fs \<longrightarrow> os_FindFirst lib h fs = (st, i, fs') \<longrightarrow>
     stays v (dv_open v fs - {h}) fs fs' \<and> h \<in> dv_open v fs' \<and> dv_depth v fs' h \<le> dv_depth v fs h
     \<and> (st = EFI_SUCCESS \<and> i \<noteq> None \<longrightarrow> dv_left v fs' h < N))"

definition next_law :: "'fs os_lib \<Rightarrow> 'fs directory_view \<Rightarrow> bool" where
  "next_law lib v \<longleftrightarrow> (\<forall>fs h j st i nofile fs'. dv_ok v fs \<longrightarrow> h \<in> dv_open v fs \<longrightarrow> os_FindNext lib h j fs = (st, i, nofile, fs') \<longrightarrow>
     stays v (dv_open v fs) fs fs' \<and> (st = EFI_SUCCESS \<and> \<not> nofile \<longrightarrow> dv_left v fs' h < dv_left v fs h))"

definition open_law :: "'fs os_lib \<Rightarrow> 'fs directory_view \<Rightarrow> bool" where
  "open_law lib v \<longleftrightarrow> (\<forall>fs h name f fs'. dv_ok v fs \<longrightarrow> h \<in> dv_open v fs \<longrightarrow> os_OpenIn lib h name fs = (EFI_SUCCESS, f, fs') \<longrightarrow> \<not> dot_name name \<longrightarrow>
     stays v (dv_open v fs) fs fs' \<and> f \<notin> dv_open v fs \<and> f \<in> dv_open v fs' \<and> dv_depth v fs' f < dv_depth v fs h)"

definition delete_law :: "'fs os_lib \<Rightarrow> 'fs directory_view \<Rightarrow> bool" where
  "delete_law lib v \<longleftrightarrow> (\<forall>fs h fs'. dv_ok v fs \<longrightarrow> h \<in> dv_open v fs \<longrightarrow> os_Delete lib h fs = (EFI_SUCCESS, fs') \<longrightarrow> stays v (dv_open v fs - {h}) fs fs')"

definition directories :: "'fs os_lib \<Rightarrow> 'fs directory_view \<Rightarrow> nat \<Rightarrow> bool" where
  "directories lib v N \<longleftrightarrow> info_law lib v \<and> first_law lib v N \<and> next_law lib v \<and> open_law lib v \<and> delete_law lib v"

lemma stays_trans: "stays v H fs fs1 \<Longrightarrow> stays v H' fs1 fs2 \<Longrightarrow> K \<subseteq> H \<Longrightarrow> K \<subseteq> H' \<Longrightarrow> stays v K fs fs2"
  unfolding stays_def by (meson order_trans subsetD)

lemma staysD:
  assumes "stays v H fs fs'"
  shows "dv_ok v fs'" and "h \<in> H \<Longrightarrow> h \<in> dv_open v fs'" and "h \<in> H \<Longrightarrow> dv_left v fs' h \<le> dv_left v fs h"
    and "h \<in> H \<Longrightarrow> dv_depth v fs' h \<le> dv_depth v fs h"
  using assms by (auto simp: stays_def)

text \<open>The laws for the calls of the program, on its worlds.\<close>

lemma directory_laws:
  fixes w :: "('t, 'fs, 'r) os_world"
  assumes "directories lib v N" and "dv_ok v (o_fs w)" and "h \<in> dv_open v (o_fs w)"
  shows "get_info lib h w = (i, w1) \<Longrightarrow> stays v (dv_open v (o_fs w)) (o_fs w) (o_fs w1)"
    and "find_first lib h w = (st, info, w1) \<Longrightarrow> stays v (dv_open v (o_fs w) - {h}) (o_fs w) (o_fs w1) \<and> h \<in> dv_open v (o_fs w1)
      \<and> dv_depth v (o_fs w1) h \<le> dv_depth v (o_fs w) h \<and> (st = EFI_SUCCESS \<and> info \<noteq> None \<longrightarrow> dv_left v (o_fs w1) h < N)"
    and "find_next lib h j w = (st, i', nofile, w1) \<Longrightarrow> stays v (dv_open v (o_fs w)) (o_fs w) (o_fs w1)
      \<and> (st = EFI_SUCCESS \<and> \<not> nofile \<longrightarrow> dv_left v (o_fs w1) h < dv_left v (o_fs w) h)"
    and "os_OpenIn lib h name (o_fs w) = (EFI_SUCCESS, f, fs') \<Longrightarrow> \<not> dot_name name \<Longrightarrow> stays v (dv_open v (o_fs w)) (o_fs w) fs'
      \<and> f \<notin> dv_open v (o_fs w) \<and> f \<in> dv_open v fs' \<and> dv_depth v fs' f < dv_depth v (o_fs w) h"
    and "delete_file lib h w = (EFI_SUCCESS, w1) \<Longrightarrow> stays v (dv_open v (o_fs w) - {h}) (o_fs w) (o_fs w1)"
proof -
  have laws: "info_law lib v" "first_law lib v N" "next_law lib v" "open_law lib v" "delete_law lib v" using assms(1) by (simp_all add: directories_def)
  note info = laws(1) [unfolded info_law_def, rule_format, OF assms(2,3)] and first = laws(2) [unfolded first_law_def, rule_format, OF assms(2,3)]
    and nxt = laws(3) [unfolded next_law_def, rule_format, OF assms(2,3)] and opn = laws(4) [unfolded open_law_def, rule_format, OF assms(2,3)]
    and del = laws(5) [unfolded delete_law_def, rule_format, OF assms(2,3)]
  show "get_info lib h w = (i, w1) \<Longrightarrow> stays v (dv_open v (o_fs w)) (o_fs w) (o_fs w1)"
    using info by (auto simp: get_info_def split: prod.splits)
  show "find_first lib h w = (st, info, w1) \<Longrightarrow> stays v (dv_open v (o_fs w) - {h}) (o_fs w) (o_fs w1) \<and> h \<in> dv_open v (o_fs w1)
      \<and> dv_depth v (o_fs w1) h \<le> dv_depth v (o_fs w) h \<and> (st = EFI_SUCCESS \<and> info \<noteq> None \<longrightarrow> dv_left v (o_fs w1) h < N)"
    using first by (cases "os_FindFirst lib h (o_fs w)") (auto simp: find_first_def)
  show "find_next lib h j w = (st, i', nofile, w1) \<Longrightarrow> stays v (dv_open v (o_fs w)) (o_fs w) (o_fs w1)
      \<and> (st = EFI_SUCCESS \<and> \<not> nofile \<longrightarrow> dv_left v (o_fs w1) h < dv_left v (o_fs w) h)"
    using nxt by (cases "os_FindNext lib h j (o_fs w)") (auto simp: find_next_def)
  show "os_OpenIn lib h name (o_fs w) = (EFI_SUCCESS, f, fs') \<Longrightarrow> \<not> dot_name name \<Longrightarrow> stays v (dv_open v (o_fs w)) (o_fs w) fs'
      \<and> f \<notin> dv_open v (o_fs w) \<and> f \<in> dv_open v fs' \<and> dv_depth v fs' f < dv_depth v (o_fs w) h"
    by (rule opn)
  show "delete_file lib h w = (EFI_SUCCESS, w1) \<Longrightarrow> stays v (dv_open v (o_fs w) - {h}) (o_fs w) (o_fs w1)"
    using del by (auto simp: delete_file_def log_event_def split: prod.splits)
qed

abbreviation pending :: "efi_status \<Rightarrow> EFI_FILE_INFO option \<Rightarrow> bool \<Rightarrow> bool" where
  "pending st info nofile \<equiv> st = EFI_SUCCESS \<and> info \<noteq> None \<and> \<not> nofile"

text \<open>Enough fuel for a directory with a tree of depth \<open>D\<close> below it, and for the rest of its loop with \<open>L\<close> entries left.\<close>

definition dir_fuel :: "nat \<Rightarrow> nat \<Rightarrow> nat" where
  "dir_fuel N D = (D + 1) * (N + 2)"

definition loop_fuel :: "nat \<Rightarrow> nat \<Rightarrow> nat \<Rightarrow> nat" where
  "loop_fuel N D L = D * (N + 2) + L + 2"

lemma fuel_steps:
  "L < N \<Longrightarrow> D' \<le> D \<Longrightarrow> Suc (loop_fuel N D' L) \<le> dir_fuel N D" "L < L' \<Longrightarrow> D' \<le> D \<Longrightarrow> Suc (loop_fuel N D' L) \<le> loop_fuel N D L'"
  "D' < D \<Longrightarrow> Suc (dir_fuel N D') \<le> loop_fuel N D L" "2 \<le> dir_fuel N D" "2 \<le> loop_fuel N D L"
proof -
  have m: "D' \<le> D \<Longrightarrow> D' * (N + 2) \<le> D * (N + 2)" for D' D by (rule mult_le_mono1)
  show "L < N \<Longrightarrow> D' \<le> D \<Longrightarrow> Suc (loop_fuel N D' L) \<le> dir_fuel N D" using m [of D' D] by (simp add: loop_fuel_def dir_fuel_def)
  show "L < L' \<Longrightarrow> D' \<le> D \<Longrightarrow> Suc (loop_fuel N D' L) \<le> loop_fuel N D L'" using m [of D' D] by (simp add: loop_fuel_def)
  show "D' < D \<Longrightarrow> Suc (dir_fuel N D') \<le> loop_fuel N D L" using m [of "Suc D'" D] by (simp add: loop_fuel_def dir_fuel_def)
qed (simp_all add: loop_fuel_def dir_fuel_def)

text \<open>A call returns, and if it succeeds, the other handles stay as they were.\<close>

definition returns :: "('fs, 'z) directory_view_scheme \<Rightarrow> EFI_FILE_HANDLE set \<Rightarrow> 'fs \<Rightarrow> (efi_status \<times> ('t, 'fs, 'r) os_world) option \<Rightarrow> bool" where
  "returns v H fs res \<longleftrightarrow> (\<exists>st' w'. res = Some (st', w') \<and> (st' = EFI_SUCCESS \<longrightarrow> stays v H fs (o_fs w')))"

lemma returns_after: "stays v H fs fs1 \<Longrightarrow> returns v H' fs1 res \<Longrightarrow> K \<subseteq> H \<Longrightarrow> K \<subseteq> H' \<Longrightarrow> returns v K fs res"
  unfolding returns_def using stays_trans by metis

lemma dir_step:
  fixes w :: "('t, 'fs, 'r) os_world"
  assumes lib: "directories lib v N" and ok: "dv_ok v (o_fs w)" "d \<in> dv_open v (o_fs w)" and k: "dir_fuel N (dv_depth v (o_fs w) d) \<le> Suc k"
    and loop: "\<And>d st info nofile (w :: ('t, 'fs, 'r) os_world). dv_ok v (o_fs w) \<Longrightarrow> d \<in> dv_open v (o_fs w)
      \<Longrightarrow> (if pending st info nofile then loop_fuel N (dv_depth v (o_fs w) d) (dv_left v (o_fs w) d) else 1) \<le> k
      \<Longrightarrow> returns v (dv_open v (o_fs w) - {d}) (o_fs w) (remove_loop lib k d st info nofile w)"
  shows "returns v (dv_open v (o_fs w) - {d}) (o_fs w) (remove_dir lib (Suc k) d w)"
proof -
  obtain i w1 where i: "get_info lib d w = (i, w1)" by fastforce
  note s1 = directory_laws(1) [OF lib ok i]
  have ok1: "dv_ok v (o_fs w1)" "d \<in> dv_open v (o_fs w1)" using staysD(1,2) [OF s1] ok(2) by auto
  obtain st info w2 where f: "find_first lib d w1 = (st, info, w2)" by (metis prod_cases3)
  note s2 = directory_laws(2) [OF lib ok1 f]
  have depth: "dv_depth v (o_fs w2) d \<le> dv_depth v (o_fs w) d" using s2 staysD(4) [OF s1 ok(2)] by linarith
  have "(if pending st info False then loop_fuel N (dv_depth v (o_fs w2) d) (dv_left v (o_fs w2) d) else 1) \<le> k"
    using s2 k fuel_steps(1) [OF _ depth, of "dv_left v (o_fs w2) d" N] fuel_steps(4) [of N "dv_depth v (o_fs w) d"] by auto
  then have "returns v (dv_open v (o_fs w2) - {d}) (o_fs w2) (remove_loop lib k d st info False w2)"
    using loop staysD(1) [OF conjunct1 [OF s2]] s2 by blast
  moreover have "stays v (dv_open v (o_fs w) - {d}) (o_fs w) (o_fs w2)"
    using stays_trans [OF s1 conjunct1 [OF s2]] staysD(2) [OF s1] by blast
  ultimately have "returns v (dv_open v (o_fs w) - {d}) (o_fs w) (remove_loop lib k d st info False w2)"
    using returns_after [of v "dv_open v (o_fs w) - {d}" "o_fs w" "o_fs w2" "dv_open v (o_fs w2) - {d}"]
      staysD(2) [of v "dv_open v (o_fs w) - {d}" "o_fs w" "o_fs w2"] by blast
  then show ?thesis using i f by (cases i) (auto simp: returns_def)
qed

lemma next_step:
  fixes w w2 :: "('t, 'fs, 'r) os_world"
  assumes lib: "directories lib v N" and ok: "dv_ok v (o_fs w)" "d \<in> dv_open v (o_fs w)"
    and k: "loop_fuel N (dv_depth v (o_fs w) d) (dv_left v (o_fs w) d) \<le> Suc k"
    and loop: "\<And>d st info nofile (w :: ('t, 'fs, 'r) os_world). dv_ok v (o_fs w) \<Longrightarrow> d \<in> dv_open v (o_fs w)
      \<Longrightarrow> (if pending st info nofile then loop_fuel N (dv_depth v (o_fs w) d) (dv_left v (o_fs w) d) else 1) \<le> k
      \<Longrightarrow> returns v (dv_open v (o_fs w) - {d}) (o_fs w) (remove_loop lib k d st info nofile w)"
    and s2: "stays v (dv_open v (o_fs w)) (o_fs w) (o_fs w2)"
  shows "returns v (dv_open v (o_fs w) - {d}) (o_fs w)
    (case find_next lib d i w2 of (st3, i3, nofile3, w3) \<Rightarrow> remove_loop lib k d st3 (Some i3) nofile3 w3)"
proof -
  obtain st3 i3 nofile3 w3 where n: "find_next lib d i w2 = (st3, i3, nofile3, w3)" by (metis prod_cases4)
  have ok2: "dv_ok v (o_fs w2)" "d \<in> dv_open v (o_fs w2)" using staysD(1,2) [OF s2] ok(2) by auto
  note s3 = directory_laws(3) [OF lib ok2 n]
  have le: "dv_depth v (o_fs w3) d \<le> dv_depth v (o_fs w) d" "dv_left v (o_fs w2) d \<le> dv_left v (o_fs w) d"
    using staysD(4) [OF conjunct1 [OF s3] ok2(2)] staysD(3,4) [OF s2 ok(2)] by auto
  have "(if pending st3 (Some i3) nofile3 then loop_fuel N (dv_depth v (o_fs w3) d) (dv_left v (o_fs w3) d) else 1) \<le> k"
    using s3 k le(2) fuel_steps(2) [OF _ le(1), of "dv_left v (o_fs w3) d" "dv_left v (o_fs w) d" N]
      fuel_steps(5) [of N "dv_depth v (o_fs w) d" "dv_left v (o_fs w) d"] by auto
  then have "returns v (dv_open v (o_fs w3) - {d}) (o_fs w3) (remove_loop lib k d st3 (Some i3) nofile3 w3)"
    using loop staysD(1,2) [OF conjunct1 [OF s3]] ok2(2) by blast
  moreover have "stays v (dv_open v (o_fs w)) (o_fs w) (o_fs w3)"
    using stays_trans [OF s2 conjunct1 [OF s3]] staysD(2) [OF s2] by blast
  ultimately have "returns v (dv_open v (o_fs w) - {d}) (o_fs w) (remove_loop lib k d st3 (Some i3) nofile3 w3)"
    using returns_after [of v "dv_open v (o_fs w)" "o_fs w" "o_fs w3" "dv_open v (o_fs w3) - {d}"]
      staysD(2) [of v "dv_open v (o_fs w)" "o_fs w" "o_fs w3"] by blast
  then show ?thesis using n by simp
qed

lemma loop_step:
  fixes w :: "('t, 'fs, 'r) os_world"
  assumes lib: "directories lib v N" and ok: "dv_ok v (o_fs w)" "d \<in> dv_open v (o_fs w)"
    and k: "loop_fuel N (dv_depth v (o_fs w) d) (dv_left v (o_fs w) d) \<le> Suc k"
    and dir: "\<And>d (w :: ('t, 'fs, 'r) os_world). dv_ok v (o_fs w) \<Longrightarrow> d \<in> dv_open v (o_fs w)
      \<Longrightarrow> dir_fuel N (dv_depth v (o_fs w) d) \<le> k \<Longrightarrow> returns v (dv_open v (o_fs w) - {d}) (o_fs w) (remove_dir lib k d w)"
    and next_ok: "\<And>w2 :: ('t, 'fs, 'r) os_world. stays v (dv_open v (o_fs w)) (o_fs w) (o_fs w2)
      \<Longrightarrow> returns v (dv_open v (o_fs w) - {d}) (o_fs w)
        (case find_next lib d i w2 of (st3, i3, nofile3, w3) \<Rightarrow> remove_loop lib k d st3 (Some i3) nofile3 w3)"
  shows "returns v (dv_open v (o_fs w) - {d}) (o_fs w) (remove_loop lib (Suc k) d EFI_SUCCESS (Some i) False w)"
proof (cases "dot_name (FileName i)")
  case True
  then show ?thesis using next_ok [of w] ok by (simp add: stays_def)
next
  case False
  obtain st1 f fs where op: "os_OpenIn lib d (FileName i) (o_fs w) = (st1, f, fs)" by (metis prod_cases3)
  let ?w = "log_event (Opened f) (w\<lparr>o_fs := fs\<rparr>)"
  let ?sub = "if is_dir i then remove_dir lib k f ?w else Some (delete_file lib f ?w)"
  have fs: "o_fs ?w = fs" by (simp add: log_event_def)
  show ?thesis
  proof (cases "st1 = EFI_SUCCESS")
    case st1: False
    then show ?thesis using False op by (simp add: returns_def)
  next
    case st1: True
    note s1 = directory_laws(4) [OF lib ok op [unfolded st1] False]
    have okf: "dv_ok v (o_fs ?w)" "f \<in> dv_open v (o_fs ?w)" using staysD(1) [OF conjunct1 [OF s1]] s1 by (simp_all add: fs)
    have "dir_fuel N (dv_depth v (o_fs ?w) f) \<le> k"
      using k fuel_steps(3) [of "dv_depth v fs f" "dv_depth v (o_fs w) d" N "dv_left v (o_fs w) d"] s1 by (simp add: fs)
    then have "returns v (dv_open v (o_fs ?w) - {f}) (o_fs ?w) ?sub"
      using dir [OF okf(1,2)] directory_laws(5) [OF lib okf] by (cases "delete_file lib f ?w") (auto simp: returns_def)
    then obtain st2 w2 where sub: "?sub = Some (st2, w2)" "st2 = EFI_SUCCESS \<Longrightarrow> stays v (dv_open v fs - {f}) fs (o_fs w2)"
      by (auto simp: returns_def fs)
    have step: "remove_loop lib (Suc k) d EFI_SUCCESS (Some i) False w = (if st2 \<noteq> EFI_SUCCESS then Some (st2, CLOSE_FILE lib (Some f) w2)
        else (case find_next lib d i w2 of (st3, i3, nofile3, w3) \<Rightarrow> remove_loop lib k d st3 (Some i3) nofile3 w3))"
      unfolding remove_loop.simps option.case op prod.case Let_def st1 sub(1) using False by simp
    have "stays v (dv_open v (o_fs w)) (o_fs w) (o_fs w2)" if "st2 = EFI_SUCCESS"
      using stays_trans [OF conjunct1 [OF s1] sub(2) [OF that]] s1 staysD(2) [OF conjunct1 [OF s1]] by blast
    then show ?thesis unfolding step using next_ok by (auto simp: returns_def)
  qed
qed

lemma remove_dir_returns:
  fixes w :: "('t, 'fs, 'r) os_world"
  assumes lib: "directories lib v N"
  shows "(dv_ok v (o_fs w) \<longrightarrow> d \<in> dv_open v (o_fs w) \<longrightarrow> dir_fuel N (dv_depth v (o_fs w) d) \<le> k
      \<longrightarrow> returns v (dv_open v (o_fs w) - {d}) (o_fs w) (remove_dir lib k d w))
    \<and> (dv_ok v (o_fs w) \<longrightarrow> d \<in> dv_open v (o_fs w)
      \<longrightarrow> (if pending st info nofile then loop_fuel N (dv_depth v (o_fs w) d) (dv_left v (o_fs w) d) else 1) \<le> k
      \<longrightarrow> returns v (dv_open v (o_fs w) - {d}) (o_fs w) (remove_loop lib k d st info nofile w))"
proof (induction k arbitrary: d w st info nofile)
  case 0
  then show ?case by (simp add: dir_fuel_def loop_fuel_def)
next
  case (Suc k)
  note dir = Suc.IH [THEN conjunct1, rule_format] and loop = Suc.IH [THEN conjunct2, rule_format]
  have "returns v (dv_open v (o_fs w) - {d}) (o_fs w) (remove_loop lib (Suc k) d st info nofile w)"
    if ok: "dv_ok v (o_fs w)" "d \<in> dv_open v (o_fs w)"
      and k: "(if pending st info nofile then loop_fuel N (dv_depth v (o_fs w) d) (dv_left v (o_fs w) d) else 1) \<le> Suc k"
  proof (cases "pending st info nofile")
    case False
    obtain st' w' where "delete_file lib d w = (st', w')" by fastforce
    then show ?thesis using False directory_laws(5) [OF lib ok, of w'] by (auto simp: returns_def split: option.splits)
  next
    case True
    then obtain i where i: "info = Some i" "st = EFI_SUCCESS" "\<not> nofile" by blast
    have k': "loop_fuel N (dv_depth v (o_fs w) d) (dv_left v (o_fs w) d) \<le> Suc k" using k True by simp
    show ?thesis using loop_step [OF lib ok k' dir next_step [OF lib ok k' loop], of i] i by simp
  qed
  then show ?case using dir_step [OF lib _ _ _ loop] by blast
qed


section \<open>A small volume\<close>

text \<open>
  The second volume has the directory \<open>a\<close> with one file. The state is the number of entries that have not been
  delivered.
\<close>

definition dir_path :: "w16 list" where
  "dir_path = ROOT_TYPE_INTERNAL @ [70, 83, 2, DRIVE] @ SEP # [97]"

definition midnight :: EFI_TIME where
  "midnight = \<lparr>Year = 2020, Month = 2, Day = 29, Hour = 0, Minute = 0, Second = 0, Nanosecond = 0\<rparr>"

definition file_info :: "w16 list \<Rightarrow> w64 \<Rightarrow> EFI_FILE_INFO" where
  "file_info name attr = \<lparr>InfoSize = 82 + 2 * length name, FileSize = 5, CreateTime = midnight, LastAccessTime = midnight,
     ModificationTime = midnight, Attribute = attr, FileName = name\<rparr>"

definition small_os :: "efi_status \<Rightarrow> nat os_lib" where
  "small_os del = \<lparr>os_GetInfo = (\<lambda>h fs. (Some (file_info [97] (if h = FsHandle 12 then EFI_FILE_DIRECTORY else 0)), fs)),
     os_SetInfo = (\<lambda>h i fs. (EFI_SUCCESS, fs)), os_Close = (\<lambda>h fs. fs), os_Delete = (\<lambda>h fs. (del, fs)),
     os_OpenIn = (\<lambda>h name fs. (EFI_SUCCESS, FsHandle 20, fs)),
     os_FindFirst = (\<lambda>h fs. (EFI_SUCCESS, if fs > 0 then Some (file_info [98] 0) else None, fs - 1)),
     os_FindNext = (\<lambda>h j fs. (EFI_SUCCESS, j, fs = 0, fs - 1))\<rparr>"

definition os_start :: "nat \<Rightarrow> (unit, nat, nat) os_world" where
  "os_start n = \<lparr>o_usf = \<lparr>FilePool = [], FileSystemTable = None, CurrentDirectory = None\<rparr>, o_fs = n, o_vols = [], o_log = []\<rparr>"

lemma to_path_utf8: "0 \<notin> set ws \<Longrightarrow> to_path (utf8_of ws) = Inr ws"
proof -
  assume "0 \<notin> set ws"
  then have "takeWhile (\<lambda>c. c \<noteq> 0) (ws @ [0]) = ws" by (induction ws) auto
  then show ?thesis by (simp add: to_path_def name_decoded)
qed

lemma dir_path_opens:
  "to_path (utf8_of dir_path) = Inr dir_path"
  "sfp_Open no_shell dir_path mode 0 (os_start n)
     = Inr (EFI_SUCCESS, Some (FsHandle 12), (os_start n)\<lparr>o_vols := [OpenVol 2, CloseVol 2], o_log := [Opened (FsHandle 12)]\<rparr>)"
proof -
  show "to_path (utf8_of dir_path) = Inr dir_path" by (rule to_path_utf8) (simp add: dir_path_def path_consts)
  have "first_named no_shell [70, 83, 2, DRIVE] [1, 2] 2" unfolding first_named_def
    by (rule exI [of _ "[1]"], rule exI [of _ "[]"]) (simp add: no_shell_def path_consts)
  then have "UsfOpen no_shell cd (Some dir_path) m 0 = Inr (EFI_SUCCESS, Some (FsHandle 12), [OpenVol 2, CloseVol 2])" for cd m
    unfolding dir_path_def
    by (intro UsfOpen_internal [where sth = EFI_SUCCESS and stv = EFI_SUCCESS and hs = "[1, 2]" and h = 2]) (simp_all add: no_shell_def path_consts)
  then show "sfp_Open no_shell dir_path mode 0 (os_start n)
     = Inr (EFI_SUCCESS, Some (FsHandle 12), (os_start n)\<lparr>o_vols := [OpenVol 2, CloseVol 2], o_log := [Opened (FsHandle 12)]\<rparr>)"
    by (simp add: sfp_Open_def log_event_def os_start_def)
qed

section \<open>A volume with directories\<close>

text \<open>
  The directory \<open>a\<close> (node 0) holds the directory \<open>b\<close> (node 1) with the file \<open>d\<close> (node 3), and the file \<open>c\<close> (node 2). A handle has a node
  and a position in the listing of the node, which starts with \<open>.\<close> and \<open>..\<close>; finding the first entry sets the position back. Deleted nodes are
  passed over. A directory that is not empty cannot be deleted.
\<close>

record volume =
  v_files :: "nat \<rightharpoonup> nat \<times> nat"
  v_next :: nat
  v_gone :: "nat list"

definition kids :: "nat \<Rightarrow> nat list" where
  "kids n = (if n = 0 then [1, 2] else if n = 1 then [3] else [])"

definition node_info :: "nat \<Rightarrow> EFI_FILE_INFO" where
  "node_info n = file_info [97 + of_nat n] (if n < 2 then EFI_FILE_DIRECTORY else 0)"

definition node_depth :: "nat \<Rightarrow> nat" where
  "node_depth n = (if n = 0 then 2 else if n = 1 then 1 else 0)"

definition slot :: "nat \<Rightarrow> nat \<Rightarrow> EFI_FILE_INFO" where
  "slot n p = (if p = 0 then file_info [46] EFI_FILE_DIRECTORY else if p = 1 then file_info [46, 46] EFI_FILE_DIRECTORY
     else node_info (kids n ! (p - 2)))"

definition next_slot :: "volume \<Rightarrow> nat \<Rightarrow> nat \<Rightarrow> nat option" where
  "next_slot s n pos = find (\<lambda>p. pos \<le> p \<and> (p < 2 \<or> kids n ! (p - 2) \<notin> set (v_gone s))) [0..<2 + length (kids n)]"

definition file_no :: "EFI_FILE_HANDLE \<Rightarrow> nat" where
  "file_no h = (case h of FsHandle k \<Rightarrow> k | _ \<Rightarrow> 0)"

definition read_dir :: "nat \<Rightarrow> nat \<Rightarrow> nat \<Rightarrow> volume \<Rightarrow> (EFI_FILE_INFO \<times> volume) option" where
  "read_dir k n pos s = map_option (\<lambda>p. (slot n p, s\<lparr>v_files := (v_files s)(k \<mapsto> (n, Suc p))\<rparr>)) (next_slot s n pos)"

definition vol_FindFirst :: "EFI_FILE_HANDLE \<Rightarrow> volume \<Rightarrow> efi_status \<times> EFI_FILE_INFO option \<times> volume" where
  "vol_FindFirst h s =
     (case v_files s (file_no h) of
        None \<Rightarrow> (EFI_INVALID_PARAMETER, None, s)
      | Some (n, _) \<Rightarrow>
          (case read_dir (file_no h) n 0 s of None \<Rightarrow> (EFI_SUCCESS, None, s) | Some (i, s') \<Rightarrow> (EFI_SUCCESS, Some i, s')))"

definition vol_FindNext :: "EFI_FILE_HANDLE \<Rightarrow> EFI_FILE_INFO \<Rightarrow> volume \<Rightarrow> efi_status \<times> EFI_FILE_INFO \<times> bool \<times> volume" where
  "vol_FindNext h j s =
     (case v_files s (file_no h) of
        None \<Rightarrow> (EFI_INVALID_PARAMETER, j, True, s)
      | Some (n, pos) \<Rightarrow>
          (case read_dir (file_no h) n pos s of None \<Rightarrow> (EFI_SUCCESS, j, True, s) | Some (i, s') \<Rightarrow> (EFI_SUCCESS, i, False, s')))"

definition vol_OpenIn :: "EFI_FILE_HANDLE \<Rightarrow> w16 list \<Rightarrow> volume \<Rightarrow> efi_status \<times> EFI_FILE_HANDLE \<times> volume" where
  "vol_OpenIn h name s =
     (case v_files s (file_no h) of
        None \<Rightarrow> (EFI_INVALID_PARAMETER, mStdIn, s)
      | Some (n, _) \<Rightarrow>
          (case find (\<lambda>m. FileName (node_info m) = name \<and> m \<notin> set (v_gone s)) (kids n) of
             None \<Rightarrow> (EFI_NOT_FOUND, mStdIn, s)
           | Some m \<Rightarrow> (EFI_SUCCESS, FsHandle (v_next s), s\<lparr>v_files := (v_files s)(v_next s \<mapsto> (m, 0)), v_next := Suc (v_next s)\<rparr>)))"

definition vol_Close :: "EFI_FILE_HANDLE \<Rightarrow> volume \<Rightarrow> volume" where
  "vol_Close h s = s\<lparr>v_files := (v_files s)(file_no h := None)\<rparr>"

definition vol_Delete :: "EFI_FILE_HANDLE \<Rightarrow> volume \<Rightarrow> efi_status \<times> volume" where
  "vol_Delete h s =
     (case v_files s (file_no h) of
        None \<Rightarrow> (EFI_INVALID_PARAMETER, s)
      | Some (n, _) \<Rightarrow>
          if set (kids n) \<subseteq> set (v_gone s) then (EFI_SUCCESS, vol_Close h (s\<lparr>v_gone := n # v_gone s\<rparr>))
          else (EFI_WARNING 2, vol_Close h s))"

definition vol_os :: "volume os_lib" where
  "vol_os = \<lparr>os_GetInfo = (\<lambda>h s. (map_option (node_info \<circ> fst) (v_files s (file_no h)), s)),
     os_SetInfo = (\<lambda>h i s. (EFI_WRITE_PROTECTED, s)), os_Close = vol_Close, os_Delete = vol_Delete,
     os_OpenIn = vol_OpenIn, os_FindFirst = vol_FindFirst, os_FindNext = vol_FindNext\<rparr>"

definition vol_view :: "volume directory_view" where
  "vol_view = \<lparr>dv_ok = (\<lambda>s. \<forall>k\<in>dom (v_files s). k < v_next s), dv_open = (\<lambda>s. FsHandle ` dom (v_files s)),
     dv_left = (\<lambda>s h. case v_files s (file_no h) of None \<Rightarrow> 0 | Some (n, pos) \<Rightarrow> 2 + length (kids n) - pos),
     dv_depth = (\<lambda>s h. case v_files s (file_no h) of None \<Rightarrow> 0 | Some (n, _) \<Rightarrow> node_depth n)\<rparr>"

definition vol_start :: volume where
  "vol_start = \<lparr>v_files = [12 \<mapsto> (0, 0)], v_next = 13, v_gone = []\<rparr>"

lemma find_SomeD: "find P xs = Some x \<Longrightarrow> P x \<and> x \<in> set xs"
  by (induction xs) (auto split: if_splits)

lemma next_slot_bounds: "next_slot s n pos = Some p \<Longrightarrow> pos \<le> p \<and> p < 2 + length (kids n)"
  unfolding next_slot_def by (drule find_SomeD) auto

lemma kids_facts: "length (kids n) \<le> 2" "m \<in> set (kids n) \<Longrightarrow> node_depth m < node_depth n"
  by (auto simp: kids_def node_depth_def split: if_splits)

lemmas vol_defs = vol_view_def stays_def file_no_def

lemma vol_same: "dv_ok vol_view s \<Longrightarrow> stays vol_view H s s" if "H \<subseteq> dv_open vol_view s"
  using that by (auto simp: stays_def)

lemma vol_read:
  assumes "dv_ok vol_view s" and "v_files s k = Some (n, pos')" and "read_dir k n pos s = Some (i, s')"
  shows "stays vol_view (dv_open vol_view s - {FsHandle k}) s s'" and "FsHandle k \<in> dv_open vol_view s'"
    and "dv_left vol_view s' (FsHandle k) < 2 + length (kids n) - pos" and "dv_depth vol_view s' (FsHandle k) = dv_depth vol_view s (FsHandle k)"
proof -
  obtain p where p: "next_slot s n pos = Some p" "s' = s\<lparr>v_files := (v_files s)(k \<mapsto> (n, Suc p))\<rparr>"
    using assms(3) by (auto simp: read_dir_def)
  show "stays vol_view (dv_open vol_view s - {FsHandle k}) s s'" using assms(1,2) p(2) by (auto simp: vol_defs)
  show "FsHandle k \<in> dv_open vol_view s'" "dv_depth vol_view s' (FsHandle k) = dv_depth vol_view s (FsHandle k)"
    using assms(2) p(2) by (auto simp: vol_defs)
  show "dv_left vol_view s' (FsHandle k) < 2 + length (kids n) - pos" using next_slot_bounds [OF p(1)] p(2) by (auto simp: vol_defs)
qed

text \<open>The laws of directories hold of it.\<close>

lemma vol_first:
  assumes "dv_ok vol_view s" and "v_files s k = Some (n, pos)" and "vol_FindFirst (FsHandle k) s = (st, i, s')"
  shows "stays vol_view (dv_open vol_view s - {FsHandle k}) s s' \<and> FsHandle k \<in> dv_open vol_view s'
    \<and> dv_depth vol_view s' (FsHandle k) \<le> dv_depth vol_view s (FsHandle k) \<and> (st = EFI_SUCCESS \<and> i \<noteq> None \<longrightarrow> dv_left vol_view s' (FsHandle k) < 4)"
proof (cases "read_dir k n 0 s")
  case None
  then have "st = EFI_SUCCESS" "i = None" "s' = s" using assms(2,3) by (simp_all add: vol_FindFirst_def file_no_def)
  then show ?thesis using assms(1,2) vol_same [of "dv_open vol_view s - {FsHandle k}" s] by (auto simp: vol_view_def)
next
  case (Some r)
  then obtain j where r: "read_dir k n 0 s = Some (j, s')" using assms(2,3) by (cases r) (simp add: vol_FindFirst_def file_no_def)
  show ?thesis using vol_read [OF assms(1,2) r] kids_facts(1) [of n] by simp
qed

lemma vol_next:
  assumes "dv_ok vol_view s" and "v_files s k = Some (n, pos)" and "vol_FindNext (FsHandle k) j s = (st, i, nofile, s')"
  shows "stays vol_view (dv_open vol_view s) s s' \<and> (st = EFI_SUCCESS \<and> \<not> nofile \<longrightarrow> dv_left vol_view s' (FsHandle k) < dv_left vol_view s (FsHandle k))"
proof (cases "read_dir k n pos s")
  case None
  then have "nofile" "s' = s" using assms(2,3) by (simp_all add: vol_FindNext_def file_no_def)
  then show ?thesis using vol_same [OF subset_refl assms(1)] by simp
next
  case (Some r)
  then obtain j where r: "read_dir k n pos s = Some (j, s')" using assms(2,3) by (cases r) (simp add: vol_FindNext_def file_no_def)
  have left: "dv_left vol_view s (FsHandle k) = 2 + length (kids n) - pos" using assms(2) by (simp add: vol_view_def file_no_def)
  have "stays vol_view (dv_open vol_view s) s s'" using vol_read [OF assms(1,2) r] left by (auto simp: stays_def)
  then show ?thesis using vol_read(3) [OF assms(1,2) r] left by simp
qed

lemma vol_open:
  assumes "dv_ok vol_view s" and "v_files s k = Some (n, pos)" and "vol_OpenIn (FsHandle k) name s = (EFI_SUCCESS, f, s')"
  shows "stays vol_view (dv_open vol_view s) s s' \<and> f \<notin> dv_open vol_view s \<and> f \<in> dv_open vol_view s'
    \<and> dv_depth vol_view s' f < dv_depth vol_view s (FsHandle k)"
proof -
  obtain m where m: "m \<in> set (kids n)" "f = FsHandle (v_next s)" "s' = s\<lparr>v_files := (v_files s)(v_next s \<mapsto> (m, 0)), v_next := Suc (v_next s)\<rparr>"
    using assms(2,3) by (auto simp: vol_OpenIn_def file_no_def dest: find_SomeD split: option.splits)
  have new: "v_files s (v_next s) = None" using assms(1) by (auto simp: vol_view_def)
  then show ?thesis using assms(1,2) m kids_facts(2) [OF m(1)] by (auto simp: vol_defs less_Suc_eq)
qed

lemma vol_delete:
  assumes "dv_ok vol_view s" and "v_files s k = Some (n, pos)" and "vol_Delete (FsHandle k) s = (st, s')"
  shows "stays vol_view (dv_open vol_view s - {FsHandle k}) s s'"
  using assms by (auto simp: vol_Delete_def vol_Close_def vol_defs split: if_splits)

lemma vol_handle:
  assumes "h \<in> dv_open vol_view s"
  obtains k n pos where "h = FsHandle k" "v_files s k = Some (n, pos)"
  using assms by (auto simp: vol_view_def)

lemma vol_laws: "info_law vol_os vol_view" "first_law vol_os vol_view 4" "next_law vol_os vol_view" "open_law vol_os vol_view" "delete_law vol_os vol_view"
proof -
  have lib: "os_FindFirst vol_os = vol_FindFirst" "os_FindNext vol_os = vol_FindNext" "os_OpenIn vol_os = vol_OpenIn" "os_Delete vol_os = vol_Delete"
    by (simp_all add: vol_os_def)
  show "info_law vol_os vol_view" using vol_same [OF subset_refl] by (auto simp: info_law_def vol_os_def)
  show "first_law vol_os vol_view 4" unfolding first_law_def lib by (intro allI impI, erule vol_handle, hypsubst, rule vol_first) assumption+
  show "next_law vol_os vol_view" unfolding next_law_def lib by (intro allI impI, erule vol_handle, hypsubst, rule vol_next) assumption+
  show "open_law vol_os vol_view" unfolding open_law_def lib by (intro allI impI, erule vol_handle, hypsubst, rule vol_open) assumption+
  show "delete_law vol_os vol_view" unfolding delete_law_def lib by (intro allI impI, erule vol_handle, hypsubst, rule vol_delete) assumption+
qed

lemma vol_directories: "directories vol_os vol_view 4"
  using vol_laws by (simp add: directories_def)

definition vol_world :: "(unit, volume, nat) os_world" where
  "vol_world = \<lparr>o_usf = \<lparr>FilePool = [], FileSystemTable = None, CurrentDirectory = None\<rparr>, o_fs = vol_start, o_vols = [], o_log = []\<rparr>"

lemma dir_path_internal: "UsfOpen no_shell cd (Some dir_path) m 0 = Inr (EFI_SUCCESS, Some (FsHandle 12), [OpenVol 2, CloseVol 2])"
proof -
  have "first_named no_shell [70, 83, 2, DRIVE] [1, 2] 2" unfolding first_named_def
    by (rule exI [of _ "[1]"], rule exI [of _ "[]"]) (simp add: no_shell_def path_consts)
  then show ?thesis unfolding dir_path_def
    by (intro UsfOpen_internal [where sth = EFI_SUCCESS and stv = EFI_SUCCESS and hs = "[1, 2]" and h = 2]) (simp_all add: no_shell_def path_consts)
qed

lemma dir_path_opened:
  "sfp_Open no_shell dir_path mode 0 w
     = Inr (EFI_SUCCESS, Some (FsHandle 12), w\<lparr>o_vols := o_vols w @ [OpenVol 2, CloseVol 2], o_log := o_log w @ [Opened (FsHandle 12)]\<rparr>)"
  by (simp add: sfp_Open_def dir_path_internal log_event_def)

text \<open>The tree is removed from the inside: \<open>d\<close>, \<open>b\<close>, \<open>c\<close> and then \<open>a\<close>.\<close>

lemma vol_removed:
  "map_option (\<lambda>(st, w). (st, o_log w)) (remove_dir vol_os 18 (FsHandle 12)
     (vol_world\<lparr>o_vols := [OpenVol 2, CloseVol 2], o_log := [Opened (FsHandle 12)]\<rparr>))
   = Some (EFI_SUCCESS, [Opened (FsHandle 12), Opened (FsHandle 13), Opened (FsHandle 14), Deleted (FsHandle 14), Deleted (FsHandle 13),
       Opened (FsHandle 15), Deleted (FsHandle 15), Deleted (FsHandle 12)])"
  by code_simp


text \<open>
  When a directory cannot be deleted, its handle is released twice: deleting closes the handle whether or not
  it succeeds, and \<open>rmdir\<close> closes it again before it raises the exception.
\<close>

theorem rmdir_failure_releases_twice:
  assumes "to_path path = Inr p" and "\<not> EFI_ERROR loc" and "sfp_Open fw p FILE_RW 0 w = Inr (EFI_SUCCESS, Some f, w1)"
    and "os_GetInfo lib f (o_fs w1) = (Some i, fs)" and "is_dir i" and "os_FindFirst lib f fs = (st, None, fs')"
    and "os_Delete lib f fs' = (st', fs'')" and "st' \<noteq> EFI_SUCCESS"
  shows "\<exists>w'. mod_os_rmdir fw lib loc 2 path w = Some (Inr (Inl (OSErrorStatus st'), w')) \<and> o_log w' = o_log w @ [Opened f, Deleted f, Closed f]"
proof -
  have log: "o_log w1 = o_log w @ [Opened f]" using adds_open [OF assms(3)] by (simp add: adds_def)
  have "remove_dir lib 2 f w1 = Some (st', w1\<lparr>o_fs := fs'', o_log := o_log w1 @ [Deleted f]\<rparr>)"
    using assms(4-7) by (simp add: numeral_2_eq_2 get_info_def find_first_def delete_file_def log_event_def)
  then show ?thesis using assms(1-3,8) log
    by (simp add: mod_os_rmdir_def raise_status_def CLOSE_FILE_def log_event_def)
qed

theorem rmdir_failure_releases_twice_witness:
  "\<exists>w'. mod_os_rmdir no_shell (small_os EFI_WRITE_PROTECTED) EFI_SUCCESS 2 (utf8_of dir_path) (os_start 0)
      = Some (Inr (Inl (OSErrorStatus EFI_WRITE_PROTECTED), w'))
    \<and> o_log w' = [Opened (FsHandle 12), Deleted (FsHandle 12), Closed (FsHandle 12)]"
proof -
  let ?i = "file_info [97] EFI_FILE_DIRECTORY" and ?w = "(os_start 0)\<lparr>o_vols := [OpenVol 2, CloseVol 2], o_log := [Opened (FsHandle 12)]\<rparr>"
  have "os_GetInfo (small_os EFI_WRITE_PROTECTED) (FsHandle 12) (o_fs ?w) = (Some ?i, 0)" "is_dir ?i"
    by (simp_all add: small_os_def os_start_def is_dir_def file_info_def EFI_FILE_DIRECTORY_def)
  then show ?thesis
    using rmdir_failure_releases_twice [OF dir_path_opens(1) _ dir_path_opens(2) [of FILE_RW 0],
        where loc = EFI_SUCCESS and lib = "small_os EFI_WRITE_PROTECTED" and i = ?i and fs = 0 and st = EFI_SUCCESS and fs' = 0
          and st' = EFI_WRITE_PROTECTED and fs'' = 0]
    by (simp add: small_os_def os_start_def)
qed

section \<open>Every call releases what it opens\<close>

text \<open>The calls of the module that open one path, and the exception they raise, if any.\<close>

datatype os_op = Mkdir "byte list" | Stat "byte list" | Remove "byte list" | Rename "byte list" "byte list" | Chdir "byte list"

definition raised :: "'a py \<Rightarrow> py_exc option" where
  "raised r = (case r of Inl x \<Rightarrow> Some x | Inr _ \<Rightarrow> None)"

lemma raise_no_memory_error: "raised (raise_status st v) \<noteq> Some MemoryError"
  by (simp add: raised_def raise_status_def)

definition run_op ::
  "('h, 'dp, 'r) usf_firmware \<Rightarrow> 'fs os_lib \<Rightarrow> efi_status \<Rightarrow> bool \<Rightarrow> os_op \<Rightarrow> ('t, 'fs, 'r) os_world
    \<Rightarrow> (py_exc option \<times> ('t, 'fs, 'r) os_world) result" where
  "run_op fw lib loc grant op w =
     (case op of
        Mkdir p \<Rightarrow> rbind (mod_os_mkdir fw lib loc p w) (\<lambda>(r, w'). Inr (raised r, w'))
      | Stat p \<Rightarrow> rbind (mod_os_stat fw lib loc grant p w) (\<lambda>(r, w'). Inr (raised r, w'))
      | Remove p \<Rightarrow> rbind (mod_os_remove fw lib loc p w) (\<lambda>(r, w'). Inr (raised r, w'))
      | Rename s d \<Rightarrow> rbind (mod_os_rename fw lib loc s d w) (\<lambda>(r, w'). Inr (raised r, w'))
      | Chdir p \<Rightarrow> rbind (mod_os_chdir fw lib loc p w) (\<lambda>(r, w'). Inr (raised r, w')))"

text \<open>Documented behaviour of opening a file: a call that fails returns no handle.\<close>

definition fails_clean :: "('h, 'dp, 'r) usf_firmware \<Rightarrow> os_op \<Rightarrow> ('t, 'fs, 'r) os_world \<Rightarrow> bool" where
  "fails_clean fw op w \<longleftrightarrow> (\<forall>p q st h w1. op = Mkdir p \<and> to_path p = Inr q \<and> sfp_Open fw q FILE_READ 0 w = Inr (st, h, w1)
     \<and> st \<noteq> EFI_SUCCESS \<longrightarrow> h = None)"

lemma open_close: "sfp_Open fw p m a w = Inr (st, h, w1) \<Longrightarrow> adds w1 w2 [] \<Longrightarrow> \<exists>es. adds w (CLOSE_FILE lib h w2) es \<and> balanced es"
  using adds_open [of fw p m a w st h w1] adds_close [of w2 lib h] by (cases h) (auto simp: adds_def)

lemma adds_nothing: "\<exists>es. adds w w es \<and> balanced es"
  using adds_refl balanced_simps(1) by blast

lemma option_id: "(case x of None \<Rightarrow> None | Some y \<Rightarrow> Some y) = x"
  by (cases x) simp_all

lemma mkdir_releases:
  assumes clean: "fails_clean fw (Mkdir p) w" and r: "mod_os_mkdir fw lib loc p w = Inr (r, w')"
  shows "\<exists>es. adds w w' es \<and> balanced es"
proof (cases "EFI_ERROR loc")
  case True
  then show ?thesis using r adds_nothing by (auto simp: mod_os_mkdir_def)
next
  case False
  obtain q st h w1 where op: "to_path p = Inr q" "sfp_Open fw q FILE_READ 0 w = Inr (st, h, w1)"
      "(if st = EFI_SUCCESS then Inr (raise_status EEXIST (), CLOSE_FILE lib h w1)
        else rbind (sfp_Open fw q (FILE_RW OR EFI_FILE_MODE_CREATE) EFI_FILE_DIRECTORY w1) (\<lambda>(st2, h2, w2).
            Inr (raise_status st2 (), CLOSE_FILE lib (case h2 of None \<Rightarrow> h | Some f \<Rightarrow> Some f) w2))) = Inr (r, w')"
    using r False by (auto simp: mod_os_mkdir_def rbind_eq_Inr)
  show ?thesis
  proof (cases "st = EFI_SUCCESS")
    case True
    then show ?thesis using op(3) open_close [OF op(2) adds_refl] by auto
  next
    case False
    then have h: "h = None" using clean op(1,2) by (auto simp: fails_clean_def)
    then have w1: "adds w w1 []" using adds_open [OF op(2)] by simp
    obtain st2 h2 w2 where op2: "sfp_Open fw q (FILE_RW OR EFI_FILE_MODE_CREATE) EFI_FILE_DIRECTORY w1 = Inr (st2, h2, w2)"
        "w' = CLOSE_FILE lib h2 w2"
      using op(3) False h by (auto simp: rbind_eq_Inr option_id)
    then show ?thesis using open_close [OF op2(1) adds_refl] w1 by (auto simp: adds_def)
  qed
qed

lemma stat_releases:
  assumes "mod_os_stat fw lib loc grant p w = Inr (r, w')"
  shows "if raised r = Some MemoryError then \<not> grant \<and> (\<exists>f. adds w w' [Opened f]) else \<exists>es. adds w w' es \<and> balanced es"
proof (cases "EFI_ERROR loc")
  case True
  then show ?thesis using assms adds_nothing by (auto simp: mod_os_stat_def raised_def)
next
  case False
  obtain q st h w1 where op: "sfp_Open fw q FILE_READ 0 w = Inr (st, h, w1)"
      "raised r = None \<and> (w' = CLOSE_FILE lib h w1 \<or> (\<exists>f i w2. h = Some f \<and> get_info lib f w1 = (i, w2) \<and> w' = CLOSE_FILE lib h w2))
       \<or> (\<exists>f i. raised r = Some MemoryError \<and> \<not> grant \<and> h = Some f \<and> get_info lib f w1 = (i, w'))"
    using assms False by (auto simp: mod_os_stat_def raised_def rbind_eq_Inr split: if_splits option.splits prod.splits)
  from op(2) show ?thesis
  proof (elim disjE conjE exE)
    fix f i assume "raised r = Some MemoryError" "\<not> grant" "h = Some f" "get_info lib f w1 = (i, w')"
    then show ?thesis using adds_open [OF op(1)] adds_info by (fastforce simp: adds_def)
  qed (use open_close [OF op(1), of _ lib] adds_refl adds_info in \<open>simp, blast\<close>)+
qed

lemma remove_releases:
  assumes "mod_os_remove fw lib loc p w = Inr (r, w')"
  shows "\<exists>es. adds w w' es \<and> balanced es"
proof (cases "EFI_ERROR loc")
  case True
  then show ?thesis using assms adds_nothing by (auto simp: mod_os_remove_def rbind_eq_Inr)
next
  case False
  obtain q st h w1 where op: "sfp_Open fw q FILE_RW 0 w = Inr (st, h, w1)"
      "w' = CLOSE_FILE lib h w1 \<or> (\<exists>f i w2. h = Some f \<and> get_info lib f w1 = (i, w2)
         \<and> (w' = CLOSE_FILE lib h w2 \<or> (\<exists>st2. delete_file lib f w2 = (st2, w'))))"
    using assms False by (auto simp: mod_os_remove_def rbind_eq_Inr split: if_splits option.splits prod.splits)
  then consider "w' = CLOSE_FILE lib h w1" | f i w2 where "get_info lib f w1 = (i, w2)" "w' = CLOSE_FILE lib h w2"
    | f i w2 st2 where "h = Some f" "get_info lib f w1 = (i, w2)" "delete_file lib f w2 = (st2, w')" by blast
  then show ?thesis
  proof cases
    case 3
    have "adds w w' [Opened f, Deleted f]" using adds_open [OF op(1)] 3(1) adds_info [OF 3(2)] adds_delete [OF 3(3)] by (simp add: adds_def)
    then show ?thesis using balanced_simps(3) by blast
  qed (use open_close [OF op(1), of _ lib] adds_refl adds_info in blast)+
qed

lemma rename_releases:
  assumes "mod_os_rename fw lib loc s d w = Inr (r, w')"
  shows "\<exists>es. adds w w' es \<and> balanced es"
proof (cases "EFI_ERROR loc")
  case True
  then show ?thesis using assms adds_nothing by (auto simp: mod_os_rename_def rbind_eq_Inr)
next
  case False
  obtain q st h w1 where op: "sfp_Open fw q FILE_RW 0 w = Inr (st, h, w1)"
      "w' = CLOSE_FILE lib h w1 \<or> (\<exists>f i w2 fs. get_info lib f w1 = (i, w2)
         \<and> (w' = CLOSE_FILE lib h w2 \<or> w' = CLOSE_FILE lib h (w2\<lparr>o_fs := fs\<rparr>)))"
    using assms False by (auto simp: mod_os_rename_def rbind_eq_Inr split: if_splits option.splits prod.splits) blast+
  have upd: "adds w1 (w2\<lparr>o_fs := fs\<rparr>) []" if "get_info lib f w1 = (i, w2)" for f i w2 fs
    using adds_info [OF that] by (simp add: adds_def)
  show ?thesis using op(2) open_close [OF op(1), of _ lib] adds_refl adds_info upd by blast
qed

lemma chdir_releases:
  assumes "mod_os_chdir fw lib loc p w = Inr (r, w')"
  shows "\<exists>es. adds w w' es \<and> balanced es"
proof (cases "EFI_ERROR loc")
  case True
  then show ?thesis using assms adds_nothing by (auto simp: mod_os_chdir_def rbind_eq_Inr)
next
  case False
  obtain q st h w1 where op: "sfp_Open fw q FILE_READ 0 w = Inr (st, h, w1)"
      "w' = CLOSE_FILE lib h w1 \<or> (\<exists>u ev. w' = CLOSE_FILE lib h (w1\<lparr>o_usf := u, o_vols := o_vols w1 @ ev\<rparr>))"
    using assms False by (auto simp: mod_os_chdir_def rbind_eq_Inr split: if_splits) blast
  moreover have "adds w1 (w1\<lparr>o_usf := u, o_vols := v\<rparr>) []" for u v by (simp add: adds_def)
  ultimately show ?thesis using open_close [OF op(1), of _ lib] adds_refl by blast
qed

text \<open>Calls that raise nothing but statuses.\<close>

definition statuses_only :: "(unit, 't, 'fs, 'r) os_call \<Rightarrow> bool" where
  "statuses_only c \<longleftrightarrow> (\<forall>r w. c = Inr (r, w) \<longrightarrow> raised r \<noteq> Some MemoryError)"

lemma statuses_only_intros [simp]: "statuses_only (Inl e)" "statuses_only (Inr (raise_status st (), w))"
  by (simp_all add: statuses_only_def raise_no_memory_error)

lemma statuses_only_bind [intro!]: "(\<And>y. statuses_only (f y)) \<Longrightarrow> statuses_only (rbind c f)"
  by (cases c) (simp_all add: statuses_only_def)

lemma calls_raise_statuses:
  "statuses_only (mod_os_mkdir fw lib loc p w)" "statuses_only (mod_os_remove fw lib loc p w)"
  "statuses_only (mod_os_rename fw lib loc p q w)" "statuses_only (mod_os_chdir fw lib loc p w)"
  by (auto simp: mod_os_mkdir_def mod_os_remove_def mod_os_rename_def mod_os_chdir_def split: option.split prod.split)

lemmas raise_statuses = calls_raise_statuses [unfolded statuses_only_def, rule_format]

text \<open>
  C32. \<open>mkdir\<close>, \<open>stat\<close>, \<open>remove\<close>, \<open>rename\<close> and \<open>chdir\<close> release every file handle they open exactly once, by closing or by deleting
  it, on every path that does not fault, exceptions included, with one exception: \<open>MemoryError\<close>, which only \<open>stat\<close> can raise, when there is no
  memory for its result, and which leaves the one handle it opened open. For \<open>mkdir\<close> a call that fails to open the path
  must return no handle.
\<close>

theorem os_calls_release:
  assumes "fails_clean fw op w" and "run_op fw lib loc grant op w = Inr (x, w')"
  shows "\<exists>es. o_log w' = o_log w @ es
    \<and> (if x = Some MemoryError then \<not> grant \<and> (\<exists>p f. op = Stat p \<and> es = [Opened f]) else balanced es)"
proof (cases op)
  case (Stat p)
  then obtain r where "mod_os_stat fw lib loc grant p w = Inr (r, w')" "x = raised r"
    using assms(2) by (auto simp: run_op_def rbind_eq_Inr)
  then show ?thesis using stat_releases [of fw lib loc grant p w r w'] Stat by (auto simp: adds_def split: if_splits)
next
  case (Mkdir p)
  then show ?thesis using assms mkdir_releases [of fw p w lib loc] raise_statuses by (fastforce simp: run_op_def rbind_eq_Inr adds_def)
next
  case (Remove p)
  then show ?thesis using assms(2) remove_releases [of fw lib loc p w] raise_statuses by (fastforce simp: run_op_def rbind_eq_Inr adds_def)
next
  case (Rename s d)
  then show ?thesis using assms(2) rename_releases [of fw lib loc s d w] raise_statuses by (fastforce simp: run_op_def rbind_eq_Inr adds_def)
next
  case (Chdir p)
  then show ?thesis using assms(2) chdir_releases [of fw lib loc p w] raise_statuses by (fastforce simp: run_op_def rbind_eq_Inr adds_def)
qed

text \<open>A volume on which nothing can be opened for reading, and new directories can be made.\<close>

definition new_volume :: "(nat, nat, nat) usf_firmware" where
  "new_volume = no_shell\<lparr>VolOpen := (\<lambda>r name mode attrs.
     if mode = unat FILE_READ then (EFI_NOT_FOUND, None) else (EFI_SUCCESS, Some (FsHandle (10 + r))))\<rparr>"

lemma new_volume_open:
  "sfp_Open new_volume dir_path mode attrs w = Inr (if unat mode = unat FILE_READ then (EFI_NOT_FOUND, None, w\<lparr>o_vols := o_vols w @ [OpenVol 2, CloseVol 2]\<rparr>)
     else (EFI_SUCCESS, Some (FsHandle 12), w\<lparr>o_vols := o_vols w @ [OpenVol 2, CloseVol 2], o_log := o_log w @ [Opened (FsHandle 12)]\<rparr>))"
proof -
  have "first_named new_volume [70, 83, 2, DRIVE] [1, 2] 2" unfolding first_named_def
    by (rule exI [of _ "[1]"], rule exI [of _ "[]"]) (simp add: new_volume_def no_shell_def path_consts)
  then have "UsfOpen new_volume cd (Some dir_path) m a = Inr (if m = unat FILE_READ then (EFI_NOT_FOUND, None, [OpenVol 2, CloseVol 2])
      else (EFI_SUCCESS, Some (FsHandle 12), [OpenVol 2, CloseVol 2]))" for cd m a
    unfolding dir_path_def
    by (subst UsfOpen_internal [where sth = EFI_SUCCESS and stv = EFI_SUCCESS and hs = "[1, 2]" and h = 2
          and st = "if m = unat FILE_READ then EFI_NOT_FOUND else EFI_SUCCESS" and fh = "if m = unat FILE_READ then None else Some (FsHandle 12)"])
       (simp_all add: new_volume_def no_shell_def path_consts)
  then show ?thesis by (simp add: sfp_Open_def log_event_def)
qed

lemma small_stat: "\<exists>s. stat_of (file_info name attr) = Inr s"
  by (simp add: stat_of_def file_info_def seconds_of_def midnight_def timeutils_seconds_since_2000_def timeutils_year_day_def table_def
      days_since_jan1_def)

lemma small_info: "get_info (small_os del) (FsHandle 12) w = (Some (file_info [97] EFI_FILE_DIRECTORY), w)"
  by (simp add: get_info_def small_os_def)

text \<open>Making a directory behind a first open that fails, and a \<open>stat\<close> without memory.\<close>

theorem os_calls_release_witness:
  "(\<exists>w'. run_op new_volume (small_os EFI_SUCCESS) EFI_SUCCESS True (Mkdir (utf8_of dir_path)) (os_start 1) = Inr (None, w')
     \<and> balanced (o_log w') \<and> o_log w' = [Opened (FsHandle 12), Closed (FsHandle 12)])
   \<and> (\<exists>w'. run_op no_shell (small_os EFI_SUCCESS) EFI_SUCCESS False (Stat (utf8_of dir_path)) (os_start 1) = Inr (Some MemoryError, w')
     \<and> o_log w' = [Opened (FsHandle 12)])"
proof
  have ne: "unat (FILE_RW OR EFI_FILE_MODE_CREATE) \<noteq> unat FILE_READ"
    by (simp add: FILE_RW_def FILE_READ_def EFI_FILE_MODE_READ_def EFI_FILE_MODE_WRITE_def EFI_FILE_MODE_CREATE_def)
  obtain w' where w': "run_op new_volume (small_os EFI_SUCCESS) EFI_SUCCESS True (Mkdir (utf8_of dir_path)) (os_start 1) = Inr (None, w')"
      "o_log w' = [Opened (FsHandle 12), Closed (FsHandle 12)]"
    using ne by (simp add: run_op_def mod_os_mkdir_def dir_path_opens(1) new_volume_open raise_status_def raised_def CLOSE_FILE_def log_event_def os_start_def)
  have "fails_clean new_volume (Mkdir (utf8_of dir_path)) (os_start 1)" by (simp add: fails_clean_def dir_path_opens(1) new_volume_open)
  then show "\<exists>w'. run_op new_volume (small_os EFI_SUCCESS) EFI_SUCCESS True (Mkdir (utf8_of dir_path)) (os_start 1) = Inr (None, w')
      \<and> balanced (o_log w') \<and> o_log w' = [Opened (FsHandle 12), Closed (FsHandle 12)]"
    using os_calls_release [OF _ w'(1)] w' by (auto simp: os_start_def)
  obtain v where v: "run_op no_shell (small_os EFI_SUCCESS) EFI_SUCCESS False (Stat (utf8_of dir_path)) (os_start 1) = Inr (Some MemoryError, v)"
      "o_log v = [Opened (FsHandle 12)]"
    by (simp add: run_op_def mod_os_stat_def dir_path_opens small_info raised_def)
  have "fails_clean no_shell (Stat (utf8_of dir_path)) (os_start 1)" by (simp add: fails_clean_def)
  then show "\<exists>w'. run_op no_shell (small_os EFI_SUCCESS) EFI_SUCCESS False (Stat (utf8_of dir_path)) (os_start 1) = Inr (Some MemoryError, w')
      \<and> o_log w' = [Opened (FsHandle 12)]"
    using os_calls_release [OF _ v(1)] v by blast
qed

section \<open>Listing a directory\<close>

text \<open>The entries a directory delivers from a state on: behind an entry, and from the start.\<close>

inductive delivers :: "'fs os_lib \<Rightarrow> EFI_FILE_HANDLE \<Rightarrow> EFI_FILE_INFO \<Rightarrow> 'fs \<Rightarrow> EFI_FILE_INFO list \<Rightarrow> 'fs \<Rightarrow> bool"
  for lib h where
  stop: "os_FindNext lib h i fs = (st, j, nofile, fs') \<Longrightarrow> EFI_ERROR st \<or> nofile \<Longrightarrow> delivers lib h i fs [] fs'"
| more: "os_FindNext lib h i fs = (st, j, False, fs1) \<Longrightarrow> \<not> EFI_ERROR st \<Longrightarrow> delivers lib h j fs1 es fs'
    \<Longrightarrow> delivers lib h i fs (j # es) fs'"

inductive enumerates :: "'fs os_lib \<Rightarrow> EFI_FILE_HANDLE \<Rightarrow> 'fs \<Rightarrow> EFI_FILE_INFO list \<Rightarrow> 'fs \<Rightarrow> bool" for lib h where
  none: "os_FindFirst lib h fs = (st, i, fs') \<Longrightarrow> EFI_ERROR st \<or> i = None \<Longrightarrow> enumerates lib h fs [] fs'"
| some: "os_FindFirst lib h fs = (st, Some i, fs1) \<Longrightarrow> \<not> EFI_ERROR st \<Longrightarrow> delivers lib h i fs1 es fs'
    \<Longrightarrow> enumerates lib h fs (i # es) fs'"

definition entry_of :: "EFI_FILE_INFO \<Rightarrow> byte list \<times> int \<times> int \<times> int" where
  "entry_of i = (utf8_of (FileName i), if is_dir i then 0x4000 else 0x8000, 0, uint (FileSize i))"

lemma entry_tuple_of: "entry_tuple i = Inr (entry_of i)"
  using UnicodeToUtf8_ok [of "FileName i" "[]"] by (simp add: entry_tuple_def entry_of_def FILE_TYPE_DIR_def FILE_TYPE_FILE_def)

abbreviation closed_at :: "'fs os_lib \<Rightarrow> EFI_FILE_HANDLE \<Rightarrow> 'fs \<Rightarrow> ('t, 'fs, 'r) os_world \<Rightarrow> ('t, 'fs, 'r) os_world" where
  "closed_at lib h fs w \<equiv> CLOSE_FILE lib (Some h) (w\<lparr>o_fs := fs\<rparr>)"

lemma list_loop_delivers:
  fixes w :: "('t, 'fs, 'r) os_world"
  assumes "delivers lib h i fs es fs'" and "length es < k" and "o_fs w = fs"
  shows "list_loop lib k \<lparr>it_fh = h, openlist = Some i\<rparr> w = Some (Inr (map entry_of es, closed_at lib h fs' w))"
  using assms
proof (induction arbitrary: k w rule: delivers.induct)
  case (stop i fs st j nofile fs')
  then obtain k' where "k = Suc k'" by (cases k) auto
  then show ?case using stop by (auto simp: listdir_next_def find_next_def Let_def)
next
  case (more i fs st j fs1 es fs')
  then obtain k' where k: "k = Suc k'" "length es < k'" by (cases k) auto
  have "listdir_next lib \<lparr>it_fh = h, openlist = Some i\<rparr> w = Inr (Some (entry_of j), \<lparr>it_fh = h, openlist = Some j\<rparr>, w\<lparr>o_fs := fs1\<rparr>)"
    using more.hyps more.prems(2) by (simp add: listdir_next_def find_next_def Let_def entry_tuple_of)
  then show ?case using more.IH [OF k(2), of "w\<lparr>o_fs := fs1\<rparr>"] k(1) by simp
qed

lemma list_loop_enumerates:
  fixes w :: "('t, 'fs, 'r) os_world"
  assumes "enumerates lib h (o_fs w) es fs'" and "length es < k"
  shows "list_loop lib k \<lparr>it_fh = h, openlist = None\<rparr> w = Some (Inr (map entry_of es, closed_at lib h fs' w))"
  using assms(1)
proof cases
  case (none st i)
  then show ?thesis using assms(2) by (cases k) (auto simp: listdir_next_def find_first_def Let_def split: option.splits)
next
  case (some st i fs1 es1)
  then obtain k' where k: "k = Suc k'" "length es1 < k'" using assms(2) by (cases k) auto
  have "listdir_next lib \<lparr>it_fh = h, openlist = None\<rparr> w = Inr (Some (entry_of i), \<lparr>it_fh = h, openlist = Some i\<rparr>, w\<lparr>o_fs := fs1\<rparr>)"
    using some by (simp add: listdir_next_def find_first_def Let_def entry_tuple_of)
  then show ?thesis using list_loop_delivers [OF some(4) k(2), of "w\<lparr>o_fs := fs1\<rparr>"] k(1) some(1) by simp
qed

text \<open>
  C33. \<open>listdir\<close> returns a tuple for each entry the directory delivers, in their order, with the name in UTF-8, the type and the
  size, for every number of entries, and closes the directory once behind the last one.
\<close>

theorem listdir_returns_entries:
  assumes "\<not> EFI_ERROR loc" and "to_path path = Inr p" and "sfp_Open fw p FILE_READ 0 w = Inr (EFI_SUCCESS, Some f, w1)"
    and "enumerates lib f (o_fs w1) es fs'" and "length es < fuel"
  shows "\<exists>w'. mod_os_listdir fw lib loc fuel (Some path) w = Some (Inr (map entry_of es, w'))
    \<and> o_log w' = o_log w @ [Opened f, Closed f] \<and> o_fs w' = os_Close lib f fs'"
proof -
  have "o_log w1 = o_log w @ [Opened f]" using adds_open [OF assms(3)] by (simp add: adds_def)
  then show ?thesis using assms(1-3) list_loop_enumerates [OF assms(4,5)]
    by (simp add: mod_os_listdir_def mod_os_ilistdir_def CLOSE_FILE_def log_event_def)
qed

lemma small_delivers: "delivers (small_os del) h i fs (replicate fs i) 0"
proof (induction fs)
  case 0
  show ?case unfolding replicate.simps by (rule delivers.stop [where st = EFI_SUCCESS and j = i and nofile = True]) (simp_all add: small_os_def)
next
  case (Suc n)
  then show ?case unfolding replicate.simps by (intro delivers.more [of _ _ _ _ EFI_SUCCESS _ n]) (simp_all add: small_os_def)
qed

theorem listdir_returns_entries_witness:
  "\<exists>w'. mod_os_listdir no_shell (small_os EFI_SUCCESS) EFI_SUCCESS 5 (Some (utf8_of dir_path)) (os_start 2)
      = Some (Inr ([([98], 0x8000, 0, 5), ([98], 0x8000, 0, 5)], w'))
    \<and> o_log w' = [Opened (FsHandle 12), Closed (FsHandle 12)]"
proof -
  let ?i = "file_info [98] 0" and ?w = "(os_start 2)\<lparr>o_vols := [OpenVol 2, CloseVol 2], o_log := [Opened (FsHandle 12)]\<rparr>"
  have "enumerates (small_os EFI_SUCCESS) (FsHandle 12) (o_fs ?w) [?i, ?i] 0"
    using small_delivers [of EFI_SUCCESS "FsHandle 12" ?i 1]
    by (intro enumerates.some [of _ _ _ EFI_SUCCESS _ 1]) (simp_all add: small_os_def os_start_def)
  moreover have "entry_of ?i = ([98], 0x8000, 0, 5)" by (simp add: entry_of_def file_info_def is_dir_def utf8_bytes_def)
  ultimately show ?thesis
    using listdir_returns_entries [OF _ dir_path_opens(1) dir_path_opens(2) [of FILE_READ 2],
        where loc = EFI_SUCCESS and lib = "small_os EFI_SUCCESS" and es = "[?i, ?i]" and fs' = 0 and fuel = 5]
    by (simp add: os_start_def) blast
qed

text \<open>A path that cannot be opened gives the empty tuple, and \<open>listdir\<close> takes the empty tuple for an iterator.\<close>

lemma listdir_missing_path:
  "\<not> EFI_ERROR loc \<Longrightarrow> to_path path = Inr p \<Longrightarrow> sfp_Open fw p FILE_READ 0 w = Inr (st, h, w1) \<Longrightarrow> EFI_ERROR st
    \<Longrightarrow> mod_os_listdir fw lib loc fuel (Some path) w = Some (Inl OutOfBounds)"
  by (simp add: mod_os_listdir_def mod_os_ilistdir_def)

section \<open>Sizes\<close>

lemma EFI_ERROR_not_success: "EFI_ERROR st \<Longrightarrow> st \<noteq> EFI_SUCCESS"
  by auto

text \<open>
  Without the random number protocol \<open>urandom\<close> writes 2, 4 or 8 bytes to a buffer of the size that was asked for: it
  returns for exactly these three sizes, every smaller size overruns the buffer, and every greater one raises
  the status of the missing protocol.
\<close>

theorem urandom_without_protocol:
  assumes "EFI_ERROR (RngProtocol src)" and "\<And>k. RdRand src k = Some (bytes k)"
  shows "mod_os_urandom src True n =
    (if n \<in> {2, 4, 8} then Inr (Inr (bytes n)) else if n < 8 then Inl OutOfBounds else Inr (Inl (OSErrorStatus (RngProtocol src))))"
proof -
  have "n \<in> {0, 1, 2, 3, 4, 5, 6, 7, 8} \<or> n > 8" by auto
  then show ?thesis using assms by (auto simp: mod_os_urandom_def rdrand_width_def raise_status_def EFI_ERROR_not_success)
qed

theorem urandom_without_protocol_witness:
  "mod_os_urandom \<lparr>RngProtocol = EFI_NOT_FOUND, GetRNG = \<lambda>_. (EFI_SUCCESS, []), RdRand = \<lambda>k. Some (replicate k 7)\<rparr> True 3 = Inl OutOfBounds"
  using urandom_without_protocol [of "\<lparr>RngProtocol = EFI_NOT_FOUND, GetRNG = \<lambda>_. (EFI_SUCCESS, []), RdRand = \<lambda>k. Some (replicate k 7)\<rparr>"
      "\<lambda>k. replicate k 7" 3] by simp

text \<open>The characters of the new name that \<open>FileHandleSetInfo\<close> hands to the driver: 80 bytes precede the name.\<close>

definition passed_name :: "EFI_FILE_INFO \<Rightarrow> w16 list" where
  "passed_name i = take ((InfoSize i - 80) div 2) (FileName i @ [0])"

text \<open>
  \<open>rename\<close> hands the driver as many bytes as the information of the source has: when the old name is longer than the new one
  by more than three characters, it reads behind the buffer; when it is shorter, the driver gets the
  new name cut to its length and without a terminator.
\<close>

theorem rename_uses_source_size:
  assumes "to_path src = Inr s" and "to_path dst = Inr d" and "\<not> EFI_ERROR loc"
    and "sfp_Open fw s FILE_RW 0 w = Inr (EFI_SUCCESS, Some f, w1)"
    and "os_GetInfo lib f (o_fs w1) = (Some i, fs)" and "InfoSize i = 82 + 2 * length (FileName i)"
  shows "(if length (FileName i) > length d + 3 then mod_os_rename fw lib loc src dst w = Inl OutOfBounds
     else let j = rename_info i d in passed_name j = take (Suc (length (FileName i))) (d @ [0])
       \<and> (\<exists>w'. mod_os_rename fw lib loc src dst w = Inr (raise_status (fst (os_SetInfo lib f j fs)) (), w')
            \<and> o_fs w' = os_Close lib f (snd (os_SetInfo lib f j fs))))"
proof -
  have "passed_name (rename_info i d) = take (Suc (length (FileName i))) (d @ [0])" using assms(6)
    by (simp add: passed_name_def rename_info_def)
  moreover have "mod_os_rename fw lib loc src dst w =
      (if length (FileName i) > length d + 3 then Inl OutOfBounds
       else Inr (raise_status (fst (os_SetInfo lib f (rename_info i d) fs)) (),
         CLOSE_FILE lib (Some f) (w1\<lparr>o_fs := snd (os_SetInfo lib f (rename_info i d) fs)\<rparr>)))"
    using assms by (auto simp: mod_os_rename_def get_info_def rename_buffer_def split: prod.splits)
  ultimately show ?thesis by (auto simp: CLOSE_FILE_def log_event_def Let_def)
qed

theorem rename_uses_source_size_witness:
  "passed_name (rename_info (file_info [97] EFI_FILE_DIRECTORY) [97, 98, 99]) = [97, 98]
    \<and> (\<exists>w'. mod_os_rename no_shell (small_os EFI_SUCCESS) EFI_SUCCESS (utf8_of dir_path) (utf8_of [97, 98, 99]) (os_start 1) = Inr (Inr (), w'))"
proof -
  let ?w = "(os_start 1)\<lparr>o_vols := [OpenVol 2, CloseVol 2], o_log := [Opened (FsHandle 12)]\<rparr>" and ?i = "file_info [97] EFI_FILE_DIRECTORY"
  have "to_path (utf8_of [97, 98, 99]) = Inr [97, 98, 99]" by (rule to_path_utf8) simp
  moreover have "os_GetInfo (small_os EFI_SUCCESS) (FsHandle 12) (o_fs ?w) = (Some ?i, 1)" by (simp add: small_os_def os_start_def)
  moreover have "InfoSize ?i = 82 + 2 * length (FileName ?i)" "length (FileName ?i) = 1" by (simp_all add: file_info_def)
  moreover have "os_SetInfo (small_os EFI_SUCCESS) (FsHandle 12) j fs = (EFI_SUCCESS, fs)" for j fs by (simp add: small_os_def)
  ultimately show ?thesis
    using rename_uses_source_size [OF dir_path_opens(1) _ _ dir_path_opens(2) [of FILE_RW 1], where d = "[97, 98, 99]" and dst = "utf8_of [97, 98, 99]" and loc = EFI_SUCCESS
        and i = ?i and fs = 1 and lib = "small_os EFI_SUCCESS"]
    by (auto simp: Let_def raise_status_def simp del: utf8_of_simps)
qed

section \<open>SMBIOS strings\<close>

definition smbios_strings :: "byte list list \<Rightarrow> byte list \<Rightarrow> byte list" where
  "smbios_strings ss rest = concat (map (\<lambda>s. s @ [0]) ss) @ 0 # rest"

lemma takeWhile_nul: "0 \<notin> set s \<Longrightarrow> takeWhile (\<lambda>c. c \<noteq> 0) (s @ 0 # t) = s" for s :: "byte list"
  by (induction s) auto

lemma smbios_walk_strings:
  assumes "\<forall>s \<in> set ss. s \<noteq> [] \<and> 0 \<notin> set s"
  shows "smbios_walk n (smbios_strings ss rest) = Inr (if n \<le> length ss then Some (smbios_strings (drop n ss) rest) else None)"
  using assms
proof (induction ss arbitrary: n)
  case Nil
  then show ?case by (cases n) (simp_all add: smbios_strings_def)
next
  case (Cons s ss)
  show ?case
  proof (cases n)
    case (Suc m)
    have "smbios_strings (s # ss) rest = s @ 0 # smbios_strings ss rest" by (simp add: smbios_strings_def)
    then show ?thesis using Cons Suc by (simp add: takeWhile_nul)
  qed simp
qed

lemma get_smbios_string_strings:
  assumes "\<forall>s \<in> set ss. s \<noteq> [] \<and> 0 \<notin> set s"
  shows "get_smbios_string (smbios_strings ss rest) n = Inr (if n \<in> {1..length ss} then ss ! (n - 1) else [])"
proof (cases "n - 1 < length ss")
  case True
  then have "smbios_strings (drop (n - 1) ss) rest = (ss ! (n - 1)) @ 0 # smbios_strings (drop (Suc (n - 1)) ss) rest"
    by (simp add: smbios_strings_def Cons_nth_drop_Suc [symmetric])
  moreover have "0 \<notin> set (ss ! (n - 1))" using assms True by simp
  ultimately show ?thesis using True smbios_walk_strings [OF assms, of "n - 1" rest]
    by (auto simp: get_smbios_string_def takeWhile_nul)
next
  case False
  then show ?thesis using smbios_walk_strings [OF assms, of "n - 1" rest]
    by (auto simp: get_smbios_string_def smbios_strings_def)
qed

end
