(* ===== verification/Script_Engine.thy ===== *)
theory Script_Engine
  imports Fd_File Repl
begin

text \<open>
  \<open>MicroPythonDxe/Uefi/use.c\<close>, the script engine protocol, and the driver entry points of \<open>main.c\<close>.

  A script runs on a stack of its own. It leaves this stack when it ends, and when it calls
  \<open>UpySuspend\<close> in an asynchronous run; then a timer event brings the control back
  (\<open>SetJump\<close>, \<open>LongJump\<close>, \<open>SwitchStack\<close>). The interpreter is the record \<open>interp\<close>: starting a source, a line of
  the prompt or a suspended script yields a next suspension, with the rest of the script
  as a value of \<open>'k\<close>, or the end. A saved context is this value with the stack
  it lives on and the source it will free; a jump to a context whose stack is gone is a
  \<open>UseAfterFree\<close>. \<open>None\<close> is a script that never comes back.

  The interpreter's objects live on its heap: without one, using the interpreter is a \<open>NullDeref\<close>. Pages and pool buffers
  are counted: \<open>free_pages\<close> is what the firmware can still hand out,
  \<open>sources\<close> are the source buffers that have not been freed.
\<close>

section \<open>The interpreter\<close>

datatype exit_value = ExitNone | ExitInt int | ExitOther

datatype exc = SystemExit exit_value | OtherExc "byte list"

text \<open>A script ends normally, perhaps with a pending exception, or by an exception.\<close>

datatype script_end = EndOk "exc option" | Raised exc

datatype 'k outcome = Yield w64 'k | End script_end

text \<open>\<open>Resume\<close> is told whether \<open>UpySuspend\<close> returned (\<open>True\<close>) or raised an exception.\<close>

record ('k, 'm) interp =
  Fresh :: 'm
  RunStr :: "byte list \<Rightarrow> 'm \<Rightarrow> 'k outcome \<times> 'm"
  RunLine :: "repl_exit \<Rightarrow> byte list \<Rightarrow> 'm \<Rightarrow> 'k outcome \<times> 'm"
  Resume :: "'k \<Rightarrow> bool \<Rightarrow> 'm \<Rightarrow> 'k outcome \<times> 'm"
  Collect :: "'m \<Rightarrow> 'm"

section \<open>State\<close>

type_synonym 'k jump_context = "'k \<times> nat \<times> nat option"

record 'k UPY_EXECUTOR_DATA =
  ExecEvent :: "nat option"
  ExecStatus :: efi_status
  ScriptEngineProtocol :: bool
  Script :: "nat option"
  ScriptLength :: nat
  ScriptEngineContext :: "'k jump_context option"
  ScriptEngineStack :: "nat option"
  ScriptEngineStackSize :: nat
  IsRunning :: bool
  DeinitAfterwards :: bool

record ('k, 'm, 't, 'r) engine =
  mExecutorData :: "'k UPY_EXECUTOR_DATA"
  mHeap :: bool
  vm :: 'm
  sys_argv :: "byte list list"
  sys_path :: "byte list list"
  StackTop :: nat
  StackLimit :: nat
  e_usf :: "'t USF_PRIVATE_DATA"
  e_vols :: "'r vol_event list"
  prompt :: "(repl_exit \<times> byte list) list"
  printed :: "(EFI_FILE_HANDLE \<times> byte list) list"
  sources :: "nat \<Rightarrow> byte list option"
  stacks :: "nat list"
  next_stack :: nat
  free_pages :: nat
  events :: nat
  timers :: "nat \<Rightarrow> w64 option"

definition mStackSize :: nat where "mStackSize = 0x40000"
definition mHeapSize :: nat where "mHeapSize = 0x4000000"

definition EFI_SIZE_TO_PAGES :: "nat \<Rightarrow> nat" where
  "EFI_SIZE_TO_PAGES n = n div 4096 + (if n mod 4096 = 0 then 0 else 1)"

definition UPY_ASYNC_EXEC_TIMER_INTERVAL :: w64 where
  "UPY_ASYNC_EXEC_TIMER_INTERVAL = (100 * 1000 * 1000) div 100"

definition upd :: "('k UPY_EXECUTOR_DATA \<Rightarrow> 'k UPY_EXECUTOR_DATA) \<Rightarrow> ('k, 'm, 't, 'r) engine \<Rightarrow> ('k, 'm, 't, 'r) engine" where
  "upd f e = e\<lparr>mExecutorData := f (mExecutorData e)\<rparr>"

section \<open>Exceptions\<close>

text \<open>The stream for messages is standard output; standard error only if there is no standard output.\<close>

definition stderr_print_strn :: "byte list \<Rightarrow> ('k, 'm, 't, 'r) engine \<Rightarrow> ('k, 'm, 't, 'r) engine" where
  "stderr_print_strn s e =
     (let h = (case UsfGetFileHandle 1 (e_usf e) of (st, out) \<Rightarrow>
                 if EFI_ERROR st then snd (UsfGetFileHandle 2 (e_usf e)) else out) in
      case h of None \<Rightarrow> e | Some f \<Rightarrow> e\<lparr>printed := printed e @ [(f, s)]\<rparr>)"

definition FORCED_EXIT :: int where "FORCED_EXIT = 0x100"

definition exit_int :: "exit_value \<Rightarrow> int" where
  "exit_int v = (case v of ExitNone \<Rightarrow> 0 | ExitInt i \<Rightarrow> i | ExitOther \<Rightarrow> 1)"

definition handle_uncaught_exception :: "exc \<Rightarrow> ('k, 'm, 't, 'r) engine \<Rightarrow> int \<times> ('k, 'm, 't, 'r) engine" where
  "handle_uncaught_exception x e =
     (case x of
        SystemExit v \<Rightarrow> (FORCED_EXIT OR (exit_int v AND 255), e)
      | OtherExc msg \<Rightarrow> (1, stderr_print_strn [13, 10] (stderr_print_strn msg e)))"

text \<open>The end of \<open>execute_from_lexer\<close>: a pending exception is raised, and every exception is handled.\<close>

definition execute_end :: "script_end \<Rightarrow> ('k, 'm, 't, 'r) engine \<Rightarrow> int \<times> ('k, 'm, 't, 'r) engine" where
  "execute_end x e =
     (case x of
        EndOk None \<Rightarrow> (0, e)
      | EndOk (Some p) \<Rightarrow> handle_uncaught_exception p e
      | Raised p \<Rightarrow> handle_uncaught_exception p e)"

section \<open>Running a script\<close>

text \<open>
  \<open>UpySuspend\<close>: without an event it raises an exception (\<open>None\<close>); otherwise it jumps to the executor with the
  time above the lowest eight bits.
\<close>

definition UpySuspend :: "nat option \<Rightarrow> w64 \<Rightarrow> w64 option" where
  "UpySuspend event ms = (case event of None \<Rightarrow> None | Some _ \<Rightarrow> Some (push_bit 8 ms OR 1))"

text \<open>The interpreter runs until it leaves its stack.\<close>

partial_function (option) run_engine ::
  "('k, 'm) interp \<Rightarrow> nat option \<Rightarrow> 'k outcome \<times> 'm \<Rightarrow> ('k outcome \<times> 'm) option" where
  "run_engine I event s =
     (case s of (out, m) \<Rightarrow>
        (case out of
           End x \<Rightarrow> Some (End x, m)
         | Yield ms k \<Rightarrow>
             (case UpySuspend event ms of
                None \<Rightarrow> run_engine I event (Resume I k False m)
              | Some _ \<Rightarrow> Some (Yield ms k, m))))"

text \<open>
  \<open>DoRepl\<close>: \<open>prompt\<close> holds what \<open>ReplLoop\<close> returns from now on; when it is used up, the prompt waits. The prompt
  is only started by \<open>UpyExecute\<close>, which has no event, so that a line cannot suspend.
\<close>

fun repl_loop :: "('k, 'm) interp \<Rightarrow> (repl_exit \<times> byte list) list \<Rightarrow> ('k, 'm, 't, 'r) engine \<Rightarrow> (int \<times> ('k, 'm, 't, 'r) engine) option" where
  "repl_loop I [] e = None"
| "repl_loop I ((kind, line) # rest) e =
     (if kind = ExitRepl then Some (0, e\<lparr>prompt := rest\<rparr>)
      else if line = [] then repl_loop I rest e
      else (case run_engine I None (RunLine I kind line (vm e)) of
              None \<Rightarrow> None
            | Some (Yield _ _, _) \<Rightarrow> None
            | Some (End x, m) \<Rightarrow>
                (case execute_end x (e\<lparr>vm := m\<rparr>) of (ret, e1) \<Rightarrow>
                   if ret AND 0x100 \<noteq> 0 then Some (ret, e1\<lparr>prompt := rest\<rparr>) else repl_loop I rest e1)))"

definition DoRepl :: "('k, 'm) interp \<Rightarrow> ('k, 'm, 't, 'r) engine \<Rightarrow> (int \<times> ('k, 'm, 't, 'r) engine) option" where
  "DoRepl I e = repl_loop I (prompt e) e"

text \<open>The header of a compiled script, and the text of another one up to its terminator.\<close>

definition MPY_FEATURE_FLAGS_DYNAMIC :: byte where "MPY_FEATURE_FLAGS_DYNAMIC = 3"

definition is_mpy :: "byte list \<Rightarrow> bool result" where
  "is_mpy src =
     rbind (rd src 0) (\<lambda>a. if a \<noteq> 77 then Inr False else
     rbind (rd src 1) (\<lambda>b. if b \<noteq> 0 then Inr False else
     rbind (rd src 2) (\<lambda>c. Inr (c = MPY_FEATURE_FLAGS_DYNAMIC))))"

definition DoMpy :: "byte list \<Rightarrow> int" where
  "DoMpy buf = 0"

definition source_text :: "byte list \<Rightarrow> byte list result" where
  "source_text src = (if 0 \<in> set src then Inr (takeWhile (\<lambda>c. c \<noteq> 0) src) else Inl OutOfBounds)"

type_synonym ('k, 'm, 't, 'r) step = "('k, 'm, 't, 'r) engine result option"

text \<open>The end of \<open>UpyDoScript\<close>: the jump value is 2.\<close>

definition finish_script ::
  "('k, 'm) interp \<Rightarrow> nat option \<Rightarrow> int \<Rightarrow> ('k, 'm, 't, 'r) engine \<Rightarrow> (w64 \<times> ('k, 'm, 't, 'r) engine) result" where
  "finish_script I src code e =
     rbind (case src of
              None \<Rightarrow> Inr e
            | Some a \<Rightarrow> (case sources e a of None \<Rightarrow> Inl DoubleFree | Some _ \<Rightarrow> Inr (e\<lparr>sources := (sources e)(a := None)\<rparr>))) (\<lambda>e1.
       Inr (2, upd (\<lambda>d. d\<lparr>ExecStatus := if code \<noteq> 0 then EFI_LOAD_ERROR else EFI_SUCCESS\<rparr>) (e1\<lparr>vm := Collect I (vm e1)\<rparr>)))"

text \<open>The script leaves its stack, with the value for the jump to the executor.\<close>

definition leave_stack ::
  "('k, 'm) interp \<Rightarrow> nat option \<Rightarrow> nat \<Rightarrow> ('k outcome \<times> 'm) option \<Rightarrow> ('k, 'm, 't, 'r) engine \<Rightarrow> (w64 \<times> ('k, 'm, 't, 'r) engine) result option" where
  "leave_stack I src stack r e =
     (case r of
        None \<Rightarrow> None
      | Some (Yield ms k, m) \<Rightarrow>
          Some (case UpySuspend (ExecEvent (mExecutorData e)) ms of
                  None \<Rightarrow> Inl AssertFailed
                | Some v \<Rightarrow> Inr (v, upd (\<lambda>d. d\<lparr>ScriptEngineContext := Some (k, stack, src)\<rparr>) (e\<lparr>vm := m\<rparr>)))
      | Some (End x, m) \<Rightarrow>
          (case execute_end x (e\<lparr>vm := m\<rparr>) of (code, e1) \<Rightarrow> Some (finish_script I src code e1)))"

definition UpyDoScript ::
  "('k, 'm) interp \<Rightarrow> nat option \<Rightarrow> nat \<Rightarrow> ('k, 'm, 't, 'r) engine \<Rightarrow> (w64 \<times> ('k, 'm, 't, 'r) engine) result option" where
  "UpyDoScript I src stack e =
     (let d = mExecutorData e;
          e1 = (if IsRunning d then e else e\<lparr>StackTop := stack + ScriptEngineStackSize d, StackLimit := mStackSize\<rparr>);
          e2 = upd (\<lambda>d. d\<lparr>IsRunning := True\<rparr>) e1 in
      if \<not> mHeap e then Some (Inl NullDeref)
      else case src of
        None \<Rightarrow> (case DoRepl I e2 of None \<Rightarrow> None | Some (code, e3) \<Rightarrow> Some (finish_script I None code e3))
      | Some a \<Rightarrow>
          (case sources e2 a of
             None \<Rightarrow> Some (Inl UseAfterFree)
           | Some buf \<Rightarrow>
               (case is_mpy buf of
                  Inl f \<Rightarrow> Some (Inl f)
                | Inr mpy \<Rightarrow>
                    if mpy then Some (finish_script I src (DoMpy buf) e2)
                    else (case source_text buf of
                            Inl f \<Rightarrow> Some (Inl f)
                          | Inr text \<Rightarrow> leave_stack I src stack (run_engine I (ExecEvent d) (RunStr I text (vm e2))) e2))))"

section \<open>The executor\<close>

definition alloc_pages :: "nat \<Rightarrow> ('k, 'm, 't, 'r) engine \<Rightarrow> ('k, 'm, 't, 'r) engine option" where
  "alloc_pages n e = (if n \<le> free_pages e then Some (e\<lparr>free_pages := free_pages e - n\<rparr>) else None)"

text \<open>\<open>timer_value\<close>: the time of a jump value in units of 100 ns.\<close>

definition timer_value :: "w64 \<Rightarrow> w64" where
  "timer_value v = (let t = drop_bit 8 v in if t = 0 then UPY_ASYNC_EXEC_TIMER_INTERVAL else t * 1000 * 10)"

definition rearm :: "w64 \<Rightarrow> ('k, 'm, 't, 'r) engine \<Rightarrow> ('k, 'm, 't, 'r) engine result" where
  "rearm v e =
     (case ExecEvent (mExecutorData e) of
        None \<Rightarrow> Inl AssertFailed
      | Some ev \<Rightarrow> Inr (e\<lparr>timers := (timers e)(ev := Some (timer_value v))\<rparr>))"

definition UpyDeinit :: "('k, 'm, 't, 'r) engine \<Rightarrow> ('k, 'm, 't, 'r) engine" where
  "UpyDeinit e = (if mHeap e then e\<lparr>free_pages := free_pages e + EFI_SIZE_TO_PAGES mHeapSize, mHeap := False\<rparr> else e)"

definition free_stack :: "('k, 'm, 't, 'r) engine \<Rightarrow> ('k, 'm, 't, 'r) engine" where
  "free_stack e =
     (let d = mExecutorData e in
      case ScriptEngineStack d of
        None \<Rightarrow> e
      | Some s \<Rightarrow> upd (\<lambda>d. d\<lparr>ScriptEngineStack := None, ScriptEngineStackSize := 0\<rparr>)
          (e\<lparr>stacks := remove1 s (stacks e), free_pages := free_pages e + EFI_SIZE_TO_PAGES (ScriptEngineStackSize d)\<rparr>))"

definition clean_up :: "('k, 'm, 't, 'r) engine \<Rightarrow> ('k, 'm, 't, 'r) engine" where
  "clean_up e =
     (let e1 = free_stack e;
          e2 = (if DeinitAfterwards (mExecutorData e1) then upd (\<lambda>d. d\<lparr>ScriptEngineProtocol := False\<rparr>) (UpyDeinit e1) else e1)
      in upd (\<lambda>d. d\<lparr>IsRunning := False\<rparr>) e2)"

text \<open>The branch for a normal return of \<open>SetJump\<close>: the engine is entered for the first time or again.\<close>

definition enter_engine :: "('k, 'm) interp \<Rightarrow> ('k, 'm, 't, 'r) engine \<Rightarrow> (w64 \<times> ('k, 'm, 't, 'r) engine) result option" where
  "enter_engine I e =
     (let d = mExecutorData e in
      if \<not> IsRunning d \<and> ScriptEngineProtocol d
      then (case ScriptEngineStack d of
              None \<Rightarrow> Some (Inl AssertFailed)
            | Some s \<Rightarrow> UpyDoScript I (Script d) s e)
      else (case ScriptEngineContext d of
              None \<Rightarrow> Some (Inl NullDeref)
            | Some (k, s, src) \<Rightarrow>
                if s \<notin> set (stacks e) then Some (Inl UseAfterFree)
                else leave_stack I src s (run_engine I (ExecEvent d) (Resume I k True (vm e))) e))"

definition ScriptExecutor :: "('k, 'm) interp \<Rightarrow> ('k, 'm, 't, 'r) engine \<Rightarrow> ('k, 'm, 't, 'r) step" where
  "ScriptExecutor I e =
     map_option (\<lambda>r. rbind r (\<lambda>(v, e1). if v AND 0xF = 1 then rearm v e1 else Inr (clean_up e1))) (enter_engine I e)"

section \<open>Starting and stopping\<close>

text \<open>The path of the driver's image, as \<open>GetFilePath\<close> returns it.\<close>

record ('h, 'dp, 'r) engine_env =
  Firmware :: "('h, 'dp, 'r) usf_firmware"
  LoadedImage :: efi_status
  ImageFilePath :: "w16 list option"

definition image_directory :: "w16 list \<Rightarrow> w16 list" where
  "image_directory p = (case StrStrR p [SEP] of None \<Rightarrow> p | Some i \<Rightarrow> take i p)"

definition add_path :: "w16 list \<Rightarrow> ('k, 'm, 't, 'r) engine \<Rightarrow> ('k, 'm, 't, 'r) engine result" where
  "add_path p e = rbind (UnicodeToUtf8 True p None (length p)) (\<lambda>(s, len). Inr (e\<lparr>sys_path := sys_path e @ [take len s]\<rparr>))"

definition UpyInit ::
  "('k, 'm) interp \<Rightarrow> ('h, 'dp, 'r) engine_env \<Rightarrow> ('k, 'm, 't, 'r) engine \<Rightarrow> (efi_status \<times> ('k, 'm, 't, 'r) engine) result" where
  "UpyInit I env e =
     (case alloc_pages (EFI_SIZE_TO_PAGES mHeapSize) (e\<lparr>StackLimit := mStackSize\<rparr>) of
        None \<Rightarrow> Inr (EFI_OUT_OF_RESOURCES, e\<lparr>StackLimit := mStackSize\<rparr>)
      | Some e0 \<Rightarrow>
          let e1 = e0\<lparr>mHeap := True, vm := Fresh I, sys_argv := [], sys_path := []\<rparr> in
          rbind (rassert (\<not> EFI_ERROR (LoadedImage env)) AssertFailed) (\<lambda>_.
          (case ImageFilePath env of
             None \<Rightarrow> Inl AssertFailed
           | Some p \<Rightarrow>
               let img = image_directory p in
               rbind (UsfGetCurrentDirectory (Firmware env) (e_usf e1)) (\<lambda>(cur, u, ev).
               let e2 = e1\<lparr>e_usf := u, e_vols := e_vols e1 @ ev\<rparr> in
               rbind (case cur of
                        None \<Rightarrow> rbind (UsfChangeCurrentDirectory (Firmware env) (Some img) (e_usf e2)) (\<lambda>(_, _, u', ev').
                                  Inr (e2\<lparr>e_usf := u', e_vols := e_vols e2 @ ev'\<rparr>))
                      | Some c \<Rightarrow> if c \<noteq> img then add_path c e2 else Inr e2) (\<lambda>e3.
               rbind (add_path img e3) (\<lambda>e4.
                 Inr (EFI_SUCCESS, upd (\<lambda>d. d\<lparr>ExecStatus := EFI_SUCCESS\<rparr>) e4)))))))"

text \<open>The protocol functions initialise the interpreter when it has been shut down; only \<open>UpyExecute\<close> looks at the status.\<close>

definition ensure_init ::
  "('k, 'm) interp \<Rightarrow> ('h, 'dp, 'r) engine_env \<Rightarrow> bool \<Rightarrow> ('k, 'm, 't, 'r) engine \<Rightarrow> (efi_status \<times> ('k, 'm, 't, 'r) engine) result" where
  "ensure_init I env checked e =
     (if ScriptEngineProtocol (mExecutorData e) then Inr (EFI_SUCCESS, e)
      else rbind (UpyInit I env e) (\<lambda>(st, e1).
        if checked \<and> EFI_ERROR st then Inr (st, e1)
        else Inr (EFI_SUCCESS, upd (\<lambda>d. d\<lparr>ScriptEngineProtocol := True\<rparr>) e1)))"

text \<open>\<open>This\<close> of the first calls is the installed protocol. The stack is a block of pages.\<close>

definition new_stack :: "('k, 'm, 't, 'r) engine \<Rightarrow> ('k, 'm, 't, 'r) engine result" where
  "new_stack e =
     (case alloc_pages (EFI_SIZE_TO_PAGES mStackSize) e of
        None \<Rightarrow> Inl AssertFailed
      | Some e1 \<Rightarrow> Inr (upd (\<lambda>d. d\<lparr>ScriptEngineStackSize := mStackSize, ScriptEngineStack := Some (next_stack e1)\<rparr>)
          (e1\<lparr>stacks := next_stack e1 # stacks e1, next_stack := next_stack e1 + mStackSize\<rparr>)))"

definition UpyExecuteAsync ::
  "('k, 'm) interp \<Rightarrow> ('h, 'dp, 'r) engine_env \<Rightarrow> nat option \<Rightarrow> nat \<Rightarrow> bool \<Rightarrow> ('k, 'm, 't, 'r) engine
    \<Rightarrow> (efi_status \<times> ('k, 'm, 't, 'r) engine) result" where
  "UpyExecuteAsync I env src len sharable e =
     (if src = None \<or> len = 0 then Inr (EFI_INVALID_PARAMETER, e)
      else if IsRunning (mExecutorData e) then Inr (EFI_ALREADY_STARTED, e)
      else
        rbind (ensure_init I env False e) (\<lambda>(_, e1).
        rbind (new_stack (upd (\<lambda>d. d\<lparr>DeinitAfterwards := \<not> sharable, Script := src, ScriptLength := len\<rparr>) e1)) (\<lambda>e2.
          Inr (EFI_SUCCESS, upd (\<lambda>d. d\<lparr>ExecEvent := Some (events e2)\<rparr>)
            (e2\<lparr>events := events e2 + 1, timers := (timers e2)(events e2 := Some 1)\<rparr>)))))"

definition UpyExecute ::
  "('k, 'm) interp \<Rightarrow> ('h, 'dp, 'r) engine_env \<Rightarrow> nat option \<Rightarrow> nat \<Rightarrow> bool \<Rightarrow> ('k, 'm, 't, 'r) engine
    \<Rightarrow> (efi_status \<times> ('k, 'm, 't, 'r) engine) result option" where
  "UpyExecute I env src len sharable e =
     (if IsRunning (mExecutorData e) then Some (Inr (EFI_ALREADY_STARTED, e))
      else (case ensure_init I env True e of
              Inl f \<Rightarrow> Some (Inl f)
            | Inr (st, e1) \<Rightarrow>
                if EFI_ERROR st then Some (Inr (st, e1))
                else (case new_stack (upd (\<lambda>d. d\<lparr>DeinitAfterwards := \<not> sharable, ExecEvent := None, Script := src, ScriptLength := len\<rparr>) e1) of
                        Inl f \<Rightarrow> Some (Inl f)
                      | Inr e2 \<Rightarrow> map_option (\<lambda>r. rbind r (\<lambda>e3. Inr (ExecStatus (mExecutorData e3), e3))) (ScriptExecutor I e2))))"

text \<open>The firmware signals the event of a timer that has expired.\<close>

definition fire_timer :: "('k, 'm) interp \<Rightarrow> nat \<Rightarrow> ('k, 'm, 't, 'r) engine \<Rightarrow> ('k, 'm, 't, 'r) step" where
  "fire_timer I ev e = (if timers e ev = None then Some (Inr e) else ScriptExecutor I (e\<lparr>timers := (timers e)(ev := None)\<rparr>))"

definition UpyEvaluate :: efi_status where "UpyEvaluate = EFI_UNSUPPORTED"
definition UpySetEnv :: efi_status where "UpySetEnv = EFI_UNSUPPORTED"

section \<open>Arguments and paths\<close>

text \<open>\<open>qstr_from_str\<close> interns strings of less than 256 bytes. A short string is converted in a buffer of 1024 bytes.\<close>

definition qstr_from_str :: "byte list \<Rightarrow> byte list result" where
  "qstr_from_str s = (if length s < 256 then Inr s else Inl AssertFailed)"

definition has_heap :: "('k, 'm, 't, 'r) engine \<Rightarrow> unit result" where
  "has_heap e = rassert (mHeap e) NullDeref"

definition arg_string :: "w16 list \<Rightarrow> byte list result" where
  "arg_string a =
     rbind (ToUpyString True a (if length a \<ge> 1024 then None else Some 1024) (length a)) (\<lambda>(s, _).
       qstr_from_str (takeWhile (\<lambda>c. c \<noteq> 0) s))"

fun append_args :: "w16 list option list \<Rightarrow> ('k, 'm, 't, 'r) engine \<Rightarrow> ('k, 'm, 't, 'r) engine result" where
  "append_args [] e = Inr e"
| "append_args (None # as) e = append_args as e"
| "append_args (Some a # as) e = rbind (arg_string a) (\<lambda>s. append_args as (e\<lparr>sys_argv := sys_argv e @ [s]\<rparr>))"

definition UpySetArgs ::
  "('k, 'm) interp \<Rightarrow> ('h, 'dp, 'r) engine_env \<Rightarrow> w16 list option list option \<Rightarrow> ('k, 'm, 't, 'r) engine
    \<Rightarrow> (efi_status \<times> ('k, 'm, 't, 'r) engine) result" where
  "UpySetArgs I env argv e =
     (case argv of
        None \<Rightarrow> Inr (EFI_INVALID_PARAMETER, e)
      | Some as \<Rightarrow>
          rbind (ensure_init I env False e) (\<lambda>(_, e1).
          rbind (has_heap e1) (\<lambda>_.
          rbind (append_args as (e1\<lparr>sys_argv := []\<rparr>)) (\<lambda>e2. Inr (EFI_SUCCESS, e2)))))"

definition UpySetPath ::
  "('k, 'm) interp \<Rightarrow> ('h, 'dp, 'r) engine_env \<Rightarrow> w16 list option \<Rightarrow> ('k, 'm, 't, 'r) engine
    \<Rightarrow> (efi_status \<times> ('k, 'm, 't, 'r) engine) result" where
  "UpySetPath I env path e =
     rbind (ensure_init I env False e) (\<lambda>(_, e1).
     rbind (has_heap e1) (\<lambda>_.
       (case path of
          None \<Rightarrow> Inr (EFI_SUCCESS, e1\<lparr>sys_path := []\<rparr>)
        | Some p \<Rightarrow> rbind (arg_string p) (\<lambda>s. Inr (EFI_SUCCESS, e1\<lparr>sys_path := sys_path e1 @ [s]\<rparr>)))))"

definition UpySetStdIo ::
  "efi_status \<Rightarrow> EFI_FILE_HANDLE option \<Rightarrow> EFI_FILE_HANDLE option \<Rightarrow> EFI_FILE_HANDLE option \<Rightarrow> ('k, 'm, 't, 'r) engine
    \<Rightarrow> efi_status \<times> ('k, 'm, 't, 'r) engine" where
  "UpySetStdIo loc inp out err e =
     (if EFI_ERROR loc then (loc, e)
      else (case UsfSetStdIo inp out err (e_usf e) of (st, u) \<Rightarrow> (st, e\<lparr>e_usf := u\<rparr>)))"

section \<open>The driver\<close>

text \<open>
  \<open>usf\<close> is the outcome of \<open>UsfInit\<close>, \<open>inst\<close> the status of \<open>InstallProtocolInterface\<close>, \<open>uninst\<close> what \<open>UsfDeinit\<close> leaves. The
  second component is the flag \<open>mProtocolInstalled\<close> of \<open>usf.c\<close>.
\<close>

definition UseInit ::
  "('k, 'm) interp \<Rightarrow> ('h, 'dp, 'r) engine_env \<Rightarrow> bool \<Rightarrow> efi_status \<times> 't \<Rightarrow> efi_status \<Rightarrow> efi_status \<Rightarrow> efi_status
    \<Rightarrow> ('k, 'm, 't, 'r) engine \<times> bool \<Rightarrow> (efi_status \<times> ('k, 'm, 't, 'r) engine \<times> bool) result" where
  "UseInit I env present tbl usf_inst inst usf_uninst s =
     (case s of (e, installed) \<Rightarrow>
        rbind (UsfInit present tbl usf_inst (e_usf e, installed)) (\<lambda>(st, u, installed1).
        let e1 = e\<lparr>e_usf := u\<rparr> in
        if st = EFI_SUCCESS \<or> st = EFI_ALREADY_STARTED
        then rbind (UpyInit I env e1) (\<lambda>(st1, e2).
               let (st2, e3) = (if EFI_ERROR st1 then (st1, e2)
                                else if EFI_ERROR inst then (inst, UpyDeinit e2)
                                else (inst, upd (\<lambda>d. d\<lparr>ScriptEngineProtocol := True\<rparr>) e2)) in
               if EFI_ERROR st2
               then (case UsfDeinit True usf_uninst (e_usf e3, installed1) of (_, u', i') \<Rightarrow> Inr (st2, e3\<lparr>e_usf := u'\<rparr>, i'))
               else Inr (st2, e3, installed1))
        else Inr (st, e1, installed1)))"

definition no_executor :: "'k UPY_EXECUTOR_DATA" where
  "no_executor = \<lparr>ExecEvent = None, ExecStatus = EFI_SUCCESS, ScriptEngineProtocol = False, Script = None, ScriptLength = 0,
     ScriptEngineContext = None, ScriptEngineStack = None, ScriptEngineStackSize = 0, IsRunning = False, DeinitAfterwards = False\<rparr>"

definition UseDeinit ::
  "efi_status \<Rightarrow> efi_status \<Rightarrow> ('k, 'm, 't, 'r) engine \<times> bool \<Rightarrow> efi_status \<times> ('k, 'm, 't, 'r) engine \<times> bool" where
  "UseDeinit usf_uninst uninst s =
     (case s of (e, installed) \<Rightarrow>
        (case UsfDeinit True usf_uninst (e_usf (UpyDeinit e), installed) of (_, u, i) \<Rightarrow>
           (uninst, (UpyDeinit e)\<lparr>e_usf := u, mExecutorData := no_executor\<rparr>, i)))"

end
