(* ===== verification/Script_Engine_Thms.thy ===== *)
theory Script_Engine_Thms
  imports Script_Engine Misc_Strings_Thms Usf_Paths_Thms
begin

text \<open>
  Properties of \<open>use.c\<close>: what an asynchronous and a synchronous run do, the states between the calls, and how long a
  suspended script sleeps.
\<close>

section \<open>Time\<close>

text \<open>How long a script sleeps that suspends itself for \<open>ms\<close> milliseconds, in units of 100 ns.\<close>

definition sleep_time :: "w64 \<Rightarrow> w64" where
  "sleep_time ms = (let t = take_bit 56 ms in if t = 0 then 1000000 else t * 10000)"

lemma jump_value: "UpySuspend (Some ev) ms = Some (push_bit 8 ms OR 1)"
  by (simp add: UpySuspend_def)

lemma jump_value_low: "(push_bit 8 ms OR 1) AND (0xF :: w64) = 1"
proof -
  have low: "bit (0xF :: w64) n \<longleftrightarrow> n < 4" for n
    using bit_mask_iff [where 'a = w64, of 4 n] by (simp add: mask_eq_exp_minus_1) linarith
  show ?thesis
  proof (rule bit_word_eqI)
    fix n assume "n < LENGTH(64)"
    then show "bit ((push_bit 8 ms OR 1) AND (0xF :: w64)) n \<longleftrightarrow> bit (1 :: w64) n"
      using low [of n] by (auto simp: bit_simps)
  qed
qed

lemma jump_value_high: "drop_bit 8 (push_bit 8 ms OR 1) = take_bit 56 (ms :: w64)"
  by (rule bit_word_eqI) (auto simp: bit_simps)

lemma timer_value_jump: "timer_value (push_bit 8 ms OR 1) = sleep_time ms"
  unfolding timer_value_def sleep_time_def Let_def jump_value_high UPY_ASYNC_EXEC_TIMER_INTERVAL_def by (simp add: mult.assoc)

section \<open>Runs of a script\<close>

text \<open>
  An asynchronous run suspends itself with the times \<open>ds\<close>, one after the other, and ends; in a synchronous run every
  suspension raises an exception in the script, which may go on.
\<close>

inductive yields :: "('k, 'm) interp \<Rightarrow> 'k outcome \<times> 'm \<Rightarrow> w64 list \<Rightarrow> script_end \<Rightarrow> 'm \<Rightarrow> bool" for I where
  ends: "yields I (End x, m) [] x m"
| sleeps: "yields I (Resume I k True m) ds x m' \<Longrightarrow> yields I (Yield d k, m) (d # ds) x m'"

inductive refuses :: "('k, 'm) interp \<Rightarrow> 'k outcome \<times> 'm \<Rightarrow> script_end \<Rightarrow> 'm \<Rightarrow> bool" for I where
  ends: "refuses I (End x, m) x m"
| goes_on: "refuses I (Resume I k False m) x m' \<Longrightarrow> refuses I (Yield d k, m) x m'"

lemma run_engine_event: "run_engine I (Some ev) s = Some s"
  by (subst run_engine.simps) (simp add: jump_value split: prod.split outcome.split)

lemma run_engine_refuses: "refuses I s x m \<Longrightarrow> run_engine I None s = Some (End x, m)"
  by (induction rule: refuses.induct) (subst run_engine.simps, simp add: UpySuspend_def)+

text \<open>The exit code is zero exactly for a script that ends without any exception.\<close>

abbreviation end_status :: "script_end \<Rightarrow> efi_status" where
  "end_status x \<equiv> (if x = EndOk None then EFI_SUCCESS else EFI_LOAD_ERROR)"

lemma forced_exit_nonzero: "FORCED_EXIT OR (i AND 255) \<noteq> 0"
proof
  assume "FORCED_EXIT OR (i AND 255) = 0"
  then have "bit (FORCED_EXIT OR (i AND 255)) 8 = bit (0 :: int) 8" by (rule arg_cong)
  then show False by (simp add: FORCED_EXIT_def bit_or_iff bit_numeral_rec)
qed

lemma execute_end_result:
  obtains code p where "execute_end x e = (code, e\<lparr>printed := p\<rparr>)" and "code = 0 \<longleftrightarrow> x = EndOk None"
proof -
  have pr: "\<exists>p. stderr_print_strn s e = e\<lparr>printed := p\<rparr>" for s e
  proof (cases "case UsfGetFileHandle 1 (e_usf e) of (st, out) \<Rightarrow> if EFI_ERROR st then snd (UsfGetFileHandle 2 (e_usf e)) else out")
    case None
    then have "stderr_print_strn s e = e\<lparr>printed := printed e\<rparr>" by (simp add: stderr_print_strn_def Let_def)
    then show ?thesis by blast
  next
    case (Some f)
    then show ?thesis by (auto simp: stderr_print_strn_def Let_def)
  qed
  have exc: "\<exists>code p. handle_uncaught_exception y e = (code, e\<lparr>printed := p\<rparr>) \<and> code \<noteq> 0" for y
  proof (cases y)
    case (SystemExit v)
    then have "handle_uncaught_exception y e = (FORCED_EXIT OR (exit_int v AND 255), e\<lparr>printed := printed e\<rparr>)"
      by (simp add: handle_uncaught_exception_def)
    then show ?thesis using forced_exit_nonzero by blast
  next
    case (OtherExc msg)
    obtain p where p: "stderr_print_strn msg e = e\<lparr>printed := p\<rparr>" using pr by blast
    obtain q where "stderr_print_strn [13, 10] (e\<lparr>printed := p\<rparr>) = e\<lparr>printed := p\<rparr>\<lparr>printed := q\<rparr>" using pr by blast
    then have "handle_uncaught_exception y e = (1, e\<lparr>printed := q\<rparr>)" using OtherExc p by (simp add: handle_uncaught_exception_def)
    then show ?thesis by force
  qed
  have "\<exists>code p. execute_end x e = (code, e\<lparr>printed := p\<rparr>) \<and> (code = 0 \<longleftrightarrow> x = EndOk None)"
  proof (cases "x = EndOk None")
    case True
    then have "execute_end x e = (0, e\<lparr>printed := printed e\<rparr>)" by (simp add: execute_end_def)
    then show ?thesis using True by blast
  next
    case False
    then have "\<exists>y. execute_end x e = handle_uncaught_exception y e"
      by (cases x) (auto simp: execute_end_def split: option.split)
    then obtain y where "execute_end x e = handle_uncaught_exception y e" ..
    then show ?thesis using exc [of y] False by auto
  qed
  then show ?thesis using that by blast
qed

text \<open>What is left behind when a script ends: \<open>e\<close> is the state in which the script runs.\<close>

definition left_at ::
  "efi_status \<Rightarrow> 'm \<Rightarrow> nat option \<Rightarrow> ('k, 'm, 't, 'r) engine \<Rightarrow> ('k, 'm, 't, 'r) engine \<Rightarrow> bool" where
  "left_at st v src e e' \<longleftrightarrow>
     (let d = mExecutorData e; d' = mExecutorData e'; off = DeinitAfterwards d \<and> mHeap e in
      \<not> IsRunning d' \<and> ScriptEngineStack d' = None \<and> ExecStatus d' = st \<and> ExecEvent d' = ExecEvent d
      \<and> ScriptEngineProtocol d' = (ScriptEngineProtocol d \<and> \<not> DeinitAfterwards d) \<and> mHeap e' = (mHeap e \<and> \<not> DeinitAfterwards d)
      \<and> vm e' = v \<and> sys_argv e' = sys_argv e \<and> sys_path e' = sys_path e \<and> e_usf e' = e_usf e
      \<and> sources e' = (case src of None \<Rightarrow> sources e | Some a \<Rightarrow> (sources e)(a := None))
      \<and> stacks e' = (case ScriptEngineStack d of None \<Rightarrow> stacks e | Some s \<Rightarrow> remove1 s (stacks e))
      \<and> free_pages e' = free_pages e + (case ScriptEngineStack d of None \<Rightarrow> 0 | Some s \<Rightarrow> EFI_SIZE_TO_PAGES (ScriptEngineStackSize d))
          + (if off then EFI_SIZE_TO_PAGES mHeapSize else 0)
      \<and> events e' = events e \<and> timers e' = timers e \<and> next_stack e' = next_stack e)"

abbreviation ended ::
  "('k, 'm) interp \<Rightarrow> nat option \<Rightarrow> script_end \<Rightarrow> 'm \<Rightarrow> ('k, 'm, 't, 'r) engine \<Rightarrow> ('k, 'm, 't, 'r) engine \<Rightarrow> bool" where
  "ended I src x m \<equiv> left_at (end_status x) (Collect I m) src"

definition after_jump ::
  "(w64 \<times> ('k, 'm, 't, 'r) engine) result option \<Rightarrow> ('k, 'm, 't, 'r) step" where
  "after_jump r = map_option (\<lambda>r. rbind r (\<lambda>(v, e1). if v AND 0xF = 1 then rearm v e1 else Inr (clean_up e1))) r"

lemma ScriptExecutor_jump: "ScriptExecutor I e = after_jump (enter_engine I e)"
  by (simp add: ScriptExecutor_def after_jump_def)

lemma free_stack_fields:
  "ScriptEngineStack (mExecutorData (free_stack e)) = None" "IsRunning (mExecutorData (free_stack e)) = IsRunning (mExecutorData e)"
  "ExecStatus (mExecutorData (free_stack e)) = ExecStatus (mExecutorData e)" "ExecEvent (mExecutorData (free_stack e)) = ExecEvent (mExecutorData e)"
  "ScriptEngineProtocol (mExecutorData (free_stack e)) = ScriptEngineProtocol (mExecutorData e)"
  "DeinitAfterwards (mExecutorData (free_stack e)) = DeinitAfterwards (mExecutorData e)"
  "stacks (free_stack e) = (case ScriptEngineStack (mExecutorData e) of None \<Rightarrow> stacks e | Some s \<Rightarrow> remove1 s (stacks e))"
  "free_pages (free_stack e) = free_pages e
     + (case ScriptEngineStack (mExecutorData e) of None \<Rightarrow> 0 | Some s \<Rightarrow> EFI_SIZE_TO_PAGES (ScriptEngineStackSize (mExecutorData e)))"
  "mHeap (free_stack e) = mHeap e" "vm (free_stack e) = vm e" "sys_argv (free_stack e) = sys_argv e" "sys_path (free_stack e) = sys_path e"
  "e_usf (free_stack e) = e_usf e" "sources (free_stack e) = sources e" "events (free_stack e) = events e" "timers (free_stack e) = timers e"
  "next_stack (free_stack e) = next_stack e"
  by (simp_all add: free_stack_def upd_def Let_def split: option.split)

lemma clean_up_leaves:
  assumes "mExecutorData e1 = (mExecutorData e)\<lparr>ExecStatus := st\<rparr>" and "vm e1 = v" and "mHeap e1 = mHeap e"
    and "sys_argv e1 = sys_argv e" and "sys_path e1 = sys_path e" and "e_usf e1 = e_usf e"
    and "sources e1 = (case src of None \<Rightarrow> sources e | Some a \<Rightarrow> (sources e)(a := None))" and "stacks e1 = stacks e"
    and "free_pages e1 = free_pages e" and "events e1 = events e" and "timers e1 = timers e" and "next_stack e1 = next_stack e"
  shows "left_at st v src e (clean_up e1)"
  unfolding left_at_def clean_up_def Let_def using assms
  by (cases "ScriptEngineStack (mExecutorData e)") (simp_all add: free_stack_fields upd_def UpyDeinit_def)

lemma clean_up_context: "ScriptEngineContext (mExecutorData (clean_up e)) = ScriptEngineContext (mExecutorData e)"
  by (simp add: clean_up_def free_stack_def upd_def UpyDeinit_def Let_def split: option.split)

lemma finish_leaves:
  assumes "\<And>a. src = Some a \<Longrightarrow> sources e a \<noteq> None"
  shows "\<exists>e'. after_jump (Some (finish_script I src code e)) = Some (Inr e')
    \<and> left_at (if code = 0 then EFI_SUCCESS else EFI_LOAD_ERROR) (Collect I (vm e)) src e e'
    \<and> ScriptEngineContext (mExecutorData e') = ScriptEngineContext (mExecutorData e)"
proof -
  let ?ss = "case src of None \<Rightarrow> sources e | Some a \<Rightarrow> (sources e)(a := None)" and ?st = "if code = 0 then EFI_SUCCESS else EFI_LOAD_ERROR"
  let ?e1 = "upd (\<lambda>d. d\<lparr>ExecStatus := ?st\<rparr>) ((e\<lparr>sources := ?ss\<rparr>)\<lparr>vm := Collect I (vm e)\<rparr>)"
  have "finish_script I src code e = Inr (2, ?e1)"
    using assms by (cases src) (auto simp: finish_script_def upd_def)
  then have "after_jump (Some (finish_script I src code e)) = Some (Inr (clean_up ?e1))" by (simp add: after_jump_def)
  moreover have "left_at ?st (Collect I (vm e)) src e (clean_up ?e1)" by (rule clean_up_leaves) (simp_all add: upd_def)
  moreover have "ScriptEngineContext (mExecutorData (clean_up ?e1)) = ScriptEngineContext (mExecutorData e)"
    by (simp add: clean_up_context upd_def)
  ultimately show ?thesis by blast
qed

lemma left_at_fields:
  "left_at st v src (e\<lparr>vm := m\<rparr>\<lparr>printed := p\<rparr>) e' = left_at st v src e e'"
  by (cases src; cases "ScriptEngineStack (mExecutorData e)") (simp_all add: left_at_def Let_def)

lemma end_leaves:
  assumes "\<And>a. src = Some a \<Longrightarrow> sources e a \<noteq> None"
  shows "\<exists>e'. after_jump (leave_stack I src stack (Some (End x, m)) e) = Some (Inr e') \<and> ended I src x m e e'
    \<and> ScriptEngineContext (mExecutorData e') = ScriptEngineContext (mExecutorData e)"
proof -
  obtain code p where x: "execute_end x (e\<lparr>vm := m\<rparr>) = (code, e\<lparr>vm := m\<rparr>\<lparr>printed := p\<rparr>)" "code = 0 \<longleftrightarrow> x = EndOk None"
    by (rule execute_end_result)
  obtain e' where "after_jump (Some (finish_script I src code (e\<lparr>vm := m\<rparr>\<lparr>printed := p\<rparr>))) = Some (Inr e')"
      "left_at (end_status x) (Collect I m) src (e\<lparr>vm := m\<rparr>\<lparr>printed := p\<rparr>) e'"
      "ScriptEngineContext (mExecutorData e') = ScriptEngineContext (mExecutorData e)"
    using finish_leaves [of src "e\<lparr>vm := m\<rparr>\<lparr>printed := p\<rparr>" I code] assms x(2) by auto
  then show ?thesis by (auto simp: left_at_fields leave_stack_def x(1))
qed

section \<open>An asynchronous run\<close>

text \<open>The timer event is signalled \<open>n\<close> times; the list has the times it was set to before each signal.\<close>

fun signals :: "('k, 'm) interp \<Rightarrow> nat \<Rightarrow> nat \<Rightarrow> ('k, 'm, 't, 'r) engine \<Rightarrow> (w64 list \<times> ('k, 'm, 't, 'r) engine) result option" where
  "signals I ev 0 e = Some (Inr ([], e))"
| "signals I ev (Suc n) e =
     (case timers e ev of
        None \<Rightarrow> Some (Inr ([], e))
      | Some t \<Rightarrow>
          (case fire_timer I ev e of
             None \<Rightarrow> None
           | Some r \<Rightarrow>
               (case r of
                  Inl f \<Rightarrow> Some (Inl f)
                | Inr e' \<Rightarrow> map_option (\<lambda>r. rbind r (\<lambda>(ts, e2). Inr (t # ts, e2))) (signals I ev n e'))))"

lemma ended_context:
  "ended I src x m (e\<lparr>vm := v, mExecutorData := (mExecutorData e)\<lparr>ScriptEngineContext := c\<rparr>\<rparr>) e' = ended I src x m e e'"
  by (cases src; cases "ScriptEngineStack (mExecutorData e)") (simp_all add: left_at_def Let_def)

lemma suspended_run:
  assumes "yields I s ds x m" and "ExecEvent (mExecutorData e) = Some ev" and "timers e ev = None" and "IsRunning (mExecutorData e)"
    and "stack \<in> set (stacks e)" and "\<And>a. src = Some a \<Longrightarrow> sources e a \<noteq> None"
  shows "\<exists>e1 e2. after_jump (leave_stack I src stack (Some s) e) = Some (Inr e1)
    \<and> signals I ev (length ds) e1 = Some (Inr (map sleep_time ds, e2)) \<and> ended I src x m e e2"
  using assms
proof (induction arbitrary: e rule: yields.induct)
  case (ends x m)
  then show ?case using end_leaves [of src e I stack x m] by auto
next
  case (sleeps k m ds x m' d)
  let ?c = "Some (k, stack, src)"
  let ?d = "(mExecutorData e)\<lparr>ScriptEngineContext := ?c\<rparr>"
  let ?e1 = "e\<lparr>vm := m, mExecutorData := ?d, timers := (timers e)(ev := Some (sleep_time d))\<rparr>"
  let ?e = "e\<lparr>vm := m, mExecutorData := ?d\<rparr>"
  have susp: "after_jump (leave_stack I src stack (Some (Yield d k, m)) e) = Some (Inr ?e1)"
    using sleeps.prems(1) by (simp add: leave_stack_def jump_value after_jump_def jump_value_low rearm_def timer_value_jump upd_def)
  have "?e1\<lparr>timers := (timers ?e1)(ev := None)\<rparr> = ?e" using sleeps.prems(2) by (simp add: fun_upd_idem)
  then have "fire_timer I ev ?e1 = after_jump (leave_stack I src stack (Some (Resume I k True m)) ?e)"
    using sleeps.prems by (simp add: fire_timer_def ScriptExecutor_jump enter_engine_def Let_def run_engine_event)
  moreover obtain e2 e3 where e2: "after_jump (leave_stack I src stack (Some (Resume I k True m)) ?e) = Some (Inr e2)"
      "signals I ev (length ds) e2 = Some (Inr (map sleep_time ds, e3))" "ended I src x m' ?e e3"
    using sleeps.IH [of ?e] sleeps.prems by auto
  ultimately have "signals I ev (length (d # ds)) ?e1 = Some (Inr (map sleep_time (d # ds), e3))" by simp
  moreover have "ended I src x m' e e3" using e2(3) by (simp add: ended_context)
  ultimately show ?case using susp by blast
qed

definition idle :: "('k, 'm, 't, 'r) engine \<Rightarrow> bool" where
  "idle e \<longleftrightarrow> \<not> IsRunning (mExecutorData e) \<and> ScriptEngineStack (mExecutorData e) = None \<and> (\<forall>ev. timers e ev = None)"

text \<open>
  What a run leaves: the status, the source freed, stack and pages as before, the interpreter shut down or
  kept with its state, its arguments and its path.
\<close>

definition ran ::
  "('k, 'm) interp \<Rightarrow> bool \<Rightarrow> nat \<Rightarrow> script_end \<Rightarrow> 'm \<Rightarrow> ('k, 'm, 't, 'r) engine \<Rightarrow> ('k, 'm, 't, 'r) engine \<Rightarrow> bool" where
  "ran I sharable a x m e e' \<longleftrightarrow>
     ExecStatus (mExecutorData e') = end_status x \<and> sources e' = (sources e)(a := None) \<and> stacks e' = stacks e
     \<and> free_pages e' = free_pages e + (if sharable then 0 else 16384) \<and> mHeap e' = sharable
     \<and> ScriptEngineProtocol (mExecutorData e') = sharable \<and> vm e' = Collect I m \<and> sys_argv e' = sys_argv e \<and> sys_path e' = sys_path e"

lemma pages: "EFI_SIZE_TO_PAGES mStackSize = 64" "EFI_SIZE_TO_PAGES mHeapSize = 16384"
  by (simp_all add: EFI_SIZE_TO_PAGES_def mStackSize_def mHeapSize_def)

lemma ensure_init_protocol: "ensure_init I env b e = Inr (st, e0) \<Longrightarrow> \<not> EFI_ERROR st \<Longrightarrow> ScriptEngineProtocol (mExecutorData e0)"
  by (auto simp: ensure_init_def upd_def rbind_eq_Inr split: if_splits
      dest: arg_cong [where f = "\<lambda>e. ScriptEngineProtocol (mExecutorData e)"])

lemma ensure_init_unchecked: "ensure_init I env False e = Inr (st, e0) \<Longrightarrow> st = EFI_SUCCESS"
  by (auto simp: ensure_init_def rbind_eq_Inr split: if_splits)

lemma enter_new:
  assumes "\<not> IsRunning (mExecutorData e)" and "ScriptEngineProtocol (mExecutorData e)" and "ScriptEngineStack (mExecutorData e) = Some s"
    and "Script (mExecutorData e) = Some a" and "mHeap e" and "sources e a = Some buf" and "is_mpy buf = Inr False" and "source_text buf = Inr text"
  shows "enter_engine I e = leave_stack I (Some a) s (run_engine I (ExecEvent (mExecutorData e)) (RunStr I text (vm e)))
    (upd (\<lambda>d. d\<lparr>IsRunning := True\<rparr>) (e\<lparr>StackTop := s + ScriptEngineStackSize (mExecutorData e), StackLimit := mStackSize\<rparr>))"
  using assms by (simp add: enter_engine_def UpyDoScript_def Let_def upd_def)

lemma ran_if_ended:
  assumes "ended I (Some a) x m e1 e'" and "ScriptEngineStack (mExecutorData e1) = Some s" and "ScriptEngineStackSize (mExecutorData e1) = mStackSize"
    and "DeinitAfterwards (mExecutorData e1) = (\<not> sharable)" and "mHeap e1" and "ScriptEngineProtocol (mExecutorData e1)"
    and "sources e1 = sources e" and "stacks e1 = s # stacks e" and "free_pages e1 + 64 = free_pages e" and "sys_argv e1 = sys_argv e" and "sys_path e1 = sys_path e"
  shows "ran I sharable a x m e e'"
  using assms by (auto simp: left_at_def ran_def Let_def pages)

lemma idle_if_ended: "ended I src x m e1 e' \<Longrightarrow> (\<And>ev. timers e1 ev = None) \<Longrightarrow> idle e'"
  by (simp add: left_at_def idle_def Let_def)

lemma async_starts:
  assumes "\<not> IsRunning (mExecutorData e)" and "ensure_init I env False e = Inr (st, e0)" and "idle e0" and "mHeap e0"
    and "64 \<le> free_pages e0" and "0 < len" and "sources e0 a = Some buf" and "is_mpy buf = Inr False" and "source_text buf = Inr text"
  obtains e1 E where "UpyExecuteAsync I env (Some a) len sharable e = Inr (EFI_SUCCESS, e1)"
    and "fire_timer I (events e0) e1 = after_jump (leave_stack I (Some a) (next_stack e0) (Some (RunStr I text (vm e0))) E)"
    and "timers e1 (events e0) = Some 1" and "ExecEvent (mExecutorData E) = Some (events e0)" and "IsRunning (mExecutorData E)"
    and "timers E (events e0) = None" and "next_stack e0 \<in> set (stacks E)" and "sources E = sources e0"
    and "\<And>x m e'. ended I (Some a) x m E e' \<Longrightarrow> idle e' \<and> ran I sharable a x m e0 e' \<and> events e' = events e0 + 1"
proof -
  have prot: "ScriptEngineProtocol (mExecutorData e0)"
    using assms(2) ensure_init_protocol ensure_init_unchecked by fastforce
  let ?ev = "events e0" and ?s = "next_stack e0"
  let ?d = "(mExecutorData e0)\<lparr>DeinitAfterwards := \<not> sharable, Script := Some a, ScriptLength := len, ScriptEngineStackSize := mStackSize,
    ScriptEngineStack := Some ?s, ExecEvent := Some ?ev\<rparr>"
  let ?e1 = "e0\<lparr>mExecutorData := ?d, free_pages := free_pages e0 - 64, stacks := ?s # stacks e0, next_stack := ?s + mStackSize,
    events := ?ev + 1, timers := (timers e0)(?ev := Some 1)\<rparr>"
  have start: "UpyExecuteAsync I env (Some a) len sharable e = Inr (EFI_SUCCESS, ?e1)"
    using assms(1,2,5,6) by (simp add: UpyExecuteAsync_def new_stack_def alloc_pages_def pages upd_def)
  let ?e = "?e1\<lparr>timers := timers e0\<rparr>"
  let ?E = "upd (\<lambda>d. d\<lparr>IsRunning := True\<rparr>) (?e\<lparr>StackTop := ?s + mStackSize, StackLimit := mStackSize\<rparr>)"
  have "?e1\<lparr>timers := (timers ?e1)(?ev := None)\<rparr> = ?e" using assms(3) by (simp add: idle_def fun_upd_idem)
  then have fire: "fire_timer I ?ev ?e1 = after_jump (leave_stack I (Some a) ?s (Some (RunStr I text (vm e0))) ?E)"
    using assms(3,4,7,8,9) prot by (simp add: fire_timer_def ScriptExecutor_jump enter_new idle_def run_engine_event)
  have final: "idle e' \<and> ran I sharable a x m e0 e' \<and> events e' = events e0 + 1" if fin: "ended I (Some a) x m ?E e'" for x m e'
  proof -
    have "idle e'" using idle_if_ended [OF fin] assms(3) by (simp add: upd_def idle_def)
    moreover have "ran I sharable a x m e0 e'"
      by (rule ran_if_ended [OF fin]) (use assms(3,4,5) prot in \<open>simp_all add: upd_def idle_def\<close>)
    moreover have "events e' = events e0 + 1" using fin by (simp add: left_at_def Let_def upd_def)
    ultimately show ?thesis by blast
  qed
  show ?thesis by (rule that [OF start fire _ _ _ _ _ _ final]) (use assms(3) in \<open>simp_all add: upd_def idle_def\<close>)
qed

text \<open>
  C9. An asynchronous run: \<open>UpyExecuteAsync\<close> returns at once, and the timer brings the script back after exactly the
  times it asked for (100 ms for zero), for every script that suspends itself finitely often. Then the engine is idle
  again: the stack and the source have been freed, the interpreter was shut down or, if it is shared, keeps its state, and
  the status is success exactly if the script ended without any exception, \<open>SystemExit\<close> included. The timer event
  is not closed.
\<close>

theorem async_script_runs:
  assumes "\<not> IsRunning (mExecutorData e)" and "ensure_init I env False e = Inr (st, e0)" and "idle e0" and "mHeap e0"
    and "64 \<le> free_pages e0" and "0 < len" and "sources e0 a = Some buf" and "is_mpy buf = Inr False" and "source_text buf = Inr text"
    and "yields I (RunStr I text (vm e0)) ds x m"
  shows "\<exists>e1 e2. UpyExecuteAsync I env (Some a) len sharable e = Inr (EFI_SUCCESS, e1)
    \<and> signals I (events e0) (Suc (length ds)) e1 = Some (Inr (1 # map sleep_time ds, e2))
    \<and> idle e2 \<and> ran I sharable a x m e0 e2 \<and> events e2 = events e0 + 1"
proof -
  obtain e1 E where start: "UpyExecuteAsync I env (Some a) len sharable e = Inr (EFI_SUCCESS, e1)"
      "fire_timer I (events e0) e1 = after_jump (leave_stack I (Some a) (next_stack e0) (Some (RunStr I text (vm e0))) E)"
      "timers e1 (events e0) = Some 1" "ExecEvent (mExecutorData E) = Some (events e0)" "IsRunning (mExecutorData E)"
      "timers E (events e0) = None" "next_stack e0 \<in> set (stacks E)" "sources E = sources e0"
    and final: "\<And>x m e'. ended I (Some a) x m E e' \<Longrightarrow> idle e' \<and> ran I sharable a x m e0 e' \<and> events e' = events e0 + 1"
    using async_starts [OF assms(1-9)] by blast
  obtain e2 e3 where run: "after_jump (leave_stack I (Some a) (next_stack e0) (Some (RunStr I text (vm e0))) E) = Some (Inr e2)"
      "signals I (events e0) (length ds) e2 = Some (Inr (map sleep_time ds, e3))" "ended I (Some a) x m E e3"
    using suspended_run [OF assms(10) start(4,6,5,7), of "Some a"] start(8) assms(7) by auto
  have "signals I (events e0) (Suc (length ds)) e1 = Some (Inr (1 # map sleep_time ds, e3))" using start(2,3) run(1,2) by simp
  then show ?thesis using start(1) final [OF run(3)] by blast
qed

section \<open>A synchronous run\<close>

lemma execute_core:
  assumes "\<not> IsRunning (mExecutorData e)" and "ensure_init I env True e = Inr (EFI_SUCCESS, e0)" and "mHeap e0"
    and "\<not> IsRunning (mExecutorData e0)" and "64 \<le> free_pages e0" and "sources e0 a = Some buf" and "is_mpy buf = Inr False"
    and "source_text buf = Inr text" and "refuses I (RunStr I text (vm e0)) x m"
  shows "\<exists>e'. UpyExecute I env (Some a) len sharable e = Some (Inr (end_status x, e')) \<and> ran I sharable a x m e0 e'
    \<and> \<not> IsRunning (mExecutorData e') \<and> ScriptEngineStack (mExecutorData e') = None \<and> timers e' = timers e0 \<and> events e' = events e0
    \<and> ScriptEngineContext (mExecutorData e') = ScriptEngineContext (mExecutorData e0)"
proof -
  have prot: "ScriptEngineProtocol (mExecutorData e0)" using assms(2) ensure_init_protocol by fastforce
  let ?s = "next_stack e0"
  let ?d = "(mExecutorData e0)\<lparr>DeinitAfterwards := \<not> sharable, ExecEvent := None, Script := Some a, ScriptLength := len,
    ScriptEngineStackSize := mStackSize, ScriptEngineStack := Some ?s\<rparr>"
  let ?e1 = "e0\<lparr>mExecutorData := ?d, free_pages := free_pages e0 - 64, stacks := ?s # stacks e0, next_stack := ?s + mStackSize\<rparr>"
  let ?E = "upd (\<lambda>d. d\<lparr>IsRunning := True\<rparr>) (?e1\<lparr>StackTop := ?s + mStackSize, StackLimit := mStackSize\<rparr>)"
  have "new_stack (upd (\<lambda>d. d\<lparr>DeinitAfterwards := \<not> sharable, ExecEvent := None, Script := Some a, ScriptLength := len\<rparr>) e0) = Inr ?e1"
    using assms(5) by (simp add: new_stack_def alloc_pages_def pages upd_def)
  moreover have "ScriptExecutor I ?e1 = after_jump (leave_stack I (Some a) ?s (Some (End x, m)) ?E)"
    using assms(3,4,6,7,8) prot run_engine_refuses [OF assms(9)] by (simp add: ScriptExecutor_jump enter_new)
  moreover obtain e' where e': "after_jump (leave_stack I (Some a) ?s (Some (End x, m)) ?E) = Some (Inr e')" "ended I (Some a) x m ?E e'"
      "ScriptEngineContext (mExecutorData e') = ScriptEngineContext (mExecutorData e0)"
    using end_leaves [of "Some a" ?E I ?s x m] assms(6) by (auto simp: upd_def)
  ultimately have "UpyExecute I env (Some a) len sharable e = Some (Inr (ExecStatus (mExecutorData e'), e'))"
    using assms(1,2) by (simp add: UpyExecute_def)
  moreover have "ran I sharable a x m e0 e'"
    by (rule ran_if_ended [OF e'(2)]) (use assms(3,5) prot in \<open>simp_all add: upd_def\<close>)
  ultimately show ?thesis using e'(2,3) by (auto simp: left_at_def Let_def upd_def)
qed

text \<open>
  C11. A synchronous run returns the status of the script (success exactly if there was no exception); a request to suspend
  raises an exception in the script instead. Afterwards the engine is idle, source, stack and pages have been given back, and
  the interpreter keeps its state exactly if it is shared.
\<close>

theorem execute_runs:
  assumes "\<not> IsRunning (mExecutorData e)" and "ensure_init I env True e = Inr (EFI_SUCCESS, e0)" and "idle e0" and "mHeap e0"
    and "64 \<le> free_pages e0" and "sources e0 a = Some buf" and "is_mpy buf = Inr False" and "source_text buf = Inr text"
    and "refuses I (RunStr I text (vm e0)) x m"
  shows "\<exists>e'. UpyExecute I env (Some a) len sharable e = Some (Inr (end_status x, e')) \<and> idle e' \<and> ran I sharable a x m e0 e'"
  using execute_core [OF assms(1,2,4) _ assms(5-9), of len sharable] assms(3) by (auto simp: idle_def)

text \<open>
  C16. Between \<open>UpyExecuteAsync\<close> and the first signal of the timer the engine does not count as running: a synchronous run
  is accepted and succeeds, but then the first script never runs, its source and a stack are never freed, and the signal
  enters the engine on a null stack or through an empty context.
\<close>

theorem execute_before_first_signal:
  assumes "ScriptEngineProtocol (mExecutorData e)" and "idle e" and "mHeap e" and "ScriptEngineContext (mExecutorData e) = None"
    and "128 \<le> free_pages e" and "0 < len" and "sources e a = Some abuf" and "a \<noteq> b" and "sources e b = Some buf" and "is_mpy buf = Inr False"
    and "source_text buf = Inr text" and "refuses I (RunStr I text (vm e)) x m"
  shows "\<exists>e1 e2. UpyExecuteAsync I env (Some a) len sharable e = Inr (EFI_SUCCESS, e1)
    \<and> UpyExecute I env (Some b) len' sh e1 = Some (Inr (end_status x, e2))
    \<and> sources e2 a = Some abuf \<and> stacks e2 = next_stack e # stacks e
    \<and> fire_timer I (events e) e2 = Some (Inl (if sh then AssertFailed else NullDeref))"
proof -
  let ?ev = "events e" and ?s = "next_stack e"
  let ?d = "(mExecutorData e)\<lparr>DeinitAfterwards := \<not> sharable, Script := Some a, ScriptLength := len, ScriptEngineStackSize := mStackSize,
    ScriptEngineStack := Some ?s, ExecEvent := Some ?ev\<rparr>"
  let ?e1 = "e\<lparr>mExecutorData := ?d, free_pages := free_pages e - 64, stacks := ?s # stacks e, next_stack := ?s + mStackSize,
    events := ?ev + 1, timers := (timers e)(?ev := Some 1)\<rparr>"
  have start: "UpyExecuteAsync I env (Some a) len sharable e = Inr (EFI_SUCCESS, ?e1)"
    using assms(1,2,5,6) by (simp add: UpyExecuteAsync_def ensure_init_def idle_def new_stack_def alloc_pages_def pages upd_def)
  have "ensure_init I env True ?e1 = Inr (EFI_SUCCESS, ?e1)" using assms(1) by (simp add: ensure_init_def)
  moreover have "\<not> IsRunning (mExecutorData ?e1)" "mHeap ?e1" "64 \<le> free_pages ?e1" "sources ?e1 b = Some buf" "vm ?e1 = vm e"
    using assms(2,3,5,9) by (simp_all add: idle_def)
  ultimately obtain e2 where e2: "UpyExecute I env (Some b) len' sh ?e1 = Some (Inr (end_status x, e2))" "ran I sh b x m ?e1 e2"
      "\<not> IsRunning (mExecutorData e2)" "ScriptEngineStack (mExecutorData e2) = None" "timers e2 = timers ?e1"
      "ScriptEngineContext (mExecutorData e2) = None"
    using execute_core [of ?e1 I env ?e1 b buf "text" x m len' sh] assms(4,10,11,12) by auto
  have "sources e2 a = Some abuf" "stacks e2 = next_stack e # stacks e" "ScriptEngineProtocol (mExecutorData e2) = sh"
    using e2(2) assms(7,8) by (simp_all add: ran_def)
  moreover from this have "fire_timer I ?ev e2 = Some (Inl (if sh then AssertFailed else NullDeref))"
    using e2(3-6) by (simp add: fire_timer_def ScriptExecutor_def enter_engine_def)
  ultimately show ?thesis using start e2(1) by blast
qed

section \<open>A small interpreter\<close>

text \<open>A script that suspends itself for 5 ms and then with no time, counts what it does, and ends when it is refused.\<close>

definition sleeper :: "(nat, nat) interp" where
  "sleeper = \<lparr>Fresh = 0, RunStr = (\<lambda>s m. (Yield 5 2, m + 1)), RunLine = (\<lambda>kind line m. (End (EndOk None), m)),
     Resume = (\<lambda>k ok m. if \<not> ok then (End (Raised (SystemExit ExitNone)), m)
        else if k = 2 then (Yield 0 1, m) else (End (EndOk None), m + 1)),
     Collect = id\<rparr>"

definition small_engine :: "(nat, nat, unit, nat) engine" where
  "small_engine = \<lparr>mExecutorData = no_executor\<lparr>ScriptEngineProtocol := True\<rparr>, mHeap = True, vm = 0, sys_argv = [], sys_path = [], StackTop = 0,
     StackLimit = 0, e_usf = \<lparr>FilePool = [], FileSystemTable = None, CurrentDirectory = None\<rparr>, e_vols = [], prompt = [], printed = [],
     sources = (\<lambda>a. if a \<le> 1 then Some [112, 0] else None), stacks = [], next_stack = 4096, free_pages = 200, events = 7, timers = (\<lambda>_. None)\<rparr>"

lemma small_engine_ok: "idle small_engine" "mHeap small_engine" "\<not> IsRunning (mExecutorData small_engine)"
  "ScriptEngineProtocol (mExecutorData small_engine)" "ScriptEngineContext (mExecutorData small_engine) = None"
  "free_pages small_engine = 200" "events small_engine = 7" "sources small_engine 0 = Some [112, 0]" "sources small_engine 1 = Some [112, 0]"
  "vm small_engine = 0" "ensure_init I env c small_engine = Inr (EFI_SUCCESS, small_engine)"
  by (simp_all add: small_engine_def idle_def no_executor_def ensure_init_def)

lemma small_source: "is_mpy [112, 0] = Inr False" "source_text [112, 0] = Inr [112]"
  by (simp_all add: is_mpy_def source_text_def rd_def)

lemma sleeper_steps:
  "RunStr sleeper s m = (Yield 5 2, m + 1)" "Resume sleeper 2 True m = (Yield 0 1, m)" "Resume sleeper 1 True m = (End (EndOk None), m + 1)"
  "Resume sleeper k False m = (End (Raised (SystemExit ExitNone)), m)"
  by (simp_all add: sleeper_def)

lemma sleeper_yields: "yields sleeper (RunStr sleeper s m) [5, 0] (EndOk None) (m + 2)"
proof -
  have "yields sleeper (Resume sleeper 1 True (m + 1)) [] (EndOk None) (m + 2)" unfolding sleeper_steps using yields.ends by simp
  then have "yields sleeper (Resume sleeper 2 True (m + 1)) [0] (EndOk None) (m + 2)" unfolding sleeper_steps(2) by (rule yields.sleeps)
  then show ?thesis unfolding sleeper_steps(1) by (rule yields.sleeps)
qed

lemma sleeper_refuses: "refuses sleeper (RunStr sleeper s m) (Raised (SystemExit ExitNone)) (m + 1)"
  unfolding sleeper_steps(1) by (rule refuses.goes_on) (simp add: sleeper_steps refuses.ends)

definition small_env :: "(nat, nat, nat) engine_env" where
  "small_env = \<lparr>Firmware = no_shell, LoadedImage = EFI_SUCCESS, ImageFilePath = Some [97, SEP, 98]\<rparr>"

theorem async_script_runs_witness:
  "\<exists>e1 e2. UpyExecuteAsync sleeper small_env (Some 0) 1 True small_engine = Inr (EFI_SUCCESS, e1)
    \<and> signals sleeper 7 3 e1 = Some (Inr ([1, 50000, 1000000], e2)) \<and> idle e2
    \<and> ran sleeper True 0 (EndOk None) 2 small_engine e2 \<and> events e2 = 8"
proof -
  have "sleep_time 5 = 50000" "sleep_time 0 = 1000000" by (simp_all add: sleep_time_def)
  then show ?thesis
    using async_script_runs [OF small_engine_ok(3) small_engine_ok(11) small_engine_ok(1,2) _ _ small_engine_ok(8) small_source,
        where I = sleeper and len = 1 and ds = "[5, 0]" and x = "EndOk None" and m = 2 and sharable = True]
      sleeper_yields [of "[112]" 0] by (simp add: small_engine_ok numeral_3_eq_3 numeral_2_eq_2)
qed

theorem execute_runs_witness:
  "\<exists>e'. UpyExecute sleeper small_env (Some 0) 1 False small_engine = Some (Inr (EFI_LOAD_ERROR, e')) \<and> idle e'
    \<and> ran sleeper False 0 (Raised (SystemExit ExitNone)) 1 small_engine e'"
  using execute_runs [OF small_engine_ok(3) small_engine_ok(11) small_engine_ok(1,2) _ small_engine_ok(8) small_source,
      where I = sleeper and len = 1 and sharable = False and env = small_env] sleeper_refuses [of "[112]" 0]
  by (fastforce simp: small_engine_ok)

theorem execute_before_first_signal_witness:
  "\<exists>e1 e2. UpyExecuteAsync sleeper small_env (Some 0) 1 True small_engine = Inr (EFI_SUCCESS, e1)
    \<and> UpyExecute sleeper small_env (Some 1) 1 True e1 = Some (Inr (EFI_LOAD_ERROR, e2))
    \<and> fire_timer sleeper 7 e2 = Some (Inl AssertFailed)"
  using execute_before_first_signal [OF small_engine_ok(4,1,2,5) _ _ small_engine_ok(8) _ small_engine_ok(9) small_source,
      where I = sleeper and len = 1 and len' = 1 and sharable = True and sh = True and env = small_env
        and x = "Raised (SystemExit ExitNone)" and m = 1] sleeper_refuses [of "[112]" 0]
  by (auto simp: small_engine_ok)

section \<open>Arguments\<close>

lemma put_all_full: "length dst + length xs > cap \<Longrightarrow> length dst \<le> cap \<Longrightarrow> put_all cap dst xs = Inl OutOfBounds"
  by (induction xs arbitrary: dst) (auto simp: put_def)

lemma encode_loop_full:
  "length dst + length (utf8_of ws) > cap \<Longrightarrow> length dst \<le> cap
    \<Longrightarrow> mfold (\<lambda>c out. put_all cap out (utf8_bytes c)) ws dst = Inl OutOfBounds"
proof (induction ws arbitrary: dst)
  case (Cons c ws)
  then show ?case by (cases "length dst + utf8_size c \<le> cap") (simp_all add: put_all_ok put_all_full)
qed simp

lemma utf8_no_nul: "0 \<notin> set ws \<Longrightarrow> 0 \<notin> set (utf8_of ws)"
proof (induction ws)
  case (Cons c ws)
  have "0 \<notin> set (utf8_bytes c)" using ascii_byte(2) [of 0 c] Cons.prems by auto
  then show ?case using Cons by simp
qed simp

lemma utf8_to_buffer:
  "UnicodeToUtf8 True a (Some n) (length a) = (if length (utf8_of a) < n then Inr (utf8_of a @ [0], length (utf8_of a)) else Inl OutOfBounds)"
  using encode_loop [of "[]" a n] encode_loop_full [of n "[]" a]
  by (cases "length (utf8_of a) \<le> n") (auto simp: UnicodeToUtf8_def put_def)

text \<open>The string of an argument: it has to be shorter than 256 bytes, and than the buffer if it has less than 1024 characters.\<close>

lemma arg_string_exact:
  assumes "0 \<notin> set a"
  shows "arg_string a = (if length (utf8_of a) < 256 then Inr (utf8_of a)
    else if length a < 1024 \<and> 1024 \<le> length (utf8_of a) then Inl OutOfBounds else Inl AssertFailed)"
proof -
  have "takeWhile (\<lambda>c. c \<noteq> 0) (utf8_of a @ [0]) = utf8_of a"
    using utf8_no_nul [OF assms] by (subst takeWhile_append2) (metis, simp)
  moreover have "length a \<le> length (utf8_of a)" by (induction a) (auto simp: utf8_size_def)
  ultimately show ?thesis
    using UnicodeToUtf8_ok [of a "[]"] by (auto simp: arg_string_def ToUpyString_def utf8_to_buffer qstr_from_str_def)
qed

abbreviation arg_strings :: "w16 list option list \<Rightarrow> byte list list" where
  "arg_strings as \<equiv> concat (map (\<lambda>a. case a of None \<Rightarrow> [] | Some x \<Rightarrow> [utf8_of x]) as)"

lemma append_args_prefix:
  assumes "\<forall>a. Some a \<in> set pre \<longrightarrow> 0 \<notin> set a" and "\<forall>a. Some a \<in> set pre \<longrightarrow> length (utf8_of a) < 256"
  shows "append_args (pre @ rest) e = append_args rest (e\<lparr>sys_argv := sys_argv e @ arg_strings pre\<rparr>)"
  using assms
proof (induction pre arbitrary: e)
  case (Cons a pre)
  then show ?case by (cases a) (auto simp: arg_string_exact)
qed simp



end
