(* ===== verification/Engine_States.thy ===== *)
theory Engine_States
  imports Script_Engine_Thms
begin

text \<open>
  The states of the script engine between the calls: it rests, or a script has been launched and waits for its timer, or
  it sleeps. Every request that respects the protocol leads from one of these states to another, without a fault,
  and the pages of the firmware add up.
\<close>

section \<open>What the parts of the engine keep\<close>

lemma run_engine_sync:
  assumes "run_engine I ev s = Some r"
  shows "ev = None \<longrightarrow> (\<exists>x. fst r = End x)"
  by (rule run_engine.raw_induct [OF _ assms, where P = "\<lambda>I ev s r. ev = None \<longrightarrow> (\<exists>x. fst r = End x)"])
    (auto simp: UpySuspend_def split: prod.splits outcome.splits, metis surj_pair)

text \<open>The fields the initialisation of the interpreter leaves alone.\<close>

definition same_base :: "('k, 'm, 't, 'r) engine \<Rightarrow> ('k, 'm, 't, 'r) engine \<Rightarrow> bool" where
  "same_base e e' \<longleftrightarrow> mExecutorData e' = mExecutorData e \<and> stacks e' = stacks e \<and> timers e' = timers e \<and> sources e' = sources e
     \<and> events e' = events e \<and> free_pages e' = free_pages e \<and> mHeap e' = mHeap e"

lemma same_base_refl: "same_base e e"
  by (simp add: same_base_def)

lemma same_base_trans: "same_base e1 e2 \<Longrightarrow> same_base e2 e3 \<Longrightarrow> same_base e1 e3"
  by (simp add: same_base_def)

lemma same_base_usf: "same_base e (e\<lparr>e_usf := u, e_vols := v\<rparr>)"
  by (simp add: same_base_def)

lemma add_path_base: "add_path p e = Inr e' \<Longrightarrow> same_base e e'"
  by (auto simp: same_base_def add_path_def rbind_eq_Inr)

lemma UpyInit_base:
  assumes "UpyInit I env e = Inr (st, e')" and "16384 \<le> free_pages e"
  shows "st = EFI_SUCCESS \<and> (\<exists>e4. e' = upd (\<lambda>d. d\<lparr>ExecStatus := EFI_SUCCESS\<rparr>) e4
    \<and> same_base (e\<lparr>free_pages := free_pages e - 16384, mHeap := True\<rparr>) e4)"
proof -
  let ?e1 = "e\<lparr>StackLimit := mStackSize, free_pages := free_pages e - 16384, mHeap := True, vm := Fresh I, sys_argv := [], sys_path := []\<rparr>"
  obtain p where p: "ImageFilePath env = Some p" "\<not> EFI_ERROR (LoadedImage env)"
    using assms by (cases "ImageFilePath env") (auto simp: UpyInit_def alloc_pages_def pages rbind_eq_Inr rassert_def split: if_splits)
  obtain cur u ev where g: "UsfGetCurrentDirectory (Firmware env) (e_usf e) = Inr (cur, u, ev)"
    using assms p by (cases "UsfGetCurrentDirectory (Firmware env) (e_usf e)") (auto simp: UpyInit_def alloc_pages_def pages rassert_def)
  let ?e2 = "?e1\<lparr>e_usf := u, e_vols := e_vols ?e1 @ ev\<rparr>"
  let ?r = "case cur of None \<Rightarrow> rbind (UsfChangeCurrentDirectory (Firmware env) (Some (image_directory p)) (e_usf ?e2)) (\<lambda>(_, _, u', ev').
           Inr (?e2\<lparr>e_usf := u', e_vols := e_vols ?e2 @ ev'\<rparr>))
         | Some c \<Rightarrow> if c \<noteq> image_directory p then add_path c ?e2 else Inr ?e2"
  have u: "UpyInit I env e = rbind ?r (\<lambda>e3. rbind (add_path (image_directory p) e3) (\<lambda>e4.
      Inr (EFI_SUCCESS, upd (\<lambda>d. d\<lparr>ExecStatus := EFI_SUCCESS\<rparr>) e4)))"
    using assms(2) p g by (cases cur) (simp_all add: UpyInit_def alloc_pages_def pages rassert_def Let_def)
  obtain e3 e4 where r: "?r = Inr e3" "add_path (image_directory p) e3 = Inr e4"
      "e' = upd (\<lambda>d. d\<lparr>ExecStatus := EFI_SUCCESS\<rparr>) e4" "st = EFI_SUCCESS"
    using assms(1) unfolding u rbind_eq_Inr by (elim exE conjE) (simp only: prod.inject sum.inject)
  have "same_base ?e1 e3"
  proof (cases cur)
    case None
    then show ?thesis using r(1) by (auto simp: rbind_eq_Inr same_base_def)
  next
    case (Some c)
    then show ?thesis using r(1) same_base_trans [OF same_base_usf add_path_base] same_base_usf
      by (cases "c = image_directory p") auto
  qed
  then have "same_base ?e1 e4" using same_base_trans add_path_base [OF r(2)] by blast
  then show ?thesis using r(3,4) by (auto simp: same_base_def)
qed

lemma repl_loop_fields:
  "repl_loop I ls e = Some (code, e') \<Longrightarrow> \<exists>v p q. e' = e\<lparr>vm := v\<rparr>\<lparr>printed := p\<rparr>\<lparr>prompt := q\<rparr>"
proof (induction ls arbitrary: e)
  case (Cons l ls)
  obtain kind line where l: "l = (kind, line)" by force
  show ?case
  proof (cases "kind = ExitRepl \<or> line = []")
    case True
    show ?thesis
    proof (cases "kind = ExitRepl")
      case True
      then have "e' = e\<lparr>vm := vm e\<rparr>\<lparr>printed := printed e\<rparr>\<lparr>prompt := ls\<rparr>" using Cons.prems l by simp
      then show ?thesis by blast
    next
      case False
      then show ?thesis using Cons l True by simp
    qed
  next
    case False
    then obtain x m where run: "run_engine I None (RunLine I kind line (vm e)) = Some (End x, m)"
      using Cons.prems l by (auto split: option.splits prod.splits outcome.splits)
    obtain c p where x: "execute_end x (e\<lparr>vm := m\<rparr>) = (c, e\<lparr>vm := m\<rparr>\<lparr>printed := p\<rparr>)" by (rule execute_end_result)
    show ?thesis
    proof (cases "c AND 0x100 = 0")
      case True
      then have "repl_loop I ls (e\<lparr>vm := m\<rparr>\<lparr>printed := p\<rparr>) = Some (code, e')" using Cons.prems l run x False by simp
      then obtain v q r where "e' = e\<lparr>vm := m\<rparr>\<lparr>printed := p\<rparr>\<lparr>vm := v\<rparr>\<lparr>printed := q\<rparr>\<lparr>prompt := r\<rparr>" using Cons.IH by blast
      then have "e' = e\<lparr>vm := v\<rparr>\<lparr>printed := q\<rparr>\<lparr>prompt := r\<rparr>" by simp
      then show ?thesis by blast
    next
      case False
      then show ?thesis using Cons.prems l run x \<open>\<not> (kind = ExitRepl \<or> line = [])\<close> by auto
    qed
  qed
qed simp

section \<open>The states\<close>

definition good_source :: "('k, 'm, 't, 'r) engine \<Rightarrow> nat \<Rightarrow> bool" where
  "good_source e a \<longleftrightarrow> (\<exists>buf b s. sources e a = Some buf \<and> is_mpy buf = Inr b \<and> source_text buf = Inr s)"

definition resting :: "('k, 'm, 't, 'r) engine \<Rightarrow> bool" where
  "resting e \<longleftrightarrow> idle e \<and> stacks e = []"

text \<open>A script on the stack \<open>s\<close> waits for the timer \<open>ev\<close>: it has been launched, or it sleeps.\<close>

definition on_stack :: "nat \<Rightarrow> ('k, 'm, 't, 'r) engine \<Rightarrow> bool" where
  "on_stack s e \<longleftrightarrow> ScriptEngineStack (mExecutorData e) = Some s \<and> ScriptEngineStackSize (mExecutorData e) = mStackSize \<and> stacks e = [s]
     \<and> mHeap e \<and> ScriptEngineProtocol (mExecutorData e)"

definition waiting :: "('k, 'm, 't, 'r) engine \<Rightarrow> bool" where
  "waiting e \<longleftrightarrow>
     (\<exists>s ev t. on_stack s e \<and> ExecEvent (mExecutorData e) = Some ev \<and> timers e = (\<lambda>_. None)(ev := Some t)
       \<and> (if IsRunning (mExecutorData e)
          then \<exists>k src. ScriptEngineContext (mExecutorData e) = Some (k, s, src) \<and> (\<forall>a. src = Some a \<longrightarrow> sources e a \<noteq> None)
          else \<exists>a. Script (mExecutorData e) = Some a \<and> good_source e a))"

definition pages_sum :: "('k, 'm, 't, 'r) engine \<Rightarrow> nat" where
  "pages_sum e = free_pages e + 64 * length (stacks e) + (if mHeap e then 16384 else 0)"

definition engine_inv :: "nat \<Rightarrow> ('k, 'm, 't, 'r) engine \<Rightarrow> bool" where
  "engine_inv tot e \<longleftrightarrow> (mHeap e \<longrightarrow> ScriptEngineProtocol (mExecutorData e)) \<and> pages_sum e = tot \<and> (resting e \<or> waiting e)"

lemma left_at_inv:
  assumes "left_at st v src e e'" and "on_stack s e" and "\<And>ev. timers e ev = None" and "pages_sum e = tot"
  shows "engine_inv tot e' \<and> resting e'"
  using assms by (auto simp: engine_inv_def resting_def idle_def left_at_def on_stack_def pages_sum_def pages Let_def)

text \<open>A script that runs on its stack leaves it for the executor, and the engine is in one of the states again.\<close>

lemma leaving_inv:
  assumes "on_stack s e" and "IsRunning (mExecutorData e)" and "\<And>ev. timers e ev = None" and "pages_sum e = tot"
    and "\<And>a. src = Some a \<Longrightarrow> sources e a \<noteq> None" and r: "r = run_engine I (ExecEvent (mExecutorData e)) st0"
    and "after_jump (leave_stack I src s r e) = Some q"
  shows "\<exists>e'. q = Inr e' \<and> engine_inv tot e'"
proof -
  have "r \<noteq> None" using assms(7) by (cases r) (auto simp: leave_stack_def after_jump_def)
  then obtain out m where om: "r = Some (out, m)" by fast
  show ?thesis
  proof (cases out)
    case (End x)
    then obtain e' where "q = Inr e'" "ended I src x m e e'" using end_leaves [of src e I s x m] assms(5,7) om by auto
    then show ?thesis using left_at_inv [OF _ assms(1,3,4)] by blast
  next
    case (Yield ms k)
    then obtain ev where ev: "ExecEvent (mExecutorData e) = Some ev"
      using run_engine_sync [of I "ExecEvent (mExecutorData e)" st0 "(out, m)"] r om by (cases "ExecEvent (mExecutorData e)") auto
    let ?e' = "e\<lparr>vm := m, mExecutorData := (mExecutorData e)\<lparr>ScriptEngineContext := Some (k, s, src)\<rparr>,
      timers := (timers e)(ev := Some (sleep_time ms))\<rparr>"
    have "q = Inr ?e'"
      using assms(7) om Yield ev by (simp add: leave_stack_def jump_value after_jump_def jump_value_low rearm_def timer_value_jump upd_def)
    moreover have "timers e = (\<lambda>_. None)" using assms(3) by (simp add: fun_eq_iff)
    then have "engine_inv tot ?e'" using assms(1,2,4,5) ev
      by (auto simp: engine_inv_def waiting_def on_stack_def pages_sum_def intro!: exI [of _ ev])
    ultimately show ?thesis by blast
  qed
qed

lemma entering_inv:
  assumes "on_stack s e" and "\<And>ev. timers e ev = None" and "pages_sum e = tot"
    and "if IsRunning (mExecutorData e)
      then \<exists>k src. ScriptEngineContext (mExecutorData e) = Some (k, s, src) \<and> (\<forall>a. src = Some a \<longrightarrow> sources e a \<noteq> None)
      else \<forall>a. Script (mExecutorData e) = Some a \<longrightarrow> good_source e a"
    and "ScriptExecutor I e = Some q"
  shows "\<exists>e'. q = Inr e' \<and> engine_inv tot e'"
proof (cases "IsRunning (mExecutorData e)")
  case True
  then obtain k src where c: "ScriptEngineContext (mExecutorData e) = Some (k, s, src)" "\<And>a. src = Some a \<Longrightarrow> sources e a \<noteq> None"
    using assms(4) by auto
  then have "ScriptExecutor I e = after_jump (leave_stack I src s (run_engine I (ExecEvent (mExecutorData e)) (Resume I k True (vm e))) e)"
    using True assms(1) by (simp add: ScriptExecutor_jump enter_engine_def on_stack_def)
  then show ?thesis using leaving_inv [OF assms(1) True assms(2,3) c(2) refl] assms(5) by simp
next
  case False
  let ?E = "upd (\<lambda>d. d\<lparr>IsRunning := True\<rparr>) (e\<lparr>StackTop := s + ScriptEngineStackSize (mExecutorData e), StackLimit := mStackSize\<rparr>)"
  have E: "on_stack s ?E" "IsRunning (mExecutorData ?E)" "\<And>ev. timers ?E ev = None" "pages_sum ?E = tot" "sources ?E = sources e"
      "ExecEvent (mExecutorData ?E) = ExecEvent (mExecutorData e)" "vm ?E = vm e"
    using assms(1-3) by (simp_all add: on_stack_def upd_def pages_sum_def)
  have exec: "ScriptExecutor I e = after_jump (UpyDoScript I (Script (mExecutorData e)) s e)"
    using False assms(1) by (simp add: ScriptExecutor_jump enter_engine_def on_stack_def)
  show ?thesis
  proof (cases "Script (mExecutorData e)")
    case None
    then have do: "UpyDoScript I None s e = map_option (\<lambda>(code, e3). finish_script I None code e3) (DoRepl I ?E)"
      using False assms(1) by (simp add: UpyDoScript_def Let_def on_stack_def split: option.split prod.split)
    then obtain code e3 where e3: "DoRepl I ?E = Some (code, e3)" "q = the (after_jump (Some (finish_script I None code e3)))"
      using assms(5) exec None by (cases "DoRepl I ?E") (auto simp: after_jump_def)
    then obtain v p pr where "e3 = ?E\<lparr>vm := v\<rparr>\<lparr>printed := p\<rparr>\<lparr>prompt := pr\<rparr>" using repl_loop_fields unfolding DoRepl_def by blast
    then have "on_stack s e3" "\<And>ev. timers e3 ev = None" "pages_sum e3 = tot" using E by (simp_all add: on_stack_def pages_sum_def)
    then show ?thesis using left_at_inv finish_leaves [of None e3 I code] e3(2) by fastforce
  next
    case (Some a)
    then obtain buf b t where b: "sources e a = Some buf" "is_mpy buf = Inr b" "source_text buf = Inr t"
      using assms(4) False by (auto simp: good_source_def)
    have do: "UpyDoScript I (Some a) s e = (if b then Some (finish_script I (Some a) (DoMpy buf) ?E)
        else leave_stack I (Some a) s (run_engine I (ExecEvent (mExecutorData e)) (RunStr I t (vm e))) ?E)"
      using False assms(1) b by (simp add: UpyDoScript_def Let_def on_stack_def upd_def)
    show ?thesis
    proof (cases b)
      case True
      then have q: "after_jump (Some (finish_script I (Some a) (DoMpy buf) ?E)) = Some q" using assms(5) exec do Some by simp
      then show ?thesis using left_at_inv [OF _ E(1,3,4)] finish_leaves [of "Some a" ?E I "DoMpy buf"] b(1) E(5) by fastforce
    next
      case False
      have "after_jump (leave_stack I (Some a) s (run_engine I (ExecEvent (mExecutorData ?E)) (RunStr I t (vm e))) ?E) = Some q"
        using False assms(5) exec do Some E(6) by simp
      moreover have src: "\<And>x. Some a = Some x \<Longrightarrow> sources ?E x \<noteq> None" using b(1) E(5) by simp
      ultimately show ?thesis using leaving_inv [OF E(1-4) src refl] by blast
    qed
  qed
qed

section \<open>Requests\<close>

text \<open>What clients and the firmware do; \<open>Provide\<close> is a client that fills a buffer with a source.\<close>

datatype request = Provide nat "byte list" | Execute "nat option" nat bool | ExecuteAsync "nat option" nat bool | Signal nat
  | SetArgs "w16 list option list" | SetPath "w16 list option"

definition perform ::
  "('k, 'm) interp \<Rightarrow> ('h, 'dp, 'r) engine_env \<Rightarrow> request \<Rightarrow> ('k, 'm, 't, 'r) engine \<Rightarrow> ('k, 'm, 't, 'r) step" where
  "perform I env r e =
     (case r of
        Provide a buf \<Rightarrow> Some (Inr (e\<lparr>sources := (sources e)(a := Some buf)\<rparr>))
      | Execute src len sh \<Rightarrow> map_option (\<lambda>x. rbind x (\<lambda>(_, e'). Inr e')) (UpyExecute I env src len sh e)
      | ExecuteAsync src len sh \<Rightarrow> Some (rbind (UpyExecuteAsync I env src len sh e) (\<lambda>(_, e'). Inr e'))
      | Signal ev \<Rightarrow> fire_timer I ev e
      | SetArgs as \<Rightarrow> Some (rbind (UpySetArgs I env (Some as) e) (\<lambda>(_, e'). Inr e'))
      | SetPath p \<Rightarrow> Some (rbind (UpySetPath I env p e) (\<lambda>(_, e'). Inr e')))"

text \<open>
  The rules: a buffer that is in use is not filled again; nothing is executed between \<open>ExecuteAsync\<close> and its first signal;
  sources end with a zero byte; there is memory for the heap and the stack; arguments and paths are short.
\<close>

definition ready :: "('k, 'm) interp \<Rightarrow> ('h, 'dp, 'r) engine_env \<Rightarrow> bool \<Rightarrow> nat \<Rightarrow> ('k, 'm, 't, 'r) engine \<Rightarrow> bool" where
  "ready I env checked n e \<longleftrightarrow> (\<exists>e0. ensure_init I env checked e = Inr (EFI_SUCCESS, e0) \<and> mHeap e0 \<and> n \<le> free_pages e0)"

definition short_arg :: "w16 list \<Rightarrow> bool" where
  "short_arg a \<longleftrightarrow> 0 \<notin> set a \<and> length (utf8_of a) < 256"

definition allowed :: "('k, 'm) interp \<Rightarrow> ('h, 'dp, 'r) engine_env \<Rightarrow> request \<Rightarrow> ('k, 'm, 't, 'r) engine \<Rightarrow> bool" where
  "allowed I env r e \<longleftrightarrow>
     (case r of
        Provide a buf \<Rightarrow> sources e a = None
      | Execute src len sh \<Rightarrow> IsRunning (mExecutorData e) \<or> resting e \<and> ready I env True 64 e \<and> (\<forall>a. src = Some a \<longrightarrow> good_source e a)
      | ExecuteAsync src len sh \<Rightarrow>
          IsRunning (mExecutorData e) \<or> resting e \<and> ready I env False 64 e \<and> (\<forall>a. src = Some a \<longrightarrow> good_source e a)
      | Signal ev \<Rightarrow> True
      | SetArgs as \<Rightarrow> ready I env False 0 e \<and> (\<forall>a. Some a \<in> set as \<longrightarrow> short_arg a)
      | SetPath p \<Rightarrow> ready I env False 0 e \<and> (\<forall>a. p = Some a \<longrightarrow> short_arg a))"

lemma ensure_init_inv:
  assumes "engine_inv tot e" and "ensure_init I env b e = Inr (EFI_SUCCESS, e0)" and "mHeap e0"
  shows "engine_inv tot e0 \<and> (resting e \<longrightarrow> resting e0) \<and> sources e0 = sources e
    \<and> IsRunning (mExecutorData e0) = IsRunning (mExecutorData e) \<and> ScriptEngineProtocol (mExecutorData e0)"
proof (cases "ScriptEngineProtocol (mExecutorData e)")
  case True
  then show ?thesis using assms by (simp add: ensure_init_def)
next
  case False
  then have h: "\<not> mHeap e" "resting e" using assms(1) by (auto simp: engine_inv_def waiting_def on_stack_def)
  obtain st e1 where i: "UpyInit I env e = Inr (st, e1)" "e0 = upd (\<lambda>d. d\<lparr>ScriptEngineProtocol := True\<rparr>) e1 \<or> e0 = e1"
    using assms(2) False by (auto simp: ensure_init_def rbind_eq_Inr split: if_splits)
  then have e0: "e0 = upd (\<lambda>d. d\<lparr>ScriptEngineProtocol := True\<rparr>) e1"
    using assms(2) False by (auto simp: ensure_init_def split: if_splits)
  have "16384 \<le> free_pages e"
  proof (rule ccontr)
    assume "\<not> 16384 \<le> free_pages e"
    then have "e1 = e\<lparr>StackLimit := mStackSize\<rparr>" using i(1) by (simp add: UpyInit_def alloc_pages_def pages)
    then show False using e0 assms(3) h(1) by (simp add: upd_def)
  qed
  moreover from this obtain e4 where "e1 = upd (\<lambda>d. d\<lparr>ExecStatus := EFI_SUCCESS\<rparr>) e4"
      "same_base (e\<lparr>free_pages := free_pages e - 16384, mHeap := True\<rparr>) e4"
    using UpyInit_base [OF i(1)] by blast
  ultimately show ?thesis using e0 h assms(1)
    by (auto simp: same_base_def upd_def engine_inv_def resting_def idle_def pages_sum_def)
qed

lemma new_stack_inv:
  assumes "resting e" and "engine_inv tot e" and "mHeap e" and "ScriptEngineProtocol (f (mExecutorData e))" and "64 \<le> free_pages e"
  shows "\<exists>e2. new_stack (upd f e) = Inr e2 \<and> on_stack (next_stack e) e2 \<and> (\<forall>ev. timers e2 ev = None) \<and> pages_sum e2 = tot
    \<and> sources e2 = sources e \<and> events e2 = events e \<and> mExecutorData e2 = (f (mExecutorData e))\<lparr>ScriptEngineStackSize := mStackSize, ScriptEngineStack := Some (next_stack e)\<rparr>"
  using assms by (auto simp: new_stack_def alloc_pages_def pages upd_def on_stack_def resting_def idle_def pages_sum_def engine_inv_def)

lemma execute_inv:
  assumes "engine_inv tot e" and "allowed I env (Execute src len sh) e" and "UpyExecute I env src len sh e = Some q"
  shows "\<exists>st e'. q = Inr (st, e') \<and> engine_inv tot e'"
proof (cases "IsRunning (mExecutorData e)")
  case True
  then show ?thesis using assms by (auto simp: UpyExecute_def)
next
  case False
  then have a: "resting e" "ready I env True 64 e" "\<forall>a. src = Some a \<longrightarrow> good_source e a" using assms(2) by (auto simp: allowed_def)
  then obtain e0 where e0: "ensure_init I env True e = Inr (EFI_SUCCESS, e0)" "mHeap e0" "64 \<le> free_pages e0" by (auto simp: ready_def)
  note i = ensure_init_inv [OF assms(1) e0(1,2)]
  let ?f = "\<lambda>d. d\<lparr>DeinitAfterwards := \<not> sh, ExecEvent := None, Script := src, ScriptLength := len\<rparr>"
  obtain e2 where e2: "new_stack (upd ?f e0) = Inr e2" "on_stack (next_stack e0) e2" "\<And>ev. timers e2 ev = None" "pages_sum e2 = tot"
      "sources e2 = sources e0" "mExecutorData e2 = (?f (mExecutorData e0))\<lparr>ScriptEngineStackSize := mStackSize, ScriptEngineStack := Some (next_stack e0)\<rparr>"
    using new_stack_inv [of e0 tot ?f] a(1) i e0(2,3) by fastforce
  have "UpyExecute I env src len sh e = map_option (\<lambda>r. rbind r (\<lambda>e3. Inr (ExecStatus (mExecutorData e3), e3))) (ScriptExecutor I e2)"
    using False e0(1) e2(1) by (simp add: UpyExecute_def)
  then obtain r where r: "ScriptExecutor I e2 = Some r" "q = rbind r (\<lambda>e3. Inr (ExecStatus (mExecutorData e3), e3))"
    using assms(3) by (cases "ScriptExecutor I e2") auto
  have "\<exists>e'. r = Inr e' \<and> engine_inv tot e'"
    by (rule entering_inv [OF e2(2-4) _ r(1)]) (use e2(5,6) i a(3) False in \<open>auto simp: good_source_def\<close>)
  then show ?thesis using r(2) by auto
qed

lemma execute_async_inv:
  assumes "engine_inv tot e" and "allowed I env (ExecuteAsync src len sh) e"
  shows "\<exists>st e'. UpyExecuteAsync I env src len sh e = Inr (st, e') \<and> engine_inv tot e'"
proof (cases "IsRunning (mExecutorData e) \<or> src = None \<or> len = 0")
  case True
  then show ?thesis using assms by (auto simp: UpyExecuteAsync_def)
next
  case False
  then obtain a where src: "src = Some a" "resting e" "ready I env False 64 e" "good_source e a" using assms(2) by (auto simp: allowed_def)
  then obtain e0 where e0: "ensure_init I env False e = Inr (EFI_SUCCESS, e0)" "mHeap e0" "64 \<le> free_pages e0" by (auto simp: ready_def)
  note i = ensure_init_inv [OF assms(1) e0(1,2)]
  let ?f = "\<lambda>d. d\<lparr>DeinitAfterwards := \<not> sh, Script := src, ScriptLength := len\<rparr>"
  obtain e2 where e2: "new_stack (upd ?f e0) = Inr e2" "on_stack (next_stack e0) e2" "\<And>ev. timers e2 ev = None" "pages_sum e2 = tot"
      "sources e2 = sources e0" "mExecutorData e2 = (?f (mExecutorData e0))\<lparr>ScriptEngineStackSize := mStackSize, ScriptEngineStack := Some (next_stack e0)\<rparr>"
    using new_stack_inv [of e0 tot ?f] src(2) i e0(2,3) by fastforce
  let ?e3 = "upd (\<lambda>d. d\<lparr>ExecEvent := Some (events e2)\<rparr>) (e2\<lparr>events := events e2 + 1, timers := (timers e2)(events e2 := Some 1)\<rparr>)"
  have "UpyExecuteAsync I env src len sh e = Inr (EFI_SUCCESS, ?e3)" using False src(1) e0(1) e2(1) by (simp add: UpyExecuteAsync_def)
  moreover have "timers e2 = (\<lambda>_. None)" using e2(3) by (simp add: fun_eq_iff)
  then have "engine_inv tot ?e3" using e2(2,4,5,6) src i
    by (auto simp: engine_inv_def waiting_def upd_def on_stack_def pages_sum_def good_source_def resting_def idle_def intro!: exI [of _ "events e2"])
  ultimately show ?thesis by blast
qed

lemma signal_inv:
  assumes "engine_inv tot e" and "fire_timer I ev e = Some q"
  shows "\<exists>e'. q = Inr e' \<and> engine_inv tot e'"
proof (cases "timers e ev")
  case None
  then show ?thesis using assms by (auto simp: fire_timer_def)
next
  case (Some t)
  then have "waiting e" using assms(1) by (auto simp: engine_inv_def resting_def idle_def)
  then obtain s where s: "on_stack s e" "timers e = (\<lambda>_. None)(ev := Some t)"
      "if IsRunning (mExecutorData e) then \<exists>k src. ScriptEngineContext (mExecutorData e) = Some (k, s, src) \<and> (\<forall>a. src = Some a \<longrightarrow> sources e a \<noteq> None)
        else \<exists>a. Script (mExecutorData e) = Some a \<and> good_source e a"
    using Some by (fastforce simp: waiting_def split: if_splits)
  let ?e = "e\<lparr>timers := (timers e)(ev := None)\<rparr>"
  have "ScriptExecutor I ?e = Some q" using assms(2) Some by (simp add: fire_timer_def)
  moreover have "on_stack s ?e" "\<And>ev. timers ?e ev = None" "pages_sum ?e = tot"
    using s(1,2) assms(1) by (simp_all add: on_stack_def pages_sum_def engine_inv_def)
  moreover have "if IsRunning (mExecutorData ?e) then \<exists>k src. ScriptEngineContext (mExecutorData ?e) = Some (k, s, src) \<and> (\<forall>a. src = Some a \<longrightarrow> sources ?e a \<noteq> None)
        else \<forall>a. Script (mExecutorData ?e) = Some a \<longrightarrow> good_source ?e a" using s(3) by (auto simp: good_source_def split: if_splits)
  ultimately show ?thesis using entering_inv by blast
qed

lemma engine_inv_lists: "engine_inv tot (e\<lparr>sys_argv := xs\<rparr>) = engine_inv tot e" "engine_inv tot (e\<lparr>sys_path := xs\<rparr>) = engine_inv tot e"
  by (simp_all add: engine_inv_def resting_def idle_def waiting_def on_stack_def pages_sum_def good_source_def)

lemma provide_inv:
  assumes "engine_inv tot e" and "sources e a = None"
  shows "engine_inv tot (e\<lparr>sources := (sources e)(a := Some buf)\<rparr>)"
proof -
  have "good_source (e\<lparr>sources := (sources e)(a := Some buf)\<rparr>) b" if "good_source e b" for b using that assms(2) by (auto simp: good_source_def)
  then show ?thesis using assms(1)
    by (fastforce simp: engine_inv_def resting_def idle_def waiting_def on_stack_def pages_sum_def split: if_splits)
qed

lemma set_args_inv:
  assumes "engine_inv tot e" and "ready I env False n e" and "\<forall>a. Some a \<in> set as \<longrightarrow> short_arg a"
  shows "\<exists>st e'. UpySetArgs I env (Some as) e = Inr (st, e') \<and> engine_inv tot e'"
proof -
  obtain e0 where e0: "ensure_init I env False e = Inr (EFI_SUCCESS, e0)" "mHeap e0" using assms(2) by (auto simp: ready_def)
  have "append_args as (e0\<lparr>sys_argv := []\<rparr>) = Inr (e0\<lparr>sys_argv := arg_strings as\<rparr>)"
    using append_args_prefix [of as "[]" "e0\<lparr>sys_argv := []\<rparr>"] assms(3) by (simp add: short_arg_def)
  then show ?thesis using ensure_init_inv [OF assms(1) e0] e0 by (simp add: UpySetArgs_def has_heap_def rassert_def engine_inv_lists)
qed

lemma set_path_inv:
  assumes "engine_inv tot e" and "ready I env False n e" and "\<forall>a. p = Some a \<longrightarrow> short_arg a"
  shows "\<exists>st e'. UpySetPath I env p e = Inr (st, e') \<and> engine_inv tot e'"
proof -
  obtain e0 where e0: "ensure_init I env False e = Inr (EFI_SUCCESS, e0)" "mHeap e0" using assms(2) by (auto simp: ready_def)
  then show ?thesis using ensure_init_inv [OF assms(1) e0] assms(3)
    by (cases p) (auto simp: UpySetPath_def has_heap_def rassert_def engine_inv_lists arg_string_exact short_arg_def)
qed

lemma perform_inv:
  assumes "engine_inv tot e" and "allowed I env r e" and "perform I env r e = Some q"
  shows "\<exists>e'. q = Inr e' \<and> engine_inv tot e'"
proof (cases r)
  case (Provide a buf)
  then show ?thesis using assms provide_inv by (auto simp: perform_def allowed_def)
next
  case (Execute src len sh)
  then obtain x where "UpyExecute I env src len sh e = Some x" "q = rbind x (\<lambda>(_, e'). Inr e')" using assms(3) by (auto simp: perform_def)
  then show ?thesis using execute_inv [of tot e I env src len sh x] assms(1,2) Execute by auto
next
  case (ExecuteAsync src len sh)
  then show ?thesis using execute_async_inv [of tot e I env src len sh] assms by (auto simp: perform_def)
next
  case (Signal ev)
  then show ?thesis using signal_inv assms by (simp add: perform_def)
next
  case (SetArgs as)
  then show ?thesis using set_args_inv [of tot e I env 0 as] assms by (auto simp: perform_def allowed_def)
next
  case (SetPath p)
  then show ?thesis using set_path_inv [of tot e I env 0 p] assms by (auto simp: perform_def allowed_def)
qed

inductive reaches :: "('k, 'm) interp \<Rightarrow> ('h, 'dp, 'r) engine_env \<Rightarrow> ('k, 'm, 't, 'r) engine \<Rightarrow> ('k, 'm, 't, 'r) engine \<Rightarrow> bool"
  for I env e0 where
  start: "reaches I env e0 e0"
| request: "reaches I env e0 e \<Longrightarrow> allowed I env r e \<Longrightarrow> perform I env r e = Some (Inr e') \<Longrightarrow> reaches I env e0 e'"

lemma reaches_inv:
  assumes "reaches I env e0 e" and "engine_inv tot e0"
  shows "engine_inv tot e"
  using assms
proof (induction rule: reaches.induct)
  case (request e r e')
  then show ?case using perform_inv [of tot e I env r "Inr e'"] by simp
qed


definition launched :: "(nat, nat, unit, nat) engine" where
  "launched = small_engine\<lparr>mExecutorData := (mExecutorData small_engine)\<lparr>DeinitAfterwards := False, Script := Some 0, ScriptLength := 1,
     ScriptEngineStackSize := mStackSize, ScriptEngineStack := Some 4096, ExecEvent := Some 7\<rparr>, free_pages := 136, stacks := [4096],
     next_stack := 4096 + mStackSize, events := 8, timers := (\<lambda>_. None)(7 := Some 1)\<rparr>"

lemma launch: "UpyExecuteAsync sleeper small_env (Some 0) 1 True small_engine = Inr (EFI_SUCCESS, launched)"
  by (simp add: UpyExecuteAsync_def small_engine_def no_executor_def ensure_init_def new_stack_def alloc_pages_def pages upd_def launched_def)

lemma first_signal: "\<exists>e'. fire_timer sleeper 7 launched = Some (Inr e')"
  by (simp add: fire_timer_def ScriptExecutor_def enter_engine_def UpyDoScript_def Let_def upd_def small_source run_engine_event sleeper_steps
      leave_stack_def jump_value jump_value_low rearm_def launched_def small_engine_def no_executor_def)


text \<open>\<open>UpyExecuteAsync\<close> does not look at the status of the initialisation: without memory for the heap it succeeds, and the script faults.\<close>

lemma async_without_heap:
  assumes "resting e" and "\<not> ScriptEngineProtocol (mExecutorData e)" and "\<not> mHeap e" and "free_pages e < 16384" and "64 \<le> free_pages e" and "0 < len"
  shows "\<exists>e1. UpyExecuteAsync I env (Some a) len sharable e = Inr (EFI_SUCCESS, e1) \<and> fire_timer I (events e) e1 = Some (Inl NullDeref)"
  using assms
  by (simp add: UpyExecuteAsync_def ensure_init_def UpyInit_def alloc_pages_def new_stack_def pages upd_def fire_timer_def ScriptExecutor_def
      enter_engine_def UpyDoScript_def resting_def idle_def Let_def)

end
