(* ===== verification/Lexer_File.thy ===== *)
theory Lexer_File
  imports Os_Module
begin

text \<open>
  \<open>MicroPythonDxe/Uefi/lexerfp.c\<close>, the reader of script files for the lexer, and \<open>mp_import_stat\<close> of \<open>use.c\<close>, with which the
  interpreter looks for modules. \<open>rd_file\<close> is \<open>FileHandleRead\<close>: the bytes it delivers for a request of at most \<open>n\<close> bytes.
\<close>

section \<open>The reader\<close>

type_synonym 'fs file_reader = "EFI_FILE_HANDLE \<Rightarrow> nat \<Rightarrow> 'fs \<Rightarrow> efi_status \<times> byte list \<times> 'fs"

definition LEXER_BUF :: nat where "LEXER_BUF = 128"

record mp_lexer_file_buf_t =
  lex_fh :: EFI_FILE_HANDLE
  lex_buf :: "byte list"
  lex_len :: nat
  lex_pos :: nat

text \<open>The bytes of a read are put at the start of the buffer; more than asked for would overrun it.\<close>

definition fill_buf :: "byte list \<Rightarrow> mp_lexer_file_buf_t \<Rightarrow> mp_lexer_file_buf_t result" where
  "fill_buf bs fb =
     (if length bs > LEXER_BUF then Inl OutOfBounds
      else Inr (fb\<lparr>lex_buf := bs @ drop (length bs) (lex_buf fb)\<rparr>))"

text \<open>\<open>None\<close> is the end of the file (\<open>MP_READER_EOF\<close>).\<close>

definition file_buf_next_byte ::
  "'fs file_reader \<Rightarrow> mp_lexer_file_buf_t \<Rightarrow> ('t, 'fs, 'r) os_world \<Rightarrow> (byte option \<times> mp_lexer_file_buf_t \<times> ('t, 'fs, 'r) os_world) result" where
  "file_buf_next_byte rd_file fb w =
     (if lex_pos fb < lex_len fb
      then rbind (rd (lex_buf fb) (lex_pos fb)) (\<lambda>b. Inr (Some b, fb\<lparr>lex_pos := lex_pos fb + 1\<rparr>, w))
      else if lex_len fb = 0 then Inr (None, fb, w)
      else (case rd_file (lex_fh fb) LEXER_BUF (o_fs w) of (st, bs, fs) \<Rightarrow>
              rbind (fill_buf bs fb) (\<lambda>fb1.
              let w1 = w\<lparr>o_fs := fs\<rparr> in
              if bs = [] \<or> EFI_ERROR st then Inr (None, fb1\<lparr>lex_len := 0\<rparr>, w1)
              else rbind (rd (lex_buf fb1) 0) (\<lambda>b. Inr (Some b, fb1\<lparr>lex_len := length bs, lex_pos := 1\<rparr>, w1)))))"

definition file_buf_close :: "'fs os_lib \<Rightarrow> mp_lexer_file_buf_t \<Rightarrow> ('t, 'fs, 'r) os_world \<Rightarrow> ('t, 'fs, 'r) os_world" where
  "file_buf_close lib fb w = CLOSE_FILE lib (Some (lex_fh fb)) w"

text \<open>\<open>grant\<close> says whether there is memory for the buffer; \<open>garbage\<close> is what it holds at first.\<close>

definition mp_lexer_new_from_fh ::
  "'fs os_lib \<Rightarrow> 'fs file_reader \<Rightarrow> bool \<Rightarrow> byte list \<Rightarrow> EFI_FILE_HANDLE \<Rightarrow> ('t, 'fs, 'r) os_world
    \<Rightarrow> (mp_lexer_file_buf_t option \<times> ('t, 'fs, 'r) os_world) result" where
  "mp_lexer_new_from_fh lib rd_file grant garbage h w =
     (if \<not> grant then Inr (None, CLOSE_FILE lib (Some h) w)
      else (case rd_file h LEXER_BUF (o_fs w) of (st, bs, fs) \<Rightarrow>
              rbind (fill_buf bs \<lparr>lex_fh = h, lex_buf = garbage, lex_len = 0, lex_pos = 0\<rparr>) (\<lambda>fb.
                if EFI_ERROR st then Inr (None, w\<lparr>o_fs := fs\<rparr>)
                else Inr (Some (fb\<lparr>lex_len := length bs, lex_pos := 0\<rparr>), w\<lparr>o_fs := fs\<rparr>))))"

definition mp_lexer_open_file ::
  "('h, 'dp, 'r) usf_firmware \<Rightarrow> 'fs os_lib \<Rightarrow> efi_status \<Rightarrow> byte list \<Rightarrow> ('t, 'fs, 'r) os_world
    \<Rightarrow> (EFI_FILE_HANDLE option \<times> ('t, 'fs, 'r) os_world) result" where
  "mp_lexer_open_file fw lib loc filename w =
     rbind (rassert (\<not> EFI_ERROR loc) AssertFailed) (\<lambda>_.
     rbind (to_path filename) (\<lambda>p.
     rbind (sfp_Open fw p FILE_READ 0 w) (\<lambda>(st, h, w1).
     if EFI_ERROR st then Inr (h, w1)
     else (case h of
             None \<Rightarrow> Inl NullDeref
           | Some f \<Rightarrow>
               (case get_info lib f w1 of (info, w2) \<Rightarrow>
                  if (case info of None \<Rightarrow> True | Some i \<Rightarrow> is_dir i) then Inr (None, CLOSE_FILE lib h w2) else Inr (h, w2))))))"

definition mp_lexer_new_from_file ::
  "('h, 'dp, 'r) usf_firmware \<Rightarrow> 'fs os_lib \<Rightarrow> 'fs file_reader \<Rightarrow> efi_status \<Rightarrow> bool \<Rightarrow> byte list \<Rightarrow> byte list \<Rightarrow> ('t, 'fs, 'r) os_world
    \<Rightarrow> (mp_lexer_file_buf_t option \<times> ('t, 'fs, 'r) os_world) result" where
  "mp_lexer_new_from_file fw lib rd_file loc grant garbage filename w =
     rbind (mp_lexer_open_file fw lib loc filename w) (\<lambda>(h, w1).
       (case h of None \<Rightarrow> Inr (None, w1) | Some f \<Rightarrow> mp_lexer_new_from_fh lib rd_file grant garbage f w1))"

section \<open>Looking for modules\<close>

datatype mp_import_stat_t = MP_IMPORT_STAT_NO_EXIST | MP_IMPORT_STAT_DIR | MP_IMPORT_STAT_FILE

text \<open>Every handle with a script file protocol is tried; \<open>fws\<close> are the file systems behind them.\<close>

fun import_loop ::
  "'fs os_lib \<Rightarrow> ('h, 'dp, 'r) usf_firmware list \<Rightarrow> w16 list \<Rightarrow> ('t, 'fs, 'r) os_world \<Rightarrow> (mp_import_stat_t \<times> ('t, 'fs, 'r) os_world) result" where
  "import_loop lib [] p w = Inr (MP_IMPORT_STAT_NO_EXIST, w)"
| "import_loop lib (fw # fws) p w =
     rbind (sfp_Open fw p FILE_READ 0 w) (\<lambda>(st, h, w1).
       if EFI_ERROR st then import_loop lib fws p w1
       else (case h of
               None \<Rightarrow> Inl NullDeref
             | Some f \<Rightarrow>
                 (case get_info lib f w1 of (info, w2) \<Rightarrow>
                    (case info of
                       None \<Rightarrow> import_loop lib fws p (CLOSE_FILE lib h w2)
                     | Some i \<Rightarrow> Inr (if is_dir i then MP_IMPORT_STAT_DIR else MP_IMPORT_STAT_FILE, w2)))))"

definition mp_import_stat ::
  "'fs os_lib \<Rightarrow> efi_status \<Rightarrow> ('h, 'dp, 'r) usf_firmware list \<Rightarrow> byte list \<Rightarrow> ('t, 'fs, 'r) os_world
    \<Rightarrow> (mp_import_stat_t \<times> ('t, 'fs, 'r) os_world) result" where
  "mp_import_stat lib loc fws path w =
     rbind (Utf8ToUnicode True (path @ [0]) None (length path) False) (\<lambda>(u, len).
     rbind (rassert (len > 0) AssertFailed) (\<lambda>_.
       if loc = EFI_SUCCESS then import_loop lib fws (takeWhile (\<lambda>c. c \<noteq> 0) u) w else Inr (MP_IMPORT_STAT_NO_EXIST, w)))"

end
