(* ===== verification/Lexer_File_Thms.thy ===== *)
theory Lexer_File_Thms
  imports Lexer_File Os_Module_Thms
begin

text \<open>
  The reader of \<open>lexerfp.c\<close> delivers the bytes of a file, whatever the sizes of the pieces it is read in, and then the end of the
  file for ever.
\<close>

section \<open>Reading a file\<close>

text \<open>The pieces a file is read in from a state on, up to a read that fails or is empty.\<close>

inductive file_pieces :: "'fs file_reader \<Rightarrow> EFI_FILE_HANDLE \<Rightarrow> 'fs \<Rightarrow> byte list list \<Rightarrow> bool" for rd_file h where
  no_more: "rd_file h LEXER_BUF fs = (st, bs, fs') \<Longrightarrow> bs = [] \<or> EFI_ERROR st \<Longrightarrow> length bs \<le> LEXER_BUF \<Longrightarrow> file_pieces rd_file h fs []"
| piece: "rd_file h LEXER_BUF fs = (st, bs, fs') \<Longrightarrow> bs \<noteq> [] \<Longrightarrow> \<not> EFI_ERROR st \<Longrightarrow> length bs \<le> LEXER_BUF
    \<Longrightarrow> file_pieces rd_file h fs' ps \<Longrightarrow> file_pieces rd_file h fs (bs # ps)"

text \<open>What the lexer gets when it asks \<open>n\<close> times, and the state then.\<close>

fun next_bytes ::
  "'fs file_reader \<Rightarrow> nat \<Rightarrow> mp_lexer_file_buf_t \<Rightarrow> ('t, 'fs, 'r) os_world \<Rightarrow> (byte option list \<times> mp_lexer_file_buf_t \<times> ('t, 'fs, 'r) os_world) result" where
  "next_bytes rd_file 0 fb w = Inr ([], fb, w)"
| "next_bytes rd_file (Suc n) fb w =
     rbind (file_buf_next_byte rd_file fb w) (\<lambda>(b, fb1, w1).
     rbind (next_bytes rd_file n fb1 w1) (\<lambda>(bs, fb2, w2). Inr (b # bs, fb2, w2)))"

definition buf_ok :: "EFI_FILE_HANDLE \<Rightarrow> mp_lexer_file_buf_t \<Rightarrow> bool" where
  "buf_ok h fb \<longleftrightarrow> lex_fh fb = h \<and> length (lex_buf fb) = LEXER_BUF \<and> lex_len fb \<le> LEXER_BUF \<and> lex_pos fb \<le> LEXER_BUF"

lemma end_for_ever: "lex_len fb = 0 \<Longrightarrow> next_bytes rd_file n fb w = Inr (replicate n None, fb, w)"
  by (induction n) (simp_all add: file_buf_next_byte_def)

abbreviation unread :: "mp_lexer_file_buf_t \<Rightarrow> byte list" where
  "unread fb \<equiv> drop (lex_pos fb) (take (lex_len fb) (lex_buf fb))"

lemma next_in_buf:
  assumes "buf_ok h fb" and "lex_pos fb < lex_len fb"
  shows "file_buf_next_byte rd_file fb w = Inr (Some (lex_buf fb ! lex_pos fb), fb\<lparr>lex_pos := lex_pos fb + 1\<rparr>, w)"
    and "unread fb = lex_buf fb ! lex_pos fb # unread (fb\<lparr>lex_pos := lex_pos fb + 1\<rparr>)"
    and "buf_ok h (fb\<lparr>lex_pos := lex_pos fb + 1\<rparr>)"
  using assms Cons_nth_drop_Suc [of "lex_pos fb" "take (lex_len fb) (lex_buf fb)"]
  by (simp_all add: buf_ok_def file_buf_next_byte_def rd_def)

lemma next_bytes_buf:
  assumes "buf_ok h fb" and "lex_pos fb + n \<le> lex_len fb"
  shows "next_bytes rd_file (n + k) fb w
    = rbind (next_bytes rd_file k (fb\<lparr>lex_pos := lex_pos fb + n\<rparr>) w) (\<lambda>(bs, r). Inr (map Some (take n (unread fb)) @ bs, r))"
  using assms
proof (induction n arbitrary: fb)
  case 0
  then show ?case by (cases "next_bytes rd_file k fb w") auto
next
  case (Suc n)
  then have lt: "lex_pos fb < lex_len fb" by simp
  let ?fb = "fb\<lparr>lex_pos := lex_pos fb + 1\<rparr>"
  note step = next_in_buf [OF Suc.prems(1) lt]
  show ?case using Suc.IH [OF step(3)] Suc.prems(2) step(2)
    by (cases "next_bytes rd_file k (fb\<lparr>lex_pos := Suc (lex_pos fb + n)\<rparr>) w") (auto simp: step(1))
qed

lemma fill_ok:
  "length bs \<le> LEXER_BUF \<Longrightarrow> fill_buf bs fb = Inr (fb\<lparr>lex_buf := bs @ drop (length bs) (lex_buf fb)\<rparr>)"
  by (simp add: fill_buf_def)

lemma next_piece:
  assumes "buf_ok h fb" and "lex_pos fb = lex_len fb" and "0 < lex_len fb" and "rd_file h LEXER_BUF (o_fs w) = (st, bs, fs)" and "length bs \<le> LEXER_BUF"
  shows "bs = [] \<or> EFI_ERROR st \<Longrightarrow> file_buf_next_byte rd_file fb w
      = Inr (None, fb\<lparr>lex_buf := bs @ drop (length bs) (lex_buf fb), lex_len := 0\<rparr>, w\<lparr>o_fs := fs\<rparr>)"
    and "bs \<noteq> [] \<Longrightarrow> \<not> EFI_ERROR st \<Longrightarrow> next_bytes rd_file (Suc k) fb w
      = next_bytes rd_file (Suc k) (fb\<lparr>lex_buf := bs @ drop (length bs) (lex_buf fb), lex_len := length bs, lex_pos := 0\<rparr>) (w\<lparr>o_fs := fs\<rparr>)"
proof -
  show "bs = [] \<or> EFI_ERROR st \<Longrightarrow> file_buf_next_byte rd_file fb w
      = Inr (None, fb\<lparr>lex_buf := bs @ drop (length bs) (lex_buf fb), lex_len := 0\<rparr>, w\<lparr>o_fs := fs\<rparr>)"
    using assms by (simp add: file_buf_next_byte_def buf_ok_def fill_ok)
  assume ok: "bs \<noteq> []" "\<not> EFI_ERROR st"
  let ?fb = "fb\<lparr>lex_buf := bs @ drop (length bs) (lex_buf fb), lex_len := length bs, lex_pos := 0\<rparr>"
  have "file_buf_next_byte rd_file fb w = file_buf_next_byte rd_file ?fb (w\<lparr>o_fs := fs\<rparr>)"
    using assms ok by (simp add: file_buf_next_byte_def buf_ok_def fill_ok rd_def)
  then show "next_bytes rd_file (Suc k) fb w = next_bytes rd_file (Suc k) ?fb (w\<lparr>o_fs := fs\<rparr>)" by simp
qed

lemma next_bytes_pieces:
  fixes w :: "('t, 'fs, 'r) os_world"
  assumes "file_pieces rd_file h fs ps" and "o_fs w = fs" and "buf_ok h fb" and "0 < lex_len fb" and "lex_pos fb \<le> lex_len fb"
  shows "\<exists>fb' w'. next_bytes rd_file (length (unread fb @ concat ps) + k) fb w
      = Inr (map Some (unread fb @ concat ps) @ replicate k None, fb', w') \<and> lex_fh fb' = h \<and> o_log w' = o_log w"
  using assms
proof (induction arbitrary: fb w k rule: file_pieces.induct)
  case (no_more fs st bs fs')
  let ?n = "lex_len fb - lex_pos fb"
  let ?fb = "fb\<lparr>lex_pos := lex_len fb\<rparr>"
  have n: "length (unread fb) = ?n" using no_more.prems by (simp add: buf_ok_def)
  have at_end: "\<exists>fb' w'. next_bytes rd_file k ?fb w = Inr (replicate k None, fb', w') \<and> lex_fh fb' = h \<and> o_log w' = o_log w"
  proof (cases k)
    case 0
    then show ?thesis using no_more.prems by (simp add: buf_ok_def)
  next
    case (Suc k')
    have "buf_ok h ?fb" "rd_file h LEXER_BUF (o_fs w) = (st, bs, fs')" using no_more by (simp_all add: buf_ok_def)
    then have "file_buf_next_byte rd_file ?fb w = Inr (None, ?fb\<lparr>lex_buf := bs @ drop (length bs) (lex_buf ?fb), lex_len := 0\<rparr>, w\<lparr>o_fs := fs'\<rparr>)"
      using no_more by (intro next_piece(1)) simp_all
    then show ?thesis using Suc no_more.prems by (simp add: end_for_ever buf_ok_def)
  qed
  then show ?case using next_bytes_buf [OF no_more.prems(2), of ?n rd_file k w] n no_more.prems(4) by auto
next
  case (piece fs st bs fs' ps)
  let ?n = "lex_len fb - lex_pos fb"
  let ?fb = "fb\<lparr>lex_pos := lex_len fb\<rparr>"
  let ?fb1 = "fb\<lparr>lex_buf := bs @ drop (length bs) (lex_buf fb), lex_len := length bs, lex_pos := 0\<rparr>"
  let ?m = "length (concat (bs # ps)) + k"
  have n: "length (unread fb) = ?n" using piece.prems by (simp add: buf_ok_def)
  have ok: "buf_ok h ?fb1" "0 < lex_len ?fb1" "unread ?fb1 = bs" using piece.prems piece.hyps by (simp_all add: buf_ok_def)
  obtain fb' w' where r: "next_bytes rd_file ?m ?fb1 (w\<lparr>o_fs := fs'\<rparr>) = Inr (map Some (concat (bs # ps)) @ replicate k None, fb', w')"
      "lex_fh fb' = h" "o_log w' = o_log w"
    using piece.IH [of "w\<lparr>o_fs := fs'\<rparr>" ?fb1 k] ok by auto
  obtain m where m: "?m = Suc m" using piece.hyps(2) by (cases bs) auto
  have "buf_ok h ?fb" "rd_file h LEXER_BUF (o_fs w) = (st, bs, fs')" using piece by (simp_all add: buf_ok_def)
  then have "next_bytes rd_file ?m ?fb w = next_bytes rd_file ?m ?fb1 (w\<lparr>o_fs := fs'\<rparr>)"
    using next_piece(2) [of h ?fb rd_file w st bs fs' m] piece unfolding m by simp
  then show ?case using next_bytes_buf [OF piece.prems(2), of ?n rd_file ?m w] n piece.prems(4) r by (auto simp: add.assoc)
qed

lemma from_fh_reads:
  assumes "file_pieces rd_file h (o_fs w) ps" and "length garbage = LEXER_BUF" and "rd_file h LEXER_BUF (o_fs w) = (st, c, fs)" and "\<not> EFI_ERROR st"
  shows "\<exists>fb w1 fb' w'. mp_lexer_new_from_fh lib rd_file True garbage h w = Inr (Some fb, w1)
    \<and> next_bytes rd_file (length (concat ps) + k) fb w1 = Inr (map Some (concat ps) @ replicate k None, fb', w') \<and> lex_fh fb' = h \<and> o_log w' = o_log w"
proof -
  let ?fb = "\<lparr>lex_fh = h, lex_buf = c @ drop (length c) garbage, lex_len = length c, lex_pos = 0\<rparr>"
  have len: "length c \<le> LEXER_BUF" using assms(1,3) by (auto elim: file_pieces.cases)
  have new: "mp_lexer_new_from_fh lib rd_file True garbage h w = Inr (Some ?fb, w\<lparr>o_fs := fs\<rparr>)"
    using assms(3,4) len by (simp add: mp_lexer_new_from_fh_def fill_ok)
  show ?thesis
  proof (cases "c = []")
    case True
    then have "ps = []" using assms(1,3) by (auto elim: file_pieces.cases)
    then show ?thesis using new end_for_ever [of ?fb rd_file k "w\<lparr>o_fs := fs\<rparr>"] True by simp
  next
    case False
    then obtain ps' where ps: "ps = c # ps'" "file_pieces rd_file h fs ps'" using assms(1,3,4) by (auto elim: file_pieces.cases)
    have ok: "buf_ok h ?fb" using assms(2) len by (simp add: buf_ok_def)
    show ?thesis using next_bytes_pieces [OF ps(2) _ ok, of "w\<lparr>o_fs := fs\<rparr>" k] False new ps(1) by (auto simp: add.assoc)
  qed
qed

text \<open>
  C18. Loading a script file: for a file that can be opened and is no directory, the lexer gets exactly the bytes of the file,
  in whatever pieces the file system delivers them, then the end of the file as often as it asks, and closing the reader closes the
  file once.
\<close>

theorem lexer_reads_file:
  assumes "\<not> EFI_ERROR loc" and "to_path filename = Inr p" and "sfp_Open fw p FILE_READ 0 w = Inr (EFI_SUCCESS, Some f, w1)"
    and "os_GetInfo lib f (o_fs w1) = (Some i, fs1)" and "\<not> is_dir i"
    and "file_pieces rd_file f fs1 ps" and "rd_file f LEXER_BUF fs1 = (st, c, fs2)" and "\<not> EFI_ERROR st" and "length garbage = LEXER_BUF"
  shows "\<exists>fb w2 fb' w3. mp_lexer_new_from_file fw lib rd_file loc True garbage filename w = Inr (Some fb, w2)
    \<and> next_bytes rd_file (length (concat ps) + k) fb w2 = Inr (map Some (concat ps) @ replicate k None, fb', w3)
    \<and> o_log (file_buf_close lib fb' w3) = o_log w @ [Opened f, Closed f]"
proof -
  let ?w = "w1\<lparr>o_fs := fs1\<rparr>"
  have open_file: "mp_lexer_open_file fw lib loc filename w = Inr (Some f, ?w)"
    using assms(1-5) by (simp add: mp_lexer_open_file_def get_info_def rassert_def)
  have "o_log w1 = o_log w @ [Opened f]" using adds_open [OF assms(3)] by (simp add: adds_def)
  then show ?thesis using from_fh_reads [of rd_file f ?w ps garbage st c fs2 lib k] assms(6-9)
    by (auto simp: mp_lexer_new_from_file_def open_file file_buf_close_def CLOSE_FILE_def log_event_def)
qed

text \<open>A file of 200 bytes that is delivered in pieces of at most 100 bytes; the state of the small volume is the number of bytes left.\<close>

definition small_reader :: "nat file_reader" where
  "small_reader h n fs = (EFI_SUCCESS, replicate (min 100 fs) 65, fs - 100)"

lemma small_pieces: "file_pieces small_reader h 200 [replicate 100 65, replicate 100 65]"
proof -
  have "file_pieces small_reader h 0 []" by (rule file_pieces.no_more [of _ _ _ EFI_SUCCESS "[]" 0]) (simp_all add: small_reader_def)
  then have "file_pieces small_reader h 100 [replicate 100 65]"
    by (rule file_pieces.piece [of _ _ _ EFI_SUCCESS _ 0, rotated 4]) (simp_all add: small_reader_def LEXER_BUF_def)
  then show ?thesis by (rule file_pieces.piece [of _ _ _ EFI_SUCCESS _ 100, rotated 4]) (simp_all add: small_reader_def LEXER_BUF_def)
qed

definition plain_os :: "nat os_lib" where
  "plain_os = (small_os EFI_SUCCESS)\<lparr>os_GetInfo := (\<lambda>h fs. (Some (file_info [97] 0), fs))\<rparr>"

theorem lexer_reads_file_witness:
  "\<exists>fb w2 fb' w3. mp_lexer_new_from_file no_shell plain_os small_reader EFI_SUCCESS True (replicate 128 0) (utf8_of dir_path) (os_start 200) = Inr (Some fb, w2)
    \<and> next_bytes small_reader 203 fb w2 = Inr (replicate 200 (Some 65) @ [None, None, None], fb', w3)
    \<and> o_log (file_buf_close plain_os fb' w3) = [Opened (FsHandle 12), Closed (FsHandle 12)]"
proof -
  have "\<not> is_dir (file_info [97] 0)" by (simp add: is_dir_def file_info_def)
  moreover have "small_reader (FsHandle 12) LEXER_BUF 200 = (EFI_SUCCESS, replicate 100 65, 100)" by (simp add: small_reader_def)
  moreover have "os_GetInfo plain_os (FsHandle 12) (o_fs ((os_start 200)\<lparr>o_vols := [OpenVol 2, CloseVol 2], o_log := [Opened (FsHandle 12)]\<rparr>))
      = (Some (file_info [97] 0), 200)" by (simp add: plain_os_def os_start_def)
  moreover have "replicate 200 (Some (65 :: byte)) = replicate 100 (Some 65) @ replicate 100 (Some 65)" by (simp flip: replicate_add)
  ultimately show ?thesis
    using lexer_reads_file [OF _ dir_path_opens(1) dir_path_opens(2) [of FILE_READ 200] _ _ small_pieces, where k = 3 and loc = EFI_SUCCESS
        and lib = plain_os and garbage = "replicate 128 0"]
    by (simp add: os_start_def LEXER_BUF_def del: next_bytes.simps) (simp add: numeral_3_eq_3 del: next_bytes.simps)
qed

text \<open>When the first read fails, the file stays open; looking a module up leaves every file open that is found.\<close>

lemma first_read_leaks:
  "rd_file h LEXER_BUF (o_fs w) = (st, bs, fs) \<Longrightarrow> EFI_ERROR st \<Longrightarrow> length bs \<le> LEXER_BUF
    \<Longrightarrow> mp_lexer_new_from_fh lib rd_file True garbage h w = Inr (None, w\<lparr>o_fs := fs\<rparr>)"
  by (simp add: mp_lexer_new_from_fh_def fill_ok)

definition clean_open :: "('h, 'dp, 'r) usf_firmware \<Rightarrow> w16 list \<Rightarrow> bool" where
  "clean_open fw p \<longleftrightarrow> (\<forall>cd m a st h ev. UsfOpen fw cd (Some p) m a = Inr (st, h, ev) \<and> EFI_ERROR st \<longrightarrow> h = None)"

lemma import_loop_log:
  assumes "import_loop lib fws p w = Inr (st, w')" and "\<forall>fw\<in>set fws. clean_open fw p"
  shows "\<exists>es. balanced es \<and> (if st = MP_IMPORT_STAT_NO_EXIST then o_log w' = o_log w @ es else \<exists>f. o_log w' = o_log w @ es @ [Opened f])"
  using assms
proof (induction fws arbitrary: w)
  case Nil
  then show ?case using balanced_simps(1) by auto
next
  case (Cons fw fws)
  obtain s h w1 where op: "sfp_Open fw p FILE_READ 0 w = Inr (s, h, w1)" using Cons.prems(1) by (cases "sfp_Open fw p FILE_READ 0 w") auto
  show ?case
  proof (cases "EFI_ERROR s")
    case True
    then have "h = None" using Cons.prems(2) op by (auto simp: sfp_Open_def clean_open_def rbind_eq_Inr Let_def) blast
    then have "adds w w1 []" using adds_open [OF op] by simp
    moreover have "import_loop lib fws p w1 = Inr (st, w')" using Cons.prems(1) op True by simp
    ultimately show ?thesis using Cons.IH [of w1] Cons.prems(2) by (simp only: adds_def append_Nil2) simp
  next
    case False
    obtain f i w2 where f: "h = Some f" "get_info lib f w1 = (i, w2)" using Cons.prems(1) op False by (cases h) force+
    have log: "adds w w2 [Opened f]" using adds_open [OF op] adds_info [OF f(2)] f(1) by (simp add: adds_def)
    show ?thesis
    proof (cases i)
      case None
      then obtain es where es: "balanced es" "if st = MP_IMPORT_STAT_NO_EXIST then o_log w' = o_log (CLOSE_FILE lib h w2) @ es
          else \<exists>f. o_log w' = o_log (CLOSE_FILE lib h w2) @ es @ [Opened f]"
        using Cons.IH [of "CLOSE_FILE lib h w2"] Cons.prems op False f by auto
      have "o_log (CLOSE_FILE lib h w2) = o_log w @ [Opened f, Closed f]" using log f(1) adds_close [of w2 lib h] by (simp add: adds_def)
      moreover have "balanced ([Opened f, Closed f] @ es)" by (rule balanced_append [OF balanced_simps(2) es(1)])
      ultimately show ?thesis using es(2) by (intro exI [of _ "[Opened f, Closed f] @ es"]) (simp split: if_splits)
    next
      case (Some x)
      then have "w' = w2" "st \<noteq> MP_IMPORT_STAT_NO_EXIST" using Cons.prems(1) op False f by (auto split: if_splits)
      then show ?thesis using log balanced_simps(1) by (intro exI [of _ "[]"]) (simp add: adds_def)
    qed
  qed
qed

text \<open>What a file system driver promises about \<open>Open\<close>: a call that fails returns no handle.\<close>

definition driver_clean :: "('h, 'dp, 'r) usf_firmware \<Rightarrow> bool" where
  "driver_clean fw \<longleftrightarrow> (\<forall>r name m a. EFI_ERROR (fst (VolOpen fw r name m a)) \<longrightarrow> snd (VolOpen fw r name m a) = None)"

lemma rbind_InrD: "rbind x f = Inr y \<Longrightarrow> \<exists>v. f v = Inr y"
  by (cases x) auto

lemma driver_clean_open:
  assumes "driver_clean fw"
  shows "clean_open fw p"
  unfolding clean_open_def
proof (intro allI impI, elim conjE)
  fix cd m a st h ev assume o: "UsfOpen fw cd (Some p) m a = Inr (st, h, ev)" and e: "EFI_ERROR st"
  obtain x norm ev0 where n: "UsfFilePathNorm fw cd p False = Inr (x, norm, ev0)"
    using o by (cases "UsfFilePathNorm fw cd p False") (auto simp: UsfOpen_def)
  show "h = None"
  proof (cases norm)
    case None
    then show ?thesis using o n by (simp add: UsfOpen_def)
  next
    case (Some np)
    let ?X = "if StrStr np ROOT_TYPE_INTERNAL \<noteq> None
      then (case split_root (drop (length ROOT_TYPE_INTERNAL) np) of (root, name) \<Rightarrow> rbind (UsfOpenRoot fw root) (\<lambda>r. Inr (r, name)))
      else if StrStr np ROOT_TYPE_LABEL \<noteq> None
      then (case split_root (drop (length ROOT_TYPE_LABEL) np) of (root, name) \<Rightarrow> rbind (UsfOpenRootByLabel fw root) (\<lambda>r. Inr (r, name)))
      else Inr ((EFI_NOT_FOUND, None, []), None)"
    obtain st1 root ev1 name where x: "?X = Inr ((st1, root, ev1), name)"
      using o n Some by (cases ?X) (auto simp: UsfOpen_def)
    then show ?thesis using o n Some e assms unfolding UsfOpen_def driver_clean_def
      by (simp del: if_split add: x split: option.splits prod.splits if_splits) (metis fst_conv snd_conv)+
  qed
qed

text \<open>
  Looking a module up leaves its file open: when \<open>mp_import_stat\<close> finds a file or a directory, every handle it opened was closed
  but the one of the file that was found; when it finds nothing, all were closed.
\<close>

theorem import_leaves_file_open:
  assumes "mp_import_stat lib loc fws path w = Inr (st, w')" and "\<forall>fw\<in>set fws. driver_clean fw"
  shows "\<exists>es. balanced es \<and> (if st = MP_IMPORT_STAT_NO_EXIST then o_log w' = o_log w @ es else \<exists>f. o_log w' = o_log w @ es @ [Opened f])"
proof -
  obtain u len where "Utf8ToUnicode True (path @ [0]) None (length path) False = Inr (u, len)" "0 < len"
    using assms(1) by (auto simp: mp_import_stat_def rbind_eq_Inr rassert_def split: if_splits)
  then have "(if loc = EFI_SUCCESS then import_loop lib fws (takeWhile (\<lambda>c. c \<noteq> 0) u) w else Inr (MP_IMPORT_STAT_NO_EXIST, w)) = Inr (st, w')"
    using assms(1) by (simp add: mp_import_stat_def rassert_def)
  moreover have "\<forall>fw\<in>set fws. clean_open fw (takeWhile (\<lambda>c. c \<noteq> 0) u)" using assms(2) driver_clean_open by blast
  ultimately show ?thesis
  proof (cases "loc = EFI_SUCCESS")
    case False
    then show ?thesis using \<open>(if loc = EFI_SUCCESS then _ else _) = _\<close> balanced_simps(1) by (intro exI [of _ "[]"]) simp
  qed (use import_loop_log in \<open>simp only: if_True refl\<close>)
qed

theorem import_leaves_file_open_witness:
  "\<exists>w'. mp_import_stat (small_os EFI_SUCCESS) EFI_SUCCESS [no_shell] (utf8_of dir_path) (os_start 1) = Inr (MP_IMPORT_STAT_DIR, w')
    \<and> (\<exists>es. balanced es \<and> (\<exists>f. o_log w' = es @ [Opened f]))"
proof -
  have "is_dir (file_info [97] EFI_FILE_DIRECTORY)" by (simp add: is_dir_def file_info_def EFI_FILE_DIRECTORY_def)
  moreover have "takeWhile (\<lambda>c. c \<noteq> 0) (dir_path @ [0]) = dir_path" by (simp add: dir_path_def path_consts)
  moreover have "Utf8ToUnicode True (utf8_of dir_path @ [0]) None (length (utf8_of dir_path)) False = Inr (dir_path @ [0], length dir_path)"
    by (rule name_decoded)
  moreover have "0 < length dir_path" by (simp add: dir_path_def)
  ultimately obtain w' where w': "mp_import_stat (small_os EFI_SUCCESS) EFI_SUCCESS [no_shell] (utf8_of dir_path) (os_start 1) = Inr (MP_IMPORT_STAT_DIR, w')"
    by (simp add: mp_import_stat_def rassert_def dir_path_opens small_info)
  moreover have "driver_clean no_shell" by (simp add: driver_clean_def no_shell_def)
  ultimately show ?thesis using import_leaves_file_open [OF w'] by (simp add: os_start_def)
qed

end
