(* ===== verification/Upy_App.thy ===== *)
theory Upy_App
  imports Script_Engine Lexer_File
begin

text \<open>
  \<open>MicroPythonApp/MicroPython.c\<close>, the shell application, and the entry points of the driver in \<open>main.c\<close>. The application cuts its
  command line into arguments, loads a script and hands it to the script engine of \<open>use.c\<close>, waiting while another
  script runs. Strings are lists without terminators; a pointer into a string is the rest of it.
\<close>

section \<open>The command line\<close>

definition SPACE :: w16 where "SPACE = 32"
definition TAB :: w16 where "TAB = 9"
definition QUOTE :: w16 where "QUOTE = 34"
definition CARET :: w16 where "CARET = 94"

function FindFirstCharacter :: "w16 list \<Rightarrow> w16 list \<Rightarrow> w16 \<Rightarrow> w16 list" where
  "FindFirstCharacter [] chars esc = []"
| "FindFirstCharacter (c # s) chars esc =
     (if c = esc then FindFirstCharacter (tl s) chars esc
      else if c \<in> set chars then c # s
      else FindFirstCharacter s chars esc)"
  by pat_completeness auto
termination by (relation "measure (\<lambda>(s, _, _). length s)") auto

lemma FindFirstCharacter_length: "length (FindFirstCharacter s chars esc) \<le> length s"
proof (induction s chars esc rule: FindFirstCharacter.induct)
  case (2 c s chars esc)
  then show ?case by (cases "c = esc") (auto simp: le_SucI)
qed simp

text \<open>\<open>None\<close>: a quotation mark is not closed.\<close>

function FindEndOfParameter :: "w16 list \<Rightarrow> w16 list option" where
  "FindEndOfParameter s =
     (case FindFirstCharacter s [SPACE, QUOTE] CARET of
        [] \<Rightarrow> Some []
      | c # r \<Rightarrow>
          if c = SPACE then Some (c # r)
          else (case FindFirstCharacter r [QUOTE] CARET of
                  [] \<Rightarrow> None
                | q # r' \<Rightarrow> FindEndOfParameter r'))"
  by pat_completeness auto
termination
proof (relation "measure length")
  fix s c r q r'
  assume a: "FindFirstCharacter s [SPACE, QUOTE] CARET = c # r" "FindFirstCharacter r [QUOTE] CARET = q # r'"
  then show "(r', s) \<in> measure length"
    using FindFirstCharacter_length [of s "[SPACE, QUOTE]" CARET] FindFirstCharacter_length [of r "[QUOTE]" CARET] by simp
qed simp

declare FindEndOfParameter.simps [simp del]

lemma FindEndOfParameter_length: "FindEndOfParameter s = Some r \<Longrightarrow> length r \<le> length s"
proof (induction s rule: FindEndOfParameter.induct)
  case (1 s)
  show ?case
  proof (cases "FindFirstCharacter s [SPACE, QUOTE] CARET")
    case Nil
    then show ?thesis using "1.prems" by (simp add: FindEndOfParameter.simps [of s])
  next
    case (Cons c t)
    note len = FindFirstCharacter_length [of s "[SPACE, QUOTE]" CARET] FindFirstCharacter_length [of t "[QUOTE]" CARET]
    show ?thesis
    proof (cases "c = SPACE")
      case True
      then show ?thesis using "1.prems" Cons len(1) by (simp add: FindEndOfParameter.simps [of s])
    next
      case False
      then obtain q u where q: "FindFirstCharacter t [QUOTE] CARET = q # u" "FindEndOfParameter u = Some r"
        using "1.prems" Cons by (auto simp: FindEndOfParameter.simps [of s] split: list.splits)
      then show ?thesis using "1.IH" [OF Cons False q(1) q(2)] len Cons by simp
    qed
  qed
qed

lemma FindEndOfParameter_shorter:
  assumes "FindEndOfParameter (c # s) = Some r" and "c \<noteq> SPACE"
  shows "length r < length (c # s)"
proof (cases "c = QUOTE")
  case True
  have "FindFirstCharacter (c # s) [SPACE, QUOTE] CARET = c # s" using True by (simp add: QUOTE_def CARET_def)
  then obtain q t where "FindFirstCharacter s [QUOTE] CARET = q # t" "FindEndOfParameter t = Some r"
    using assms by (subst (asm) FindEndOfParameter.simps) (auto split: list.splits)
  then show ?thesis using FindEndOfParameter_length FindFirstCharacter_length [of s "[QUOTE]" CARET] by fastforce
next
  case False
  then have len: "length (FindFirstCharacter (c # s) [SPACE, QUOTE] CARET) \<le> length s"
    using assms(2) FindFirstCharacter_length [of "tl s" "[SPACE, QUOTE]" CARET] FindFirstCharacter_length [of s "[SPACE, QUOTE]" CARET]
    by (auto intro: le_trans [OF _ diff_le_self])
  show ?thesis
  proof (cases "FindFirstCharacter (c # s) [SPACE, QUOTE] CARET")
    case Nil
    then show ?thesis using assms(1) by (subst (asm) FindEndOfParameter.simps) simp
  next
    case (Cons d t)
    show ?thesis
    proof (cases "d = SPACE")
      case True
      then show ?thesis using assms(1) Cons len by (auto simp: FindEndOfParameter.simps [of "c # s"] simp del: FindFirstCharacter.simps)
    next
      case False
      then obtain q u where q: "FindFirstCharacter t [QUOTE] CARET = q # u" "FindEndOfParameter u = Some r"
        using assms(1) Cons by (auto simp: FindEndOfParameter.simps [of "c # s"] split: list.splits)
      then show ?thesis
        using FindEndOfParameter_length [OF q(2)] FindFirstCharacter_length [of t "[QUOTE]" CARET] len Cons
        by (simp del: FindFirstCharacter.simps)
    qed
  qed
qed

text \<open>The loop that removes escape characters, and the quotation marks that are not escaped.\<close>

fun remove_quotes :: "bool \<Rightarrow> w16 list \<Rightarrow> w16 list" where
  "remove_quotes strip [] = []"
| "remove_quotes strip (c # s) =
     (if c = CARET then (case s of [] \<Rightarrow> [] | d # s' \<Rightarrow> d # remove_quotes strip s')
      else if c = QUOTE \<and> strip then remove_quotes strip s
      else c # remove_quotes strip s)"

text \<open>
  \<open>bytes\<close> is the size of the buffer for the parameter. The result is the parameter and the rest of the
  line; the callers stop at an error.
\<close>

definition GetNextParameter :: "w16 list \<Rightarrow> nat \<Rightarrow> bool \<Rightarrow> (efi_status + w16 list \<times> w16 list) result" where
  "GetNextParameter walker bytes strip =
     (let w = dropWhile (\<lambda>c. c = SPACE) walker in
      if w = [] then Inr (Inl EFI_INVALID_PARAMETER)
      else (case FindEndOfParameter w of
              None \<Rightarrow> Inr (Inl EFI_NOT_FOUND)
            | Some rest \<Rightarrow>
                let n = length w - length rest in
                if n < bytes div 2 then Inr (Inr (remove_quotes strip (take n w), rest)) else Inl OutOfBounds))"

lemma GetNextParameter_shorter:
  assumes "GetNextParameter walker bytes strip = Inr (Inr (p, rest))"
  shows "length rest < length walker"
proof -
  obtain c s where w: "dropWhile (\<lambda>c. c = SPACE) walker = c # s" "FindEndOfParameter (c # s) = Some rest"
  proof (cases "dropWhile (\<lambda>c. c = SPACE) walker")
    case Nil
    then show ?thesis using assms by (simp add: GetNextParameter_def)
  next
    case (Cons c s)
    then show ?thesis using assms that by (auto simp: GetNextParameter_def Let_def split: if_splits option.splits)
  qed
  then have "c \<noteq> SPACE" using hd_dropWhile [of "\<lambda>c. c = SPACE" walker] by auto
  then show ?thesis using FindEndOfParameter_shorter [OF w(2)] w(1) length_dropWhile_le [of "\<lambda>c. c = SPACE" walker] by simp
qed

definition TrimSpaces :: "w16 list \<Rightarrow> w16 list" where
  "TrimSpaces s = rev (dropWhile (\<lambda>c. c = SPACE \<or> c = TAB) (rev (dropWhile (\<lambda>c. c = SPACE \<or> c = TAB) s)))"

text \<open>
  The loop that counts the parameters and the one that copies them; a parameter consumes at least one character. \<open>grant\<close> says
  which of the allocations of a call, in their order, succeed: the copy of the options, the buffer for a parameter, the array, and the
  copy of each parameter. With \<open>EFI_OUT_OF_RESOURCES\<close> the parameters that were copied before are in the array.
\<close>

function count_params :: "w16 list \<Rightarrow> nat \<Rightarrow> nat result" where
  "count_params walker bytes =
     (if walker = [] then Inr 0
      else (case GetNextParameter walker bytes True of
              Inl f \<Rightarrow> Inl f
            | Inr (Inl _) \<Rightarrow> Inr 0
            | Inr (Inr (_, rest)) \<Rightarrow> rbind (count_params rest bytes) (\<lambda>n. Inr (n + 1))))"
  by pat_completeness auto
termination by (relation "measure (\<lambda>(w, _). length w)") (auto dest: GetNextParameter_shorter)

declare count_params.simps [simp del]

function copy_params :: "(nat \<Rightarrow> bool) \<Rightarrow> w16 list \<Rightarrow> nat \<Rightarrow> bool \<Rightarrow> nat \<Rightarrow> w16 list list \<Rightarrow> (efi_status \<times> w16 list list) result" where
  "copy_params grant walker bytes strip count argv =
     (if walker = [] then Inr (EFI_SUCCESS, argv)
      else (case GetNextParameter walker bytes strip of
              Inl f \<Rightarrow> Inl f
            | Inr (Inl _) \<Rightarrow> Inr (EFI_INVALID_PARAMETER, argv)
            | Inr (Inr (p, rest)) \<Rightarrow>
                if \<not> grant (3 + length argv) then Inr (EFI_OUT_OF_RESOURCES, argv)
                else if length argv < count then copy_params grant rest bytes strip count (argv @ [p])
                else Inl OutOfBounds))"
  by pat_completeness auto
termination by (relation "measure (\<lambda>(_, w, _). length w)") (auto dest: GetNextParameter_shorter)

declare copy_params.simps [simp del]

definition ParseLoadOptionsToArgs :: "(nat \<Rightarrow> bool) \<Rightarrow> w16 list option \<Rightarrow> bool \<Rightarrow> (efi_status \<times> w16 list list) result" where
  "ParseLoadOptionsToArgs grant options strip =
     (case options of
        None \<Rightarrow> Inr (EFI_SUCCESS, [])
      | Some s \<Rightarrow>
          if s = [] then Inr (EFI_SUCCESS, [])
          else if \<not> grant 0 then Inr (EFI_OUT_OF_RESOURCES, [])
          else
            let t = TrimSpaces s; bytes = 2 * (length t + 1) in
            if \<not> grant 1 then Inr (EFI_OUT_OF_RESOURCES, [])
            else rbind (count_params t bytes) (\<lambda>n.
              if \<not> grant 2 then Inr (EFI_OUT_OF_RESOURCES, []) else copy_params grant t bytes strip n []))"

section \<open>The script\<close>

text \<open>
  The library for files, the bytes that a new buffer holds by chance, and the conversion to ASCII: its status and what is then in the
  buffer. \<open>GetScriptFromFile\<close> returns the status and the buffer
  with the length of the script.
\<close>

record 'fs app_lib =
  Files :: "'fs os_lib"
  ReadFile :: "'fs file_reader"
  GetSize :: "EFI_FILE_HANDLE \<Rightarrow> 'fs \<Rightarrow> efi_status \<times> w64 \<times> 'fs"
  Chance :: "nat \<Rightarrow> byte"
  UnicodeStrToAsciiStrS :: "w16 list \<Rightarrow> efi_status \<times> byte list"

definition read_script ::
  "'fs app_lib \<Rightarrow> EFI_FILE_HANDLE \<Rightarrow> w64 \<Rightarrow> ('t, 'fs, 'r) os_world \<Rightarrow> (efi_status \<times> (byte list \<times> nat) option \<times> ('t, 'fs, 'r) os_world) result" where
  "read_script al f fsize w =
     (let n = unat (fsize + 1) in
      case ReadFile al f n (o_fs w) of (st, bs, fs) \<Rightarrow>
        if length bs > n then Inl OutOfBounds
        else if EFI_ERROR st then Inr (st, None, w\<lparr>o_fs := fs\<rparr>)
        else if length bs < n
        then Inr (st, Some ((bs @ map (Chance al) [length bs..<n])[length bs := 0], length bs), w\<lparr>o_fs := fs\<rparr>)
        else Inl OutOfBounds)"

definition GetScriptFromFile ::
  "('h, 'dp, 'r) usf_firmware \<Rightarrow> 'fs app_lib \<Rightarrow> efi_status \<Rightarrow> w16 list \<Rightarrow> ('t, 'fs, 'r) os_world
    \<Rightarrow> (efi_status \<times> (byte list \<times> nat) option \<times> ('t, 'fs, 'r) os_world) result" where
  "GetScriptFromFile fw al loc path w =
     (if EFI_ERROR loc then Inr (loc, None, w)
      else
        rbind (sfp_Open fw path FILE_READ 0 w) (\<lambda>(st, h, w1).
          if EFI_ERROR st then Inr (st, None, w1)
          else (case h of
                  None \<Rightarrow> Inl NullDeref
                | Some f \<Rightarrow>
                    (case get_info (Files al) f w1 of (info, w2) \<Rightarrow>
                       rbind (if (case info of None \<Rightarrow> True | Some i \<Rightarrow> is_dir i) then Inr (EFI_DEVICE_ERROR, None, w2)
                              else (case GetSize al f (o_fs w2) of (st1, fsize, fs) \<Rightarrow>
                                      if EFI_ERROR st1 then Inr (st1, None, w2\<lparr>o_fs := fs\<rparr>)
                                      else read_script al f fsize (w2\<lparr>o_fs := fs\<rparr>))) (\<lambda>(st2, scr, w3).
                         Inr (st2, scr, CLOSE_FILE (Files al) h w3))))))"

definition AddSysPath ::
  "('k, 'm) interp \<Rightarrow> ('h, 'dp, 'r) engine_env \<Rightarrow> w16 list \<Rightarrow> ('k, 'm, 't, 'r) engine \<Rightarrow> (efi_status \<times> ('k, 'm, 't, 'r) engine) result" where
  "AddSysPath I env path e =
     (case find (\<lambda>i. path ! i = SEP) (rev [1..<length path]) of
        None \<Rightarrow> Inr (EFI_INVALID_PARAMETER, e)
      | Some i \<Rightarrow> UpySetPath I env (Some (take i path)) e)"

section \<open>Running it\<close>

text \<open>
  The application shares the state of the engine; \<open>a_next\<close> is the address of the next source buffer, \<open>a_log\<close> what happened to file
  handles, \<open>a_said\<close> the message about a file that cannot be opened.
\<close>

record ('k, 'm, 't, 'r, 'fs) app_state =
  a_engine :: "('k, 'm, 't, 'r) engine"
  a_fs :: 'fs
  a_log :: "file_event list"
  a_next :: nat
  a_said :: "(w16 list \<times> efi_status) list"

record run_options =
  ScriptStringOrFile :: "w16 list option"
  IsScriptFile :: bool
  IsInteractiveMode :: bool
  IsAsyncMode :: bool
  IsShareMode :: bool

definition no_options :: run_options where
  "no_options = \<lparr>ScriptStringOrFile = None, IsScriptFile = True, IsInteractiveMode = False, IsAsyncMode = False, IsShareMode = False\<rparr>"

definition MINUS :: w16 where "MINUS = 45"

definition set_option :: "w16 \<Rightarrow> run_options \<Rightarrow> run_options" where
  "set_option c opts =
     (if c = 97 then opts\<lparr>IsAsyncMode := True, IsInteractiveMode := False\<rparr>
      else if c = 99 then opts\<lparr>IsScriptFile := False\<rparr>
      else if c = 105 then opts\<lparr>IsInteractiveMode := True\<rparr>
      else if c = 115 then opts\<lparr>IsShareMode := True\<rparr>
      else opts)"

text \<open>The terminator stands behind a single minus sign.\<close>

fun parse_options ::
  "('k, 'm) interp \<Rightarrow> ('h, 'dp, 'r) engine_env \<Rightarrow> w16 list list \<Rightarrow> run_options \<Rightarrow> ('k, 'm, 't, 'r) engine
    \<Rightarrow> (run_options \<times> ('k, 'm, 't, 'r) engine) result" where
  "parse_options I env [] opts e = Inr (opts, e)"
| "parse_options I env (a # as) opts e =
     (if a \<noteq> [] \<and> hd a = MINUS then parse_options I env as (set_option (case tl a of [] \<Rightarrow> 0 | c # _ \<Rightarrow> c) opts) e
      else if ScriptStringOrFile opts = None then parse_options I env as (opts\<lparr>ScriptStringOrFile := Some a\<rparr>) e
      else rbind (UpySetArgs I env (Some (map Some (a # as))) e) (\<lambda>(_, e1). Inr (opts, e1)))"

definition run_options_of ::
  "('k, 'm) interp \<Rightarrow> ('h, 'dp, 'r) engine_env \<Rightarrow> bool \<Rightarrow> w16 list list \<Rightarrow> ('k, 'm, 't, 'r) engine
    \<Rightarrow> (run_options \<times> ('k, 'm, 't, 'r) engine) result" where
  "run_options_of I env shell argv e =
     rbind (if 1 < length argv then parse_options I env (if shell then tl argv else argv) no_options e
            else Inr (no_options\<lparr>IsInteractiveMode := True\<rparr>, e)) (\<lambda>(opts, e1).
       Inr (if IsAsyncMode opts then opts\<lparr>IsInteractiveMode := False\<rparr> else opts, e1))"

text \<open>The buffer of a script becomes a source of the engine, which frees it.\<close>

definition new_source :: "byte list \<Rightarrow> ('k, 'm, 't, 'r, 'fs) app_state \<Rightarrow> nat \<times> ('k, 'm, 't, 'r, 'fs) app_state" where
  "new_source buf a =
     (a_next a, a\<lparr>a_next := a_next a + 1, a_engine := (a_engine a)\<lparr>sources := (sources (a_engine a))(a_next a := Some buf)\<rparr>\<rparr>)"

definition world_of :: "('k, 'm, 't, 'r, 'fs) app_state \<Rightarrow> ('t, 'fs, 'r) os_world" where
  "world_of a = \<lparr>o_usf = e_usf (a_engine a), o_fs = a_fs a, o_vols = e_vols (a_engine a), o_log = a_log a\<rparr>"

definition put_world :: "('t, 'fs, 'r) os_world \<Rightarrow> ('k, 'm, 't, 'r, 'fs) app_state \<Rightarrow> ('k, 'm, 't, 'r, 'fs) app_state" where
  "put_world w a = a\<lparr>a_engine := (a_engine a)\<lparr>e_usf := o_usf w, e_vols := o_vols w\<rparr>, a_fs := o_fs w, a_log := o_log w\<rparr>"

definition load_script ::
  "('k, 'm) interp \<Rightarrow> ('h, 'dp, 'r) engine_env \<Rightarrow> 'fs app_lib \<Rightarrow> efi_status \<Rightarrow> run_options \<Rightarrow> ('k, 'm, 't, 'r, 'fs) app_state
    \<Rightarrow> (efi_status \<times> (nat \<times> nat) option \<times> ('k, 'm, 't, 'r, 'fs) app_state) result" where
  "load_script I env al loc opts a =
     (case ScriptStringOrFile opts of
        None \<Rightarrow> Inr (EFI_SUCCESS, None, a)
      | Some s \<Rightarrow>
          if IsScriptFile opts
          then rbind (GetScriptFromFile (Firmware env) al loc s (world_of a)) (\<lambda>(st, scr, w).
                 let a1 = put_world w a in
                 if EFI_ERROR st then Inr (st, None, a1\<lparr>a_said := a_said a1 @ [(s, st)]\<rparr>)
                 else rbind (AddSysPath I env s (a_engine a1)) (\<lambda>(_, e).
                        (case scr of
                           None \<Rightarrow> Inr (st, None, a1\<lparr>a_engine := e\<rparr>)
                         | Some (buf, len) \<Rightarrow> (case new_source buf (a1\<lparr>a_engine := e\<rparr>) of (p, a2) \<Rightarrow> Inr (st, Some (p, len), a2)))))
          else (case UnicodeStrToAsciiStrS al s of (st, buf) \<Rightarrow>
                  (case new_source buf a of (p, a1) \<Rightarrow> Inr (st, Some (p, length s), a1))))"

text \<open>
  Each \<open>Stall\<close> of a waiting loop gives timers the time to expire: the schedule lists, for each, the events that are signalled. A loop that
  still waits when the schedule is used up is \<open>None\<close>.
\<close>

fun fire_all :: "('k, 'm) interp \<Rightarrow> nat list \<Rightarrow> ('k, 'm, 't, 'r) engine \<Rightarrow> ('k, 'm, 't, 'r) step" where
  "fire_all I [] e = Some (Inr e)"
| "fire_all I (ev # evs) e =
     (case fire_timer I ev e of None \<Rightarrow> None | Some (Inl f) \<Rightarrow> Some (Inl f) | Some (Inr e1) \<Rightarrow> fire_all I evs e1)"

fun wait_and_run ::
  "('k, 'm) interp \<Rightarrow> (('k, 'm, 't, 'r) engine \<Rightarrow> (efi_status \<times> ('k, 'm, 't, 'r) engine) result option) \<Rightarrow> nat list list
    \<Rightarrow> ('k, 'm, 't, 'r) engine \<Rightarrow> (efi_status \<times> nat list list \<times> ('k, 'm, 't, 'r) engine) result option" where
  "wait_and_run I run [] e = None"
| "wait_and_run I run (evs # stalls) e =
     (case fire_all I evs e of
        None \<Rightarrow> None
      | Some (Inl f) \<Rightarrow> Some (Inl f)
      | Some (Inr e1) \<Rightarrow>
          (case run e1 of
             None \<Rightarrow> None
           | Some (Inl f) \<Rightarrow> Some (Inl f)
           | Some (Inr (st, e2)) \<Rightarrow>
               if st = EFI_ALREADY_STARTED then wait_and_run I run stalls e2 else Some (Inr (st, stalls, e2))))"

definition run_loaded ::
  "('k, 'm) interp \<Rightarrow> ('h, 'dp, 'r) engine_env \<Rightarrow> run_options \<Rightarrow> (nat \<times> nat) option \<Rightarrow> nat list list \<Rightarrow> ('k, 'm, 't, 'r) engine
    \<Rightarrow> (nat list list \<times> ('k, 'm, 't, 'r) engine) result option" where
  "run_loaded I env opts scr stalls e =
     (case scr of
        None \<Rightarrow> Some (Inr (stalls, e))
      | Some (p, len) \<Rightarrow>
          if len = 0 then Some (Inr (stalls, e))
          else map_option (\<lambda>r. rbind r (\<lambda>(_, rest, e1). Inr (rest, e1)))
                 (wait_and_run I (\<lambda>e. if IsAsyncMode opts then Some (UpyExecuteAsync I env (Some p) len (IsShareMode opts) e)
                                     else UpyExecute I env (Some p) len (IsShareMode opts \<or> IsInteractiveMode opts) e) stalls e))"

definition run_prompt ::
  "('k, 'm) interp \<Rightarrow> ('h, 'dp, 'r) engine_env \<Rightarrow> run_options \<Rightarrow> nat list list \<Rightarrow> ('k, 'm, 't, 'r) engine
    \<Rightarrow> ('k, 'm, 't, 'r) engine result option" where
  "run_prompt I env opts stalls e =
     (if IsInteractiveMode opts
      then map_option (\<lambda>r. rbind r (\<lambda>(_, _, e1). Inr e1)) (wait_and_run I (UpyExecute I env None 0 (IsShareMode opts)) stalls e)
      else Some (Inr e))"

text \<open>The handles with a script engine protocol, the protocols on them and their types.\<close>

record ('h, 'i) engine_db =
  Located :: "efi_status \<times> 'h list"
  EngineOn :: "'h \<Rightarrow> efi_status \<times> 'i option"
  GetType :: "'i option \<Rightarrow> 32 word"

definition EFI_SCRIPT_ENGINE_TYPE_MICROPYTHON :: "32 word" where "EFI_SCRIPT_ENGINE_TYPE_MICROPYTHON = 0x797075"

definition find_upy :: "('h, 'i) engine_db \<Rightarrow> efi_status \<times> 'i option" where
  "find_upy db = FindScriptProtocolByType (Located db) (EngineOn db) (GetType db) EFI_SCRIPT_ENGINE_TYPE_MICROPYTHON None"

definition no_upy :: "('h, 'i) engine_db \<Rightarrow> bool" where
  "no_upy db \<longleftrightarrow> EFI_ERROR (fst (find_upy db)) \<or> snd (find_upy db) = None"

definition RunScript ::
  "('k, 'm) interp \<Rightarrow> ('h, 'dp, 'r) engine_env \<Rightarrow> 'fs app_lib \<Rightarrow> efi_status \<Rightarrow> bool \<Rightarrow> ('h2, 'i) engine_db \<Rightarrow> w16 list list
    \<Rightarrow> nat list list \<Rightarrow> ('k, 'm, 't, 'r, 'fs) app_state \<Rightarrow> (efi_status \<times> ('k, 'm, 't, 'r, 'fs) app_state) result option" where
  "RunScript I env al loc shell db argv stalls a =
     (if no_upy db then Some (Inr (EFI_UNSUPPORTED, a))
      else (case run_options_of I env shell argv (a_engine a) of
              Inl f \<Rightarrow> Some (Inl f)
            | Inr (opts, e) \<Rightarrow>
                (case load_script I env al loc opts (a\<lparr>a_engine := e\<rparr>) of
                   Inl f \<Rightarrow> Some (Inl f)
                 | Inr (st, scr, a1) \<Rightarrow>
                     let final = (if IsAsyncMode opts \<or> IsShareMode opts then EFI_ALREADY_STARTED else EFI_SUCCESS) in
                     if EFI_ERROR st then Some (Inr (final, a1))
                     else (case run_loaded I env opts scr stalls (a_engine a1) of
                             None \<Rightarrow> None
                           | Some (Inl f) \<Rightarrow> Some (Inl f)
                           | Some (Inr (rest, e1)) \<Rightarrow>
                               map_option (\<lambda>r. rbind r (\<lambda>e2. Inr (final, a1\<lparr>a_engine := e2\<rparr>))) (run_prompt I env opts rest e1)))))"

section \<open>The entry points\<close>

definition MICROPYTHON_DRIVER_NAME :: "w16 list" where
  "MICROPYTHON_DRIVER_NAME = [77, 105, 99, 114, 111, 80, 121, 116, 104, 111, 110, 68, 120, 101, 46, 101, 102, 105]"

text \<open>The path of the driver next to the application; the terminator of the directory is written one place behind the separator.\<close>

definition driver_path :: "w16 list \<Rightarrow> w16 list result" where
  "driver_path p =
     (let i = (case find (\<lambda>i. p ! i = SEP) (rev [0..<length p]) of None \<Rightarrow> 0 | Some i \<Rightarrow> i) in
      if i + 1 \<le> length p then Inr (take (i + 1) p @ MICROPYTHON_DRIVER_NAME) else Inl OutOfBounds)"

text \<open>
  The image of the application: its file path (perhaps none) as text, and its options. Loading, starting and unloading the driver are up to
  the firmware, which calls the driver's entry points.
\<close>

record ('h, 'i, 'a) app_env =
  AppFilePath :: "w16 list option option"
  AppLoadOptions :: "w16 list option"
  LoadDriver :: "w16 list \<Rightarrow> efi_status"
  StartDriver :: "'a \<Rightarrow> efi_status \<times> ('h, 'i) engine_db \<times> 'a"
  UnloadDriver :: "'a \<Rightarrow> 'a"

definition start_driver ::
  "('h, 'i, 'a) app_env \<Rightarrow> ('h, 'i) engine_db \<Rightarrow> 'a \<Rightarrow> (efi_status \<times> bool \<times> ('h, 'i) engine_db \<times> 'a) result" where
  "start_driver ae db a =
     (case AppFilePath ae of
        None \<Rightarrow> Inr (fst (find_upy db), False, db, a)
      | Some path \<Rightarrow>
          if \<not> no_upy db then Inr (fst (find_upy db), False, db, a)
          else (case path of
                  None \<Rightarrow> Inl AssertFailed
                | Some p \<Rightarrow>
                    rbind (driver_path p) (\<lambda>dp.
                      let st = LoadDriver ae dp in
                      if EFI_ERROR st then Inr (st, False, db, a)
                      else (case StartDriver ae a of (st1, db1, a1) \<Rightarrow> Inr (st1, True, db1, a1)))))"

definition MicroPythonAppMain ::
  "('k, 'm) interp \<Rightarrow> ('h, 'dp, 'r) engine_env \<Rightarrow> 'fs app_lib \<Rightarrow> efi_status \<Rightarrow> bool \<Rightarrow> ('h2, 'i, ('k, 'm, 't, 'r, 'fs) app_state) app_env
    \<Rightarrow> (nat \<Rightarrow> bool) \<Rightarrow> ('h2, 'i) engine_db \<Rightarrow> nat list list \<Rightarrow> ('k, 'm, 't, 'r, 'fs) app_state \<Rightarrow> (efi_status \<times> ('k, 'm, 't, 'r, 'fs) app_state) result option" where
  "MicroPythonAppMain I env al loc shell ae grant db stalls a =
     (case start_driver ae db a of
        Inl f \<Rightarrow> Some (Inl f)
      | Inr (st, loaded, db1, a1) \<Rightarrow>
          if EFI_ERROR st then Some (Inr (EFI_NOT_STARTED, a1))
          else (case ParseLoadOptionsToArgs grant (AppLoadOptions ae) True of
                  Inl f \<Rightarrow> Some (Inl f)
                | Inr (st1, argv) \<Rightarrow>
                    if EFI_ERROR st1 then Some (Inr (EFI_INVALID_PARAMETER, if loaded then UnloadDriver ae a1 else a1))
                    else map_option (\<lambda>r. rbind r (\<lambda>(st2, a2).
                           Inr (EFI_SUCCESS, if \<not> EFI_ERROR st2 \<and> loaded then UnloadDriver ae a2 else a2)))
                         (RunScript I env al loc shell db1 argv stalls a1)))"

text \<open>\<open>main.c\<close>: the driver does not start twice.\<close>

definition MicroPythonDriverInitialize ::
  "('k, 'm) interp \<Rightarrow> ('h, 'dp, 'r) engine_env \<Rightarrow> ('h2, 'i) engine_db \<Rightarrow> bool \<Rightarrow> efi_status \<times> 't \<Rightarrow> efi_status \<Rightarrow> efi_status \<Rightarrow> efi_status
    \<Rightarrow> ('k, 'm, 't, 'r) engine \<times> bool \<Rightarrow> (efi_status \<times> ('k, 'm, 't, 'r) engine \<times> bool) result" where
  "MicroPythonDriverInitialize I env db present tbl usf_inst inst usf_uninst s =
     (if fst (find_upy db) = EFI_SUCCESS \<and> snd (find_upy db) \<noteq> None then Inr (EFI_ALREADY_STARTED, s)
      else UseInit I env present tbl usf_inst inst usf_uninst s)"

definition MicroPythonDriverUnload ::
  "efi_status \<Rightarrow> efi_status \<Rightarrow> ('k, 'm, 't, 'r) engine \<times> bool \<Rightarrow> efi_status \<times> ('k, 'm, 't, 'r) engine \<times> bool" where
  "MicroPythonDriverUnload usf_uninst uninst s = UseDeinit usf_uninst uninst s"

end
