(* ===== verification/Upy_App_Thms.thy ===== *)
theory Upy_App_Thms
  imports Upy_App Engine_States Lexer_File_Thms
begin

text \<open>
  Properties of the shell application: its command line is what a tokenizer in one pass makes of it, and a script named there
  runs, after the one that is running.
\<close>

section \<open>The command line\<close>

text \<open>
  A tokenizer that looks at each character once: \<open>q\<close> is true inside quotation marks, \<open>cur\<close> is the argument that has begun. The first
  result is whether every quotation mark is closed.
\<close>

function split_line :: "bool \<Rightarrow> bool \<Rightarrow> w16 list option \<Rightarrow> w16 list \<Rightarrow> bool \<times> w16 list list" where
  "split_line strip q cur [] = (\<not> q, if q then [] else (case cur of None \<Rightarrow> [] | Some p \<Rightarrow> [p]))"
| "split_line strip q cur (c # s) =
     (let p = (case cur of None \<Rightarrow> [] | Some p \<Rightarrow> p) in
      if c = CARET then split_line strip q (Some (p @ take 1 s)) (tl s)
      else if c = QUOTE then split_line strip (\<not> q) (Some (if strip then p else p @ [c])) s
      else if c = SPACE \<and> \<not> q
      then (case cur of
              None \<Rightarrow> split_line strip False None s
            | Some p \<Rightarrow> (case split_line strip False None s of (ok, args) \<Rightarrow> (ok, p # args)))
      else split_line strip q (Some (p @ [c])) s)"
  by pat_completeness auto
termination by (relation "measure (\<lambda>(_, _, _, s). length s)") auto

text \<open>Where the argument that \<open>s\<close> begins with ends.\<close>

function word_end :: "bool \<Rightarrow> w16 list \<Rightarrow> w16 list option" where
  "word_end q [] = (if q then None else Some [])"
| "word_end q (c # s) =
     (if c = CARET then word_end q (tl s)
      else if c = QUOTE then word_end (\<not> q) s
      else if c = SPACE \<and> \<not> q then Some (c # s)
      else word_end q s)"
  by pat_completeness auto
termination by (relation "measure (\<lambda>(_, s). length s)") auto

lemma chars_distinct [simp]: "SPACE \<noteq> CARET" "CARET \<noteq> SPACE" "SPACE \<noteq> QUOTE" "QUOTE \<noteq> SPACE" "QUOTE \<noteq> CARET" "CARET \<noteq> QUOTE"
  "QUOTE \<noteq> TAB" "TAB \<noteq> QUOTE"
  by (simp_all add: SPACE_def CARET_def QUOTE_def TAB_def)

lemma word_end_quoted:
  "word_end True s = (case FindFirstCharacter s [QUOTE] CARET of [] \<Rightarrow> None | _ # r \<Rightarrow> word_end False r)"
proof (induction s "[QUOTE]" CARET rule: FindFirstCharacter.induct)
  case (2 c s)
  then show ?case by (cases "c = CARET"; cases "c = QUOTE") auto
qed simp

lemma word_end_plain:
  "word_end False s = (case FindFirstCharacter s [SPACE, QUOTE] CARET of [] \<Rightarrow> Some [] | c # r \<Rightarrow> if c = SPACE then Some (c # r) else word_end True r)"
proof (induction s "[SPACE, QUOTE]" CARET rule: FindFirstCharacter.induct)
  case (2 c s)
  then show ?case by (cases "c = CARET"; cases "c = QUOTE"; cases "c = SPACE") auto
qed simp

lemma FindEndOfParameter_word: "FindEndOfParameter s = word_end False s"
proof (induction s rule: FindEndOfParameter.induct)
  case (1 s)
  show ?case
    by (subst FindEndOfParameter.simps, subst word_end_plain)
      (use 1 in \<open>auto simp: word_end_quoted split: list.splits\<close>)
qed

lemma word_end_splits:
  assumes "word_end q s = Some r"
  shows "\<exists>pre. s = pre @ r \<and> (r = [] \<or> hd r = SPACE)
    \<and> split_line strip q (Some p) s = (case split_line strip False None r of (ok, args) \<Rightarrow> (ok, (p @ remove_quotes strip pre) # args))"
  using assms
proof (induction q s arbitrary: p rule: word_end.induct)
  case (1 q)
  then show ?case by (auto split: if_splits)
next
  case (2 q c s)
  consider "c = CARET" | "c = QUOTE" | "c = SPACE" "\<not> q" | "c \<noteq> CARET" "c \<noteq> QUOTE" "c = SPACE \<longrightarrow> q" by blast
  then show ?case
  proof cases
    case 1
    show ?thesis
    proof (cases s)
      case Nil
      then have "r = []" "\<not> q" using "2.prems" 1 by (auto split: if_splits)
      then show ?thesis using 1 Nil by (intro exI [of _ "[CARET]"]) auto
    next
      case (Cons d t)
      then obtain pre where "t = pre @ r" "r = [] \<or> hd r = SPACE"
          "split_line strip q (Some (p @ [d])) t = (case split_line strip False None r of (ok, args) \<Rightarrow> (ok, ((p @ [d]) @ remove_quotes strip pre) # args))"
        using "2.IH"(1) [OF 1, of "p @ [d]"] "2.prems" 1 by auto
      then show ?thesis using 1 Cons by (intro exI [of _ "CARET # d # pre"]) auto
    qed
  next
    case 2
    let ?p = "if strip then p else p @ [c]"
    obtain pre where "s = pre @ r" "r = [] \<or> hd r = SPACE"
        "split_line strip (\<not> q) (Some ?p) s = (case split_line strip False None r of (ok, args) \<Rightarrow> (ok, (?p @ remove_quotes strip pre) # args))"
      using "2.IH"(2) [of ?p] "2.prems" 2 by auto
    then show ?thesis using 2 by (intro exI [of _ "c # pre"]) auto
  next
    case 3
    then show ?thesis using "2.prems" by auto
  next
    case 4
    obtain pre where "s = pre @ r" "r = [] \<or> hd r = SPACE"
        "split_line strip q (Some (p @ [c])) s = (case split_line strip False None r of (ok, args) \<Rightarrow> (ok, ((p @ [c]) @ remove_quotes strip pre) # args))"
      using "2.IH"(3) [of "p @ [c]"] "2.prems" 4 by auto
    then show ?thesis using 4 by (intro exI [of _ "c # pre"]) auto
  qed
qed

lemma word_end_open: "word_end q s = None \<Longrightarrow> split_line strip q cur s = (False, [])"
proof (induction q s arbitrary: cur rule: word_end.induct)
  case (2 q c s)
  then show ?case by (auto simp: Let_def split: if_splits)
qed (simp split: if_splits)

lemma split_line_spaces: "split_line strip False None s = split_line strip False None (dropWhile (\<lambda>c. c = SPACE) s)"
  by (induction s) auto

lemma split_line_begins: "s \<noteq> [] \<Longrightarrow> hd s \<noteq> SPACE \<Longrightarrow> split_line strip False None s = split_line strip False (Some []) s"
  by (cases s) auto

lemma next_parameter:
  assumes "length w < bytes div 2" and "w \<noteq> []" and "last w \<noteq> SPACE"
  shows "(\<exists>p r. GetNextParameter w bytes strip = Inr (Inr (p, r)) \<and> (r = [] \<or> last r \<noteq> SPACE) \<and> length r < length w
        \<and> split_line strip False None w = (case split_line strip False None r of (ok, args) \<Rightarrow> (ok, p # args)))
    \<or> GetNextParameter w bytes strip = Inr (Inl EFI_NOT_FOUND) \<and> split_line strip False None w = (False, [])"
proof -
  let ?w = "dropWhile (\<lambda>c. c = SPACE) w"
  have ne: "?w \<noteq> []" using assms(2,3) by (auto simp: dropWhile_eq_Nil_conv)
  then have hd: "hd ?w \<noteq> SPACE" by (rule hd_dropWhile)
  have start: "split_line strip False None w = split_line strip False (Some []) ?w"
    using split_line_spaces [of strip w] split_line_begins [OF ne hd] by simp
  show ?thesis
  proof (cases "word_end False ?w")
    case None
    then have "GetNextParameter w bytes strip = Inr (Inl EFI_NOT_FOUND)"
      using ne by (simp add: GetNextParameter_def FindEndOfParameter_word Let_def del: dropWhile_eq_Nil_conv)
    then show ?thesis using word_end_open [OF None] start by simp
  next
    case (Some r)
    obtain pre where pre: "?w = pre @ r"
        "split_line strip False (Some []) ?w = (case split_line strip False None r of (ok, args) \<Rightarrow> (ok, ([] @ remove_quotes strip pre) # args))"
      using word_end_splits [OF Some] by blast
    have len: "length ?w \<le> length w" by (rule length_dropWhile_le)
    have get: "GetNextParameter w bytes strip = Inr (Inr (remove_quotes strip pre, r))"
      using ne Some len assms(1) pre(1) by (simp add: GetNextParameter_def FindEndOfParameter_word Let_def)
    have "last r \<noteq> SPACE" if "r \<noteq> []"
    proof -
      have "last ?w = last w" using ne by (metis dropWhile_eq_drop last_drop length_greater_0_conv length_drop zero_less_diff)
      then show ?thesis using that pre(1) assms(3) by simp
    qed
    then show ?thesis using get GetNextParameter_shorter [OF get] start pre(2) by auto
  qed
qed

lemma strip_keeps_rest:
  "GetNextParameter w bytes True = Inr (Inr (p, r)) \<Longrightarrow> \<exists>p'. GetNextParameter w bytes strip = Inr (Inr (p', r))"
  by (auto simp: GetNextParameter_def Let_def split: if_splits option.splits)

lemma split_line_count:
  "length w < bytes div 2 \<Longrightarrow> w = [] \<or> last w \<noteq> SPACE \<Longrightarrow>
    count_params w bytes = Inr (length (snd (split_line strip False None w)))"
proof (induction w bytes rule: count_params.induct)
  case (1 w bytes)
  show ?case
  proof (cases "w = []")
    case True
    then show ?thesis by (simp add: count_params.simps [of "[]"])
  next
    case False
    then consider p r where "GetNextParameter w bytes strip = Inr (Inr (p, r))" "r = [] \<or> last r \<noteq> SPACE" "length r < length w"
        "split_line strip False None w = (case split_line strip False None r of (ok, args) \<Rightarrow> (ok, p # args))"
      | "GetNextParameter w bytes strip = Inr (Inl EFI_NOT_FOUND)" "split_line strip False None w = (False, [])"
      using next_parameter [OF "1.prems"(1) False, of strip] "1.prems"(2) by blast
    then show ?thesis
    proof cases
      case 1
      obtain p' where p': "GetNextParameter w bytes True = Inr (Inr (p', r))"
        using 1(1) by (auto simp: GetNextParameter_def Let_def split: if_splits option.splits)
      have "count_params r bytes = Inr (length (snd (split_line strip False None r)))"
        using "1.IH" [OF False p'] 1(2,3) "1.prems"(1) by simp
      then show ?thesis using False p' 1(4) by (simp add: count_params.simps [of w] split: prod.splits)
    next
      case 2
      then have "GetNextParameter w bytes True = Inr (Inl EFI_NOT_FOUND)"
        by (auto simp: GetNextParameter_def Let_def split: if_splits option.splits)
      then show ?thesis using False 2 by (simp add: count_params.simps [of w])
    qed
  qed
qed

text \<open>The arguments that are copied before an allocation fails.\<close>

fun granted :: "(nat \<Rightarrow> bool) \<Rightarrow> nat \<Rightarrow> 'a list \<Rightarrow> 'a list" where
  "granted grant k [] = []"
| "granted grant k (a # as) = (if grant k then a # granted grant (Suc k) as else [])"

lemma granted_all [simp]: "granted (\<lambda>_. True) k as = as"
  by (induction as arbitrary: k) simp_all

lemma split_line_copy:
  "length w < bytes div 2 \<Longrightarrow> w = [] \<or> last w \<noteq> SPACE \<Longrightarrow> length argv + length (snd (split_line strip False None w)) \<le> n \<Longrightarrow>
    copy_params grant w bytes strip n argv = Inr (case split_line strip False None w of (ok, args) \<Rightarrow>
      let got = granted grant (3 + length argv) args in
      (if length got < length args then EFI_OUT_OF_RESOURCES else if ok then EFI_SUCCESS else EFI_INVALID_PARAMETER, argv @ got))"
proof (induction grant w bytes strip n argv rule: copy_params.induct)
  case (1 grant w bytes strip n argv)
  show ?case
  proof (cases "w = []")
    case True
    then show ?thesis by (simp add: copy_params.simps [of _ "[]"])
  next
    case False
    then consider p r where "GetNextParameter w bytes strip = Inr (Inr (p, r))" "r = [] \<or> last r \<noteq> SPACE" "length r < length w"
        "split_line strip False None w = (case split_line strip False None r of (ok, args) \<Rightarrow> (ok, p # args))"
      | "GetNextParameter w bytes strip = Inr (Inl EFI_NOT_FOUND)" "split_line strip False None w = (False, [])"
      using next_parameter [OF "1.prems"(1) False, of strip] "1.prems"(2) by blast
    then show ?thesis
    proof cases
      case 1
      obtain ok args where r: "split_line strip False None r = (ok, args)" by fastforce
      then have w: "split_line strip False None w = (ok, p # args)" using 1(4) by simp
      have room: "length argv < n" "length (argv @ [p]) + length args \<le> n" using "1.prems"(3) w by simp_all
      have "copy_params grant r bytes strip n (argv @ [p]) = Inr (let got = granted grant (Suc (3 + length argv)) args in
          (if length got < length args then EFI_OUT_OF_RESOURCES else if ok then EFI_SUCCESS else EFI_INVALID_PARAMETER, (argv @ [p]) @ got))"
        if "grant (3 + length argv)"
        using "1.IH" [OF False 1(1)] that room 1(2,3) "1.prems"(1) r by simp
      then show ?thesis using False room(1) 1(1) w
        by (cases "grant (3 + length argv)") (simp_all add: copy_params.simps [of _ w] Let_def)
    next
      case 2
      then show ?thesis using False by (simp add: copy_params.simps [of _ w])
    qed
  qed
qed

lemma TrimSpaces_last: "TrimSpaces s = [] \<or> last (TrimSpaces s) \<noteq> SPACE"
proof -
  let ?P = "\<lambda>c. c = SPACE \<or> c = TAB"
  let ?t = "dropWhile ?P (rev (dropWhile ?P s))"
  have "hd ?t \<noteq> SPACE" if "?t \<noteq> []" using hd_dropWhile [OF that] by blast
  then show ?thesis by (cases "?t = []") (simp_all only: TrimSpaces_def last_rev rev_is_Nil_conv simp_thms)
qed

lemma TrimSpaces_id:
  assumes "s \<noteq> []" and "hd s \<noteq> SPACE" "hd s \<noteq> TAB" and "last s \<noteq> SPACE" "last s \<noteq> TAB"
  shows "TrimSpaces s = s"
proof -
  let ?P = "\<lambda>c. c = SPACE \<or> c = TAB"
  have start: "dropWhile ?P xs = xs" if "xs \<noteq> []" "\<not> ?P (hd xs)" for xs using that by (cases xs) auto
  have "dropWhile ?P s = s" using assms by (intro start) auto
  moreover have "dropWhile ?P (rev s) = rev s" using assms by (intro start) (auto simp: hd_rev)
  ultimately show ?thesis by (simp add: TrimSpaces_def)
qed

lemma parse_splits:
  "ParseLoadOptionsToArgs grant (Some s) strip = Inr (case split_line strip False None (TrimSpaces s) of (ok, args) \<Rightarrow>
     if s = [] then (EFI_SUCCESS, [])
     else if \<not> (grant 0 \<and> grant 1 \<and> grant 2) then (EFI_OUT_OF_RESOURCES, [])
     else let got = granted grant 3 args in
       (if length got < length args then EFI_OUT_OF_RESOURCES else if ok then EFI_SUCCESS else EFI_INVALID_PARAMETER, got))"
proof (cases "s = []")
  case True
  then show ?thesis by (simp add: ParseLoadOptionsToArgs_def TrimSpaces_def)
next
  case False
  then show ?thesis
    using split_line_count [of "TrimSpaces s" "2 * (length (TrimSpaces s) + 1)" strip] TrimSpaces_last [of s]
      split_line_copy [of "TrimSpaces s" "2 * (length (TrimSpaces s) + 1)" "[]" strip _ grant]
    by (auto simp: ParseLoadOptionsToArgs_def Let_def split: prod.splits)
qed

text \<open>
  C14. The command line: counting and copying the arguments, with a search for the end of each one, recursion over
  quoted parts and a later pass that removes escapes and quotation marks, gives the result of the tokenizer that looks at each character
  once. No line overruns a buffer and both loops find the same number of arguments. There are two errors: a quotation mark that is not closed, and
  \<open>EFI_OUT_OF_RESOURCES\<close>, which is returned exactly if one of the allocations fails; the array then holds the arguments that were copied before.
\<close>

theorem parse_is_one_pass:
  "ParseLoadOptionsToArgs grant (Some s) strip = Inr (case split_line strip False None (TrimSpaces s) of (ok, args) \<Rightarrow>
     if s = [] then (EFI_SUCCESS, [])
     else if \<not> (grant 0 \<and> grant 1 \<and> grant 2) then (EFI_OUT_OF_RESOURCES, [])
     else let got = granted grant 3 args in
       (if length got < length args then EFI_OUT_OF_RESOURCES else if ok then EFI_SUCCESS else EFI_INVALID_PARAMETER, got))"
  by (rule parse_splits)

section \<open>Quoting\<close>

definition escape :: "w16 \<Rightarrow> w16 list" where
  "escape c = (if c = QUOTE \<or> c = CARET then [CARET, c] else [c])"

definition quote_arg :: "w16 list \<Rightarrow> w16 list" where
  "quote_arg a = QUOTE # concat (map escape a) @ [QUOTE]"

fun command_line :: "w16 list list \<Rightarrow> w16 list" where
  "command_line [] = []"
| "command_line [a] = quote_arg a"
| "command_line (a # b # as) = quote_arg a @ SPACE # command_line (b # as)"

lemma split_line_quoted:
  "split_line True True (Some p) (concat (map escape a) @ QUOTE # s) = split_line True False (Some (p @ a)) s"
  by (induction a arbitrary: p) (auto simp: escape_def)

lemma split_line_command: "split_line True False None (command_line as) = (True, as)"
  by (induction as rule: command_line.induct) (simp_all add: quote_arg_def split_line_quoted)

lemma command_line_ends: "as \<noteq> [] \<Longrightarrow> \<exists>s. command_line as = QUOTE # s \<and> last (command_line as) = QUOTE"
  by (induction as rule: command_line.induct) (auto simp: quote_arg_def)

lemma TrimSpaces_command: "TrimSpaces (command_line as) = command_line as"
proof (cases "as = []")
  case False
  then obtain s where "command_line as = QUOTE # s" "last (command_line as) = QUOTE" using command_line_ends by blast
  then show ?thesis by (intro TrimSpaces_id) simp_all
qed (simp add: TrimSpaces_def)

text \<open>
  C15. Every list of arguments can be written on a command line, with each argument in quotation marks and a caret before each quotation
  mark and caret in it, and the application, if it gets its memory, gets these arguments back, empty ones and ones with spaces included.
\<close>

theorem command_line_round_trip: "ParseLoadOptionsToArgs (\<lambda>_. True) (Some (command_line as)) True = Inr (EFI_SUCCESS, as)"
  using command_line_ends [of as] by (cases "as = []") (auto simp: parse_splits TrimSpaces_command split_line_command Let_def)

section \<open>Waiting for a script\<close>

text \<open>One attempt of the waiting loop, behind its \<open>Stall\<close>.\<close>

definition attempt ::
  "('k, 'm) interp \<Rightarrow> (('k, 'm, 't, 'r) engine \<Rightarrow> (efi_status \<times> ('k, 'm, 't, 'r) engine) result option) \<Rightarrow> nat list list
    \<Rightarrow> ('k, 'm, 't, 'r) engine \<Rightarrow> (efi_status \<times> nat list list \<times> ('k, 'm, 't, 'r) engine) result option" where
  "attempt I run stalls e =
     (case run e of
        None \<Rightarrow> None
      | Some (Inl f) \<Rightarrow> Some (Inl f)
      | Some (Inr (st, e2)) \<Rightarrow> if st = EFI_ALREADY_STARTED then wait_and_run I run stalls e2 else Some (Inr (st, stalls, e2)))"

lemma wait_signal:
  "wait_and_run I run ([ev] # stalls) e =
     (case fire_timer I ev e of None \<Rightarrow> None | Some (Inl f) \<Rightarrow> Some (Inl f) | Some (Inr e1) \<Rightarrow> attempt I run stalls e1)"
  by (simp add: attempt_def split: option.split sum.split)

text \<open>A schedule with any number of \<open>Stall\<close>s before each signal of the timer.\<close>

definition slow :: "nat \<Rightarrow> nat list \<Rightarrow> nat list list" where
  "slow ev ns = concat (map (\<lambda>n. replicate n [] @ [[ev]]) ns)"

text \<open>
  What the waiting loop relies on: while a script runs, a request to run another one is refused and changes nothing. Both requests of
  the engine keep this.
\<close>

locale script_runner =
  fixes I :: "('k, 'm) interp"
    and run :: "('k, 'm, 't, 'r) engine \<Rightarrow> (efi_status \<times> ('k, 'm, 't, 'r) engine) result option"
  assumes refused: "IsRunning (mExecutorData e) \<Longrightarrow> run e = Some (Inr (EFI_ALREADY_STARTED, e))"
begin

lemma wait_without_signal:
  "IsRunning (mExecutorData e) \<Longrightarrow> wait_and_run I run (replicate n [] @ stalls) e = wait_and_run I run stalls e"
  by (induction n) (simp_all add: refused)

lemma suspended_wait:
  assumes "yields I s ds x m" and "ExecEvent (mExecutorData e) = Some ev" and "timers e ev = None" and "IsRunning (mExecutorData e)"
    and "stack \<in> set (stacks e)" and "\<And>a. src = Some a \<Longrightarrow> sources e a \<noteq> None" and "length ns = length ds"
  shows "\<exists>e1 e2. after_jump (leave_stack I src stack (Some s) e) = Some (Inr e1)
    \<and> attempt I run (slow ev ns @ rest) e1 = attempt I run rest e2 \<and> ended I src x m e e2"
  using assms
proof (induction arbitrary: e ns rule: yields.induct)
  case (ends x m)
  then show ?case using end_leaves [of src e I stack x m] by (auto simp: slow_def)
next
  case (sleeps k m ds x m' d)
  let ?c = "Some (k, stack, src)"
  let ?d = "(mExecutorData e)\<lparr>ScriptEngineContext := ?c\<rparr>"
  let ?e1 = "e\<lparr>vm := m, mExecutorData := ?d, timers := (timers e)(ev := Some (sleep_time d))\<rparr>"
  let ?e = "e\<lparr>vm := m, mExecutorData := ?d\<rparr>"
  obtain n ns' where ns: "ns = n # ns'" "length ns' = length ds" using sleeps.prems(6) by (cases ns) auto
  have susp: "after_jump (leave_stack I src stack (Some (Yield d k, m)) e) = Some (Inr ?e1)"
    using sleeps.prems(1) by (simp add: leave_stack_def jump_value after_jump_def jump_value_low rearm_def timer_value_jump upd_def)
  have "?e1\<lparr>timers := (timers ?e1)(ev := None)\<rparr> = ?e" using sleeps.prems(2) by (simp add: fun_upd_idem)
  then have fire: "fire_timer I ev ?e1 = after_jump (leave_stack I src stack (Some (Resume I k True m)) ?e)"
    using sleeps.prems by (simp add: fire_timer_def ScriptExecutor_jump enter_engine_def Let_def run_engine_event)
  obtain e2 e3 where e2: "after_jump (leave_stack I src stack (Some (Resume I k True m)) ?e) = Some (Inr e2)"
      "attempt I run (slow ev ns' @ rest) e2 = attempt I run rest e3" "ended I src x m' ?e e3"
    using sleeps.IH [of ?e ns'] sleeps.prems ns(2) by auto
  have busy: "run ?e1 = Some (Inr (EFI_ALREADY_STARTED, ?e1))" using sleeps.prems(3) by (intro refused) simp
  have "attempt I run (slow ev ns @ rest) ?e1 = wait_and_run I run (replicate n [] @ [ev] # slow ev ns' @ rest) ?e1"
    using busy by (simp add: attempt_def slow_def ns(1))
  also have "\<dots> = wait_and_run I run ([ev] # slow ev ns' @ rest) ?e1" using wait_without_signal [of ?e1 n] sleeps.prems(3) by simp
  also have "\<dots> = attempt I run rest e3" unfolding wait_signal fire e2(1) using e2(2) by simp
  finally have "attempt I run (slow ev ns @ rest) ?e1 = attempt I run rest e3" .
  moreover have "ended I src x m' e e3" using e2(3) by (simp add: ended_context)
  ultimately show ?case using susp by blast
qed

end

interpretation upy_sync: script_runner I "UpyExecute I env src len sh" for I env src len sh
  by unfold_locales (simp add: UpyExecute_def)

interpretation upy_async: script_runner I "\<lambda>e. Some (UpyExecuteAsync I env (Some p) (Suc n) sh e)" for I env p n sh
  by unfold_locales (simp add: UpyExecuteAsync_def)

text \<open>
  C12. Scripts take turns: while an asynchronous script of a shared engine runs, the application that loads a second script keeps trying, and
  when the first script has ended, which suspends itself any number of times, with any number of attempts in between, the second one runs on
  the state that the first has left behind. Both sources are freed, both stacks are given back.
\<close>

theorem scripts_take_turns:
  assumes "ScriptEngineProtocol (mExecutorData e)" and "idle e" and "mHeap e" and "64 \<le> free_pages e" and "0 < len" and "0 < len'"
    and "sources e a = Some abuf" and "is_mpy abuf = Inr False" and "source_text abuf = Inr atext"
    and "sources e b = Some bbuf" and "is_mpy bbuf = Inr False" and "source_text bbuf = Inr btext" and "a \<noteq> b"
    and "yields I (RunStr I atext (vm e)) ds x m" and "refuses I (RunStr I btext (Collect I m)) y m'"
    and "length ns = length ds" and "\<not> IsAsyncMode opts"
  shows "\<exists>e1 e2 e3. UpyExecuteAsync I env (Some a) len True e = Inr (EFI_SUCCESS, e1)
    \<and> run_loaded I env opts (Some (b, len')) ([events e] # slow (events e) ns @ rest) e1 = Some (Inr (rest, e3))
    \<and> ran I True a x m e e2 \<and> ran I (IsShareMode opts \<or> IsInteractiveMode opts) b y m' e2 e3 \<and> idle e3"
proof -
  let ?sh = "IsShareMode opts \<or> IsInteractiveMode opts"
  let ?run = "UpyExecute I env (Some b) len' ?sh"
  have init: "ensure_init I env c e = Inr (EFI_SUCCESS, e)" for c using assms(1) by (simp add: ensure_init_def)
  have free: "\<not> IsRunning (mExecutorData e)" using assms(2) by (simp add: idle_def)
  obtain e1 E where start: "UpyExecuteAsync I env (Some a) len True e = Inr (EFI_SUCCESS, e1)"
      "fire_timer I (events e) e1 = after_jump (leave_stack I (Some a) (next_stack e) (Some (RunStr I atext (vm e))) E)"
      "timers e1 (events e) = Some 1" "ExecEvent (mExecutorData E) = Some (events e)" "IsRunning (mExecutorData E)"
      "timers E (events e) = None" "next_stack e \<in> set (stacks E)" "sources E = sources e"
    and final: "\<And>x m e'. ended I (Some a) x m E e' \<Longrightarrow> idle e' \<and> ran I True a x m e e' \<and> events e' = events e + 1"
    by (rule async_starts [OF free init assms(2-5,7-9), of True]) blast
  obtain e' e2 where turn: "after_jump (leave_stack I (Some a) (next_stack e) (Some (RunStr I atext (vm e))) E) = Some (Inr e')"
      "attempt I ?run (slow (events e) ns @ rest) e' = attempt I ?run rest e2" "ended I (Some a) x m E e2"
    using upy_sync.suspended_wait [OF assms(14) start(4,6,5,7), of "Some a" ns env "Some b" len' ?sh rest] start(8) assms(7,16) by auto
  have e2: "idle e2" "ran I True a x m e e2" using final [OF turn(3)] by auto
  have init2: "ensure_init I env True e2 = Inr (EFI_SUCCESS, e2)" using e2(2) by (simp add: ensure_init_def ran_def)
  obtain e3 where e3: "?run e2 = Some (Inr (end_status y, e3))" "ran I ?sh b y m' e2 e3" "\<not> IsRunning (mExecutorData e3)"
      "ScriptEngineStack (mExecutorData e3) = None" "timers e3 = timers e2"
    using execute_core [OF _ init2, of b bbuf btext y m' len' ?sh] e2 assms(4,10-13,15) by (auto simp: ran_def idle_def)
  have "wait_and_run I ?run ([events e] # slow (events e) ns @ rest) e1 = Some (Inr (end_status y, rest, e3))"
    unfolding wait_signal start(2) turn(1) using turn(2) e3(1) by (simp add: attempt_def)
  then have "run_loaded I env opts (Some (b, len')) ([events e] # slow (events e) ns @ rest) e1 = Some (Inr (rest, e3))"
    using assms(6,17) by (simp add: run_loaded_def)
  moreover have "idle e3" using e3(3-5) e2(1) by (simp add: idle_def)
  ultimately show ?thesis using start(1) e2(2) e3(2) by blast
qed

theorem scripts_take_turns_witness:
  "\<exists>e1 e2 e3. UpyExecuteAsync sleeper small_env (Some 0) 1 True small_engine = Inr (EFI_SUCCESS, e1)
    \<and> run_loaded sleeper small_env no_options (Some (1, 1)) ([7] # slow 7 [3, 0] @ [[]]) e1 = Some (Inr ([[]], e3))
    \<and> ran sleeper True 0 (EndOk None) 2 small_engine e2 \<and> ran sleeper False 1 (Raised (SystemExit ExitNone)) 3 e2 e3 \<and> idle e3"
proof -
  have "Collect sleeper 2 = (2 :: nat)" by (simp add: sleeper_def)
  then show ?thesis
    using scripts_take_turns [OF small_engine_ok(4,1,2) _ _ _ small_engine_ok(8) small_source small_engine_ok(9) small_source, where I = sleeper
        and ds = "[5, 0]" and ns = "[3, 0]" and x = "EndOk None" and m = 2 and y = "Raised (SystemExit ExitNone)" and m' = 3 and opts = no_options
        and len = 1 and len' = 1 and rest = "[[]]" and env = small_env] sleeper_yields [of "[112]" 0] sleeper_refuses [of "[112]" 2]
    by (simp add: small_engine_ok no_options_def numeral_2_eq_2 numeral_3_eq_3)
qed

section \<open>Running a script\<close>

lemma last_separator:
  assumes "k \<le> length dir" and "SEP \<notin> set name"
  shows "find (\<lambda>i. (dir @ SEP # name) ! i = SEP) (rev [k..<length (dir @ SEP # name)]) = Some (length dir)"
proof -
  let ?p = "dir @ SEP # name" and ?n = "length dir + length name"
  have at: "rev [k..<length ?p] ! j = ?n - j" if "j \<le> length name" for j
    using that assms(1) by (subst rev_nth) (auto simp del: upt_Suc)
  have "?p ! (?n - j) \<noteq> SEP" if lt: "j < length name" for j
  proof -
    obtain l where l: "length name = Suc (j + l)" using less_imp_Suc_add [OF lt] by blast
    then have "?n - j = length dir + Suc l" by simp
    then have "?p ! (?n - j) = name ! l" by (simp only: nth_append_length_plus nth_Cons_Suc)
    moreover have "name ! l \<in> set name" using l by (intro nth_mem) simp
    ultimately show ?thesis using assms(2) by metis
  qed
  moreover have "length name < length (rev [k..<length ?p])" using assms(1) by simp
  ultimately show ?thesis unfolding find_Some_iff
    using at by (intro exI [of _ "length name"]) (auto simp del: upt_Suc)
qed

lemma AddSysPath_dir:
  assumes "dir \<noteq> []" and "SEP \<notin> set name" and "ScriptEngineProtocol (mExecutorData e)" and "mHeap e" and "0 \<notin> set dir" and "length (utf8_of dir) < 256"
  shows "AddSysPath I env (dir @ SEP # name) e = Inr (EFI_SUCCESS, e\<lparr>sys_path := sys_path e @ [utf8_of dir]\<rparr>)"
  unfolding AddSysPath_def using last_separator [of 1 dir name] assms
  by (simp add: UpySetPath_def ensure_init_def has_heap_def rassert_def arg_string_exact Suc_leI del: upt_Suc)

lemma set_args_all:
  assumes "ScriptEngineProtocol (mExecutorData e)" and "mHeap e" and "\<forall>a\<in>set as. 0 \<notin> set a \<and> length (utf8_of a) < 256"
  shows "UpySetArgs I env (Some (map Some as)) e = Inr (EFI_SUCCESS, e\<lparr>sys_argv := map utf8_of as\<rparr>)"
proof -
  have "append_args (map Some as @ []) (e\<lparr>sys_argv := []\<rparr>) = append_args [] (e\<lparr>sys_argv := [] @ arg_strings (map Some as)\<rparr>)"
    using append_args_prefix [of "map Some as" "[]" "e\<lparr>sys_argv := []\<rparr>"] assms(3) by (auto simp: image_iff)
  moreover have "arg_strings (map Some as) = map utf8_of as" by (induction as) simp_all
  ultimately show ?thesis using assms(1,2) by (simp add: UpySetArgs_def ensure_init_def has_heap_def rassert_def)
qed

lemma fire_idle: "idle e \<Longrightarrow> fire_all I evs e = Some (Inr e)"
  by (induction evs) (simp_all add: fire_timer_def idle_def)

text \<open>A script file is loaded: the buffer holds the text up to a terminator, if the file has not grown since its size was taken.\<close>

lemma read_script_exact:
  assumes "ReadFile al f (unat (fsize + 1)) (o_fs w) = (EFI_SUCCESS, bs, fs)" and "length bs \<le> unat (fsize + 1)"
  shows "if length bs = unat (fsize + 1) then read_script al f fsize w = Inl OutOfBounds
    else \<exists>buf. read_script al f fsize w = Inr (EFI_SUCCESS, Some (buf, length bs), w\<lparr>o_fs := fs\<rparr>) \<and> take (length bs + 1) buf = bs @ [0]"
proof -
  let ?n = "unat (fsize + 1)"
  let ?buf = "(bs @ map (Chance al) [length bs..<?n])[length bs := 0]"
  have "take (length bs + 1) ?buf = bs @ [0]" if "length bs < ?n"
  proof -
    have "[length bs..<?n] = length bs # [Suc (length bs)..<?n]" using that by (rule upt_conv_Cons)
    then show ?thesis by (simp add: list_update_append)
  qed
  then show ?thesis using assms by (auto simp: read_script_def Let_def)
qed

lemma source_text_prefix:
  assumes "take (length bs + 1) buf = bs @ [0]" and "0 \<notin> set bs"
  shows "source_text buf = Inr bs"
proof -
  have buf: "buf = bs @ 0 # drop (length bs + 1) buf"
    using append_take_drop_id [of "length bs + 1" buf] unfolding assms(1) by simp
  have "takeWhile (\<lambda>c. c \<noteq> 0) (bs @ 0 # drop (length bs + 1) buf) = bs" using assms(2) by (subst takeWhile_append2) (metis, simp)
  moreover have "0 \<in> set buf" by (subst buf) simp
  ultimately show ?thesis using buf by (simp add: source_text_def)
qed

lemma get_script_core:
  assumes "\<not> EFI_ERROR loc" and "sfp_Open fw path FILE_READ 0 w = Inr (EFI_SUCCESS, Some f, w1)"
    and "os_GetInfo (Files al) f (o_fs w1) = (Some i, fs1)" and "\<not> is_dir i" and "GetSize al f fs1 = (EFI_SUCCESS, fsize, fs2)"
  shows "GetScriptFromFile fw al loc path w = rbind (read_script al f fsize (w1\<lparr>o_fs := fs2\<rparr>)) (\<lambda>(st, scr, w2).
    Inr (st, scr, CLOSE_FILE (Files al) (Some f) w2))"
  using assms by (simp add: GetScriptFromFile_def get_info_def)

text \<open>
  C19. Loading a script file gives its bytes up to a terminator, and the file is closed. The buffer has one byte more than the file,
  and the read asks for this byte as well: if the file has grown since its size was taken, the terminator is written behind the buffer.
\<close>

theorem script_file_loaded:
  assumes "\<not> EFI_ERROR loc" and "sfp_Open fw path FILE_READ 0 w = Inr (EFI_SUCCESS, Some f, w1)"
    and "os_GetInfo (Files al) f (o_fs w1) = (Some i, fs1)" and "\<not> is_dir i" and "GetSize al f fs1 = (EFI_SUCCESS, fsize, fs2)"
    and "ReadFile al f (unat (fsize + 1)) fs2 = (EFI_SUCCESS, bs, fs3)" and "length bs \<le> unat (fsize + 1)" and "0 \<notin> set bs"
  shows "if length bs = unat (fsize + 1) then GetScriptFromFile fw al loc path w = Inl OutOfBounds
    else \<exists>buf w2. GetScriptFromFile fw al loc path w = Inr (EFI_SUCCESS, Some (buf, length bs), w2)
      \<and> source_text buf = Inr bs \<and> o_log w2 = o_log w1 @ [Closed f]"
proof -
  have "ReadFile al f (unat (fsize + 1)) (o_fs (w1\<lparr>o_fs := fs2\<rparr>)) = (EFI_SUCCESS, bs, fs3)" using assms(6) by simp
  from read_script_exact [OF this assms(7)] show ?thesis
    unfolding get_script_core [OF assms(1-5)] using source_text_prefix [OF _ assms(8)]
    by (auto simp: CLOSE_FILE_def log_event_def split: if_splits)
qed

lemma parse_file_options:
  assumes "path \<noteq> []" and "hd path \<noteq> MINUS" and "args = [] \<or> hd args = [] \<or> hd (hd args) \<noteq> MINUS"
    and "ScriptEngineProtocol (mExecutorData e)" and "mHeap e" and "\<forall>a\<in>set args. 0 \<notin> set a \<and> length (utf8_of a) < 256"
  shows "run_options_of I env True (prog # path # args) e
    = Inr (no_options\<lparr>ScriptStringOrFile := Some path\<rparr>, e\<lparr>sys_argv := if args = [] then sys_argv e else map utf8_of args\<rparr>)"
proof (cases args)
  case Nil
  then show ?thesis using assms(1,2) by (simp add: run_options_of_def no_options_def)
next
  case (Cons b bs)
  have "UpySetArgs I env (Some (Some b # map Some bs)) e = Inr (EFI_SUCCESS, e\<lparr>sys_argv := map utf8_of args\<rparr>)"
    using set_args_all [OF assms(4,5,6), of I env] Cons by simp
  then show ?thesis using assms(1-3) Cons by (auto simp: run_options_of_def no_options_def)
qed

lemma load_file:
  assumes "dir \<noteq> []" and "SEP \<notin> set name" and "ScriptEngineProtocol (mExecutorData (a_engine a))" and "mHeap (a_engine a)"
    and "0 \<notin> set dir" and "length (utf8_of dir) < 256"
    and "GetScriptFromFile (Firmware env) al loc (dir @ SEP # name) (world_of a) = Inr (EFI_SUCCESS, Some (buf, len), w)"
    and "IsScriptFile opts" and "ScriptStringOrFile opts = Some (dir @ SEP # name)"
  shows "\<exists>a1. load_script I env al loc opts a = Inr (EFI_SUCCESS, Some (a_next a, len), a1)
    \<and> a_engine a1 = (a_engine a)\<lparr>e_usf := o_usf w, e_vols := o_vols w, sys_path := sys_path (a_engine a) @ [utf8_of dir],
        sources := (sources (a_engine a))(a_next a := Some buf)\<rparr>
    \<and> a_said a1 = a_said a \<and> a_log a1 = o_log w"
  using assms(7-9) AddSysPath_dir [OF assms(1,2), of "(a_engine a)\<lparr>e_usf := o_usf w, e_vols := o_vols w\<rparr>" I env] assms(3-6)
  by (simp add: load_script_def put_world_def new_source_def)

text \<open>
  C13. \<open>upy file arguments\<close> in the shell, where the first argument behind the file does not start with a minus sign: the file is read, its directory is added to \<open>sys.path\<close>, \<open>sys.argv\<close> are the arguments behind
  the file (those of an earlier script, if there are none), and the text of the file runs. Then the buffer has been freed, the stack
  and the heap of the interpreter are given back, no message was printed, and the status is success, whatever the script did.
\<close>

theorem upy_runs_file:
  assumes "\<not> no_upy db" and "dir \<noteq> []" and "hd dir \<noteq> MINUS" and "SEP \<notin> set name" and "0 \<notin> set dir" and "length (utf8_of dir) < 256"
    and "args = [] \<or> hd args = [] \<or> hd (hd args) \<noteq> MINUS" and "\<forall>b\<in>set args. 0 \<notin> set b \<and> length (utf8_of b) < 256"
    and "ScriptEngineProtocol (mExecutorData (a_engine a))" and "idle (a_engine a)" and "mHeap (a_engine a)" and "64 \<le> free_pages (a_engine a)"
    and "sources (a_engine a) (a_next a) = None"
    and "GetScriptFromFile (Firmware env) al loc (dir @ SEP # name) (world_of a) = Inr (EFI_SUCCESS, Some (buf, len), w)" and "0 < len"
    and "is_mpy buf = Inr False" and "source_text buf = Inr stext" and "refuses I (RunStr I stext (vm (a_engine a))) x m"
  shows "\<exists>a'. RunScript I env al loc True db (prog # (dir @ SEP # name) # args) (evs # stalls) a = Some (Inr (EFI_SUCCESS, a'))
    \<and> idle (a_engine a') \<and> ExecStatus (mExecutorData (a_engine a')) = end_status x \<and> vm (a_engine a') = Collect I m
    \<and> sys_argv (a_engine a') = (if args = [] then sys_argv (a_engine a) else map utf8_of args)
    \<and> sys_path (a_engine a') = sys_path (a_engine a) @ [utf8_of dir]
    \<and> sources (a_engine a') = sources (a_engine a) \<and> stacks (a_engine a') = stacks (a_engine a)
    \<and> free_pages (a_engine a') = free_pages (a_engine a) + 16384 \<and> \<not> mHeap (a_engine a') \<and> a_said a' = a_said a \<and> a_log a' = o_log w"
proof -
  let ?path = "dir @ SEP # name" and ?argv = "if args = [] then sys_argv (a_engine a) else map utf8_of args"
  let ?opts = "no_options\<lparr>ScriptStringOrFile := Some ?path\<rparr>" and ?a = "a\<lparr>a_engine := (a_engine a)\<lparr>sys_argv := ?argv\<rparr>\<rparr>"
  have opts: "run_options_of I env True (prog # ?path # args) (a_engine a) = Inr (?opts, a_engine ?a)"
    using parse_file_options [OF _ _ assms(7,9,11,8), of ?path I env prog] assms(2,3) by simp
  have "world_of ?a = world_of a" by (simp add: world_of_def)
  then obtain a1 where a1: "load_script I env al loc ?opts ?a = Inr (EFI_SUCCESS, Some (a_next a, len), a1)"
      "a_engine a1 = (a_engine ?a)\<lparr>e_usf := o_usf w, e_vols := o_vols w, sys_path := sys_path (a_engine a) @ [utf8_of dir],
        sources := (sources (a_engine a))(a_next a := Some buf)\<rparr>" "a_said a1 = a_said a" "a_log a1 = o_log w"
    using load_file [OF assms(2,4) _ _ assms(5,6), of ?a env al loc buf len w ?opts I] assms(9,11,14) by (auto simp: no_options_def)
  let ?e = "a_engine a1"
  have e: "idle ?e" "mHeap ?e" "ensure_init I env True ?e = Inr (EFI_SUCCESS, ?e)" "sources ?e (a_next a) = Some buf" "vm ?e = vm (a_engine a)"
      "64 \<le> free_pages ?e" "stacks ?e = stacks (a_engine a)" "free_pages ?e = free_pages (a_engine a)"
      "(sources ?e)(a_next a := None) = sources (a_engine a)" "sys_argv ?e = ?argv" "sys_path ?e = sys_path (a_engine a) @ [utf8_of dir]"
    using assms(9-13) by (simp_all add: a1(2) idle_def ensure_init_def fun_upd_idem)
  obtain e2 where e2: "UpyExecute I env (Some (a_next a)) len False ?e = Some (Inr (end_status x, e2))" "ran I False (a_next a) x m ?e e2"
      "\<not> IsRunning (mExecutorData e2)" "ScriptEngineStack (mExecutorData e2) = None" "timers e2 = timers ?e"
    using execute_core [OF _ e(3,2) _ e(6,4) assms(16,17), of x m len False] e(1,5) assms(18) by (auto simp: idle_def)
  have "run_loaded I env ?opts (Some (a_next a, len)) (evs # stalls) ?e = Some (Inr (stalls, e2))"
    using e2(1) assms(15) fire_idle [OF e(1)] by (simp add: run_loaded_def no_options_def)
  then have "RunScript I env al loc True db (prog # ?path # args) (evs # stalls) a = Some (Inr (EFI_SUCCESS, a1\<lparr>a_engine := e2\<rparr>))"
    using assms(1) opts a1(1) by (simp add: RunScript_def Let_def run_prompt_def no_options_def)
  then show ?thesis
    using e2 e(1,7-11) a1(3,4) by (intro exI [of _ "a1\<lparr>a_engine := e2\<rparr>"]) (simp add: ran_def idle_def)
qed

section \<open>Around it\<close>

text \<open>Started by the boot manager, which passes the options only, the application ignores a single option and shows the prompt.\<close>

lemma single_option_ignored: "run_options_of I env shell [opt] e = Inr (no_options\<lparr>IsInteractiveMode := True\<rparr>, e)"
  by (simp add: run_options_of_def no_options_def)

text \<open>
  The arguments are set before the loop that waits for a running script. If that script does not share the engine, the engine is shut down
  at its end and starts again for the next one, without the arguments.
\<close>

lemma init_clears_args:
  assumes "\<not> ScriptEngineProtocol (mExecutorData e)" and "ensure_init I env True e = Inr (EFI_SUCCESS, e0)"
  shows "sys_argv e0 = []"
proof -
  have path: "add_path p e1 = Inr e2 \<Longrightarrow> sys_argv e2 = sys_argv e1" for p and e1 e2 :: "('k, 'm, 't, 'r) engine"
    by (auto simp: add_path_def rbind_eq_Inr)
  have init: "sys_argv e2 = []" if "UpyInit I env e = Inr (st, e2)" "\<not> EFI_ERROR st" for st e2
    using that unfolding UpyInit_def Let_def
    by (auto simp: rbind_eq_Inr upd_def dest!: path split: option.splits if_splits)
  then show ?thesis using assms by (auto simp: ensure_init_def rbind_eq_Inr upd_def split: if_splits)
qed

text \<open>What the application returns does not depend on what the script does.\<close>

lemma RunScript_status:
  assumes "RunScript I env al loc shell db argv stalls a = Some (Inr (st, a'))"
  shows "st \<in> {EFI_UNSUPPORTED, EFI_ALREADY_STARTED, EFI_SUCCESS}"
  using assms by (auto simp: RunScript_def Let_def rbind_eq_Inr split: if_splits option.splits sum.splits prod.splits)

text \<open>A driver that the application has loaded is unloaded again, unless the script is asynchronous or shares the engine.\<close>

lemma app_unloads_driver:
  assumes "no_upy db" and "AppFilePath ae = Some (Some p)" and "driver_path p = Inr dp" and "LoadDriver ae dp = EFI_SUCCESS"
    and "StartDriver ae a = (EFI_SUCCESS, db1, a1)" and "ParseLoadOptionsToArgs grant (AppLoadOptions ae) True = Inr (EFI_SUCCESS, argv)"
    and "RunScript I env al loc shell db1 argv stalls a1 = Some (Inr (st, a2))"
  shows "MicroPythonAppMain I env al loc shell ae grant db stalls a
    = Some (Inr (EFI_SUCCESS, if st = EFI_SUCCESS then UnloadDriver ae a2 else a2))"
  using assms RunScript_status [OF assms(7)] by (auto simp: MicroPythonAppMain_def start_driver_def)

text \<open>The directory of the application: of a path without a separator one character is left.\<close>

lemma driver_path_dir: "SEP \<notin> set name \<Longrightarrow> driver_path (dir @ SEP # name) = Inr (dir @ SEP # MICROPYTHON_DRIVER_NAME)"
  using last_separator [of 0 dir name] by (simp add: driver_path_def Let_def del: upt_Suc)

lemma driver_path_bare:
  assumes "SEP \<notin> set (c # name)"
  shows "driver_path (c # name) = Inr (c # MICROPYTHON_DRIVER_NAME)"
proof -
  have "(c # name) ! i \<noteq> SEP" if "i < length (c # name)" for i using nth_mem [OF that] assms by metis
  then have "find (\<lambda>i. (c # name) ! i = SEP) (rev [0..<length (c # name)]) = None" by (auto simp: find_None_iff simp del: upt_Suc)
  then show ?thesis by (simp add: driver_path_def Let_def del: upt_Suc)
qed

section \<open>A small application\<close>

definition small_lib :: "nat app_lib" where
  "small_lib = \<lparr>Files = plain_os, ReadFile = (\<lambda>h n fs. (EFI_SUCCESS, [112], fs)), GetSize = (\<lambda>h fs. (EFI_SUCCESS, 1, fs)), Chance = (\<lambda>_. 255),
     UnicodeStrToAsciiStrS = (\<lambda>s. (EFI_SUCCESS, map ucast s @ [0]))\<rparr>"

definition small_app :: "(nat, nat, unit, nat, nat) app_state" where
  "small_app = \<lparr>a_engine = small_engine, a_fs = 0, a_log = [], a_next = 2, a_said = []\<rparr>"

definition small_db :: "(nat, nat) engine_db" where
  "small_db = \<lparr>Located = (EFI_SUCCESS, [3]), EngineOn = (\<lambda>_. (EFI_SUCCESS, Some 0)), GetType = (\<lambda>_. EFI_SCRIPT_ENGINE_TYPE_MICROPYTHON)\<rparr>"

definition drive2 :: "w16 list" where "drive2 = ROOT_TYPE_INTERNAL @ [70, 83, 2, DRIVE]"

lemma small_file: "os_GetInfo (Files small_lib) f fs = (Some (file_info [97] 0), fs)" "\<not> is_dir (file_info [97] 0)"
  "GetSize small_lib f fs = (EFI_SUCCESS, 1, fs)" "ReadFile small_lib f n fs = (EFI_SUCCESS, [112], fs)"
  by (simp_all add: small_lib_def plain_os_def is_dir_def file_info_def)

lemma success: "\<not> EFI_ERROR EFI_SUCCESS"
  by simp

theorem script_file_loaded_witness:
  "\<exists>buf w2. GetScriptFromFile no_shell small_lib EFI_SUCCESS dir_path (os_start 0) = Inr (EFI_SUCCESS, Some (buf, 1), w2)
    \<and> source_text buf = Inr [112] \<and> o_log w2 = [Opened (FsHandle 12), Closed (FsHandle 12)]"
  using script_file_loaded [OF success dir_path_opens(2) [of _ 0] small_file] by (simp add: os_start_def)

lemma small_script:
  "GetScriptFromFile no_shell small_lib EFI_SUCCESS (drive2 @ SEP # [97]) (world_of small_app)
     = Inr (EFI_SUCCESS, Some ([112, 0], 1), CLOSE_FILE plain_os (Some (FsHandle 12))
         ((os_start 0)\<lparr>o_vols := [OpenVol 2, CloseVol 2], o_log := [Opened (FsHandle 12)]\<rparr>))"
proof -
  have "world_of small_app = os_start 0" by (simp add: world_of_def small_app_def small_engine_def os_start_def)
  moreover have "drive2 @ SEP # [97] = dir_path" by (simp add: drive2_def dir_path_def)
  moreover have "GetScriptFromFile no_shell small_lib EFI_SUCCESS dir_path (os_start 0)
     = Inr (EFI_SUCCESS, Some ([112, 0], 1), CLOSE_FILE plain_os (Some (FsHandle 12))
         ((os_start 0)\<lparr>o_vols := [OpenVol 2, CloseVol 2], o_log := [Opened (FsHandle 12)]\<rparr>))"
    unfolding get_script_core [OF success dir_path_opens(2) small_file(1-3)] by (simp add: read_script_def small_lib_def os_start_def upt_conv_Cons)
  ultimately show ?thesis by simp
qed

theorem upy_runs_file_witness:
  "\<exists>a'. RunScript sleeper small_env small_lib EFI_SUCCESS True small_db [[117], drive2 @ SEP # [97], [98], [45]] [[7, 8]] small_app
      = Some (Inr (EFI_SUCCESS, a'))
    \<and> sys_argv (a_engine a') = [[98], [45]] \<and> sys_path (a_engine a') = [utf8_of drive2]
    \<and> ExecStatus (mExecutorData (a_engine a')) = EFI_LOAD_ERROR \<and> a_log a' = [Opened (FsHandle 12), Closed (FsHandle 12)]"
proof -
  have bytes: "utf8_bytes 98 = [98]" "utf8_bytes 45 = [45]" by (simp_all add: utf8_bytes_def)
  have dir: "drive2 \<noteq> []" "hd drive2 \<noteq> MINUS" "SEP \<notin> set [97]" "0 \<notin> set drive2" "length (utf8_of drive2) < 256"
    by (simp_all add: drive2_def path_consts MINUS_def utf8_size_def)
  have db: "\<not> no_upy small_db"
    by (simp add: no_upy_def find_upy_def small_db_def FindScriptProtocolByType_def EFI_SCRIPT_ENGINE_TYPE_MICROPYTHON_def)
  have app: "a_engine small_app = small_engine" "a_next small_app = 2" "sources small_engine 2 = None" "Firmware small_env = no_shell"
      "sys_path small_engine = []"
    by (simp_all add: small_app_def small_engine_def small_env_def)
  show ?thesis
    using upy_runs_file [OF db dir(1-5), of "[[98], [45]]" small_app small_env small_lib EFI_SUCCESS "[112, 0]" 1 _ "[112]" sleeper
        "Raised (SystemExit ExitNone)" 1 "[117]" "[7, 8]" "[]"] small_script small_source sleeper_refuses [of "[112]" 0]
    by (auto simp: app small_engine_ok bytes MINUS_def utf8_size_def CLOSE_FILE_def log_event_def)
qed

end
