(* ===== verification/Ets_Module.thy ===== *)
theory Ets_Module
  imports Con_In
begin

text \<open>
  \<open>MicroPythonDxe/Uefi/modets.c\<close>, the module \<open>_ets\<close> with which test scripts press keys on the virtual console, read its screen back,
  and reach the registers of the processor; the ports and the clock rate of \<open>modmachine.c\<close>, and the key input of \<open>uefi_mphal.c\<close>. Instructions and the processor's protocol are the record \<open>cpu\<close> over a state \<open>'m\<close>;
  \<open>loc\<close> is the status of \<open>LocateProtocol\<close>.
\<close>

section \<open>State\<close>

datatype ets_val = VStr "8 word list" | VInt int | VBool bool | VTuple "ets_val list" | VList "ets_val list" | VOther

datatype ets_exc = EfiStatus efi_status | PyTypeError | PyException string

type_synonym 'a ets = "ets_exc + 'a"

record 'm cpu =
  LocateCpu :: efi_status
  RegisterInterruptHandler :: "bool \<Rightarrow> bool \<Rightarrow> efi_status"
  AsmReadMsr64 :: "32 word \<Rightarrow> 'm \<Rightarrow> 64 word option"
  AsmWriteMsr64 :: "32 word \<Rightarrow> 64 word \<Rightarrow> 'm \<Rightarrow> 'm option"
  AsmRead :: "string \<Rightarrow> 'm \<Rightarrow> 64 word"
  AsmWrite :: "string \<Rightarrow> 64 word \<Rightarrow> 'm \<Rightarrow> 'm"
  AsmReadDesc :: "string \<Rightarrow> 'm \<Rightarrow> 16 word \<times> 64 word"
  AsmWriteDesc :: "string \<Rightarrow> 16 word \<times> 64 word \<Rightarrow> 'm \<Rightarrow> 'm"
  AsmCpuid :: "32 word \<Rightarrow> 'm \<Rightarrow> 32 word \<times> 32 word \<times> 32 word \<times> 32 word"

text \<open>\<open>gp_handler\<close>: a handler for general protection faults is registered.\<close>

record 'm ets_state =
  mVirtualConsole :: bool
  console :: VIRTUAL_CONSOLE_DEV
  mCpu :: bool
  gp_handler :: bool
  machine :: 'm

text \<open>\<open>mp_obj_get_int\<close>, and a cast to a word behind it.\<close>

fun mp_obj_get_int :: "ets_val \<Rightarrow> int ets" where
  "mp_obj_get_int (VInt i) = Inr i"
| "mp_obj_get_int (VBool b) = Inr (if b then 1 else 0)"
| "mp_obj_get_int _ = Inl PyTypeError"

definition ebind :: "'a ets \<Rightarrow> ('a \<Rightarrow> 'b ets) \<Rightarrow> 'b ets" where
  "ebind r f = (case r of Inl x \<Rightarrow> Inl x | Inr v \<Rightarrow> f v)"

definition locate_console :: "efi_status \<Rightarrow> 'm ets_state \<Rightarrow> unit ets \<times> 'm ets_state" where
  "locate_console loc s =
     (if mVirtualConsole s then (Inr (), s)
      else if EFI_ERROR loc then (Inl (EfiStatus loc), s)
      else (Inr (), s\<lparr>mVirtualConsole := True\<rparr>))"

section \<open>The console\<close>

definition EFI_SHIFT_STATE_VALID :: "32 word" where "EFI_SHIFT_STATE_VALID = 0x80000000"
definition EFI_TOGGLE_STATE_VALID :: "8 word" where "EFI_TOGGLE_STATE_VALID = 0x80"

text \<open>Of a longer string the first two bytes are a character; a single byte is a signed \<open>char\<close>.\<close>

definition key_char :: "ets_val \<Rightarrow> wchar" where
  "key_char v =
     (case v of
        VStr bs \<Rightarrow> (case bs of [] \<Rightarrow> 0 | [b] \<Rightarrow> scast b | b # c # _ \<Rightarrow> ucast b OR push_bit 8 (ucast c))
      | VInt i \<Rightarrow> of_int i
      | _ \<Rightarrow> CHAR_NULL)"

definition opt_int :: "nat \<Rightarrow> ets_val list \<Rightarrow> int ets" where
  "opt_int n args = (if n < length args then mp_obj_get_int (args ! n) else Inr 0)"

definition key_data :: "ets_val list \<Rightarrow> EFI_KEY_DATA ets" where
  "key_data args =
     ebind (opt_int 1 args) (\<lambda>scan.
     ebind (opt_int 2 args) (\<lambda>shift.
     ebind (opt_int 3 args) (\<lambda>toggle.
       let sh = of_int shift; tg = of_int toggle in
       Inr \<lparr>ScanCode = of_int scan, UnicodeChar = key_char (args ! 0),
         KeyShiftState = (if sh = 0 then 0 else sh OR EFI_SHIFT_STATE_VALID),
         KeyToggleState = (if tg = 0 then 0 else tg OR EFI_TOGGLE_STATE_VALID)\<rparr>)))"

definition mod_ets_press_key :: "efi_status \<Rightarrow> ets_val list \<Rightarrow> 'm ets_state \<Rightarrow> (unit ets \<times> 'm ets_state) result" where
  "mod_ets_press_key loc args s =
     (case locate_console loc s of
        (Inl x, s1) \<Rightarrow> Inr (Inl x, s1)
      | (Inr _, s1) \<Rightarrow>
          (case key_data args of
             Inl x \<Rightarrow> Inr (Inl x, s1)
           | Inr k \<Rightarrow> rbind (InputKey (Some k) (console s1)) (\<lambda>(_, d). Inr (Inr (), s1\<lparr>console := d\<rparr>))))"

definition screen_char :: "wchar \<Rightarrow> 8 word" where
  "screen_char c = (let b = ucast c :: 8 word in if b = 0 \<or> sint b < 0 then 32 else b)"

text \<open>
  \<open>chance\<close> is what the new buffer holds. The result \<open>None\<close> is the null object. A tuple of the text and the attributes
  is returned.
\<close>

definition mod_ets_get_screen ::
  "(nat \<Rightarrow> VIRTUAL_CONSOLE_CHAR) \<Rightarrow> efi_status \<Rightarrow> ets_val list \<Rightarrow> 'm ets_state
    \<Rightarrow> ((8 word list \<times> 64 word list) option ets \<times> 'm ets_state) result" where
  "mod_ets_get_screen chance loc args s =
     (case locate_console loc s of
        (Inl x, s1) \<Rightarrow> Inr (Inl x, s1)
      | (Inr _, s1) \<Rightarrow>
          let hist = (args = [VBool True]) in
          rbind (GetScreen None (Some 0) hist (console s1)) (\<lambda>(st, _, n, d).
            (case n of
               None \<Rightarrow> Inl NullDeref
             | Some need \<Rightarrow>
                 if st = EFI_BUFFER_TOO_SMALL \<and> need > 0
                 then rbind (GetScreen (Some (map chance [0..<nat need])) (Some need) hist d) (\<lambda>(st2, b, n2, d2).
                        Inr (Inr (case (b, n2) of
                                    (Some cells, Some m) \<Rightarrow>
                                      if EFI_ERROR st2 then None
                                      else Some (map (screen_char \<circ> ch_Char) (take (nat m) cells), map ch_Attribute (take (nat m) cells))
                                  | _ \<Rightarrow> None), s1\<lparr>console := d2\<rparr>))
                 else Inr (Inr None, s1\<lparr>console := d\<rparr>))))"

definition mod_ets_clear_history :: "efi_status \<Rightarrow> 'm ets_state \<Rightarrow> (unit ets \<times> 'm ets_state) result" where
  "mod_ets_clear_history loc s =
     (case locate_console loc s of
        (Inl x, s1) \<Rightarrow> Inr (Inl x, s1)
      | (Inr _, s1) \<Rightarrow> rbind (ClearHistory (console s1)) (\<lambda>(_, d). Inr (Inr (), s1\<lparr>console := d\<rparr>)))"

definition DEBUG_WARN :: "64 word" where "DEBUG_WARN = 2"
definition DEBUG_INFO :: "64 word" where "DEBUG_INFO = 0x40"
definition DEBUG_VERBOSE :: "64 word" where "DEBUG_VERBOSE = 0x400000"
definition DEBUG_ERROR :: "64 word" where "DEBUG_ERROR = 0x80000000"

text \<open>The level and the type of a message.\<close>

definition mod_ets_debug :: "ets_val list \<Rightarrow> (64 word \<times> string) ets" where
  "mod_ets_debug args =
     ebind (if length args = 1 then Inr DEBUG_INFO else ebind (mp_obj_get_int (args ! 1)) (\<lambda>i. Inr (of_int i))) (\<lambda>level.
       Inr (level, if level = DEBUG_ERROR then ''ERROR'' else if level = DEBUG_WARN then ''WARN''
                   else if level = DEBUG_VERBOSE then ''VERBOSE'' else ''INFO''))"

section \<open>The processor\<close>

definition locate_cpu :: "'m cpu \<Rightarrow> 'm ets_state \<Rightarrow> unit ets \<times> 'm ets_state" where
  "locate_cpu c s =
     (if mCpu s then (Inr (), s)
      else if EFI_ERROR (LocateCpu c) then (Inl (EfiStatus (LocateCpu c)), s)
      else (Inr (), s\<lparr>mCpu := True\<rparr>))"

definition set_handler :: "'m cpu \<Rightarrow> bool \<Rightarrow> 'm ets_state \<Rightarrow> unit ets \<times> 'm ets_state" where
  "set_handler c on s =
     (let st = RegisterInterruptHandler c (gp_handler s) on in
      if EFI_ERROR st then (Inl (EfiStatus st), s) else (Inr (), s\<lparr>gp_handler := on\<rparr>))"

definition MsrErrorHandler :: "'m cpu \<Rightarrow> 'm ets_state \<Rightarrow> ets_exc \<times> 'm ets_state" where
  "MsrErrorHandler c s = (PyException ''Reserved or unimplemented MSR'', if mCpu s then snd (set_handler c False s) else s)"

text \<open>
  Both accesses register the handler, run, and remove it; the arguments are converted while it is registered. \<open>access\<close> is \<open>None\<close> for a
  fault of the instruction.
\<close>

definition msr_access ::
  "'m cpu \<Rightarrow> ('m \<Rightarrow> ('a \<times> 'm) option ets) \<Rightarrow> 'm ets_state \<Rightarrow> 'a ets \<times> 'm ets_state" where
  "msr_access c acc s =
     (case locate_cpu c s of
        (Inl x, s1) \<Rightarrow> (Inl x, s1)
      | (Inr _, s1) \<Rightarrow>
          (case set_handler c True s1 of
             (Inl x, s2) \<Rightarrow> (Inl x, s2)
           | (Inr _, s2) \<Rightarrow>
               (case acc (machine s2) of
                  Inl x \<Rightarrow> (Inl x, s2)
                | Inr None \<Rightarrow> (case MsrErrorHandler c s2 of (x, s3) \<Rightarrow> (Inl x, s3))
                | Inr (Some (v, m)) \<Rightarrow>
                    (case set_handler c False (s2\<lparr>machine := m\<rparr>) of
                       (Inl x, s3) \<Rightarrow> (Inl x, s3)
                     | (Inr _, s3) \<Rightarrow> (Inr v, s3)))))"

definition mod_ets_rdmsr :: "'m cpu \<Rightarrow> ets_val \<Rightarrow> 'm ets_state \<Rightarrow> 64 word ets \<times> 'm ets_state" where
  "mod_ets_rdmsr c msr = msr_access c (\<lambda>m. ebind (mp_obj_get_int msr) (\<lambda>i. Inr (map_option (\<lambda>v. (v, m)) (AsmReadMsr64 c (of_int i) m))))"

definition mod_ets_wrmsr :: "'m cpu \<Rightarrow> ets_val \<Rightarrow> ets_val \<Rightarrow> 'm ets_state \<Rightarrow> unit ets \<times> 'm ets_state" where
  "mod_ets_wrmsr c msr v = msr_access c (\<lambda>m. ebind (mp_obj_get_int msr) (\<lambda>i. ebind (mp_obj_get_int v) (\<lambda>w.
     Inr (map_option (\<lambda>m. ((), m)) (AsmWriteMsr64 c (of_int i) (of_int w) m)))))"

text \<open>The registers that can be read and written as numbers, and those with a limit and a base.\<close>

definition desc_regs :: "string list" where "desc_regs = [''gdtr'', ''idtr'']"

definition word_regs :: "string list" where
  "word_regs = [''cr0'', ''cr2'', ''cr3'', ''cr4'', ''dr0'', ''dr1'', ''dr2'', ''dr3'', ''dr4'', ''dr5'', ''dr6'', ''dr7'',
     ''tr'', ''ldtr'', ''mm0'', ''mm1'', ''mm2'', ''mm3'', ''mm4'', ''mm5'', ''mm6'', ''mm7'']"

definition read_only_regs :: "string list" where
  "read_only_regs = [''eflags'', ''cs'', ''ds'', ''es'', ''fs'', ''gs'', ''ss'', ''tsc'', ''pmc'']"

definition reg_error :: ets_exc where "reg_error = PyException ''Invalid or unimplemented register''"

definition mod_ets_get_reg :: "'m cpu \<Rightarrow> string \<Rightarrow> 'm \<Rightarrow> ets_val ets" where
  "mod_ets_get_reg c reg m =
     (if reg \<in> set desc_regs
      then (case AsmReadDesc c reg m of (limit, base) \<Rightarrow>
              Inr (if limit > 0 then VTuple [VInt (uint limit), VInt (uint base)] else VInt (uint base)))
      else if reg \<in> set (read_only_regs @ word_regs) then Inr (VInt (uint (AsmRead c reg m)))
      else Inl reg_error)"

text \<open>What is stored: a number, or a limit with a base; what is missing has all bits set.\<close>

definition reg_value :: "ets_val \<Rightarrow> (64 word \<times> 16 word \<times> 64 word) ets result" where
  "reg_value v =
     (let pair = (\<lambda>xs. case xs of l # b # _ \<Rightarrow> Inr (ebind (mp_obj_get_int l) (\<lambda>i. ebind (mp_obj_get_int b) (\<lambda>j. Inr (- 1, of_int i, of_int j))))
                        | _ \<Rightarrow> Inl AssertFailed) in
      case v of
        VInt i \<Rightarrow> Inr (Inr (of_int i, - 1, - 1))
      | VTuple xs \<Rightarrow> pair xs
      | VList xs \<Rightarrow> pair xs
      | _ \<Rightarrow> Inr (Inl (PyException ''Unsupported value type'')))"

definition mod_ets_set_reg :: "'m cpu \<Rightarrow> string \<Rightarrow> ets_val \<Rightarrow> 'm \<Rightarrow> 'm ets result" where
  "mod_ets_set_reg c reg v m =
     rbind (reg_value v) (\<lambda>r. Inr (ebind r (\<lambda>(val, limit, base).
       if reg \<in> set desc_regs then Inr (AsmWriteDesc c reg (limit, base) m)
       else if reg \<in> {''tr'', ''ldtr''} then Inr (AsmWrite c reg (take_bit 16 val) m)
       else if reg \<in> set word_regs then Inr (AsmWrite c reg val m)
       else Inl reg_error)))"

text \<open>An attribute of the object \<open>regs\<close> is read, stored or deleted; deleting stores the null object.\<close>

datatype attr_access = Load | Store ets_val | Delete

definition mod_ets_register_attr :: "'m cpu \<Rightarrow> string \<Rightarrow> attr_access \<Rightarrow> 'm \<Rightarrow> (ets_val option \<times> 'm) ets result" where
  "mod_ets_register_attr c attr acc m =
     (case acc of
        Load \<Rightarrow> Inr (ebind (mod_ets_get_reg c attr m) (\<lambda>v. Inr (Some v, m)))
      | Store v \<Rightarrow> rbind (mod_ets_set_reg c attr v m) (\<lambda>r. Inr (ebind r (\<lambda>m'. Inr (None, m'))))
      | Delete \<Rightarrow> Inl NullDeref)"

definition mod_ets_cpuid :: "'m cpu \<Rightarrow> ets_val list \<Rightarrow> 'm \<Rightarrow> (32 word \<times> 32 word \<times> 32 word \<times> 32 word) ets" where
  "mod_ets_cpuid c args m =
     ebind (opt_int 0 args) (\<lambda>reg1.
     ebind (opt_int 1 args) (\<lambda>reg2.
       (case AsmCpuid c (of_int reg1) m of (eax, ebx, ecx, edx) \<Rightarrow>
          if eax OR ebx OR ecx OR edx = 0 then Inl (PyException ''Invalid cpuid'') else Inr (eax, ebx, ecx, edx))))"

section \<open>The machine module\<close>

record 'm port_io =
  IoRead :: "nat \<Rightarrow> 64 word \<Rightarrow> 'm \<Rightarrow> 32 word"
  IoWrite :: "nat \<Rightarrow> 64 word \<Rightarrow> 32 word \<Rightarrow> 'm \<Rightarrow> 'm"

definition mp_obj_new_port :: "64 word \<Rightarrow> nat" where
  "mp_obj_new_port n = (if n \<le> 8 then 8 else if n \<le> 16 then 16 else 32)"

definition port_make_new :: "ets_val list \<Rightarrow> nat ets" where
  "port_make_new args =
     (if args = [] then Inr (mp_obj_new_port 8) else ebind (mp_obj_get_int (args ! 0)) (\<lambda>i. Inr (mp_obj_new_port (of_int i))))"

definition port_subscr :: "'m port_io \<Rightarrow> nat \<Rightarrow> ets_val \<Rightarrow> attr_access \<Rightarrow> 'm \<Rightarrow> (int option \<times> 'm) ets" where
  "port_subscr io width index acc m =
     ebind (mp_obj_get_int index) (\<lambda>i.
       (case acc of
          Delete \<Rightarrow> Inr (None, m)
        | Load \<Rightarrow> Inr (if width \<in> {8, 16, 32} then Some (uint (IoRead io width (of_int i) m)) else None, m)
        | Store v \<Rightarrow>
            if width \<in> {8, 16, 32} then ebind (mp_obj_get_int v) (\<lambda>x. Inr (None, IoWrite io width (of_int i) (take_bit width (of_int x)) m))
            else Inr (None, m)))"

definition port_attr :: "nat \<Rightarrow> string \<Rightarrow> attr_access \<Rightarrow> int option ets" where
  "port_attr width attr acc =
     (if attr = ''WIDTH'' then Inr (case acc of Load \<Rightarrow> Some (int width) | _ \<Rightarrow> None) else Inl (PyException ''Non-existing attribute''))"

text \<open>\<open>loc\<close> and \<open>smbios\<close> are the statuses of locating the protocol and of finding the processor's record; \<open>None\<close> is Python's.\<close>

definition mod_machine_freq :: "efi_status \<Rightarrow> efi_status \<times> 16 word \<Rightarrow> int option" where
  "mod_machine_freq loc smbios =
     (if EFI_ERROR loc then None else (case smbios of (st, speed) \<Rightarrow> if EFI_ERROR st then None else Some (uint speed)))"

section \<open>Keys of the prompt\<close>

definition hal_key :: "16 word \<Rightarrow> wchar \<Rightarrow> 8 word" where
  "hal_key scan ch =
     (if scan = 1 then 16 else if scan = 2 then 14 else if scan = 3 then 6 else if scan = 4 then 2
      else if scan = 6 then 5 else if scan = 5 then 1 else if scan = 8 then 4 else if scan = 0x17 then 3
      else ucast ch)"

text \<open>\<open>mp_hal_stdin_rx_chr\<close> on the virtual console: \<open>WaitForEvent\<close> has returned, so that a key is there.\<close>

definition mp_hal_stdin_rx_chr :: "EFI_KEY_DATA \<Rightarrow> EFI_INPUT_KEY \<Rightarrow> VIRTUAL_CONSOLE_DEV \<Rightarrow> (8 word \<times> VIRTUAL_CONSOLE_DEV) result" where
  "mp_hal_stdin_rx_chr k0 key d =
     rbind (ReadKeyStroke k0 key d) (\<lambda>(st, (scan, ch), d1).
       if EFI_ERROR st then Inl AssertFailed else Inr (hal_key scan ch, d1))"

end
