(* ===== verification/Ets_Thms.thy ===== *)
theory Ets_Thms
  imports Ets_Module Con_Out_Thms Con_In_Thms
begin

text \<open>Properties of the module \<open>_ets\<close>: tests see what is on the screen, and the console reads the keys they press.\<close>

lemmas ets_defs = ebind_def locate_console_def locate_cpu_def set_handler_def MsrErrorHandler_def

section \<open>Screen and keys\<close>

lemma area_of_rows: "valid_rows h W rs \<Longrightarrow> length (concat (rows_of h rs)) = W * length rs"
  by (induction rs) (auto simp: valid_rows_def rows_of_def)

text \<open>
  C6. A test sees what the program under test prints: after \<open>OutputString\<close>, \<open>snapshot()\<close> returns the cells of the reference terminal, row by row,
  with their attributes, and changes nothing on the console. Of each character the lowest byte is shown, and a space for a byte that is not
  ASCII or zero.
\<close>

theorem snapshot_shows_output:
  assumes "con_ready W H rs (console s)" and "2 \<le> W" and "has_mode (Mode (console s)) W H (console s)" and "ScreenHistory (console s) = []"
  shows "\<exists>d'. OutputString ws (console s) = Some (Inr (EFI_SUCCESS, d'))
    \<and> mod_ets_get_screen chance EFI_SUCCESS [] (s\<lparr>console := d'\<rparr>)
        = Inr (Inr (let cells = concat (t_grid (t_write W ws (term_of (console s)))) in
                 Some (map (screen_char \<circ> ch_Char) cells, map ch_Attribute cells)), s\<lparr>console := d', mVirtualConsole := True\<rparr>)"
proof -
  let ?g = "concat (t_grid (t_write W ws (term_of (console s))))"
  obtain d' where d': "OutputString ws (console s) = Some (Inr (EFI_SUCCESS, d'))" "con_ready W H rs d'" "has_mode (Mode d') W H d'" "hist_ok rs d'"
      "length (shown False d') = H" "W * length (shown False d') < 2 ^ 64"
      "rows_of (heap (Pool d')) (shown False d') = t_grid (t_write W ws (term_of (console s)))"
    by (rule written_screen [OF assms])
  note screen = screen_atD [OF con_readyD(1) [OF d'(2)]]
  have n: "0 < W * H" using screen(4,5,8) by simp
  have first: "GetScreen None (Some 0) False d' = Inr (EFI_BUFFER_TOO_SMALL, None, Some (int (W * H)), d')"
    using GetScreen_small [OF d'(2,3,6), of 0 None] n d'(5) by simp
  have second: "GetScreen (Some (map chance [0..<W * H])) (Some (int (W * H))) False d' = Inr (EFI_SUCCESS, Some ?g, Some (int (W * H)), d')"
    using GetScreen_sim [OF d'(2-4,6), of "map chance [0..<W * H]"] d'(5,7) by simp
  have len: "length ?g = W * H"
    using area_of_rows [OF screen(3)] shown_False [OF d'(2)] d'(7) by simp
  show ?thesis using d'(1) first second n len
    by (intro exI [of _ d']) (auto simp: mod_ets_get_screen_def locate_console_def Let_def simp flip: of_nat_mult)
qed

text \<open>
  The keys a test presses, by how they are written in the script (a character, or zero and a scan code); the key data they stand for; and
  the bytes the prompt reads for them, which are the control characters of its line editor for the keys that are no characters.
\<close>

datatype test_key = Typed "8 word" | KeyUp | KeyDown | KeyRight | KeyLeft | KeyHome | KeyEnd | KeyDelete | KeyEsc

fun scan_of :: "test_key \<Rightarrow> nat" where
  "scan_of (Typed b) = 0" | "scan_of KeyUp = 1" | "scan_of KeyDown = 2" | "scan_of KeyRight = 3" | "scan_of KeyLeft = 4"
| "scan_of KeyHome = 5" | "scan_of KeyEnd = 6" | "scan_of KeyDelete = 8" | "scan_of KeyEsc = 0x17"

fun key_args :: "test_key \<Rightarrow> ets_val list" where
  "key_args (Typed b) = [VStr [b]]"
| "key_args k = [VInt 0, VInt (int (scan_of k))]"

definition key_of :: "test_key \<Rightarrow> EFI_KEY_DATA" where
  "key_of k = \<lparr>ScanCode = of_nat (scan_of k), UnicodeChar = (case k of Typed b \<Rightarrow> scast b | _ \<Rightarrow> 0), KeyShiftState = 0, KeyToggleState = 0\<rparr>"

fun prompt_byte :: "test_key \<Rightarrow> 8 word" where
  "prompt_byte (Typed b) = b" | "prompt_byte KeyUp = 16" | "prompt_byte KeyDown = 14" | "prompt_byte KeyRight = 6" | "prompt_byte KeyLeft = 2"
| "prompt_byte KeyHome = 1" | "prompt_byte KeyEnd = 5" | "prompt_byte KeyDelete = 4" | "prompt_byte KeyEsc = 3"

text \<open>A script that presses keys one after the other, and a program that reads some bytes.\<close>

fun press_keys :: "test_key list \<Rightarrow> 'm ets_state \<Rightarrow> 'm ets_state result" where
  "press_keys [] s = Inr s"
| "press_keys (k # ks) s =
     rbind (mod_ets_press_key EFI_SUCCESS (key_args k) s) (\<lambda>(r, s'). case r of Inl x \<Rightarrow> Inr s' | Inr _ \<Rightarrow> press_keys ks s')"

fun read_bytes :: "nat \<Rightarrow> EFI_KEY_DATA \<Rightarrow> EFI_INPUT_KEY \<Rightarrow> VIRTUAL_CONSOLE_DEV \<Rightarrow> (8 word list \<times> VIRTUAL_CONSOLE_DEV) result" where
  "read_bytes 0 k0 key d = Inr ([], d)"
| "read_bytes (Suc n) k0 key d =
     rbind (mp_hal_stdin_rx_chr k0 key d) (\<lambda>(b, d1). rbind (read_bytes n k0 key d1) (\<lambda>(bs, d2). Inr (b # bs, d2)))"

definition hal_byte :: "EFI_KEY_DATA \<Rightarrow> 8 word" where
  "hal_byte k = hal_key (ScanCode k) (UnicodeChar k)"

lemma key_data_of: "key_data (key_args k) = Inr (key_of k)"
  by (cases k) (simp_all add: key_data_def key_of_def opt_int_def ebind_def key_char_def)

lemma hal_byte_of: "hal_byte (key_of k) = prompt_byte k"
proof (cases k)
  case (Typed b)
  have "ucast (scast b :: wchar) = b" by (rule bit_word_eqI) (auto simp: bit_ucast_iff bit_signed_iff)
  then show ?thesis using Typed by (simp add: hal_byte_def key_of_def hal_key_def)
qed (simp_all add: hal_byte_def key_of_def hal_key_def)

lemma press_one:
  assumes "\<not> TxtInLock (console s)" and "mem_ok (console s)"
  shows "\<exists>s'. mod_ets_press_key EFI_SUCCESS (key_args k) s = Inr (Inr (), s')
    \<and> \<not> TxtInLock (console s') \<and> mem_ok (console s') \<and> KeyQueue (console s') = KeyQueue (console s) @ [key_of k]"
  using assms by (auto simp: mod_ets_press_key_def locate_console_def key_data_of InputKey_def EnqueKeyData_def lock_defs pool_reserve_def
      AllocatePool_def mem_ok_def Let_def)

lemma press_all:
  assumes "\<not> TxtInLock (console s)" and "mem_ok (console s)"
  shows "\<exists>s'. press_keys ks s = Inr s' \<and> \<not> TxtInLock (console s') \<and> KeyQueue (console s') = KeyQueue (console s) @ map key_of ks"
  using assms
proof (induction ks arbitrary: s)
  case (Cons k ks)
  obtain s1 where s1: "mod_ets_press_key EFI_SUCCESS (key_args k) s = Inr (Inr (), s1)" "\<not> TxtInLock (console s1)" "mem_ok (console s1)"
      "KeyQueue (console s1) = KeyQueue (console s) @ [key_of k]" using press_one [OF Cons.prems] by blast
  then show ?case using Cons.IH [OF s1(2,3)] by simp
qed simp

lemma read_all_bytes:
  assumes "\<not> TxtInLock d" and "KeyQueue d = q"
  shows "\<exists>d'. read_bytes (length q) k0 key d = Inr (map hal_byte q, d') \<and> KeyQueue d' = []"
  using assms
proof (induction q arbitrary: d)
  case (Cons k q)
  have "mp_hal_stdin_rx_chr k0 key d = Inr (hal_byte k, d\<lparr>KeyQueue := q\<rparr>)"
    using Cons.prems by (simp add: mp_hal_stdin_rx_chr_def ReadKeyStroke_def DequeKeyData_ok hal_byte_def)
  then show ?case using Cons.IH [of "d\<lparr>KeyQueue := q\<rparr>"] Cons.prems(1) by auto
qed simp


text \<open>A single byte above ASCII becomes another character, because a \<open>char\<close> is signed; two bytes are one character, low byte first.\<close>

lemma key_char_examples: "key_char (VStr [0xE9]) = 0xFFE9" "key_char (VStr [97, 98]) = 0x6261" "screen_char 0x0141 = 65"
  by (simp_all add: key_char_def screen_char_def Let_def)

section \<open>Registers\<close>

text \<open>What the processor's protocol documents about registering a handler.\<close>

definition handler_law :: "'m cpu \<Rightarrow> bool" where
  "handler_law c \<longleftrightarrow> (\<forall>inst. RegisterInterruptHandler c inst True = (if inst then EFI_ALREADY_STARTED else EFI_SUCCESS))
     \<and> RegisterInterruptHandler c True False = EFI_SUCCESS"

text \<open>
  Reading a model specific register: the value or, for a register that does not exist, an exception, and the fault handler is removed
  again. If the argument is not a number, the handler stays; then every further access fails, because a handler is
  registered already.
\<close>

theorem msr_handler_balanced:
  assumes "handler_law c" and "mCpu s" and "\<not> gp_handler s"
  shows "mod_ets_rdmsr c v s = (case mp_obj_get_int v of
      Inl x \<Rightarrow> (Inl x, s\<lparr>gp_handler := True\<rparr>)
    | Inr i \<Rightarrow> (case AsmReadMsr64 c (of_int i) (machine s) of
        None \<Rightarrow> (Inl (PyException ''Reserved or unimplemented MSR''), s) | Some w \<Rightarrow> (Inr w, s)))
    \<and> mod_ets_rdmsr c u (s\<lparr>gp_handler := True\<rparr>) = (Inl (EfiStatus EFI_ALREADY_STARTED), s\<lparr>gp_handler := True\<rparr>)"
  using assms by (auto simp: mod_ets_rdmsr_def msr_access_def ets_defs handler_law_def Let_def split: sum.split option.split)

lemma cpuid_ignores_second: "mp_obj_get_int v = Inr i \<Longrightarrow> mod_ets_cpuid c [a, v] m = mod_ets_cpuid c [a] m"
  by (simp add: mod_ets_cpuid_def opt_int_def ebind_def split: sum.split)

lemma number_in_gdtr: "mod_ets_set_reg c ''gdtr'' (VInt i) m = Inr (Inr (AsmWriteDesc c ''gdtr'' (- 1, - 1) m))"
  by (simp add: mod_ets_set_reg_def reg_value_def ebind_def desc_regs_def Let_def)

lemma pair_in_cr0: "mod_ets_set_reg c ''cr0'' (VTuple [VInt i, VInt j]) m = Inr (Inr (AsmWrite c ''cr0'' (- 1) m))"
  by (simp add: mod_ets_set_reg_def reg_value_def ebind_def desc_regs_def word_regs_def Let_def)

lemma port_width: "port_make_new args = Inr w \<Longrightarrow> w \<in> {8, 16, 32}"
  by (auto simp: port_make_new_def mp_obj_new_port_def ebind_def split: if_splits sum.splits)

section \<open>Small instances\<close>

definition small_ets :: "nat ets_state" where
  "small_ets = \<lparr>mVirtualConsole = False, console = sample_dev, mCpu = True, gp_handler = False, machine = 0\<rparr>"

definition small_cpu :: "nat cpu" where
  "small_cpu = \<lparr>LocateCpu = EFI_SUCCESS,
     RegisterInterruptHandler = (\<lambda>inst on. if on then (if inst then EFI_ALREADY_STARTED else EFI_SUCCESS) else if inst then EFI_SUCCESS else EFI_INVALID_PARAMETER),
     AsmReadMsr64 = (\<lambda>i m. if i = 0x10 then Some 77 else None), AsmWriteMsr64 = (\<lambda>i v m. Some m), AsmRead = (\<lambda>r m. 0), AsmWrite = (\<lambda>r v m. m),
     AsmReadDesc = (\<lambda>r m. (0, 0)), AsmWriteDesc = (\<lambda>r v m. m), AsmCpuid = (\<lambda>i m. (1, 0, 0, 0))\<rparr>"

theorem snapshot_shows_output_witness:
  "\<exists>d' t a. OutputString [65, 66] (console small_ets) = Some (Inr (EFI_SUCCESS, d'))
    \<and> mod_ets_get_screen (\<lambda>_. blank_char) EFI_SUCCESS [] (small_ets\<lparr>console := d'\<rparr>)
        = Inr (Inr (Some (t, a)), small_ets\<lparr>console := d', mVirtualConsole := True\<rparr>) \<and> length t = length a"
  using snapshot_shows_output [of 4 2 "[0, 1]" small_ets "[65, 66]" "\<lambda>_. blank_char"] sample_ready sample_modes(1)
  by (auto simp: small_ets_def sample_modes Let_def)


theorem msr_handler_balanced_witness:
  "mod_ets_rdmsr small_cpu (VInt 0x10) small_ets = (Inr 77, small_ets)
    \<and> mod_ets_rdmsr small_cpu VOther small_ets = (Inl PyTypeError, small_ets\<lparr>gp_handler := True\<rparr>)
    \<and> mod_ets_rdmsr small_cpu (VInt 0x10) (small_ets\<lparr>gp_handler := True\<rparr>) = (Inl (EfiStatus EFI_ALREADY_STARTED), small_ets\<lparr>gp_handler := True\<rparr>)"
proof -
  have "handler_law small_cpu" by (simp add: handler_law_def small_cpu_def)
  from msr_handler_balanced [OF this, of small_ets "VInt 0x10" "VInt 0x10"] msr_handler_balanced [OF this, of small_ets VOther "VInt 0x10"]
  show ?thesis by (simp add: small_ets_def small_cpu_def)
qed

end
