(* ===== verification/Mem_Calls.thy ===== *)
theory Mem_Calls
  imports Mem_Object
begin

text \<open>
  The rest of \<open>objuefi.c\<close>: names of types, slices, iterators, comparison, the text of a GUID, and calls of firmware functions
  through function pointers. What the interpreter looks up, the addresses of its strings and buffers and the called
  function are arguments.
\<close>

section \<open>Names\<close>

text \<open>Loading a name, or an attribute of the object found so far (\<open>None\<close> is Python's \<open>None\<close>).\<close>

type_synonym 'o names = "string \<Rightarrow> 'o option mres"
type_synonym 'o attributes = "'o \<Rightarrow> string \<Rightarrow> 'o option mres"

definition fetch_name :: "'o names \<Rightarrow> 'o attributes \<Rightarrow> 'o option \<Rightarrow> string \<Rightarrow> 'o option mres" where
  "fetch_name look attr var n = (case var of None \<Rightarrow> look n | Some v \<Rightarrow> attr v n)"

text \<open>The loop: \<open>name\<close> is what has been copied to the buffer of 256 bytes.\<close>

fun namespace_loop :: "'o names \<Rightarrow> 'o attributes \<Rightarrow> string \<Rightarrow> string \<Rightarrow> 'o option \<Rightarrow> 'o option mres" where
  "namespace_loop look attr [] name var = (if length name < 256 then fetch_name look attr var name else Inr var)"
| "namespace_loop look attr (c # s) name var =
     (if length name \<ge> 256 then Inr var
      else if c \<noteq> CHR ''.'' then namespace_loop look attr s (name @ [c]) var
      else mbind (fetch_name look attr var name) (\<lambda>v. if v = None then Inr None else namespace_loop look attr s [] v))"

definition load_obj_by_namespace :: "'o names \<Rightarrow> 'o attributes \<Rightarrow> string \<Rightarrow> 'o option mres" where
  "load_obj_by_namespace look attr s = namespace_loop look attr s [] None"

text \<open>A name may stand for another name; \<open>None\<close> is a loop that never ends. \<open>obj\<close> is the result so far.\<close>

partial_function (option) resolve_type_by_name :: "(string \<Rightarrow> typedesc mres) \<Rightarrow> string \<Rightarrow> typedesc \<Rightarrow> typedesc mres option" where
  "resolve_type_by_name load_obj s obj =
     (if s = [] \<or> hd s \<noteq> CHR ''#'' then Some (Inr obj)
      else (case load_obj (tl s) of
              Inl e \<Rightarrow> Some (Inl e)
            | Inr t \<Rightarrow> (case t of TStr s' \<Rightarrow> resolve_type_by_name load_obj s' t | _ \<Rightarrow> Some (Inr t))))"

section \<open>Slices\<close>

text \<open>\<open>start\<close> and \<open>stop\<close> are what \<open>mp_seq_get_fast_slice_indexes\<close> returns, less than \<open>2 ^ 31\<close>.\<close>

definition get_slice :: "cast_fun \<Rightarrow> name_space \<Rightarrow> memory \<Rightarrow> mp_obj_mem_t \<Rightarrow> nat \<Rightarrow> nat \<Rightarrow> mp_val mres" where
  "get_slice cast ns m self start stop =
     (let a = attrs self; len = (if mem_len a = 0 then 2 ^ 64 - 1 else mem_len a) in
      if addr a = 0 then Inr (VBool False)
      else if bitnum a > 0 then mbind (get_bits m a) (\<lambda>x. Inr (VInt x))
      else if len > 0 \<and> stop > len then Inl RaiseIndexError
      else mbind (efi_mem_new_n cast ns (addr a + start * typesize a) (nat ((int stop - int start) mod 2 ^ 64)) (typespec a) (readonly a) (page a))
             (\<lambda>x. Inr (VObj x)))"

text \<open>A value that cannot be iterated is stored to each element; the elements of another one are stored in turn.\<close>

fun fill_slice :: "(byte list \<Rightarrow> byte list option) \<Rightarrow> mem_attrs \<Rightarrow> nat \<Rightarrow> nat \<Rightarrow> mp_val \<Rightarrow> memory \<Rightarrow> memory mres" where
  "fill_slice sg a i 0 v m = Inr m"
| "fill_slice sg a i (Suc n) v m = mbind (set_value sg a (Some (int i)) v m) (\<lambda>m'. fill_slice sg a (Suc i) n v m')"

definition set_slice :: "(byte list \<Rightarrow> byte list option) \<Rightarrow> mem_attrs \<Rightarrow> nat \<Rightarrow> nat \<Rightarrow> mp_val list option \<Rightarrow> mp_val \<Rightarrow> memory \<Rightarrow> memory mres" where
  "set_slice sg a start stop items v m =
     (if readonly a then Inl RaiseValueError
      else if bitnum a > 0 then set_bits a v m
      else if mem_len a > 0 \<and> stop > mem_len a then Inl RaiseIndexError
      else (case items of
              None \<Rightarrow> fill_slice sg a start (stop - start) v m
            | Some vs \<Rightarrow> set_items sg a start (stop - start) vs m))"

section \<open>Iterators\<close>

text \<open>
  The iterator is built in a buffer of the interpreter's stack. Its counter is not set: \<open>chance\<close> is what was there. A structure
  is iterated by its field names.
\<close>

datatype mem_iter = Names "string list" | Elements mp_obj_mem_t nat

definition mem_iterator_new :: "nat \<Rightarrow> mp_obj_mem_t \<Rightarrow> mem_iter" where
  "mem_iterator_new chance mem =
     (case union mem of
        Fields fs \<Rightarrow> if typespec (attrs mem) = None \<or> take 1 (the (typespec (attrs mem))) \<noteq> ''F'' then Names (map fst fs) else Elements mem chance
      | _ \<Rightarrow> Elements mem chance)"

definition mem_it_iternext ::
  "cast_fun \<Rightarrow> name_space \<Rightarrow> (byte list \<Rightarrow> byte list option) \<Rightarrow> memory \<Rightarrow> mp_obj_mem_t \<Rightarrow> nat \<Rightarrow> (mp_val mres \<times> nat) option" where
  "mem_it_iternext cast ns gs m mem cur =
     (let a = attrs mem in
      if msize a > 0 \<and> mod64 ((cur + 1) * typesize a) \<le> msize a
      then Some (get_value cast ns gs m mem (Some (int cur)), mod64 (cur + 1))
      else None)"

section \<open>Comparison and references\<close>

text \<open>\<open>buf_addr\<close> is the address of the buffer of a value.\<close>

definition mem_binary_op_equal ::
  "cast_fun \<Rightarrow> name_space \<Rightarrow> (byte list \<Rightarrow> byte list option) \<Rightarrow> (mp_val \<Rightarrow> nat) \<Rightarrow> memory \<Rightarrow> mp_obj_mem_t \<Rightarrow> mp_val \<Rightarrow> bool mres" where
  "mem_binary_op_equal cast ns gs buf_addr m lhs rhs =
     (case rhs of
        VInt i \<Rightarrow>
          mbind (get_value cast ns gs m lhs None) (\<lambda>v.
            (case v of
               VInt j \<Rightarrow> Inr (i = j)
             | VObj x \<Rightarrow> Inr (is_mem v \<and> int (addr (attrs x)) = i mod 2 ^ 64)
             | _ \<Rightarrow> Inr False))
      | _ \<Rightarrow>
          (case get_buffer m rhs of
             None \<Rightarrow> Inr False
           | Some r \<Rightarrow>
               (case mem_get_buffer m False (attrs lhs) of
                  None \<Rightarrow> Inr False
                | Some l \<Rightarrow> Inr (buf_addr (VObj lhs) = buf_addr rhs \<or> l = r))))"

text \<open>\<open>slot\<close> is where the object keeps its address.\<close>

definition efi_mem_addrof :: "cast_fun \<Rightarrow> name_space \<Rightarrow> nat \<Rightarrow> mp_obj_mem_t \<Rightarrow> mp_obj_mem_t mres" where
  "efi_mem_addrof cast ns slot self =
     efi_mem_new cast ns slot (CHR ''P'' # (case typespec (attrs self) of None \<Rightarrow> [] | Some s \<Rightarrow> s)) False (page (attrs self))"

datatype mem_op = Load | Store mp_val | Delete

definition mem_subscr ::
  "cast_fun \<Rightarrow> name_space \<Rightarrow> (byte list \<Rightarrow> byte list option) \<Rightarrow> (byte list \<Rightarrow> byte list option) \<Rightarrow> mem_op \<Rightarrow> int option \<Rightarrow> mp_obj_mem_t \<Rightarrow> memory
    \<Rightarrow> (mp_val option \<times> memory) mres" where
  "mem_subscr cast ns gs sg op i self m =
     (case op of
        Delete \<Rightarrow> Inr (None, m)
      | Load \<Rightarrow> mbind (get_value cast ns gs m self i) (\<lambda>v. Inr (Some v, m))
      | Store v \<Rightarrow> mbind (set_value sg (attrs self) i v m) (\<lambda>m'. Inr (Some VNone, m')))"

section \<open>GUIDs\<close>

definition hex_digit :: "nat \<Rightarrow> char" where
  "hex_digit n = ''0123456789ABCDEF'' ! n"

definition hex2 :: "byte \<Rightarrow> string" where
  "hex2 b = [hex_digit (unat b div 16), hex_digit (unat b mod 16)]"

definition efi_guid_print :: "byte list \<Rightarrow> string" where
  "efi_guid_print c =
     concat (map (\<lambda>i. hex2 (c ! i)) [3, 2, 1, 0]) @ ''-'' @ concat (map (\<lambda>i. hex2 (c ! i)) [5, 4]) @ ''-''
     @ concat (map (\<lambda>i. hex2 (c ! i)) [7, 6]) @ ''-'' @ concat (map (\<lambda>i. hex2 (c ! i)) [8, 9, 10, 11, 12, 13, 14, 15])"

definition efi_guid_make_new :: "(byte list \<Rightarrow> byte list option) \<Rightarrow> (nat \<Rightarrow> nat) \<Rightarrow> byte list \<Rightarrow> memory \<Rightarrow> (mp_obj_mem_t \<times> memory) mres" where
  "efi_guid_make_new sg alloc s m =
     (if length s \<noteq> 36 then Inl RaiseValueError
      else mbind (efi_guid_new alloc None) (\<lambda>g.
        (case sg s of None \<Rightarrow> Inl RaiseValueError | Some bs \<Rightarrow> Inr (g, store_bytes m (addr (attrs g)) bs))))"

section \<open>Function pointers\<close>

definition efi_fptr_make_new :: "cast_fun \<Rightarrow> name_space \<Rightarrow> int \<Rightarrow> string option list option \<Rightarrow> mp_obj_mem_t mres" where
  "efi_fptr_make_new cast ns func args =
     mbind (efi_mem_new cast ns (nat (func mod 2 ^ 64)) ''F'' True False) (\<lambda>f.
       Inr (case args of None \<Rightarrow> f | Some as \<Rightarrow> Mem (attrs f) (Args as)))"

text \<open>
  The addresses of strings and buffers of the interpreter, of a converted string, of the variable for the
  result, and the function that is called.
\<close>

record call_env =
  StrAddr :: "byte list \<Rightarrow> int"
  BufAddr :: "mp_val \<Rightarrow> int option"
  UniAddr :: "byte list \<Rightarrow> int"
  ResultAddr :: nat
  CallFunction :: "int \<Rightarrow> int list \<Rightarrow> memory \<Rightarrow> int \<times> memory"

datatype call_exc = MemExc mem_exc | StatusExc "status_exc option"

type_synonym 'a cres = "call_exc + 'a"

definition lift_mem :: "'a mres \<Rightarrow> 'a cres" where
  "lift_mem r = (case r of Inl e \<Rightarrow> Inl (MemExc e) | Inr v \<Rightarrow> Inr v)"

definition cbind :: "'a cres \<Rightarrow> ('a \<Rightarrow> 'b cres) \<Rightarrow> 'b cres" where
  "cbind r f = (case r of Inl e \<Rightarrow> Inl e | Inr v \<Rightarrow> f v)"

definition invalid_parameter :: call_exc where
  "invalid_parameter = StatusExc (RAISE_UEFI_EXCEPTION_ON_ERROR 0x8000000000000002)"

text \<open>One argument: its value, and the string that was converted for it.\<close>

definition marshal_arg ::
  "call_env \<Rightarrow> cast_fun \<Rightarrow> name_space \<Rightarrow> (byte list \<Rightarrow> byte list option) \<Rightarrow> memory \<Rightarrow> string \<Rightarrow> mp_val \<Rightarrow> (int \<times> byte list list) cres" where
  "marshal_arg env cast ns gs m argtype arg =
     (let c = take 1 argtype in
      if c \<in> {''P'', ''T'', ''F'', ''G'', ''O''} then
        (case arg of
           VObj x \<Rightarrow>
             if \<not> is_mem arg then (case BufAddr env arg of None \<Rightarrow> Inl invalid_parameter | Some p \<Rightarrow> Inr (p, []))
             else if (case typespec (attrs x) of None \<Rightarrow> False | Some s \<Rightarrow> take 1 s \<in> {''P'', ''T'', ''F''})
             then Inr (load m (addr (attrs x)) 8, []) else Inr (int (addr (attrs x)), [])
         | VInt i \<Rightarrow> Inr (i mod 2 ^ 64, [])
         | _ \<Rightarrow> (case BufAddr env arg of None \<Rightarrow> Inl invalid_parameter | Some p \<Rightarrow> Inr (p, [])))
      else if c = ''a'' then
        (case arg of
           VStr s \<Rightarrow> Inr (StrAddr env s, [])
         | VObj x \<Rightarrow> if is_mem arg then Inr (int (addr (attrs x)), []) else Inl invalid_parameter
         | _ \<Rightarrow> Inl invalid_parameter)
      else if c = ''u'' then
        (case arg of
           VStr s \<Rightarrow> (case Utf8ToUnicode True (s @ [0]) None (length s) False of Inl f \<Rightarrow> Inl (MemExc (MemFault f)) | Inr _ \<Rightarrow> Inr (UniAddr env s, [s]))
         | VObj x \<Rightarrow> if is_mem arg then Inr (int (addr (attrs x)), []) else Inl invalid_parameter
         | _ \<Rightarrow> Inl invalid_parameter)
      else
        (case arg of
           VObj x \<Rightarrow>
             if is_mem arg then lift_mem (mbind (get_value cast ns gs m x None) (\<lambda>v. mbind (get_uint64 v) (\<lambda>i. Inr (i, []))))
             else Inl (MemExc RaiseTypeError)
         | _ \<Rightarrow> lift_mem (mbind (get_uint64 arg) (\<lambda>i. Inr (i, [])))))"

text \<open>
  The loop over the arguments. \<open>types\<close> are the types that are left; behind a type \<open>V\<close> every argument must be an object and has
  the type of this object. The array has room for twelve values.
\<close>

fun marshal_args ::
  "call_env \<Rightarrow> cast_fun \<Rightarrow> name_space \<Rightarrow> (byte list \<Rightarrow> byte list option) \<Rightarrow> memory \<Rightarrow> string option list \<Rightarrow> bool \<Rightarrow> mp_val list \<Rightarrow> int list
    \<Rightarrow> byte list list \<Rightarrow> (int list \<times> byte list list) cres" where
  "marshal_args env cast ns gs m types va [] acc unis = Inr (acc, unis)"
| "marshal_args env cast ns gs m types va (arg # args) acc unis =
     (if length acc \<ge> 12 then Inr (acc, unis)
      else cbind (if va then Inr (True, [])
                  else (case types of
                          [] \<Rightarrow> Inl (MemExc (MemFault OutOfBounds))
                        | None # _ \<Rightarrow> Inl (MemExc RaiseTypeError)
                        | Some t # _ \<Rightarrow> Inr (take 1 t \<in> {''V'', ''v''}, t))) (\<lambda>(va', t).
           cbind (if va'
                  then (case arg of
                          VObj x \<Rightarrow> if is_mem arg then (case typespec (attrs x) of None \<Rightarrow> Inl (MemExc (MemFault NullDeref)) | Some s \<Rightarrow> Inr s)
                                     else Inl (MemExc RaiseTypeError)
                        | _ \<Rightarrow> Inl (MemExc RaiseTypeError))
                  else Inr t) (\<lambda>argtype.
           cbind (marshal_arg env cast ns gs m argtype arg) (\<lambda>(v, u).
             marshal_args env cast ns gs m (tl types) va' args (acc @ [v]) (unis @ u)))))"

text \<open>
  The call. The result has the value, the memory, and the converted strings: those that are freed and those that are not (only the last
  pointer is kept). A status is raised after the value has been read.
\<close>

definition efi_fptr_call ::
  "call_env \<Rightarrow> cast_fun \<Rightarrow> name_space \<Rightarrow> (byte list \<Rightarrow> byte list option) \<Rightarrow> mp_obj_mem_t \<Rightarrow> mp_val list \<Rightarrow> memory
    \<Rightarrow> (mp_val \<times> memory \<times> byte list list \<times> byte list list) cres" where
  "efi_fptr_call env cast ns gs self args m =
     (case union self of
        NoUnion \<Rightarrow> Inl (MemExc (MemFault NullDeref))
      | Fields _ \<Rightarrow> Inl (MemExc TypeConfusion)
      | Args items \<Rightarrow>
          if items = [] then Inl (MemExc (MemFault OutOfBounds))
          else if \<not> hasvarg (attrs self) \<and> length args \<noteq> length items - 1 then Inl (MemExc RaiseTypeError)
          else cbind (marshal_args env cast ns gs m (tl items) False args [] []) (\<lambda>(vals, unis).
                 (case CallFunction env (load m (addr (attrs self)) 8) vals m of (r, m1) \<Rightarrow>
                    let freed = drop (length unis - 1) unis; leaked = take (length unis - 1) unis; m2 = store m1 (ResultAddr env) 8 r in
                    (case hd items of
                       None \<Rightarrow> Inr (VNone, m1, freed, leaked)
                     | Some rtype \<Rightarrow>
                         cbind (lift_mem (mbind (efi_mem_new cast ns (ResultAddr env) rtype True False) (\<lambda>x. get_value cast ns gs m2 x None))) (\<lambda>v.
                           if take 1 rtype = ''E'' \<and> RAISE_UEFI_EXCEPTION_ON_ERROR (word_of_int r) \<noteq> None
                           then Inl (StatusExc (RAISE_UEFI_EXCEPTION_ON_ERROR (word_of_int r)))
                           else Inr (v, m2, freed, leaked))))))"

end
