(* ===== verification/Mem_Calls_Thms.thy ===== *)
theory Mem_Calls_Thms
  imports Mem_Calls Mem_Object_Thms
begin

text \<open>Properties of the names, iterators, GUID texts and calls of \<open>objuefi.c\<close>.\<close>

section \<open>Names\<close>

fun split_dots :: "string \<Rightarrow> string list" where
  "split_dots [] = [[]]"
| "split_dots (c # s) = (if c = CHR ''.'' then [] # split_dots s else (c # hd (split_dots s)) # tl (split_dots s))"

fun walk :: "'o names \<Rightarrow> 'o attributes \<Rightarrow> 'o option \<Rightarrow> string list \<Rightarrow> 'o option mres" where
  "walk look attr var [] = Inr var"
| "walk look attr var (n # ns) = mbind (fetch_name look attr var n) (\<lambda>v. if v = None then Inr None else walk look attr v ns)"

lemma split_dots_ne [simp]: "split_dots s \<noteq> []"
  by (cases s) auto

lemma namespace_loop_walks:
  "length (name @ hd (split_dots s)) < 256 \<Longrightarrow> \<forall>n\<in>set (tl (split_dots s)). length n < 256
    \<Longrightarrow> namespace_loop look attr s name var = walk look attr var ((name @ hd (split_dots s)) # tl (split_dots s))"
proof (induction s arbitrary: name var)
  case Nil
  show ?case using Nil by (cases "fetch_name look attr var name") auto
next
  case (Cons c s)
  show ?case
  proof (cases "c = CHR ''.''")
    case True
    have "namespace_loop look attr s [] v = walk look attr v (split_dots s)" for v
      using Cons.IH [of "[]" v] Cons.prems True by (cases "split_dots s") auto
    then show ?thesis using Cons.prems True by (auto intro!: arg_cong2 [where f = mbind])
  next
    case False
    then show ?thesis using Cons.IH [of "name @ [c]" var] Cons.prems by auto
  qed
qed

text \<open>
  A dotted name is looked up component by component, each as an attribute of the object before it, if every component has less than 256
  characters.
\<close>

theorem dotted_name_walks:
  assumes "\<forall>n\<in>set (split_dots s). length n < 256"
  shows "load_obj_by_namespace look attr s = walk look attr None (split_dots s)"
  using namespace_loop_walks [of "[]" s look attr None] assms by (cases "split_dots s") (auto simp: load_obj_by_namespace_def)

text \<open>A longer component ends the search with the object that was found before it.\<close>

lemma long_component: "CHR ''.'' \<notin> set s \<Longrightarrow> length name + length s \<ge> 256 \<Longrightarrow> namespace_loop look attr s name var = Inr var"
  by (induction s arbitrary: name) auto

text \<open>A name that stands for itself is looked up forever.\<close>

lemma alias_loop:
  assumes "load_obj ''a'' = Inr (TStr ''#a'')"
  shows "resolve_type_by_name load_obj ''#a'' obj = None"
proof -
  have "load_obj = load_obj \<longrightarrow> s = ''#a'' \<longrightarrow> False" if r: "resolve_type_by_name load_obj s t = Some r" for s t r
    by (rule resolve_type_by_name.raw_induct [OF _ r, where P = "\<lambda>lo s t r. lo = load_obj \<longrightarrow> s = ''#a'' \<longrightarrow> False"])
      (use assms in \<open>fastforce split: if_splits\<close>)
  then show ?thesis by (cases "resolve_type_by_name load_obj ''#a'' obj") auto
qed

section \<open>Iterating\<close>

text \<open>The elements that a loop gets, with a bound on their number.\<close>

fun iterate ::
  "cast_fun \<Rightarrow> name_space \<Rightarrow> (byte list \<Rightarrow> byte list option) \<Rightarrow> memory \<Rightarrow> mp_obj_mem_t \<Rightarrow> nat \<Rightarrow> nat \<Rightarrow> mp_val mres list option" where
  "iterate cast ns gs m mem 0 cur = None"
| "iterate cast ns gs m mem (Suc fuel) cur =
     (case mem_it_iternext cast ns gs m mem cur of
        None \<Rightarrow> Some []
      | Some (v, cur') \<Rightarrow> map_option ((#) v) (iterate cast ns gs m mem fuel cur'))"

lemma in_range:
  assumes "0 < t" and "s < 2 ^ 64" and "c < 2 ^ 32" and "t < 2 ^ 31"
  shows "mod64 ((c + 1) * t) \<le> s \<longleftrightarrow> c < s div t"
proof -
  have "(c + 1) * t \<le> 2 ^ 32 * 2 ^ 31" using assms by (intro mult_le_mono) auto
  then have "mod64 ((c + 1) * t) = (c + 1) * t" by (simp add: mod64_def)
  moreover have "(c + 1) * t \<le> s \<longleftrightarrow> c + 1 \<le> s div t" using assms(1) by (simp add: less_eq_div_iff_mult_less_eq)
  ultimately show ?thesis by (simp add: Suc_le_eq)
qed

text \<open>
  C27. A loop over a memory object gets the elements from where the counter of the iterator stands to the last one, and ends. The counter is
  not set when the iterator is made, so that the loop starts with any element. The counter and the number of elements are below \<open>2 ^ 32\<close>.
\<close>

theorem iteration_yields_elements:
  assumes "0 < typesize (attrs mem)" and "typesize (attrs mem) < 2 ^ 31" and "0 < msize (attrs mem)" and "msize (attrs mem) < 2 ^ 64"
    and "mem_len (attrs mem) < 2 ^ 32" and "union mem = NoUnion" and "chance < 2 ^ 32" and "mem_len (attrs mem) < fuel"
  shows "\<exists>cur. mem_iterator_new chance mem = Elements mem cur \<and> iterate cast ns gs m mem fuel cur
    = Some (map (\<lambda>i. get_value cast ns gs m mem (Some (int i))) [chance..<mem_len (attrs mem)])"
proof -
  let ?a = "attrs mem" and ?n = "mem_len (attrs mem)" and ?get = "\<lambda>i. get_value cast ns gs m mem (Some (int i))"
  have len: "?n = msize ?a div typesize ?a" using assms(1) by (simp add: mem_len_def)
  have step: "mem_it_iternext cast ns gs m mem cur = (if cur < ?n then Some (?get cur, cur + 1) else None)" if "cur < 2 ^ 32" for cur
    using in_range [OF assms(1,4) that assms(2)] that assms(3) len by (simp add: mem_it_iternext_def Let_def mod64_def)
  have run: "iterate cast ns gs m mem k cur = Some (map ?get [cur..<?n])" if "?n - cur < k" "cur < 2 ^ 32" for k cur
    using that
  proof (induction k arbitrary: cur)
    case (Suc k)
    show ?case
    proof (cases "cur < ?n")
      case True
      then have "iterate cast ns gs m mem k (cur + 1) = Some (map ?get [cur + 1..<?n])" using Suc assms(5) by auto
      then show ?thesis using True step [OF Suc.prems(2)] by (simp add: upt_conv_Cons)
    next
      case False
      then show ?thesis using step [OF Suc.prems(2)] by simp
    qed
  qed simp
  then show ?thesis using assms(6,7,8) by (auto simp: mem_iterator_new_def)
qed

definition four_words :: mp_obj_mem_t where
  "four_words = Mem \<lparr>mtype = mp_type_mem, addr = 100, bitoff = 0, bitnum = 0, readonly = False, hasvarg = False, overrw = False, page = False,
     typespec = Some ''H'', typesize = 2, msize = 8\<rparr> NoUnion"

theorem iteration_yields_elements_witness:
  "\<exists>cur. mem_iterator_new 1 four_words = Elements four_words cur
    \<and> iterate (\<lambda>d x. Inr x) (\<lambda>_. TNone) (\<lambda>_. None) of_nat four_words 5 cur
      = Some (map (\<lambda>i. get_value (\<lambda>d x. Inr x) (\<lambda>_. TNone) (\<lambda>_. None) of_nat four_words (Some (int i))) [1..<4])"
  using iteration_yields_elements [of four_words 1 5 "\<lambda>d x. Inr x" "\<lambda>_. TNone" "\<lambda>_. None" of_nat]
  by (simp add: four_words_def mem_len_def)

section \<open>GUIDs\<close>

definition hex_value :: "char \<Rightarrow> nat" where
  "hex_value c = (if of_char c < (58 :: nat) then of_char c - 48 else of_char c - 55)"

fun hex_bytes :: "string \<Rightarrow> byte list" where
  "hex_bytes (a # b # s) = of_nat (16 * hex_value a + hex_value b) # hex_bytes s"
| "hex_bytes _ = []"

definition guid_of_text :: "string \<Rightarrow> byte list" where
  "guid_of_text s = rev (hex_bytes (take 8 s)) @ rev (hex_bytes (take 4 (drop 9 s))) @ rev (hex_bytes (take 4 (drop 14 s))) @ hex_bytes (drop 19 s)"

lemma hex_value_digit: "n < 16 \<Longrightarrow> hex_value (hex_digit n) = n"
proof -
  have "list_all (\<lambda>n. hex_value (hex_digit n) = n) [0..<16]" by code_simp
  then show "n < 16 \<Longrightarrow> hex_value (hex_digit n) = n" by (simp add: list_all_iff)
qed

lemma hex_bytes_hex2 [simp]: "hex_bytes (hex2 b @ s) = b # hex_bytes s"
proof -
  have "unat b < 2 ^ LENGTH(8)" by (rule unsigned_less)
  then have "hex_value (hex_digit (unat b div 16)) = unat b div 16" "hex_value (hex_digit (unat b mod 16)) = unat b mod 16"
    by (auto intro!: hex_value_digit)
  then show ?thesis by (simp add: hex2_def)
qed

lemma hex2_length [simp]: "length (hex2 b) = 2"
  by (simp add: hex2_def)

lemma hex_bytes_concat: "hex_bytes (concat (map (\<lambda>i. hex2 (f i)) is)) = map f is"
  by (induction "is") simp_all

lemma hex_length: "length (concat (map (\<lambda>i. hex2 (f i)) is)) = 2 * length is"
  by (induction "is") simp_all

text \<open>The text of a GUID determines its sixteen bytes.\<close>

theorem guid_text_round_trip:
  assumes "length c = 16"
  shows "guid_of_text (efi_guid_print c) = c"
proof -
  let ?h = "\<lambda>is. concat (map (\<lambda>i. hex2 (c ! i)) is)"
  have digits16: "[0..<16] = [0, 1, 2, 3, 4, 5, 6, 7, 8, 9, 10, 11, 12, 13, 14, 15 :: nat]" by code_simp
  have "take 8 (efi_guid_print c) = ?h [3, 2, 1, 0]" "take 4 (drop 9 (efi_guid_print c)) = ?h [5, 4]"
      "take 4 (drop 14 (efi_guid_print c)) = ?h [7, 6]" "drop 19 (efi_guid_print c) = ?h [8, 9, 10, 11, 12, 13, 14, 15]"
    unfolding efi_guid_print_def using hex_length [of "\<lambda>i. c ! i"] by (simp_all add: hex2_def)
  then have "guid_of_text (efi_guid_print c) = map ((!) c) ([0..<16])"
    unfolding guid_of_text_def by (simp only: hex_bytes_concat digits16) simp
  then show ?thesis using map_nth [of c] assms by simp
qed

section \<open>Calls\<close>

lemma marshal_numbers:
  "length acc + length is \<le> 12 \<Longrightarrow> length ts = length is \<Longrightarrow> \<forall>t\<in>set ts. take 1 t \<notin> {''P'', ''T'', ''F'', ''G'', ''O'', ''a'', ''u'', ''V'', ''v''} \<Longrightarrow>
    marshal_args env cast ns gs m (map Some ts) False (map VInt is) acc unis = Inr (acc @ map (\<lambda>i. i mod 2 ^ 64) is, unis)"
proof (induction "is" arbitrary: ts acc)
  case (Cons i "is")
  obtain t ts' where ts: "ts = t # ts'" using Cons.prems(2) by (cases ts) auto
  have "marshal_arg env cast ns gs m t (VInt i) = Inr (i mod 2 ^ 64, [])"
    using Cons.prems(3) ts by (auto simp: marshal_arg_def Let_def get_uint64_def lift_mem_def)
  then show ?case using Cons.IH [of "acc @ [i mod 2 ^ 64]" ts'] Cons.prems ts by (auto simp: cbind_def)
qed simp

text \<open>
  A function that takes numbers is called with these numbers, in order and reduced to 64 bits, if as many are given as the prototype
  has; a function that returns nothing gives \<open>None\<close>, and what it does to memory stays.
\<close>

theorem call_passes_numbers:
  assumes "union self = Args (None # map Some ts)" and "\<not> hasvarg (attrs self)" and "length ts = length is" and "length is \<le> 10"
    and "\<forall>t\<in>set ts. take 1 t \<notin> {''P'', ''T'', ''F'', ''G'', ''O'', ''a'', ''u'', ''V'', ''v''}"
  shows "efi_fptr_call env cast ns gs self (map VInt is) m
    = Inr (VNone, snd (CallFunction env (load m (addr (attrs self)) 8) (map (\<lambda>i. i mod 2 ^ 64) is) m), [], [])"
  using marshal_numbers [of "[]" "is" ts env cast ns gs m "[]"] assms
  by (simp add: efi_fptr_call_def cbind_def Let_def split: prod.split)

text \<open>More than twelve arguments are not passed on; of several converted strings only the last is freed.\<close>

lemma marshal_bounded: "marshal_args env cast ns gs m types va args acc unis = Inr (vals, us) \<Longrightarrow> length acc \<le> 12 \<Longrightarrow> length vals \<le> 12"
proof (induction args arbitrary: types va acc unis)
  case (Cons arg args)
  show ?case
  proof (cases "length acc \<ge> 12")
    case True
    then show ?thesis using Cons.prems by auto
  next
    case False
    then show ?thesis using Cons.prems Cons.IH
      by (auto simp: cbind_def split: sum.splits prod.splits if_splits)
  qed
qed auto

end
