(* ===== verification/Spec2Isabelle.thy ===== *)
theory Spec2Isabelle
  imports Virtual_Console_Thms Fd_File_Thms Efi_Direct_Thms Sfs_Names_Thms Mem_Object_Thms Repl_Console Time_Thms Os_Module_Thms
    Engine_States Lexer_File_Thms Upy_App_Thms Ets_Thms Mem_Calls_Thms
begin

text \<open>
  A verification development for the UEFI port of MicroPython with LVGL.

  \<^bold>\<open>The program.\<close> The repository builds UEFI drivers and an application that run Python scripts
  before an operating system is loaded. Its own code (the interpreter, LVGL and Oniguruma are
  vendored) consists of a console driver (\<open>VirtualConsoleDxe\<close>), the port layer of the
  interpreter (\<open>MicroPythonDxe/Uefi\<close>: string conversion, standard streams, descriptors, paths,
  file objects, drive naming, typed memory objects, modules), two small device drivers for
  LVGL (\<open>Drivers/efidirect\<close>) and the shell application (\<open>MicroPythonApp\<close>). A script's
  \<open>print\<close> goes through a file object (\<open>file.c\<close>), the standard stream it resolves to
  (\<open>usf.c\<close>), the conversion to 16-bit characters (\<open>misc.c\<close>) to the text output protocol,
  which the virtual console implements; its keys come back through the key queue of the same
  driver; opening a file goes through paths, volumes and the descriptor table. The application cuts its command line into
  arguments, loads a script and hands it to the script engine protocol of the driver (\<open>use.c\<close>), which runs it at once or
  from timer events, on a stack of its own.

  \<^bold>\<open>The theories.\<close>
  \<^item> \<open>Efi_Prelude\<close>: status codes, faults and the result type, integer casts, bounded loops that
    can fault, the pool with the locale \<open>block_pool\<close> and its interpretation.
  \<^item> \<open>Console_Dev\<close>, \<open>Con_Out\<close>, \<open>Con_In\<close>, \<open>Virtual_Console\<close>: the device record
    \<open>VIRTUAL_CONSOLE_DEV\<close> of \<open>VirtualConsole.h\<close> and every function of \<open>VirtualConOut.c\<close>,
    \<open>VirtualConIn.c\<close> and \<open>VirtualConsole.c\<close>. Screen rows are blocks of the pool and the screen
    and the history hold their addresses, so that the aliasing between the two is visible.
    \<open>OutputString\<close> calls itself at the right edge and its loop need not end; it is a
    \<open>partial_function\<close> in which \<open>None\<close> is divergence. \<open>vc_reach\<close> is the relation of states
    reached by sequences of protocol calls.
  \<^item> \<open>Con_Out_Props\<close>: a reference terminal that writes one character at a time, and the
    simulation of \<open>OutputString\<close> by it; \<open>Con_Out_Ops\<close>: clearing, switching modes, reading the
    screen back; \<open>Con_Out_Thms\<close>, \<open>Con_In_Thms\<close> (locale \<open>event_queue\<close>), \<open>Virtual_Console_Thms\<close>
    (the driver invariant \<open>vc_inv\<close>, preserved by every call): the properties.
  \<^item> \<open>Misc_Strings\<close>: \<open>misc.c\<close>, the UTF-8 and UTF-16 conversions, line ends, searches;
    \<open>Misc_Strings_Thms\<close> (locale \<open>string_codec\<close>).
  \<^item> \<open>Usf_Files\<close>, \<open>Usf_Paths\<close>: \<open>usf.c\<close>, the standard streams, the descriptor table, path
    normalisation, opening volumes and files; \<open>Usf_Files_Thms\<close> (locales \<open>text_output\<close>,
    interpreted by the virtual console, and \<open>fd_table\<close>, interpreted by the descriptor table),
    \<open>Usf_Paths_Thms\<close>.
  \<^item> \<open>Fd_File\<close>: \<open>file.c\<close>, the file objects, on top of the two theories before, with \<open>seek\<close> and
    \<open>tell\<close> of the stream layer; \<open>Fd_File_Thms\<close>.
  \<^item> \<open>Efi_Direct\<close>: \<open>EfiInput.c\<close>, \<open>EfiMonitor.c\<close>, \<open>modEfiDirect.c\<close>; \<open>Efi_Direct_Thms\<close>.
  \<^item> \<open>Sfs_Mapping\<close>: \<open>sfsmapping.c\<close>, the names of drives. \<open>Sfs_Mapping_Thms\<close>: the locale \<open>three_way\<close> of
    comparison functions, interpreted by the three comparisons of the file, and the texts that
    numbers and strings leave in a name; \<open>Sfs_Names_Thms\<close>: the locale \<open>dev_path_order\<close>, the table of
    controllers and the names.
  \<^item> \<open>Mem_Object\<close>: \<open>objuefi.c\<close>, typed views on memory; \<open>Mem_Object_Thms\<close> (locale \<open>raw_memory\<close>,
    interpreted by little-endian loads and stores); \<open>Mem_Calls\<close>: names of types, slices, iterators, and calls of firmware functions;
    \<open>Mem_Calls_Thms\<close>.
  \<^item> \<open>Repl\<close>: \<open>repl.c\<close>, the line editor of the prompt with its ring of remembered lines, and the functions of
    \<open>vstr.c\<close> and \<open>uefi_mphal.c\<close> it edits and draws with; \<open>Repl_Thms\<close>: a reference editor and a row of the screen;
    \<open>Repl_Console\<close>: the calls of \<open>uefi_mphal.c\<close> on the virtual console and the row of the prompt on it.
  \<^item> \<open>Time_Module\<close>: \<open>modtime.c\<close> and the calendar of \<open>timeutils.c\<close>; \<open>Time_Thms\<close>.
  \<^item> \<open>Os_Module\<close>: \<open>modos.c\<close>, the calls of Python's \<open>os\<close> module on files and directories, running images and
    random numbers; \<open>Os_Module_Thms\<close>.
  \<^item> \<open>Script_Engine\<close>: \<open>use.c\<close>, the script engine protocol. The interpreter runs a source until it suspends itself or ends; a
    saved context is what is left of the script, with the stack it lives on. \<open>Script_Engine_Thms\<close>: runs, the times a script sleeps,
    arguments; \<open>Engine_States\<close>: the states reached by sequences of requests (\<open>reaches\<close>) and their invariant.
  \<^item> \<open>Lexer_File\<close>: \<open>lexerfp.c\<close>, the reader of script files, and the search for modules; \<open>Lexer_File_Thms\<close>.
  \<^item> \<open>Upy_App\<close>: \<open>MicroPythonApp/MicroPython.c\<close>, the shell application, and \<open>main.c\<close>; \<open>Upy_App_Thms\<close> (locale
    \<open>script_runner\<close>, interpreted by the synchronous and the asynchronous request of the engine).
  \<^item> \<open>Ets_Module\<close>: \<open>modets.c\<close>, keys, screen and registers for test scripts, the ports of \<open>modmachine.c\<close> and the key input of
    \<open>uefi_mphal.c\<close>; \<open>Ets_Thms\<close>.
  \<^item> This theory: the property that joins \<open>sfsmapping.c\<close> and \<open>usf.c\<close>.

  \<^bold>\<open>Correspondence.\<close> Definitions carry the names of the C functions. A loop or a block of a
  function that is a definition of its own (\<open>print_run\<close>, \<open>switch_mode\<close>, \<open>utf8_loop\<close>,
  \<open>relative_path\<close>, \<open>map_opened\<close>) is named after what it does. State is passed explicitly; a
  status is the value \<open>efi_status\<close>; a failed \<open>ASSERT\<close>, an access outside a buffer, a second free
  and a null dereference are values of \<open>fault\<close>; Python exceptions are values of \<open>py_exc\<close>.
  Strings and buffers are lists, with every access checked against their length. \<open>INT32\<close>,
  \<open>UINTN\<close> and \<open>lv_coord_t\<close> casts are written out as \<open>int32\<close>, \<open>uintn\<close> and \<open>int16\<close>; bytes,
  characters, attributes and file positions are words.

  \<^bold>\<open>Parameters.\<close> Boot services, the platform's console, pointer, graphics and file system
  drivers, the shell and \<open>FileHandleLib\<close> are arguments of the definitions that use them
  (\<open>vc_firmware\<close>, \<open>usf_firmware\<close>, \<open>file_handle_lib\<close>, \<open>os_lib\<close>, \<open>image_services\<close>, \<open>random_source\<close>, \<open>gop_firmware\<close>,
  \<open>sfs_env\<close>, \<open>engine_env\<close>, \<open>app_lib\<close>, \<open>app_env\<close>, \<open>cpu\<close>, \<open>port_io\<close>, \<open>call_env\<close>), as are the clock, the interpreter (\<open>interp\<close>), reading files (\<open>file_reader\<close>), the timers that
  expire while the application waits, the interpreter's answers to the prompt (\<open>repl_env\<close>), the comparison
  and the sorting function of \<open>SortLib\<close> and the interpreter's name space. \<open>usf.c\<close> sees drive names
  as a parameter, which \<open>drive_name_leads_back\<close> instantiates by \<open>GetConsistMappingName\<close>. Calls whose
  order matters are recorded as events.

  \<^bold>\<open>What is shown.\<close>
  \<^item> The console: \<open>OutputString\<close> refines the reference terminal and returns, for every string, in
    every mode of at least two columns; what was written is what \<open>GetScreen\<close> returns; every state
    reached by calls that do not switch modes under a history satisfies the invariant and the
    next call does not fault; keys are a queue under every interleaving; modes, attributes,
    cursor, notifications and the entry point behave as stated on every branch.
  \<^item> Strings, streams, descriptors, paths: the conversions are inverse on all 16-bit strings; the
    line ends and the search are exact; standard output shows the text on the console; standard
    input is a line editor that stays within its buffer; descriptors are handed out smallest
    first and are distinct; paths are put together with single separators within their buffers;
    a file's volume is closed on every outcome.
  \<^item> File objects: opening and closing restore the table, closed objects are inert, mode strings
    mean what they say, seeking moves as documented.
  \<^item> Drive names, for drives whose device paths have plain nodes (no vendor, MAC, IP, InfiniBand or 1394 nodes, whose identifiers are not
    printed; a USB stack that answers; numbers below \<open>2 ^ 63\<close>; memory for the name; \<open>nameable\<close>): every such drive has one, it spells out medium, controller and numbers, two drives share
    it exactly if these agree, it does not depend on the order of the firmware's handles, and
    looking it up leads back to the drive, if no other drive has the same controller, medium and numbers.
  \<^item> Typed memory: integers and bit fields are read back as they were stored and nothing else
    changes, the fields of a structure do not overlap, casting returns for types without cycles, dotted names
    are looked up part by part, a loop gets the elements in order, a call passes its arguments, the text of a GUID determines it.
  \<^item> The prompt: for every sequence of editing keys on whose way the line fits in the row, line and cursor are those of a reference editor and the row of the virtual
    console shows them; and the keys for the history bring back the last remembered lines in order.
  \<^item> Time: seconds and dates agree with counting days one by one, the two ways to get the local time agree, tuples are
    normalised, tick differences survive the wrap-around.
  \<^item> The os module: removing a directory returns on every file system with finite trees and bounded directories, whose enumerations can be restarted, and works
    from the inside out; calls release every handle they open, but for a \<open>stat\<close> without memory for its result; a listing has every entry in order.
  \<^item> The script engine: asynchronous scripts come back after the times they ask for and run to their end, synchronous ones return their
    status, and everything they use is given back; every sequence of requests that keep the rules (\<open>allowed\<close>: short arguments and paths, terminated sources, enough memory, an
    initialisation that succeeds, no second run before the first timer signal) keeps the invariant and does not fault; arguments arrive as they are or fail as stated. The reader delivers the bytes of a file in order.
  \<^item> The application: its command line is read as by a tokenizer in one pass, up to the allocation that fails first, if any; quoted arguments come back, \<open>upy file arguments\<close> runs the
    text of the file with its arguments, and a script waits for the one before it.
  \<^item> Test scripts: a snapshot is what was printed, pressed keys are read behind the pending ones, in order, as the bytes of the prompt.
  \<^item> LVGL drivers: the pointer is a clamped walk, a flush draws the area on every device.
  \<^item> Defects are proved as such: the history shows the current top row and is freed twice;
    output diverges in one column; a foreign text mode reads behind a table; a zero byte before
    a line feed overruns a buffer; volumes, descriptors and handles leak; \<open>tell\<close> is always zero;
    a device without an axis divides by zero; hardware addresses are missing from drive names; a
    bit field behind a full unit is misplaced; a type that contains itself exhausts the stack; a
    block at the prompt is remembered from behind its end; ticks start again every minute; a directory that cannot
    be deleted is released twice; few random bytes overrun their buffer; a renamed file gets the length of its old name; a
    run before the first signal of another one enters the engine through an empty context; long arguments overrun a buffer; looking for
    a module leaves it open; a script file that grows overruns its buffer; a wrong argument leaves a fault handler behind; a
    loop over memory starts anywhere; a \<open>stat\<close> without memory leaves its file open; a line that wraps at the prompt cannot be reached by the cursor; a name that stands for itself is looked up forever.

  \<^bold>\<open>Termination.\<close> All definitions but \<open>OutputString_run\<close>, \<open>run_engine\<close> and \<open>resolve_type_by_name\<close> are total; their loops have measures on
  the data they consume. That \<open>OutputString\<close> returns is part of its refinement theorem, and that
  it does not return for a wide character in one column is a theorem too. \<open>SysStdInRead\<close> waits
  for keys: it is \<open>None\<close> exactly when the events end before the line does. \<open>efi_mem_typecast\<close> recurses
  through type names; its depth is bounded by fuel, and \<open>acyclic_types_return\<close> shows which depth is
  enough. The names of drives are made with a budget of memory requests; a name needs at most one
  for each of its characters and four more (\<open>nameable\<close>). \<open>remove_dir\<close> and the loop of \<open>listdir\<close> run as long as the file
  system delivers entries; \<open>(D + 1) * (N + 2)\<close> for a tree of depth \<open>D\<close> whose directories have at most \<open>N\<close> entries, and one more than the number of entries,
  are enough fuel.
  \<open>run_engine\<close> is \<open>None\<close> for a script that never leaves its stack; that scripts which end (\<open>yields\<close>, \<open>refuses\<close>) come back is part of the theorems
  about them. The waiting loop of the application is \<open>None\<close> when the schedule of timer signals is used up first; \<open>scripts_take_turns\<close> gives the
  schedules that are enough.

  \<^bold>\<open>Not modelled.\<close> \<open>moduefi.c\<close> and \<open>modre.c\<close> are tables of bindings that forward to the firmware or to the regular expression library; \<open>onigurumaglue.c\<close>, \<open>string.c\<close> and \<open>gccollect.c\<close> are C library functions and a scan of the stack. \<open>uname\<close> and
  the printing of a stat result in \<open>modos.c\<close> only format text. Vendored code
  (the interpreter, LVGL, Oniguruma, generated bindings) is left out, except for the few
  functions of the interpreter's stream and string layer that the port's behaviour is defined by.
\<close>

section \<open>Drives by name\<close>

lemma by_name_loop_finds:
  assumes "\<forall>h'\<in>set hs. \<exists>dp. DevicePathFromHandle fw h' = Some dp" and "h \<in> set hs"
    and "\<forall>h'\<in>set hs. \<forall>dp. DevicePathFromHandle fw h' = Some dp \<longrightarrow> (ConsistMappingName fw dp = Some s \<longleftrightarrow> h' = h)"
  shows "by_name_loop fw s hs = Inr (Some h)"
  using assms
proof (induction hs)
  case (Cons h' hs)
  obtain dp where "DevicePathFromHandle fw h' = Some dp" using Cons.prems(1) by auto
  then show ?case using Cons by (auto simp: mapping_name_def)
qed simp

text \<open>
  C21. Names lead back to drives: with the names that \<open>sfsmapping.c\<close> makes, looking up the name of a drive
  among the file systems (\<open>GetHandleFromMapName\<close> of \<open>usf.c\<close>) finds this drive and no other, if every file system is on a drive that
  can be named (\<open>nameable\<close>: plain nodes, a USB stack that answers, memory) and no other drive has the same controller, medium and numbers. Two
  network drives that differ in their MAC address alone, for example, share a name.
\<close>

theorem drive_name_leads_back:
  fixes fw :: "('h, dev_path, 'r) usf_firmware"
  assumes "dev_path_order cmp" and "length tab < 2 ^ 31"
    and "ConsistMappingName fw = GetConsistMappingName cmp env budget tab" and "FsHandles fw = (EFI_SUCCESS, hs)"
    and "\<forall>h'\<in>set hs. \<exists>dq. DevicePathFromHandle fw h' = Some dq \<and> nameable env budget dq
       \<and> (cmp (GetHIDevicePath dp) (GetHIDevicePath dq) = 0 \<and> path_mtd env dp = path_mtd env dq \<and> path_nums dp = path_nums dq
          \<longleftrightarrow> h' = h)"
    and "h \<in> set hs" and "DevicePathFromHandle fw h = Some dp" and "ConsistMappingName fw dp = Some s"
  shows "GetHandleFromMapName fw (Some s) = Inr (Some h)"
proof -
  have ok: "nameable env budget dp" using assms(5,6,7) by fastforce
  have name: "GetConsistMappingName cmp env budget tab dp = Some s" using assms(3,8) by simp
  have "ConsistMappingName fw dq = Some s \<longleftrightarrow> h' = h" if "h' \<in> set hs" "DevicePathFromHandle fw h' = Some dq" for h' dq
    using name_eq_iff [OF assms(1) ok _ assms(2) name, of dq] assms(3,5) that by fastforce
  then have "by_name_loop fw s hs = Inr (Some h)"
    using assms(5,6) by (intro by_name_loop_finds) blast+
  then show ?thesis by (simp add: GetHandleFromMapName_def assms(4))
qed

definition two_drives :: "(nat, dev_path, nat) usf_firmware" where
  "two_drives = \<lparr>Shell = None, FsHandles = (EFI_SUCCESS, [5, 6]),
     DevicePathFromHandle = (\<lambda>h. if h = 5 then Some (sata_disk 2 7) else Some (sata_disk 3 7)),
     ConsistMappingName = GetConsistMappingName path_cmp env0 100 [take 2 (sata_disk 2 0)],
     HandleProtocol = (\<lambda>_. EFI_SUCCESS), OpenVolume = (\<lambda>h. (EFI_SUCCESS, h)), VolumeLabel = (\<lambda>_. (EFI_SUCCESS, [])),
     VolOpen = (\<lambda>_ _ _ _. (EFI_NOT_FOUND, None)), RootFile = FsHandle\<rparr>"

theorem drive_name_leads_back_witness:
  "GetHandleFromMapName two_drives (Some (drive_name env0 0 (sata_disk 3 7))) = Inr (Some 6)"
proof (rule drive_name_leads_back [OF path_bytes.dev_path_order_axioms, where hs = "[5, 6]" and env = env0 and budget = 100
      and dp = "sata_disk 3 7" and tab = "[take 2 (sata_disk 2 0)]"])
  show "ConsistMappingName two_drives (sata_disk 3 7) = Some (drive_name env0 0 (sata_disk 3 7))"
    using name_text [OF sata_disk_nameable(2) sata_disk_index] by (simp add: two_drives_def)
qed (simp_all add: two_drives_def sata_disk_nameable sata_disk_nums sata_disk_mtd sata_disk_hi sata_disk_same_hi)

end
